(* ===== verification/Prelude.thy ===== *)
theory Prelude
  imports Main "HOL-Library.Word"
begin

text \<open>
  Shared vocabulary of the development: the machine integers of the Rust sources as fixed-width
  words, the saturating and checked arithmetic of the standard library, the linear scans
  (\<^verbatim>\<open>iter().position\<close>, \<^verbatim>\<open>iter().find\<close>) over vectors, the result type of fallible functions,
  and three interfaces that several components implement: an arena of records addressed by an
  identifier, a machine with absorbing states, and a chain of items linked by a hash.
\<close>

unbundle bit_operations_syntax

section \<open>Machine integers\<close>

type_synonym u8 = "8 word"
type_synonym u16 = "16 word"
type_synonym u32 = "32 word"
type_synonym u64 = "64 word"
type_synonym u128 = "128 word"
type_synonym bytes = "8 word list"

text \<open>
  Vectors and slices have lengths of type \<^verbatim>\<open>usize\<close> (64 bits) and never hold more than
  \<^verbatim>\<open>isize::MAX\<close> bytes. Offsets are natural numbers; the bound is written where the source
  computes with a checked addition.
\<close>

definition usize_max :: nat where
  "usize_max = 2 ^ 64 - 1"

definition isize_max :: nat where
  "isize_max = 2 ^ 63 - 1"

definition checked_add_usize :: "nat \<Rightarrow> nat \<Rightarrow> nat option" where
  "checked_add_usize a b = (if a + b \<le> usize_max then Some (a + b) else None)"

definition saturating_add :: "'a::len word \<Rightarrow> 'a word \<Rightarrow> 'a word" where
  "saturating_add a b = (if unat a + unat b < 2 ^ LENGTH('a) then a + b else - 1)"

named_theorems rust_arith
named_theorems model_defs
named_theorems kernel_frame

lemma unat_less_pow [rust_arith]: "unat (a :: 'a::len word) < 2 ^ LENGTH('a)"
  by transfer (simp add: take_bit_nonnegative nat_less_iff)

lemma unat_le_max: "unat (a :: 'a::len word) \<le> 2 ^ LENGTH('a) - 1"
  using unat_less_pow [of a] by linarith

lemma unat_max_word [rust_arith]: "unat (- 1 :: 'a::len word) = 2 ^ LENGTH('a) - 1"
  by transfer (simp add: take_bit_minus_one_eq_mask mask_eq_exp_minus_1 nat_diff_distrib nat_power_eq)

lemma unat_saturating_add [rust_arith]:
  fixes a b :: "'a::len word"
  shows "unat (saturating_add a b) = min (unat a + unat b) (2 ^ LENGTH('a) - 1)"
proof (cases "unat a + unat b < 2 ^ LENGTH('a)")
  case True
  then have "unat (a + b) = unat a + unat b"
    by (simp add: unat_word_ariths)
  with True show ?thesis
    by (simp add: saturating_add_def)
next
  case False
  then show ?thesis
    by (simp add: saturating_add_def unat_max_word)
qed

text \<open>The wrapped sum is below an operand exactly when it wrapped: the form evaluation uses.\<close>

lemma saturating_add_code [code]:
  fixes a b :: "'a::len word"
  shows "saturating_add a b = (let s = a + b in if s < a then - 1 else s)"
proof (cases "unat a + unat b < 2 ^ LENGTH('a)")
  case True
  then have "unat (a + b) = unat a + unat b" by (simp add: unat_word_ariths)
  then show ?thesis using True by (simp add: saturating_add_def Let_def word_less_nat_alt)
next
  case False
  have less: "unat a + unat b - 2 ^ LENGTH('a) < unat a"
    using False unat_less_pow [of b] by linarith
  then have "(unat a + unat b - 2 ^ LENGTH('a)) mod 2 ^ LENGTH('a) = unat a + unat b - 2 ^ LENGTH('a)"
    using unat_less_pow [of a] by (intro mod_less) linarith
  then have "unat (a + b) = unat a + unat b - 2 ^ LENGTH('a)"
    using False by (simp add: unat_word_ariths le_mod_geq)
  with less False show ?thesis by (simp add: saturating_add_def Let_def word_less_nat_alt)
qed

lemma le_saturating_add [simp]: "a \<le> saturating_add a b"
  using unat_le_max [of a]
  by (simp add: word_le_nat_alt unat_saturating_add)

lemma saturating_add_max [simp]: "saturating_add (- 1) b = (- 1 :: 'a::len word)"
  by (simp add: word_unat_eq_iff unat_saturating_add unat_max_word)

lemma saturating_add_0 [simp]: "saturating_add a 0 = a"
  by (simp add: saturating_add_def)

lemma unat_less_max: "a \<noteq> - 1 \<Longrightarrow> unat (a :: 'a::len word) < 2 ^ LENGTH('a) - 1"
  using unat_le_max [of a] by (simp add: word_unat_eq_iff unat_max_word)

lemma saturating_add_1_less: "a \<noteq> - 1 \<Longrightarrow> a < saturating_add a (1 :: 'a::len word)"
  using unat_less_max [of a]
  by (simp add: word_less_nat_alt unat_saturating_add)

lemma saturating_add_mono: "a \<le> b \<Longrightarrow> saturating_add a c \<le> saturating_add b c"
  by (simp add: word_le_nat_alt unat_saturating_add min_le_iff_disj)


section \<open>Linear scans over vectors\<close>

text \<open>\<^verbatim>\<open>iter().position(p)\<close>: the index of the first element satisfying \<open>p\<close>.\<close>

fun position :: "('a \<Rightarrow> bool) \<Rightarrow> 'a list \<Rightarrow> nat option" where
  "position p [] = None"
| "position p (x # xs) = (if p x then Some 0 else map_option Suc (position p xs))"

lemma position_NoneD: "position p xs = None \<Longrightarrow> x \<in> set xs \<Longrightarrow> \<not> p x"
  by (induction xs) (auto split: if_splits)

lemma position_None_iff: "position p xs = None \<longleftrightarrow> (\<forall>x\<in>set xs. \<not> p x)"
  by (induction xs) auto

lemma position_SomeD:
  "position p xs = Some i \<Longrightarrow> i < length xs \<and> p (xs ! i) \<and> (\<forall>j<i. \<not> p (xs ! j))"
  by (induction xs arbitrary: i) (auto split: if_splits simp: nth_Cons' less_Suc_eq_0_disj)

lemma position_takeWhile:
  "position P s = (if \<exists>x\<in>set s. P x then Some (length (takeWhile (\<lambda>x. \<not> P x) s)) else None)"
  by (induction s) auto

lemma position_Some_iff:
  "position p xs = Some i \<longleftrightarrow> i < length xs \<and> p (xs ! i) \<and> (\<forall>j<i. \<not> p (xs ! j))"
proof
  assume i: "i < length xs \<and> p (xs ! i) \<and> (\<forall>j<i. \<not> p (xs ! j))"
  then obtain j where j: "position p xs = Some j"
    by (cases "position p xs") (auto simp: position_None_iff)
  with i have "j = i"
    using position_SomeD [OF j] by (metis linorder_neqE_nat)
  with j show "position p xs = Some i" by simp
qed (rule position_SomeD)

lemma find_position: "find p xs = map_option (nth xs) (position p xs)"
  by (induction xs) (auto simp: option.map_comp comp_def)

lemma position_append:
  "position p (xs @ ys) =
     (case position p xs of Some i \<Rightarrow> Some i
      | None \<Rightarrow> map_option (\<lambda>i. length xs + i) (position p ys))"
  by (induction xs) (auto simp: map_option_case split: option.splits)

lemma find_append:
  "find p (xs @ ys) = (case find p xs of Some x \<Rightarrow> Some x | None \<Rightarrow> find p ys)"
  by (induction xs) auto

text \<open>Overwriting one entry by another that answers the same question leaves every scan alone.\<close>

lemma position_list_update:
  "p (xs ! i) = p y \<Longrightarrow> position p (xs[i := y]) = position p xs"
proof (induction xs arbitrary: i)
  case (Cons x xs)
  then show ?case by (cases i) auto
qed simp

lemma position_map: "(\<And>x. p (f x) = p x) \<Longrightarrow> position p (map f xs) = position p xs"
  by (induction xs) auto

section \<open>Results of fallible functions\<close>

text \<open>
  \<^verbatim>\<open>Result<T, E>\<close> is the sum \<open>'e + 't\<close> with \<open>Inl\<close> for the error. \<open>ok_or\<close> is the conversion
  from an option, \<open>and_then\<close> what the question mark operator does: stop at the first error.
\<close>

definition ok_or :: "'a option \<Rightarrow> 'e \<Rightarrow> 'e + 'a" where
  "ok_or x e = (case x of None \<Rightarrow> Inl e | Some v \<Rightarrow> Inr v)"

definition and_then :: "'e + 'a \<Rightarrow> ('a \<Rightarrow> 'e + 'b) \<Rightarrow> 'e + 'b" where
  "and_then r f = (case r of Inl e \<Rightarrow> Inl e | Inr v \<Rightarrow> f v)"

lemma ok_or_simps [simp]:
  "ok_or None e = Inl e"
  "ok_or (Some v) e = Inr v"
  by (simp_all add: ok_or_def)

lemma and_then_simps [simp]:
  "and_then (Inl e) f = Inl e"
  "and_then (Inr v) f = f v"
  by (simp_all add: and_then_def)

lemma ok_or_Inr_iff [simp]: "ok_or x e = Inr v \<longleftrightarrow> x = Some v"
  by (cases x) simp_all

lemma and_then_Inr_iff: "and_then r f = Inr w \<longleftrightarrow> (\<exists>v. r = Inr v \<and> f v = Inr w)"
  by (cases r) simp_all

section \<open>Interface: an arena of records addressed by identifier\<close>

text \<open>
  The kernel keeps tasks, jobs and approvals in vectors of records and finds a record by a
  linear scan for its identifier. The laws: storing the vector stores it, and both lookups are
  scans. What a client needs follows once for all three arenas: what a lookup returns after a
  record was overwritten in place or a new one was appended, and that identifiers stay distinct.
\<close>

locale arena =
  fixes ident :: "'e \<Rightarrow> 'k"
    and entries :: "'s \<Rightarrow> 'e list"
    and set_entries :: "'e list \<Rightarrow> 's \<Rightarrow> 's"
    and index :: "'s \<Rightarrow> 'k \<Rightarrow> nat option"
    and lookup :: "'s \<Rightarrow> 'k \<Rightarrow> 'e option"
  assumes entries_set: "entries (set_entries es s) = es"
    and index_scan: "index s k = position (\<lambda>e. ident e = k) (entries s)"
    and lookup_scan: "lookup s k = find (\<lambda>e. ident e = k) (entries s)"
begin

lemma index_SomeD:
  "index s k = Some i \<Longrightarrow> i < length (entries s) \<and> ident (entries s ! i) = k"
  by (auto simp: index_scan dest: position_SomeD)

lemma index_mem: "index s k = Some i \<Longrightarrow> entries s ! i \<in> set (entries s)"
  by (auto dest: index_SomeD)

lemma index_None_iff: "index s k = None \<longleftrightarrow> k \<notin> ident ` set (entries s)"
  by (auto simp: index_scan position_None_iff)

lemma lookup_index: "lookup s k = map_option (nth (entries s)) (index s k)"
  by (simp add: lookup_scan index_scan find_position)

lemma lookup_None_iff: "lookup s k = None \<longleftrightarrow> index s k = None"
  by (simp add: lookup_index)

lemma lookup_SomeD: "lookup s k = Some e \<Longrightarrow> e \<in> set (entries s) \<and> ident e = k"
  by (auto simp: lookup_index dest: index_SomeD)

lemma lookup_memI:
  assumes "distinct (map ident (entries s))" and "e \<in> set (entries s)"
  shows "lookup s (ident e) = Some e"
proof -
  have "index s (ident e) \<noteq> None"
    using assms(2) by (simp add: index_None_iff)
  then obtain i where i: "index s (ident e) = Some i" by blast
  with assms(2) obtain j where j: "j < length (entries s)" "entries s ! j = e"
    by (auto simp: in_set_conv_nth)
  have "i < length (entries s)" "ident (entries s ! i) = ident e"
    using index_SomeD [OF i] by auto
  with j assms(1) have "i = j"
    using nth_eq_iff_index_eq [of "map ident (entries s)" i j] by simp
  with i j show ?thesis by (simp add: lookup_index)
qed

lemma index_put:
  assumes "index s k = Some i" and "ident e = k"
  shows "index (set_entries ((entries s)[i := e]) s) k' = index s k'"
proof -
  have "ident (entries s ! i) = k" using index_SomeD [OF assms(1)] by simp
  with assms(2) show ?thesis
    by (simp add: index_scan entries_set position_list_update)
qed

lemma lookup_put:
  assumes "index s k = Some i" and "ident e = k"
  shows "lookup (set_entries ((entries s)[i := e]) s) k' =
    (if k' = k then Some e else lookup s k')"
proof -
  have i: "i < length (entries s)" using assms(1) by (auto dest: index_SomeD)
  have "index s k' = Some j \<Longrightarrow> k' \<noteq> k \<Longrightarrow> j \<noteq> i" for j
    using assms(1) by (auto dest!: index_SomeD)
  then show ?thesis
    using i assms by (cases "index s k'") (auto simp: lookup_index index_put entries_set)
qed

lemma mem_put_iff:
  assumes "distinct (map ident (entries s))" and "index s k = Some i"
  shows "x \<in> set ((entries s)[i := e]) \<longleftrightarrow> x = e \<or> (x \<in> set (entries s) \<and> ident x \<noteq> k)"
proof -
  have i: "i < length (entries s)" "ident (entries s ! i) = k"
    using index_SomeD [OF assms(2)] by auto
  have "j < length (entries s) \<Longrightarrow> j \<noteq> i \<Longrightarrow> ident (entries s ! j) \<noteq> k" for j
    using i assms(1) nth_eq_iff_index_eq [of "map ident (entries s)" i j] by auto
  with i show ?thesis
    by (auto simp: in_set_conv_nth nth_list_update) metis
qed

lemma lookup_push:
  assumes "index s (ident e) = None"
  shows "lookup (set_entries (entries s @ [e]) s) k' =
    (if k' = ident e then Some e else lookup s k')"
  using assms
  by (auto simp: lookup_scan entries_set find_position position_append index_scan nth_append
      dest!: position_SomeD split: option.splits)

lemma idents_put:
  "index s k = Some i \<Longrightarrow> ident e = k \<Longrightarrow>
    map ident ((entries s)[i := e]) = map ident (entries s)"
  using index_SomeD [of s k i] by (simp add: map_update list_update_same_conv)

lemma distinct_push:
  "distinct (map ident (entries s)) \<Longrightarrow> index s (ident e) = None \<Longrightarrow>
    distinct (map ident (entries s @ [e]))"
  by (auto simp: index_None_iff)

end

section \<open>Interface: a machine with absorbing states\<close>

text \<open>
  A status together with a transition function and a set of terminal statuses that no event
  leaves. Used for the task and the job transition tables.
\<close>

locale absorbing_machine =
  fixes advance :: "'s \<Rightarrow> 'e \<Rightarrow> 's"
    and terminal :: "'s \<Rightarrow> bool"
  assumes absorbing: "terminal s \<Longrightarrow> advance s e = s"
begin

lemma run_absorbing: "terminal s \<Longrightarrow> foldl advance s es = s"
  by (induction es) (simp_all add: absorbing)

lemma run_once_terminal:
  "terminal (foldl advance s es) \<Longrightarrow> foldl advance s (es @ fs) = foldl advance s es"
  by (simp add: run_absorbing)

end

section \<open>Interface: a chain of items linked by a hash\<close>

text \<open>
  Every item stores the hash of its predecessor's body; the first one stores the genesis value.
  \<open>chained\<close> is what a verifier that walks the items from the front establishes, \<open>chain_head\<close> the
  anchor it ends with. The event log (frames) and the receipts are both such chains.
\<close>

fun chained :: "('a \<Rightarrow> bool) \<Rightarrow> ('a \<Rightarrow> 'h) \<Rightarrow> ('a \<Rightarrow> 'h) \<Rightarrow> 'h \<Rightarrow> 'a list \<Rightarrow> bool" where
  "chained ok lnk hsh h [] = True"
| "chained ok lnk hsh h (x # xs) = (ok x \<and> lnk x = h \<and> chained ok lnk hsh (hsh x) xs)"

fun chain_head :: "('a \<Rightarrow> 'h) \<Rightarrow> 'h \<Rightarrow> 'a list \<Rightarrow> 'h" where
  "chain_head hsh h [] = h"
| "chain_head hsh h (x # xs) = chain_head hsh (hsh x) xs"

lemma chain_head_append [simp]:
  "chain_head hsh h (xs @ ys) = chain_head hsh (chain_head hsh h xs) ys"
  by (induction xs arbitrary: h) simp_all

lemma chained_append [simp]:
  "chained ok lnk hsh h (xs @ ys) \<longleftrightarrow>
     chained ok lnk hsh h xs \<and> chained ok lnk hsh (chain_head hsh h xs) ys"
  by (induction xs arbitrary: h) auto

lemma chained_ok: "chained ok lnk hsh h xs \<Longrightarrow> x \<in> set xs \<Longrightarrow> ok x"
  by (induction xs arbitrary: h) auto

locale hash_chain =
  fixes ok :: "'a \<Rightarrow> bool"
    and lnk :: "'a \<Rightarrow> 'h"
    and body :: "'a \<Rightarrow> 'b"
    and H :: "'b \<Rightarrow> 'h"
    and genesis :: 'h
  assumes body_determines: "ok x \<Longrightarrow> ok y \<Longrightarrow> body x = body y \<Longrightarrow> x = y"
begin

text \<open>
  Two verified chains with the same head are the same chain, or a hash collision between two
  of their bodies (or a body hashing to the genesis value) can be pointed at.
\<close>

lemma chain_unique:
  assumes "chained ok lnk (\<lambda>x. H (body x)) genesis xs"
    and "chained ok lnk (\<lambda>x. H (body x)) genesis ys"
    and "chain_head (\<lambda>x. H (body x)) genesis xs = chain_head (\<lambda>x. H (body x)) genesis ys"
  shows "xs = ys
    \<or> (\<exists>x\<in>set xs. \<exists>y\<in>set ys. body x \<noteq> body y \<and> H (body x) = H (body y))
    \<or> (\<exists>x\<in>set xs \<union> set ys. H (body x) = genesis)"
  using assms
proof (induction xs arbitrary: ys rule: rev_induct)
  case Nil
  then show ?case by (cases ys rule: rev_cases) auto
next
  case (snoc x xs)
  show ?case
  proof (cases ys rule: rev_cases)
    case Nil
    with snoc.prems show ?thesis by auto
  next
    case (snoc ys' y)
    with snoc.prems have hd: "H (body x) = H (body y)" by simp
    show ?thesis
    proof (cases "body x = body y")
      case True
      with snoc snoc.prems have xy: "x = y" by (auto intro: body_determines)
      with snoc snoc.prems
      have "chain_head (\<lambda>x. H (body x)) genesis xs = chain_head (\<lambda>x. H (body x)) genesis ys'"
        by auto
      with snoc snoc.prems snoc.IH [of ys'] have "xs = ys'
        \<or> (\<exists>x\<in>set xs. \<exists>y\<in>set ys'. body x \<noteq> body y \<and> H (body x) = H (body y))
        \<or> (\<exists>x\<in>set xs \<union> set ys'. H (body x) = genesis)" by simp
      with xy snoc show ?thesis by auto
    next
      case False
      with hd snoc show ?thesis by auto
    qed
  qed
qed

text \<open>A verified chain is determined by its bodies.\<close>

lemma chain_bodies:
  "chained ok lnk (\<lambda>x. H (body x)) h xs \<Longrightarrow> chained ok lnk (\<lambda>x. H (body x)) h' ys \<Longrightarrow>
    map body xs = map body ys \<Longrightarrow> xs = ys"
proof (induction xs arbitrary: h h' ys)
  case (Cons x xs)
  then obtain y ys' where ys: "ys = y # ys'" by (cases ys) auto
  with Cons show ?case by (auto intro: body_determines)
qed simp

end

end
