(* ===== verification/Types.thy ===== *)
theory Types
  imports Prelude
begin

text \<open>
  The shared primitive types (\<^verbatim>\<open>crates/crustcore-types\<close>): identifiers, timestamps, the task, job
  and approval statuses, reversibility, bounded text, and the references a capability names.
  Identifiers are newtypes over machine integers, so they stay distinct types here. Rust strings
  are UTF-8 byte sequences: \<^typ>\<open>string\<close> is a list of bytes and \<^term>\<open>length\<close> counts bytes.
\<close>

section \<open>Identifiers (ids.rs)\<close>

datatype TaskId = TaskId u128
datatype JobId = JobId u128
datatype EventSeq = EventSeq (seq_no: u64)
datatype ApprovalId = ApprovalId (approval_no: u128)
datatype ToolCallId = ToolCallId u128
datatype ArtifactId = ArtifactId (artifact_bytes: bytes)
datatype SecretId = SecretId u32
datatype CapabilityId = CapabilityId u32
datatype ScopeId = ScopeId u64
datatype LeaseOwner = LeaseOwner u64

text \<open>The derived order of a newtype is the order of the integer inside.\<close>

instantiation EventSeq :: linorder
begin

definition less_eq_EventSeq :: "EventSeq \<Rightarrow> EventSeq \<Rightarrow> bool" where
  "less_eq_EventSeq a b = (seq_no a \<le> seq_no b)"

definition less_EventSeq :: "EventSeq \<Rightarrow> EventSeq \<Rightarrow> bool" where
  "less_EventSeq a b = (seq_no a < seq_no b)"

instance
  by standard (auto simp: less_eq_EventSeq_def less_EventSeq_def intro: EventSeq.expand)

end

definition EventSeq_FIRST :: EventSeq where
  "EventSeq_FIRST = EventSeq 0"

text \<open>
  \<^verbatim>\<open>EventSeq::next\<close> panics on overflow in debug builds (\<^const>\<open>None\<close>); \<^verbatim>\<open>next_saturating\<close> is the
  total operation the kernel uses.
\<close>

definition EventSeq_next :: "EventSeq \<Rightarrow> EventSeq option" where
  "EventSeq_next s = (if seq_no s = - 1 then None else Some (EventSeq (seq_no s + 1)))"

definition next_saturating :: "EventSeq \<Rightarrow> EventSeq" where
  "next_saturating s = EventSeq (saturating_add (seq_no s) 1)"

lemma EventSeq_FIRST_least [simp]: "EventSeq_FIRST \<le> s"
  by (simp add: EventSeq_FIRST_def less_eq_EventSeq_def)

lemma next_saturating_ge [simp]: "s \<le> next_saturating s"
  by (simp add: next_saturating_def less_eq_EventSeq_def)

lemma saturating_add_1: "w \<noteq> - 1 \<Longrightarrow> saturating_add w 1 = w + (1 :: 'a::len word)"
  using unat_less_max [of w] by (auto simp: saturating_add_def)

lemma next_saturating_next:
  "EventSeq_next s = Some s' \<Longrightarrow> next_saturating s = s'"
  by (auto simp: EventSeq_next_def next_saturating_def saturating_add_1 split: if_splits)

section \<open>Time (time.rs)\<close>

datatype Timestamp = Timestamp (as_millis: u64)

instantiation Timestamp :: linorder
begin

definition less_eq_Timestamp :: "Timestamp \<Rightarrow> Timestamp \<Rightarrow> bool" where
  "less_eq_Timestamp a b = (as_millis a \<le> as_millis b)"

definition less_Timestamp :: "Timestamp \<Rightarrow> Timestamp \<Rightarrow> bool" where
  "less_Timestamp a b = (as_millis a < as_millis b)"

instance
  by standard (auto simp: less_eq_Timestamp_def less_Timestamp_def intro: Timestamp.expand)

end

definition EPOCH :: Timestamp where
  "EPOCH = Timestamp 0"

definition from_millis :: "u64 \<Rightarrow> Timestamp" where
  "from_millis ms = Timestamp ms"

lemma as_millis_from_millis [simp]: "as_millis (from_millis ms) = ms"
  by (simp add: from_millis_def)

lemma EPOCH_least [simp]: "EPOCH \<le> t"
  by (simp add: EPOCH_def less_eq_Timestamp_def)

section \<open>Statuses (status.rs)\<close>

datatype TaskStatus =
    Created | Queued | Planning | Running | AwaitingApproval | Blocked | Retrying
  | Integrating | AwaitingUserReview | Completed | Failed | Killed | Archived

datatype JobStatus =
    Queued | Leased | Running | HeartbeatMissing | Retrying
  | Completed | Failed | Killed | Expired

datatype ApprovalStatus = Pending | Approved | Denied | Expired

datatype ApprovalResolution = Approve | Deny

datatype Reversibility = Reversible | ReversibleWithCleanup | Irreversible | Destructive

fun approval_is_resolved :: "ApprovalStatus \<Rightarrow> bool" where
  "approval_is_resolved ApprovalStatus.Approved = True"
| "approval_is_resolved ApprovalStatus.Denied = True"
| "approval_is_resolved ApprovalStatus.Expired = True"
| "approval_is_resolved ApprovalStatus.Pending = False"

fun task_is_terminal :: "TaskStatus \<Rightarrow> bool" where
  "task_is_terminal TaskStatus.Completed = True"
| "task_is_terminal TaskStatus.Failed = True"
| "task_is_terminal TaskStatus.Killed = True"
| "task_is_terminal TaskStatus.Archived = True"
| "task_is_terminal _ = False"

fun job_is_terminal :: "JobStatus \<Rightarrow> bool" where
  "job_is_terminal JobStatus.Completed = True"
| "job_is_terminal JobStatus.Failed = True"
| "job_is_terminal JobStatus.Killed = True"
| "job_is_terminal JobStatus.Expired = True"
| "job_is_terminal _ = False"

fun requires_approval :: "Reversibility \<Rightarrow> bool" where
  "requires_approval Irreversible = True"
| "requires_approval Destructive = True"
| "requires_approval Reversible = False"
| "requires_approval ReversibleWithCleanup = False"

section \<open>Bounded text (text.rs)\<close>

record BoundedTextError =
  bte_max :: nat
  bte_actual :: nat

datatype BoundedText = BoundedText (as_str: string)

definition DEFAULT_MAX :: nat where
  "DEFAULT_MAX = 64 * 1024"

definition with_max :: "string \<Rightarrow> nat \<Rightarrow> BoundedTextError + BoundedText" where
  "with_max text mx =
     (if length text > mx then Inl \<lparr>bte_max = mx, bte_actual = length text\<rparr>
      else Inr (BoundedText text))"

definition BoundedText_new :: "string \<Rightarrow> BoundedTextError + BoundedText" where
  "BoundedText_new text = with_max text DEFAULT_MAX"

text \<open>
  \<^verbatim>\<open>str::is_char_boundary\<close>: an index is a boundary unless it points at a UTF-8 continuation byte
  (\<open>10xxxxxx\<close>) or past the end.
\<close>

definition is_continuation :: "char \<Rightarrow> bool" where
  "is_continuation c = (128 \<le> (of_char c :: nat) \<and> (of_char c :: nat) < 192)"

definition is_char_boundary :: "string \<Rightarrow> nat \<Rightarrow> bool" where
  "is_char_boundary s i =
     (i = 0 \<or> i = length s \<or> (i < length s \<and> \<not> is_continuation (s ! i)))"

fun back_to_boundary :: "string \<Rightarrow> nat \<Rightarrow> nat" where
  "back_to_boundary s 0 = 0"
| "back_to_boundary s (Suc end) =
     (if is_char_boundary s (Suc end) then Suc end else back_to_boundary s end)"

definition truncated :: "string \<Rightarrow> nat \<Rightarrow> BoundedText" where
  "truncated text mx =
     (if length text > mx then BoundedText (take (back_to_boundary text mx) text)
      else BoundedText text)"

definition BoundedText_len :: "BoundedText \<Rightarrow> nat" where
  "BoundedText_len t = length (as_str t)"

definition BoundedText_is_empty :: "BoundedText \<Rightarrow> bool" where
  "BoundedText_is_empty t = (as_str t = [])"

lemma back_to_boundary_le: "back_to_boundary s n \<le> n"
  by (induction n) (auto intro: le_SucI)

lemma back_to_boundary_boundary: "is_char_boundary s (back_to_boundary s n)"
  by (induction n) (auto simp: is_char_boundary_def)

lemma back_to_boundary_greatest:
  "is_char_boundary s i \<Longrightarrow> i \<le> n \<Longrightarrow> i \<le> back_to_boundary s n"
  by (induction n) (auto simp: le_Suc_eq)

text \<open>
  What \<^verbatim>\<open>BoundedText::truncated\<close> promises: the result is a prefix of the input within the cap, it
  ends at a character boundary, and no longer prefix within the cap does.
\<close>

lemma truncated_prefix:
  "\<exists>n. as_str (truncated s mx) = take n s \<and> n \<le> mx \<and> is_char_boundary s n
     \<and> (\<forall>i\<le>mx. is_char_boundary s i \<longrightarrow> i \<le> n)
   \<or> as_str (truncated s mx) = s \<and> length s \<le> mx"
  by (auto simp: truncated_def back_to_boundary_boundary back_to_boundary_greatest
      back_to_boundary_le intro!: exI [of _ "back_to_boundary s mx"])

lemma truncated_bounded: "BoundedText_len (truncated s mx) \<le> mx"
  using back_to_boundary_le [of s mx]
  by (simp add: truncated_def BoundedText_len_def min_le_iff_disj)

lemma with_max_bounded: "with_max text mx = Inr t \<Longrightarrow> as_str t = text \<and> BoundedText_len t \<le> mx"
  by (auto simp: with_max_def BoundedText_len_def split: if_splits)

lemma with_max_error:
  "with_max text mx = Inl e \<longleftrightarrow> mx < length text \<and> e = \<lparr>bte_max = mx, bte_actual = length text\<rparr>"
  by (auto simp: with_max_def)

section \<open>References (refs.rs)\<close>

datatype RepoRef = RepoRef (repo_text: BoundedText)
datatype BranchPrefix = BranchPrefix (prefix_text: BoundedText)
datatype DomainAllowlist = DomainAllowlist (domains: "string list")

definition deny_all :: DomainAllowlist where
  "deny_all = DomainAllowlist []"

definition from_domains :: "string list \<Rightarrow> DomainAllowlist" where
  "from_domains ds = DomainAllowlist ds"

definition allows :: "DomainAllowlist \<Rightarrow> string \<Rightarrow> bool" where
  "allows a domain = (\<exists>d\<in>set (domains a). d = domain \<or> d = ''*'')"

definition is_deny_all :: "DomainAllowlist \<Rightarrow> bool" where
  "is_deny_all a = (domains a = [])"

lemma allows_explicit:
  "''*'' \<notin> set (domains a) \<Longrightarrow> allows a d \<longleftrightarrow> d \<in> set (domains a)"
  by (auto simp: allows_def)

lemma deny_all_iff: "is_deny_all a \<longleftrightarrow> (\<forall>d. \<not> allows a d)"
proof (cases "domains a")
  case (Cons d ds)
  then have "allows a d" by (simp add: allows_def)
  with Cons show ?thesis by (auto simp: is_deny_all_def)
qed (simp add: is_deny_all_def allows_def)

end
