(* ===== verification/Budgets.thy ===== *)
theory Budgets
  imports Types
begin

text \<open>
  Task budgets (\<^verbatim>\<open>crates/crustcore-types/src/budget.rs\<close>): one saturating meter per resource axis.
  The source keeps the meters in an array indexed by \<^verbatim>\<open>BudgetAxis::index\<close>, which is dense and
  injective (\<open>axis_index_ALL\<close>), so the array is a function from the axis here.
\<close>

section \<open>Axes and meters\<close>

datatype BudgetAxis =
    WallMillis | CpuMillis | MemoryBytes | DiskBytes | OutputBytes | Tokens
  | ModelCostMicros | SubagentCount

definition BUDGET_AXIS_COUNT :: nat where
  "BUDGET_AXIS_COUNT = 8"

definition BudgetAxis_ALL :: "BudgetAxis list" where
  "BudgetAxis_ALL = [WallMillis, CpuMillis, MemoryBytes, DiskBytes, OutputBytes, Tokens,
     ModelCostMicros, SubagentCount]"

fun axis_index :: "BudgetAxis \<Rightarrow> nat" where
  "axis_index WallMillis = 0"
| "axis_index CpuMillis = 1"
| "axis_index MemoryBytes = 2"
| "axis_index DiskBytes = 3"
| "axis_index OutputBytes = 4"
| "axis_index Tokens = 5"
| "axis_index ModelCostMicros = 6"
| "axis_index SubagentCount = 7"

lemma axis_index_ALL:
  "map axis_index BudgetAxis_ALL = [0..<BUDGET_AXIS_COUNT]"
  by (simp add: BudgetAxis_ALL_def BUDGET_AXIS_COUNT_def upt_rec)

lemma set_BudgetAxis_ALL [simp]: "set BudgetAxis_ALL = UNIV"
proof -
  have "a \<in> set BudgetAxis_ALL" for a
    by (cases a) (simp_all add: BudgetAxis_ALL_def)
  then show ?thesis by blast
qed

lemma distinct_BudgetAxis_ALL [simp]: "distinct BudgetAxis_ALL"
  by (simp add: BudgetAxis_ALL_def)

instantiation BudgetAxis :: enum
begin

definition enum_BudgetAxis :: "BudgetAxis list" where
  "enum_BudgetAxis = BudgetAxis_ALL"

definition enum_all_BudgetAxis :: "(BudgetAxis \<Rightarrow> bool) \<Rightarrow> bool" where
  "enum_all_BudgetAxis p = list_all p BudgetAxis_ALL"

definition enum_ex_BudgetAxis :: "(BudgetAxis \<Rightarrow> bool) \<Rightarrow> bool" where
  "enum_ex_BudgetAxis p = list_ex p BudgetAxis_ALL"

instance
  by standard
    (auto simp: enum_BudgetAxis_def enum_all_BudgetAxis_def enum_ex_BudgetAxis_def
      list_all_iff list_ex_iff)

end

record Meter =
  m_used :: u64
  m_limit :: u64

definition Meter_UNLIMITED :: Meter where
  "Meter_UNLIMITED = \<lparr>m_used = 0, m_limit = - 1\<rparr>"

definition Meter_with_limit :: "u64 \<Rightarrow> Meter" where
  "Meter_with_limit l = \<lparr>m_used = 0, m_limit = l\<rparr>"

definition within :: "Meter \<Rightarrow> bool" where
  "within m = (m_used m \<le> m_limit m)"

definition Meter_add :: "Meter \<Rightarrow> u64 \<Rightarrow> Meter" where
  "Meter_add m delta = m\<lparr>m_used := saturating_add (m_used m) delta\<rparr>"

lemma Meter_add_limit [simp]: "m_limit (Meter_add m d) = m_limit m"
  by (simp add: Meter_add_def)

lemma Meter_add_used_ge [simp]: "m_used m \<le> m_used (Meter_add m d)"
  by (simp add: Meter_add_def)

lemma Meter_add_not_within: "\<not> within m \<Longrightarrow> \<not> within (Meter_add m d)"
  unfolding within_def Meter_add_limit using Meter_add_used_ge [of m d] order_trans by blast

section \<open>Deltas\<close>

datatype BudgetDelta = BudgetDelta (amounts: "BudgetAxis \<Rightarrow> u64")

definition BudgetDelta_none :: BudgetDelta where
  "BudgetDelta_none = BudgetDelta (\<lambda>_. 0)"

definition BudgetDelta_with :: "BudgetDelta \<Rightarrow> BudgetAxis \<Rightarrow> u64 \<Rightarrow> BudgetDelta" where
  "BudgetDelta_with d a n = BudgetDelta ((amounts d)(a := saturating_add (amounts d a) n))"

definition BudgetDelta_of :: "BudgetAxis \<Rightarrow> u64 \<Rightarrow> BudgetDelta" where
  "BudgetDelta_of a n = BudgetDelta_with BudgetDelta_none a n"

definition amount :: "BudgetDelta \<Rightarrow> BudgetAxis \<Rightarrow> u64" where
  "amount d a = amounts d a"

definition BudgetDelta_is_zero :: "BudgetDelta \<Rightarrow> bool" where
  "BudgetDelta_is_zero d = list_all (\<lambda>a. amounts d a = 0) BudgetAxis_ALL"

lemma BudgetDelta_is_zero_iff: "BudgetDelta_is_zero d \<longleftrightarrow> d = BudgetDelta_none"
  by (cases d) (auto simp: BudgetDelta_is_zero_def BudgetDelta_none_def list_all_iff)

section \<open>Budgets\<close>

datatype BudgetCheck = WithinBudget | Exhausted BudgetAxis

fun is_exhausted :: "BudgetCheck \<Rightarrow> bool" where
  "is_exhausted (Exhausted _) = True"
| "is_exhausted WithinBudget = False"

fun exhausted_axis :: "BudgetCheck \<Rightarrow> BudgetAxis option" where
  "exhausted_axis (Exhausted a) = Some a"
| "exhausted_axis WithinBudget = None"

datatype Budget = Budget (meters: "BudgetAxis \<Rightarrow> Meter")

definition standard_task :: Budget where
  "standard_task = Budget (\<lambda>a.
     [Meter_with_limit 3600000,
      Meter_with_limit 3600000,
      Meter_with_limit 4294967296,
      Meter_with_limit 2147483648,
      Meter_with_limit 268435456,
      Meter_with_limit 1000000,
      Meter_with_limit 100000000,
      Meter_with_limit 8] ! axis_index a)"

definition unlimited :: Budget where
  "unlimited = Budget (\<lambda>_. Meter_UNLIMITED)"

definition is_fully_bounded :: "Budget \<Rightarrow> bool" where
  "is_fully_bounded b = list_all (\<lambda>a. m_limit (meters b a) \<noteq> - 1) BudgetAxis_ALL"

definition meter :: "Budget \<Rightarrow> BudgetAxis \<Rightarrow> Meter" where
  "meter b a = meters b a"

definition Budget_with_limit :: "Budget \<Rightarrow> BudgetAxis \<Rightarrow> u64 \<Rightarrow> Budget" where
  "Budget_with_limit b a l = Budget ((meters b)(a := (meters b a)\<lparr>m_limit := l\<rparr>))"

text \<open>\<^verbatim>\<open>check\<close> returns the first axis in the stable order whose meter is over its limit.\<close>

fun check_axes :: "Budget \<Rightarrow> BudgetAxis list \<Rightarrow> BudgetCheck" where
  "check_axes b [] = WithinBudget"
| "check_axes b (a # as) = (if \<not> within (meters b a) then Exhausted a else check_axes b as)"

definition check :: "Budget \<Rightarrow> BudgetCheck" where
  "check b = check_axes b BudgetAxis_ALL"

fun record_axes :: "BudgetDelta \<Rightarrow> BudgetAxis list \<Rightarrow> Budget \<Rightarrow> Budget" where
  "record_axes d [] b = b"
| "record_axes d (a # as) b =
     record_axes d as (Budget ((meters b)(a := Meter_add (meters b a) (amount d a))))"

definition record_delta :: "Budget \<Rightarrow> BudgetDelta \<Rightarrow> Budget \<times> BudgetCheck" where
  "record_delta b d = (let b' = record_axes d BudgetAxis_ALL b in (b', check b'))"

lemma check_axes_Exhausted_iff:
  "check_axes b as = Exhausted a \<longleftrightarrow>
     a \<in> set as \<and> \<not> within (meters b a)
     \<and> (\<forall>x\<in>set (takeWhile (\<lambda>x. x \<noteq> a) as). within (meters b x))"
  by (induction as) auto

lemma check_axes_Within_iff: "check_axes b as = WithinBudget \<longleftrightarrow> (\<forall>a\<in>set as. within (meters b a))"
  by (induction as) auto

lemma check_Within_iff: "check b = WithinBudget \<longleftrightarrow> (\<forall>a. within (meters b a))"
  by (simp add: check_def check_axes_Within_iff)

lemma record_axes_meters:
  "distinct as \<Longrightarrow> meters (record_axes d as b) a =
     (if a \<in> set as then Meter_add (meters b a) (amount d a) else meters b a)"
  by (induction as arbitrary: b) auto

lemma record_delta_meters:
  "meters (fst (record_delta b d)) a = Meter_add (meters b a) (amount d a)"
  by (simp add: record_delta_def Let_def record_axes_meters)

lemma record_delta_check: "snd (record_delta b d) = check (fst (record_delta b d))"
  by (simp add: record_delta_def Let_def)

lemma is_fully_bounded_iff: "is_fully_bounded b \<longleftrightarrow> (\<forall>a. m_limit (meters b a) \<noteq> - 1)"
  by (simp add: is_fully_bounded_def list_all_iff)

lemma is_fully_bounded_record [simp]:
  "is_fully_bounded (fst (record_delta b d)) = is_fully_bounded b"
  by (simp add: is_fully_bounded_iff record_delta_meters)

lemma standard_task_bounded: "is_fully_bounded standard_task"
  by (simp add: is_fully_bounded_def standard_task_def BudgetAxis_ALL_def Meter_with_limit_def)

lemma unlimited_not_bounded: "\<not> is_fully_bounded unlimited"
  by (simp add: is_fully_bounded_iff unlimited_def Meter_UNLIMITED_def)

text \<open>
  Recording is order independent and exact up to saturation: on every axis the meter after the
  step shows the sum, capped at \<^verbatim>\<open>u64::MAX\<close>, and the limit it had.
\<close>

lemma record_delta_exact:
  "unat (m_used (meter (fst (record_delta b d)) a)) =
     min (unat (m_used (meter b a)) + unat (amount d a)) (2 ^ 64 - 1)"
  "m_limit (meter (fst (record_delta b d)) a) = m_limit (meter b a)"
  by (simp_all add: meter_def record_delta_meters Meter_add_def unat_saturating_add)

lemma exhaustion_persists:
  "\<not> within (meters b a) \<Longrightarrow> snd (record_delta b d) \<noteq> WithinBudget"
  by (auto simp: record_delta_check check_Within_iff record_delta_meters
      dest: Meter_add_not_within)

end
