(* ===== verification/Kernel_Events.thy ===== *)
theory Kernel_Events
  imports Budgets
begin

text \<open>
  Kernel events and actions (\<^verbatim>\<open>crates/crustcore-kernel/src/event.rs\<close>, \<^verbatim>\<open>action.rs\<close>): the envelope
  adapters hand to \<^verbatim>\<open>Kernel::step\<close> and the bounded instructions it answers with.
\<close>

section \<open>Events (event.rs)\<close>

datatype EventKind =
    TaskCreated | TaskPlanned | JobQueued | JobLeased | ModelRequestStarted
  | ModelOutputReceived | ToolCallRequested | ToolCallApproved | ToolCallDenied
  | ToolCallStarted | ToolCallCompleted | SandboxStarted | CommandStarted
  | CommandOutputCaptured | CommandCompleted | PatchProposed | PatchVerified
  | PatchRejected | ApprovalRequested | ApprovalResolved | UserMessageQueued
  | UserSteerReceived | GitHubOperationRequested | GitHubOperationCompleted
  | SecretRequested | SecretHandleStored | RiskDetected | TaskCompleted
  | TaskFailed | TaskKilled

definition EventKind_ALL :: "EventKind list" where
  "EventKind_ALL =
     [TaskCreated, TaskPlanned, JobQueued, JobLeased, ModelRequestStarted,
      ModelOutputReceived, ToolCallRequested, ToolCallApproved, ToolCallDenied,
      ToolCallStarted, ToolCallCompleted, SandboxStarted, CommandStarted,
      CommandOutputCaptured, CommandCompleted, PatchProposed, PatchVerified,
      PatchRejected, ApprovalRequested, ApprovalResolved, UserMessageQueued,
      UserSteerReceived, GitHubOperationRequested, GitHubOperationCompleted,
      SecretRequested, SecretHandleStored, RiskDetected, TaskCompleted,
      TaskFailed, TaskKilled]"

lemma set_EventKind_ALL [simp]: "set EventKind_ALL = UNIV"
proof -
  have "k \<in> set EventKind_ALL" for k
    by (cases k) (simp_all add: EventKind_ALL_def)
  then show ?thesis by blast
qed

datatype Actor = Kernel | User | Model | Subagent | ExternalWorker | Adapter

definition Actor_ALL :: "Actor list" where
  "Actor_ALL = [Actor.Kernel, Actor.User, Actor.Model, Actor.Subagent, Actor.ExternalWorker,
     Actor.Adapter]"

datatype Visibility = ModelVisible | Internal

record Event =
  ev_kind :: EventKind
  ev_seq :: EventSeq
  ev_timestamp :: Timestamp
  ev_task_id :: "TaskId option"
  ev_job_id :: "JobId option"
  ev_actor :: Actor
  ev_visibility :: Visibility
  ev_reversibility :: "Reversibility option"
  ev_approval_id :: "ApprovalId option"
  ev_tool_call_id :: "ToolCallId option"
  ev_resolution :: "ApprovalResolution option"
  ev_budget_delta :: "BudgetDelta option"
  ev_budget :: "Budget option"
  ev_lease_owner :: "LeaseOwner option"

definition Event_base :: "EventKind \<Rightarrow> Actor \<Rightarrow> Visibility \<Rightarrow> Event" where
  "Event_base kind actor visibility =
     \<lparr>ev_kind = kind, ev_seq = EventSeq_FIRST, ev_timestamp = EPOCH, ev_task_id = None,
      ev_job_id = None, ev_actor = actor, ev_visibility = visibility, ev_reversibility = None,
      ev_approval_id = None, ev_tool_call_id = None, ev_resolution = None,
      ev_budget_delta = None, ev_budget = None, ev_lease_owner = None\<rparr>"

definition Event_internal :: "EventKind \<Rightarrow> Event" where
  "Event_internal kind = Event_base kind Actor.Kernel Internal"

definition with_seq :: "Event \<Rightarrow> EventSeq \<Rightarrow> Event" where
  "with_seq e s = e\<lparr>ev_seq := s\<rparr>"

definition with_timestamp :: "Event \<Rightarrow> Timestamp \<Rightarrow> Event" where
  "with_timestamp e t = e\<lparr>ev_timestamp := t\<rparr>"

definition with_task :: "Event \<Rightarrow> TaskId \<Rightarrow> Event" where
  "with_task e t = e\<lparr>ev_task_id := Some t\<rparr>"

definition with_job :: "Event \<Rightarrow> JobId \<Rightarrow> Event" where
  "with_job e j = e\<lparr>ev_job_id := Some j\<rparr>"

definition with_visibility :: "Event \<Rightarrow> Visibility \<Rightarrow> Event" where
  "with_visibility e v = e\<lparr>ev_visibility := v\<rparr>"

definition with_reversibility :: "Event \<Rightarrow> Reversibility \<Rightarrow> Event" where
  "with_reversibility e r = e\<lparr>ev_reversibility := Some r\<rparr>"

definition with_approval :: "Event \<Rightarrow> ApprovalId \<Rightarrow> Event" where
  "with_approval e a = e\<lparr>ev_approval_id := Some a\<rparr>"

definition with_tool_call :: "Event \<Rightarrow> ToolCallId \<Rightarrow> Event" where
  "with_tool_call e t = e\<lparr>ev_tool_call_id := Some t\<rparr>"

definition with_resolution :: "Event \<Rightarrow> ApprovalResolution \<Rightarrow> Event" where
  "with_resolution e r = e\<lparr>ev_resolution := Some r\<rparr>"

definition with_budget_delta :: "Event \<Rightarrow> BudgetDelta \<Rightarrow> Event" where
  "with_budget_delta e d = e\<lparr>ev_budget_delta := Some d\<rparr>"

definition with_budget :: "Event \<Rightarrow> Budget \<Rightarrow> Event" where
  "with_budget e b = e\<lparr>ev_budget := Some b\<rparr>"

definition with_lease_owner :: "Event \<Rightarrow> LeaseOwner \<Rightarrow> Event" where
  "with_lease_owner e o' = e\<lparr>ev_lease_owner := Some o'\<rparr>"

definition Event_inbound :: "EventKind \<Rightarrow> EventSeq \<Rightarrow> Actor \<Rightarrow> Event" where
  "Event_inbound kind seq actor = with_seq (Event_base kind actor ModelVisible) seq"

definition Event_task_created :: "EventSeq \<Rightarrow> Actor \<Rightarrow> TaskId \<Rightarrow> Budget \<Rightarrow> Event" where
  "Event_task_created seq actor t b =
     with_budget (with_task (Event_inbound TaskCreated seq actor) t) b"

lemmas event_builders [model_defs] =
  Event_base_def Event_internal_def Event_inbound_def Event_task_created_def with_seq_def
  with_timestamp_def with_task_def with_job_def with_visibility_def with_reversibility_def
  with_approval_def with_tool_call_def with_resolution_def with_budget_delta_def
  with_budget_def with_lease_owner_def

section \<open>Actions (action.rs)\<close>

datatype Action =
    AppendEvent "TaskId option"
  | RequestModel JobId
  | RunTool JobId
  | RequestApproval ApprovalId
  | TaskFinished TaskId

type_synonym ActionVec = "Action list"

text \<open>The actions that ask an adapter to do something beyond recording what happened.\<close>

fun is_effect :: "Action \<Rightarrow> bool" where
  "is_effect (RequestModel _) = True"
| "is_effect (RunTool _) = True"
| "is_effect (RequestApproval _) = True"
| "is_effect (AppendEvent _) = False"
| "is_effect (TaskFinished _) = False"

end
