(* ===== verification/Kernel_State.thy ===== *)
theory Kernel_State
  imports Kernel_Events
begin

text \<open>
  Kernel state (\<^verbatim>\<open>crates/crustcore-kernel/src/state.rs\<close>): the records of the three arenas, the lease
  clock, the operation binding of an approval, and the two pure transition tables.
\<close>

section \<open>Records\<close>

definition LEASE_TTL_MS :: u64 where
  "LEASE_TTL_MS = 60000"

definition READY_DRAIN_MAX :: nat where
  "READY_DRAIN_MAX = 1"

datatype BlockReason =
    BudgetExhausted BudgetAxis
  | PolicyDenied
  | ApprovalDenied
  | ApprovalExpired
  | RiskDetected

record TaskEntry =
  te_id :: TaskId
  te_status :: TaskStatus
  te_budget :: Budget
  te_last_event :: EventSeq
  te_awaiting :: "ApprovalId option"
  te_block_reason :: "BlockReason option"

definition TaskEntry_new :: "TaskId \<Rightarrow> Budget \<Rightarrow> EventSeq \<Rightarrow> TaskEntry" where
  "TaskEntry_new i b s =
     \<lparr>te_id = i, te_status = TaskStatus.Created, te_budget = b, te_last_event = s,
      te_awaiting = None, te_block_reason = None\<rparr>"

record LeaseState =
  ls_owner :: "LeaseOwner option"
  ls_expires_at :: Timestamp
  ls_heartbeat_at :: Timestamp

definition unleased :: LeaseState where
  "unleased = \<lparr>ls_owner = None, ls_expires_at = EPOCH, ls_heartbeat_at = EPOCH\<rparr>"

definition refresh :: "LeaseState \<Rightarrow> LeaseOwner option \<Rightarrow> Timestamp \<Rightarrow> LeaseState" where
  "refresh l owner now =
     l\<lparr>ls_owner := owner, ls_heartbeat_at := now,
       ls_expires_at := from_millis (saturating_add (as_millis now) LEASE_TTL_MS)\<rparr>"

definition is_expired_at :: "LeaseState \<Rightarrow> Timestamp \<Rightarrow> bool" where
  "is_expired_at l now = (now > ls_expires_at l)"

record JobEntry =
  je_id :: JobId
  je_task :: TaskId
  je_status :: JobStatus
  je_lease :: LeaseState
  je_last_event :: EventSeq

definition JobEntry_new :: "JobId \<Rightarrow> TaskId \<Rightarrow> EventSeq \<Rightarrow> JobEntry" where
  "JobEntry_new i t s =
     \<lparr>je_id = i, je_task = t, je_status = JobStatus.Queued, je_lease = unleased,
      je_last_event = s\<rparr>"

record ApprovalOp =
  op_tool_call_id :: "ToolCallId option"

definition op_matches :: "ApprovalOp \<Rightarrow> ToolCallId option \<Rightarrow> bool" where
  "op_matches op given =
     (case (op_tool_call_id op, given) of
        (Some bound, Some g) \<Rightarrow> bound = g
      | _ \<Rightarrow> False)"

record ApprovalEntry =
  ae_id :: ApprovalId
  ae_task :: TaskId
  ae_job :: "JobId option"
  ae_status :: ApprovalStatus
  ae_op :: ApprovalOp
  ae_expires_at :: Timestamp

lemma op_matches_iff:
  "op_matches op given \<longleftrightarrow> (\<exists>t. op_tool_call_id op = Some t \<and> given = Some t)"
  by (auto simp: op_matches_def split: option.splits)

lemma fresh_lease_not_expired: "\<not> is_expired_at (refresh l owner now) now"
  by (simp add: is_expired_at_def refresh_def less_Timestamp_def not_less)

section \<open>Transition tables\<close>

datatype TaskTransition = Stay | Move TaskStatus

datatype JobTransition = Stay | Move JobStatus

fun task_table :: "TaskStatus \<Rightarrow> EventKind \<Rightarrow> TaskTransition" where
  "task_table status TaskPlanned =
     (if status = TaskStatus.Created then TaskTransition.Move TaskStatus.Planning
      else TaskTransition.Stay)"
| "task_table status JobQueued =
     (if status \<in> {TaskStatus.Created, TaskStatus.Planning, TaskStatus.Retrying}
      then TaskTransition.Move TaskStatus.Queued else TaskTransition.Stay)"
| "task_table status JobLeased =
     (if status \<in> {TaskStatus.Queued, TaskStatus.Planning}
      then TaskTransition.Move TaskStatus.Running else TaskTransition.Stay)"
| "task_table status ModelRequestStarted =
     (if status \<in> {TaskStatus.Planning, TaskStatus.Queued}
      then TaskTransition.Move TaskStatus.Running else TaskTransition.Stay)"
| "task_table status PatchVerified =
     (if status = TaskStatus.Running then TaskTransition.Move TaskStatus.Integrating
      else TaskTransition.Stay)"
| "task_table status PatchRejected =
     (if status \<in> {TaskStatus.Running, TaskStatus.Blocked}
      then TaskTransition.Move TaskStatus.Retrying else TaskTransition.Stay)"
| "task_table status UserSteerReceived =
     (if status \<in> {TaskStatus.Blocked, TaskStatus.AwaitingUserReview}
      then TaskTransition.Move TaskStatus.Running else TaskTransition.Stay)"
| "task_table status GitHubOperationCompleted =
     (if status = TaskStatus.Integrating
      then TaskTransition.Move TaskStatus.AwaitingUserReview else TaskTransition.Stay)"
| "task_table status EventKind.RiskDetected = TaskTransition.Move TaskStatus.Blocked"
| "task_table status TaskCompleted = TaskTransition.Move TaskStatus.Completed"
| "task_table status TaskFailed = TaskTransition.Move TaskStatus.Failed"
| "task_table status TaskKilled = TaskTransition.Move TaskStatus.Killed"
| "task_table status _ = TaskTransition.Stay"

definition task_next :: "TaskStatus \<Rightarrow> EventKind \<Rightarrow> TaskTransition" where
  "task_next status kind =
     (if task_is_terminal status then TaskTransition.Stay else task_table status kind)"

fun job_table :: "JobStatus \<Rightarrow> EventKind \<Rightarrow> JobTransition" where
  "job_table status JobQueued =
     (if status = JobStatus.Retrying then JobTransition.Move JobStatus.Queued
      else JobTransition.Stay)"
| "job_table status JobLeased =
     (if status = JobStatus.Queued then JobTransition.Move JobStatus.Leased
      else JobTransition.Stay)"
| "job_table status CommandOutputCaptured =
     (if status = JobStatus.HeartbeatMissing then JobTransition.Move JobStatus.Running
      else JobTransition.Stay)"
| "job_table status TaskKilled = JobTransition.Move JobStatus.Killed"
| "job_table status TaskFailed = JobTransition.Move JobStatus.Failed"
| "job_table status kind =
     (if kind \<in> {ModelRequestStarted, ToolCallStarted, CommandStarted, SandboxStarted}
      then (if status \<in> {JobStatus.Leased, JobStatus.HeartbeatMissing}
            then JobTransition.Move JobStatus.Running else JobTransition.Stay)
      else if kind \<in> {CommandCompleted, ToolCallCompleted}
      then (if status \<in> {JobStatus.Running, JobStatus.Leased}
            then JobTransition.Move JobStatus.Completed else JobTransition.Stay)
      else JobTransition.Stay)"

definition job_next :: "JobStatus \<Rightarrow> EventKind \<Rightarrow> JobTransition" where
  "job_next status kind =
     (if job_is_terminal status then JobTransition.Stay else job_table status kind)"

end
