(* ===== verification/Confine.thy ===== *)
theory Confine
  imports Types "HOL-Library.Sublist"
begin

text \<open>
  Worktree-confined paths (\<^verbatim>\<open>crates/crustcore-path/src/lib.rs\<close>). A path is the list of its
  components, as \<^verbatim>\<open>Path::components\<close> yields them on Unix. The file system is a parameter: what
  \<^verbatim>\<open>canonicalize\<close>, \<^verbatim>\<open>symlink_metadata\<close> and \<^verbatim>\<open>is_dir\<close> answer for a path.
\<close>

section \<open>Paths\<close>

datatype Component = RootDir | CurDir | ParentDir | Normal string

type_synonym path = "Component list"

text \<open>\<^verbatim>\<open>str::split\<close> on a separator character: always at least one piece.\<close>

fun split_on :: "char \<Rightarrow> string \<Rightarrow> string list" where
  "split_on sep [] = [[]]"
| "split_on sep (c # cs) =
     (if c = sep then [] # split_on sep cs
      else (case split_on sep cs of [] \<Rightarrow> [[c]] | p # ps \<Rightarrow> (c # p) # ps))"

text \<open>
  The components of a Unix path string: a leading separator is the root; empty pieces and \<^verbatim>\<open>.\<close>
  pieces are dropped, except a \<^verbatim>\<open>.\<close> at the very beginning of a relative path.
\<close>

definition piece_component :: "string \<Rightarrow> Component" where
  "piece_component p = (if p = ''..'' then ParentDir else Normal p)"

definition body_components :: "string list \<Rightarrow> path" where
  "body_components ps = map piece_component (filter (\<lambda>p. p \<noteq> [] \<and> p \<noteq> ''.'') ps)"

definition components :: "string \<Rightarrow> path" where
  "components s =
     (case split_on (CHR ''/'') s of
        [] \<Rightarrow> []
      | p # ps \<Rightarrow>
          if s \<noteq> [] \<and> p = [] then RootDir # body_components ps
          else if p = ''.'' then CurDir # body_components ps
          else body_components (p # ps))"

text \<open>\<^verbatim>\<open>Path::parent\<close>: everything but the last component, none for a root or an empty path.\<close>

definition parent :: "path \<Rightarrow> path option" where
  "parent p = (if p = [] \<or> last p = RootDir then None else Some (butlast p))"

text \<open>\<^verbatim>\<open>Path::starts_with\<close> compares whole components.\<close>

definition starts_with :: "path \<Rightarrow> path \<Rightarrow> bool" where
  "starts_with p base = prefix base p"

datatype WorktreeRoot = WorktreeRoot (as_path: path)

record ConfinedReadPath =
  crp_root :: WorktreeRoot
  crp_relative :: path

record ConfinedWritePath =
  cwp_root :: WorktreeRoot
  cwp_relative :: path

datatype PathError = NullByte | AbsoluteNotAllowed | Escape | SymlinkEscape | Io string

text \<open>An I/O error is its kind, of which the resolver distinguishes one, and its rendered message.\<close>

datatype IoError = NotFound (io_message: string) | OtherIo (io_message: string)

record fs =
  canonicalize :: "path \<Rightarrow> IoError + path"
  is_symlink :: "path \<Rightarrow> bool"
  is_dir :: "path \<Rightarrow> bool"

section \<open>The resolver\<close>

fun normalize_loop :: "path \<Rightarrow> string list \<Rightarrow> PathError + string list" where
  "normalize_loop [] out = Inr out"
| "normalize_loop (RootDir # cs) out = Inl AbsoluteNotAllowed"
| "normalize_loop (CurDir # cs) out = normalize_loop cs out"
| "normalize_loop (ParentDir # cs) out =
     (if out = [] then Inl Escape else normalize_loop cs (butlast out))"
| "normalize_loop (Normal c # cs) out = normalize_loop cs (out @ [c])"

definition normalize_relative :: "string \<Rightarrow> PathError + path" where
  "normalize_relative rel =
     (if CHR 0x00 \<in> set rel then Inl NullByte
      else (case normalize_loop (components rel) [] of
              Inl e \<Rightarrow> Inl e
            | Inr out \<Rightarrow> Inr (map Normal out)))"

text \<open>The loop of \<^verbatim>\<open>deepest_existing_canonical\<close> moves to the parent while nothing is found.\<close>

function deepest_existing_canonical :: "fs \<Rightarrow> path \<Rightarrow> PathError + path" where
  "deepest_existing_canonical f cur =
     (case canonicalize f cur of
        Inr canon \<Rightarrow> Inr canon
      | Inl (NotFound m) \<Rightarrow>
          (case parent cur of
             Some p \<Rightarrow> if p \<noteq> [] then deepest_existing_canonical f p
                       else Inl (Io ''no existing ancestor'')
           | None \<Rightarrow> Inl (Io ''no existing ancestor''))
      | Inl (OtherIo m) \<Rightarrow> Inl (Io m))"
  by pat_completeness auto
termination
  by (relation "measure (\<lambda>(f, cur). length cur)") (auto simp: parent_def split: if_splits)

declare deepest_existing_canonical.simps [simp del]

definition canonical_existing_ancestor :: "fs \<Rightarrow> path \<Rightarrow> PathError + path" where
  "canonical_existing_ancestor f target = deepest_existing_canonical f target"

definition assert_under_root :: "fs \<Rightarrow> path \<Rightarrow> path \<Rightarrow> PathError + unit" where
  "assert_under_root f root_canonical target =
     and_then (deepest_existing_canonical f target)
       (\<lambda>canon. if starts_with canon root_canonical then Inr () else Inl SymlinkEscape)"

definition WorktreeRoot_new :: "path \<Rightarrow> WorktreeRoot" where
  "WorktreeRoot_new p = WorktreeRoot p"

definition WorktreeRoot_open :: "fs \<Rightarrow> path \<Rightarrow> PathError + WorktreeRoot" where
  "WorktreeRoot_open f p =
     (case canonicalize f p of
        Inl e \<Rightarrow> Inl (Io (io_message e))
      | Inr canon \<Rightarrow>
          if \<not> is_dir f canon then Inl (Io ''worktree root is not a directory'')
          else Inr (WorktreeRoot canon))"

definition canonical :: "fs \<Rightarrow> WorktreeRoot \<Rightarrow> PathError + path" where
  "canonical f r =
     (case canonicalize f (as_path r) of Inl e \<Rightarrow> Inl (Io (io_message e)) | Inr c \<Rightarrow> Inr c)"

definition confine_read :: "fs \<Rightarrow> WorktreeRoot \<Rightarrow> string \<Rightarrow> PathError + ConfinedReadPath" where
  "confine_read f r rel =
     and_then (normalize_relative rel) (\<lambda>relative.
     and_then (canonical f r) (\<lambda>root_canonical.
       let target = root_canonical @ relative in
       and_then (assert_under_root f root_canonical target) (\<lambda>_.
         Inr \<lparr>crp_root = r, crp_relative = relative\<rparr>)))"

definition confine_write :: "fs \<Rightarrow> WorktreeRoot \<Rightarrow> string \<Rightarrow> PathError + ConfinedWritePath" where
  "confine_write f r rel =
     and_then (normalize_relative rel) (\<lambda>relative.
     if relative = [] then Inl Escape
     else and_then (canonical f r) (\<lambda>root_canonical.
       let target = root_canonical @ relative in
       if is_symlink f target then Inl SymlinkEscape
       else and_then (ok_or (parent target) Escape) (\<lambda>par.
         and_then (assert_under_root f root_canonical par) (\<lambda>_.
           Inr \<lparr>cwp_root = r, cwp_relative = relative\<rparr>))))"

definition read_to_path :: "ConfinedReadPath \<Rightarrow> path" where
  "read_to_path c = as_path (crp_root c) @ crp_relative c"

definition write_to_path :: "ConfinedWritePath \<Rightarrow> path" where
  "write_to_path c = as_path (cwp_root c) @ cwp_relative c"

end
