(* ===== verification/Policy.thy ===== *)
theory Policy
  imports Confine
begin

text \<open>
  Risk, capability and approval tokens (\<^verbatim>\<open>crates/crustcore-policy\<close>): \<^verbatim>\<open>decision.rs\<close> classifies a
  proposed side effect, \<^verbatim>\<open>caps.rs\<close> holds the authority objects. The Rust fields are private and
  the constructors crate-private; the model keeps one definition per mint path.
\<close>

section \<open>Decisions (decision.rs)\<close>

datatype RiskProfile = ReadOnly | Supervised | Full

datatype PolicyDecision = Allow | Deny string | RequireApproval string

record PolicySnapshot =
  ps_profile :: RiskProfile

definition PolicySnapshot_new :: "RiskProfile \<Rightarrow> PolicySnapshot" where
  "PolicySnapshot_new p = \<lparr>ps_profile = p\<rparr>"

definition classify :: "PolicySnapshot \<Rightarrow> Reversibility \<Rightarrow> PolicyDecision" where
  "classify p r =
     (case ps_profile p of
        ReadOnly \<Rightarrow> PolicyDecision.Deny ''read-only profile forbids side effects''
      | _ \<Rightarrow>
          if requires_approval r
          then RequireApproval ''irreversible action requires an approval token''
          else Allow)"

lemma classify_Allow_iff:
  "classify p r = Allow \<longleftrightarrow> ps_profile p \<noteq> ReadOnly \<and> \<not> requires_approval r"
  by (simp add: classify_def split: RiskProfile.splits)

lemma classify_ReadOnly: "ps_profile p = ReadOnly \<Longrightarrow> \<exists>m. classify p r = PolicyDecision.Deny m"
  by (simp add: classify_def)

lemma classify_cases:
  obtains (allow) "classify p r = Allow" "ps_profile p \<noteq> ReadOnly" "\<not> requires_approval r"
  | (ask) m where "classify p r = RequireApproval m" "ps_profile p \<noteq> ReadOnly" "requires_approval r"
  | (deny) m where "classify p r = PolicyDecision.Deny m" "ps_profile p = ReadOnly"
  by (cases "ps_profile p"; cases "requires_approval r") (auto simp: classify_def)

section \<open>Capabilities (caps.rs)\<close>

record FsReadCap =
  frc_root :: WorktreeRoot
  frc_scope :: ScopeId

record FsWriteCap =
  fwc_root :: WorktreeRoot
  fwc_scope :: ScopeId

record NetworkCap =
  nc_allowlist :: DomainAllowlist
  nc_scope :: ScopeId

record GitHubWriteCap =
  gwc_repo :: RepoRef
  gwc_branch_prefix :: BranchPrefix
  gwc_scope :: ScopeId

record SandboxExecCap =
  sec_profile :: ScopeId
  sec_scope :: ScopeId

record CapabilityIssuer =
  ci_scope :: ScopeId

definition issue_fs_read :: "CapabilityIssuer \<Rightarrow> WorktreeRoot \<Rightarrow> FsReadCap" where
  "issue_fs_read i root = \<lparr>frc_root = root, frc_scope = ci_scope i\<rparr>"

definition issue_fs_write :: "CapabilityIssuer \<Rightarrow> WorktreeRoot \<Rightarrow> FsWriteCap" where
  "issue_fs_write i root = \<lparr>fwc_root = root, fwc_scope = ci_scope i\<rparr>"

definition issue_network :: "CapabilityIssuer \<Rightarrow> DomainAllowlist \<Rightarrow> NetworkCap" where
  "issue_network i a = \<lparr>nc_allowlist = a, nc_scope = ci_scope i\<rparr>"

definition issue_sandbox_exec :: "CapabilityIssuer \<Rightarrow> ScopeId \<Rightarrow> SandboxExecCap" where
  "issue_sandbox_exec i profile = \<lparr>sec_profile = profile, sec_scope = ci_scope i\<rparr>"

definition authorize_reversible :: "PolicySnapshot \<Rightarrow> ScopeId \<Rightarrow> PolicyDecision + CapabilityIssuer" where
  "authorize_reversible p s =
     (case classify p Reversible of
        Allow \<Rightarrow> Inr \<lparr>ci_scope = s\<rparr>
      | other \<Rightarrow> Inl other)"

lemma authorize_reversible_iff:
  "authorize_reversible p s = Inr i \<longleftrightarrow> ps_profile p \<noteq> ReadOnly \<and> i = \<lparr>ci_scope = s\<rparr>"
  by (auto simp: authorize_reversible_def classify_def split: RiskProfile.splits)

section \<open>Approval tokens (caps.rs)\<close>

datatype AuthorizedUser = AuthorizedUser (user_id: u64)

definition AuthorizedUser_bind :: "u64 \<Rightarrow> AuthorizedUser" where
  "AuthorizedUser_bind i = AuthorizedUser i"

record 'a Approved =
  ap_value :: 'a
  ap_approval_id :: ApprovalId
  ap_approved_by :: AuthorizedUser
  ap_expires_at :: Timestamp

definition Approved_new :: "'a \<Rightarrow> ApprovalId \<Rightarrow> AuthorizedUser \<Rightarrow> Timestamp \<Rightarrow> 'a Approved" where
  "Approved_new v aid u t =
     \<lparr>ap_value = v, ap_approval_id = aid, ap_approved_by = u, ap_expires_at = t\<rparr>"

definition approve :: "AuthorizedUser \<Rightarrow> 'a \<Rightarrow> ApprovalId \<Rightarrow> Timestamp \<Rightarrow> 'a Approved" where
  "approve u v aid t = Approved_new v aid u t"

definition is_valid_at :: "'a Approved \<Rightarrow> Timestamp \<Rightarrow> bool" where
  "is_valid_at a now = (now \<le> ap_expires_at a)"

definition approve_github_write ::
  "AuthorizedUser \<Rightarrow> RepoRef \<Rightarrow> BranchPrefix \<Rightarrow> ScopeId \<Rightarrow> ApprovalId \<Rightarrow> Timestamp \<Rightarrow>
     GitHubWriteCap \<times> GitHubWriteCap Approved" where
  "approve_github_write u repo bp s aid t =
     (let registry = \<lparr>gwc_repo = RepoRef (repo_text repo),
                      gwc_branch_prefix = BranchPrefix (prefix_text bp), gwc_scope = s\<rparr>;
          approved = approve u \<lparr>gwc_repo = repo, gwc_branch_prefix = bp, gwc_scope = s\<rparr> aid t
      in (registry, approved))"

record IrreversibleAction =
  ia_summary :: BoundedText
  ia_reversibility :: Reversibility

lemma approve_github_write_same_scope:
  "approve_github_write u repo bp s aid t = (c, a) \<Longrightarrow>
     ap_value a = c \<and> ap_approved_by a = u \<and> ap_approval_id a = aid
     \<and> (is_valid_at a now \<longleftrightarrow> now \<le> t)"
  by (auto simp: approve_github_write_def approve_def Approved_new_def is_valid_at_def Let_def)

end
