(* ===== verification/Kernel_Step.thy ===== *)
theory Kernel_Step
  imports Kernel_State Policy
begin

text \<open>
  The kernel state machine (\<^verbatim>\<open>crates/crustcore-kernel/src/kernel.rs\<close>). Every \<^verbatim>\<open>&mut self\<close> method is
  a function from the kernel to the new kernel; where the method also pushes to the action vector,
  that vector is threaded through. Records are read and written by the index the scan returned,
  as in the source.
\<close>

definition APPROVAL_TTL_MS :: u64 where
  "APPROVAL_TTL_MS = 300000"

record Kernel =
  k_next_seq :: EventSeq
  k_applied_through :: EventSeq
  k_policy :: PolicySnapshot
  k_next_approval :: u128
  k_tasks :: "TaskEntry list"
  k_jobs :: "JobEntry list"
  k_approvals :: "ApprovalEntry list"
  k_ready :: "JobId list"

definition Kernel_new :: "PolicySnapshot \<Rightarrow> Kernel" where
  "Kernel_new p =
     \<lparr>k_next_seq = EventSeq_FIRST, k_applied_through = EventSeq_FIRST, k_policy = p,
      k_next_approval = 1, k_tasks = [], k_jobs = [], k_approvals = [], k_ready = []\<rparr>"

section \<open>Arena access\<close>

definition task :: "Kernel \<Rightarrow> TaskId \<Rightarrow> TaskEntry option" where
  "task k i = find (\<lambda>t. te_id t = i) (k_tasks k)"

definition task_index :: "Kernel \<Rightarrow> TaskId \<Rightarrow> nat option" where
  "task_index k i = position (\<lambda>t. te_id t = i) (k_tasks k)"

definition job :: "Kernel \<Rightarrow> JobId \<Rightarrow> JobEntry option" where
  "job k i = find (\<lambda>j. je_id j = i) (k_jobs k)"

definition job_index :: "Kernel \<Rightarrow> JobId \<Rightarrow> nat option" where
  "job_index k i = position (\<lambda>j. je_id j = i) (k_jobs k)"

definition approval :: "Kernel \<Rightarrow> ApprovalId \<Rightarrow> ApprovalEntry option" where
  "approval k i = find (\<lambda>a. ae_id a = i) (k_approvals k)"

definition approval_index :: "Kernel \<Rightarrow> ApprovalId \<Rightarrow> nat option" where
  "approval_index k i = position (\<lambda>a. ae_id a = i) (k_approvals k)"

definition task_status :: "Kernel \<Rightarrow> TaskId \<Rightarrow> TaskStatus option" where
  "task_status k i = map_option te_status (task k i)"

definition block_reason :: "Kernel \<Rightarrow> TaskId \<Rightarrow> BlockReason option" where
  "block_reason k i = Option.bind (task k i) te_block_reason"

definition task_awaiting :: "Kernel \<Rightarrow> TaskId \<Rightarrow> ApprovalId option" where
  "task_awaiting k i = Option.bind (task k i) te_awaiting"

definition budget :: "Kernel \<Rightarrow> TaskId \<Rightarrow> Budget option" where
  "budget k i = map_option te_budget (task k i)"

definition job_status :: "Kernel \<Rightarrow> JobId \<Rightarrow> JobStatus option" where
  "job_status k i = map_option je_status (job k i)"

definition approval_status :: "Kernel \<Rightarrow> ApprovalId \<Rightarrow> ApprovalStatus option" where
  "approval_status k i = map_option ae_status (approval k i)"

text \<open>\<^verbatim>\<open>self.tasks[idx].f = v\<close> and its kin: one record overwritten in place.\<close>

definition upd_task :: "nat \<Rightarrow> (TaskEntry \<Rightarrow> TaskEntry) \<Rightarrow> Kernel \<Rightarrow> Kernel" where
  "upd_task i f k = k\<lparr>k_tasks := (k_tasks k)[i := f (k_tasks k ! i)]\<rparr>"

definition upd_job :: "nat \<Rightarrow> (JobEntry \<Rightarrow> JobEntry) \<Rightarrow> Kernel \<Rightarrow> Kernel" where
  "upd_job i f k = k\<lparr>k_jobs := (k_jobs k)[i := f (k_jobs k ! i)]\<rparr>"

definition upd_approval :: "nat \<Rightarrow> (ApprovalEntry \<Rightarrow> ApprovalEntry) \<Rightarrow> Kernel \<Rightarrow> Kernel" where
  "upd_approval i f k = k\<lparr>k_approvals := (k_approvals k)[i := f (k_approvals k ! i)]\<rparr>"

section \<open>Helpers\<close>

definition set_blocked :: "nat \<Rightarrow> BlockReason \<Rightarrow> Kernel \<Rightarrow> Kernel" where
  "set_blocked idx reason =
     upd_task idx (\<lambda>t. t\<lparr>te_status := TaskStatus.Blocked, te_block_reason := Some reason,
                          te_awaiting := None\<rparr>)"

definition set_task_status :: "nat \<Rightarrow> TaskStatus \<Rightarrow> Kernel \<Rightarrow> Kernel" where
  "set_task_status idx to k =
     (if to = TaskStatus.Blocked then set_blocked idx BlockReason.RiskDetected k
      else upd_task idx (\<lambda>t. t\<lparr>te_status := to, te_block_reason := None, te_awaiting := None\<rparr>) k)"

definition mint_approval :: "Kernel \<Rightarrow> ApprovalId \<times> Kernel" where
  "mint_approval k =
     (ApprovalId (k_next_approval k), k\<lparr>k_next_approval := saturating_add (k_next_approval k) 1\<rparr>)"

definition runnable_status :: "JobStatus \<Rightarrow> bool" where
  "runnable_status s = (s \<in> {JobStatus.Leased, JobStatus.Running})"

definition is_runnable_job :: "Kernel \<Rightarrow> JobId \<Rightarrow> TaskId \<Rightarrow> bool" where
  "is_runnable_job k job_id task_id =
     (\<exists>j\<in>set (k_jobs k). je_id j = job_id \<and> je_task j = task_id \<and> runnable_status (je_status j))"

section \<open>Jobs\<close>

definition is_activity :: "EventKind \<Rightarrow> bool" where
  "is_activity kind =
     (kind \<in> {ModelRequestStarted, ToolCallStarted, CommandStarted, SandboxStarted,
              CommandOutputCaptured, CommandCompleted, ToolCallCompleted})"

definition job_active :: "JobStatus \<Rightarrow> bool" where
  "job_active s = (s \<in> {JobStatus.Leased, JobStatus.Running, JobStatus.HeartbeatMissing})"

text \<open>The event names another lease holder than the one on record: it is stale.\<close>

definition stale_owner :: "LeaseState \<Rightarrow> LeaseOwner option \<Rightarrow> bool" where
  "stale_owner l ev_owner =
     (case (ls_owner l, ev_owner) of (Some owner, Some o') \<Rightarrow> owner \<noteq> o' | _ \<Rightarrow> False)"

definition queue_job :: "Event \<Rightarrow> Kernel \<Rightarrow> Kernel" where
  "queue_job e k =
     (case (ev_job_id e, ev_task_id e) of
        (Some jid, Some tid) \<Rightarrow>
          (case job_index k jid of
             None \<Rightarrow> k\<lparr>k_jobs := k_jobs k @ [JobEntry_new jid tid (ev_seq e)]\<rparr>
           | Some jidx \<Rightarrow>
               if je_status (k_jobs k ! jidx) = JobStatus.Retrying
               then upd_job jidx (\<lambda>j. j\<lparr>je_status := JobStatus.Queued\<rparr>) k
               else k)
      | _ \<Rightarrow> k)"

definition stop_jobs :: "Event \<Rightarrow> Kernel \<Rightarrow> Kernel" where
  "stop_jobs e k =
     (let to = (if ev_kind e = TaskKilled then JobStatus.Killed else JobStatus.Failed) in
      case ev_task_id e of
        None \<Rightarrow> k
      | Some tid \<Rightarrow>
          k\<lparr>k_jobs := map (\<lambda>j. if je_task j = tid \<and> \<not> job_is_terminal (je_status j)
                              then j\<lparr>je_status := to\<rparr> else j) (k_jobs k)\<rparr>)"

definition advance_job :: "Event \<Rightarrow> JobId \<Rightarrow> nat \<Rightarrow> Kernel \<Rightarrow> Kernel" where
  "advance_job e jid jidx k =
     (let k1 = (case job_next (je_status (k_jobs k ! jidx)) (ev_kind e) of
                  JobTransition.Move to \<Rightarrow> upd_job jidx (\<lambda>j. j\<lparr>je_status := to\<rparr>) k
                | JobTransition.Stay \<Rightarrow> k);
          k2 = (if ev_kind e = JobLeased
                then (upd_job jidx (\<lambda>j. j\<lparr>je_lease :=
                        refresh (je_lease j) (ev_lease_owner e) (ev_timestamp e)\<rparr>) k1)
                       \<lparr>k_ready := k_ready k1 @ [jid]\<rparr>
                else if is_activity (ev_kind e) \<and> ls_owner (je_lease (k_jobs k1 ! jidx)) \<noteq> None
                then upd_job jidx (\<lambda>j. j\<lparr>je_lease :=
                        refresh (je_lease j) (ls_owner (je_lease j)) (ev_timestamp e)\<rparr>) k1
                else k1)
      in upd_job jidx (\<lambda>j. j\<lparr>je_last_event := ev_seq e\<rparr>) k2)"

definition apply_job :: "Event \<Rightarrow> Kernel \<Rightarrow> Kernel" where
  "apply_job e k =
     (if ev_kind e = JobQueued then queue_job e k
      else if ev_kind e \<in> {TaskKilled, TaskFailed} then stop_jobs e k
      else (case ev_job_id e of
              None \<Rightarrow> k
            | Some jid \<Rightarrow>
                (case job_index k jid of
                   None \<Rightarrow> k
                 | Some jidx \<Rightarrow>
                     let j = k_jobs k ! jidx in
                     if job_is_terminal (je_status j) then k
                     else if job_active (je_status j) \<and> stale_owner (je_lease j) (ev_lease_owner e)
                     then k
                     else if job_active (je_status j) \<and> is_expired_at (je_lease j) (ev_timestamp e)
                     then upd_job jidx (\<lambda>j. j\<lparr>je_status := JobStatus.Expired\<rparr>) k
                     else advance_job e jid jidx k)))"

section \<open>Requests and approvals\<close>

text \<open>A request that does not declare its reversibility is treated as irreversible.\<close>

definition effective_reversibility :: "Event \<Rightarrow> Reversibility" where
  "effective_reversibility e = (case ev_reversibility e of Some r \<Rightarrow> r | None \<Rightarrow> Irreversible)"

definition open_approval :: "Event \<Rightarrow> ToolCallId \<Rightarrow> nat \<Rightarrow> Kernel \<Rightarrow> ApprovalId \<times> Kernel" where
  "open_approval e tool_call_id idx k =
     (let (approval_id, k1) = mint_approval k;
          tid = te_id (k_tasks k1 ! idx);
          expires_at = from_millis (saturating_add (as_millis (ev_timestamp e)) APPROVAL_TTL_MS);
          k2 = k1\<lparr>k_approvals := k_approvals k1 @
                 [\<lparr>ae_id = approval_id, ae_task = tid, ae_job = ev_job_id e,
                   ae_status = ApprovalStatus.Pending,
                   ae_op = \<lparr>op_tool_call_id = Some tool_call_id\<rparr>,
                   ae_expires_at = expires_at\<rparr>]\<rparr>;
          k3 = upd_task idx (\<lambda>t. t\<lparr>te_awaiting := Some approval_id,
                 te_status := TaskStatus.AwaitingApproval\<rparr>) k2
      in (approval_id, k3))"

definition classify_request :: "Event \<Rightarrow> nat \<Rightarrow> Kernel \<times> ActionVec \<Rightarrow> Kernel \<times> ActionVec" where
  "classify_request e idx = (\<lambda>(k, acts).
     case classify (k_policy k) (effective_reversibility e) of
       Allow \<Rightarrow>
         (case ev_job_id e of
            Some job_id \<Rightarrow>
              if is_runnable_job k job_id (te_id (k_tasks k ! idx))
              then (k, acts @ [RunTool job_id]) else (k, acts)
          | None \<Rightarrow> (k, acts))
     | RequireApproval _ \<Rightarrow>
         if te_awaiting (k_tasks k ! idx) \<noteq> None then (k, acts)
         else (case ev_tool_call_id e of
                 None \<Rightarrow> (set_blocked idx BlockReason.RiskDetected k, acts)
               | Some tool_call_id \<Rightarrow>
                   let (approval_id, k1) = open_approval e tool_call_id idx k
                   in (k1, acts @ [RequestApproval approval_id]))
     | PolicyDecision.Deny _ \<Rightarrow> (set_blocked idx PolicyDenied k, acts))"

definition resolve_pending :: "Event \<Rightarrow> nat \<Rightarrow> nat \<Rightarrow> Kernel \<times> ActionVec \<Rightarrow> Kernel \<times> ActionVec" where
  "resolve_pending e idx aidx = (\<lambda>(k, acts).
     case ev_resolution e of
       Some Approve \<Rightarrow>
         let k1 = upd_approval aidx (\<lambda>a. a\<lparr>ae_status := ApprovalStatus.Approved\<rparr>) k;
             jb = ae_job (k_approvals k1 ! aidx);
             tid = te_id (k_tasks k1 ! idx);
             k2 = upd_task idx (\<lambda>t. t\<lparr>te_status := TaskStatus.Running, te_block_reason := None,
                                       te_awaiting := None\<rparr>) k1
         in (case jb of
               Some job_id \<Rightarrow>
                 if is_runnable_job k2 job_id tid then (k2, acts @ [RunTool job_id]) else (k2, acts)
             | None \<Rightarrow> (k2, acts))
     | Some ApprovalResolution.Deny \<Rightarrow>
         (set_blocked idx ApprovalDenied
            (upd_approval aidx (\<lambda>a. a\<lparr>ae_status := ApprovalStatus.Denied\<rparr>) k), acts)
     | None \<Rightarrow> (k, acts))"

definition resolve_approval :: "Event \<Rightarrow> nat \<Rightarrow> Kernel \<times> ActionVec \<Rightarrow> Kernel \<times> ActionVec" where
  "resolve_approval e idx = (\<lambda>(k, acts).
     if ev_actor e \<noteq> Actor.User then (k, acts)
     else (case ev_approval_id e of
       None \<Rightarrow> (k, acts)
     | Some approval_id \<Rightarrow>
         if te_awaiting (k_tasks k ! idx) \<noteq> Some approval_id then (k, acts)
         else (case approval_index k approval_id of
           None \<Rightarrow> (k, acts)
         | Some aidx \<Rightarrow>
             let a = k_approvals k ! aidx in
             if ae_status a \<noteq> ApprovalStatus.Pending then (k, acts)
             else if \<not> op_matches (ae_op a) (ev_tool_call_id e) then (k, acts)
             else if ev_timestamp e > ae_expires_at a
             then (set_blocked idx ApprovalExpired
                     (upd_approval aidx (\<lambda>a. a\<lparr>ae_status := ApprovalStatus.Expired\<rparr>) k), acts)
             else resolve_pending e idx aidx (k, acts))))"

section \<open>The reducer\<close>

fun drain_ready_n :: "nat \<Rightarrow> Kernel \<times> ActionVec \<Rightarrow> Kernel \<times> ActionVec" where
  "drain_ready_n 0 (k, acts) = (k, acts)"
| "drain_ready_n (Suc n) (k, acts) =
     (case k_ready k of
        [] \<Rightarrow> (k, acts)
      | jid # rest \<Rightarrow>
          let k1 = k\<lparr>k_ready := rest\<rparr> in
          (case job_index k1 jid of
             None \<Rightarrow> drain_ready_n n (k1, acts)
           | Some jidx \<Rightarrow>
               let j = k_jobs k1 ! jidx;
                   task_running = (task_status k1 (je_task j) = Some TaskStatus.Running)
               in drain_ready_n n
                    (k1, if task_running \<and> runnable_status (je_status j)
                         then acts @ [RequestModel jid] else acts)))"

definition drain_ready :: "Kernel \<times> ActionVec \<Rightarrow> Kernel \<times> ActionVec" where
  "drain_ready = drain_ready_n READY_DRAIN_MAX"

definition touch_task :: "nat \<Rightarrow> EventSeq \<Rightarrow> Kernel \<Rightarrow> Kernel" where
  "touch_task idx s = upd_task idx (\<lambda>t. t\<lparr>te_last_event := s\<rparr>)"

definition create_task :: "Event \<Rightarrow> Kernel \<Rightarrow> Kernel" where
  "create_task e k =
     (case ev_task_id e of
        None \<Rightarrow> k
      | Some tid \<Rightarrow>
          (case task_index k tid of
             Some _ \<Rightarrow> k
           | None \<Rightarrow>
               (case ev_budget e of
                  Some b \<Rightarrow>
                    if is_fully_bounded b
                    then k\<lparr>k_tasks := k_tasks k @ [TaskEntry_new tid b (ev_seq e)]\<rparr> else k
                | None \<Rightarrow> k)))"

text \<open>
  The sweep at the top of \<^verbatim>\<open>process\<close>: the index of the pending approval whose deadline the event's
  timestamp has passed, if the task is waiting on one.
\<close>

definition expired_awaiting :: "Event \<Rightarrow> nat \<Rightarrow> Kernel \<Rightarrow> nat option" where
  "expired_awaiting e idx k =
     (if te_status (k_tasks k ! idx) = TaskStatus.AwaitingApproval
      then (case te_awaiting (k_tasks k ! idx) of
              None \<Rightarrow> None
            | Some aid \<Rightarrow>
                (case approval_index k aid of
                   None \<Rightarrow> None
                 | Some aidx \<Rightarrow>
                     if ev_timestamp e > ae_expires_at (k_approvals k ! aidx)
                     then Some aidx else None))
      else None)"

text \<open>
  The budget fold: the delta is recorded in every case; an exhausted axis pauses the task and ends
  the step (\<^const>\<open>Inl\<close>).
\<close>

definition fold_budget :: "Event \<Rightarrow> nat \<Rightarrow> Kernel \<Rightarrow> Kernel + Kernel" where
  "fold_budget e idx k =
     (case ev_budget_delta e of
        None \<Rightarrow> Inr k
      | Some delta \<Rightarrow>
          let (b, chk) = record_delta (te_budget (k_tasks k ! idx)) delta;
              k1 = upd_task idx (\<lambda>t. t\<lparr>te_budget := b\<rparr>) k
          in (case chk of
                Exhausted axis \<Rightarrow>
                  Inl (touch_task idx (ev_seq e) (set_blocked idx (BudgetExhausted axis) k1))
              | WithinBudget \<Rightarrow> Inr k1))"

text \<open>The dispatch on the event kind, with the source-state gate for side-effecting requests.\<close>

definition dispatch :: "Event \<Rightarrow> nat \<Rightarrow> Kernel \<times> ActionVec \<Rightarrow> Kernel \<times> ActionVec" where
  "dispatch e idx = (\<lambda>(k, acts).
     let status = te_status (k_tasks k ! idx) in
     if ev_kind e = ApprovalResolved then resolve_approval e idx (k, acts)
     else if ev_kind e = ToolCallRequested
     then (if status = TaskStatus.Running then classify_request e idx (k, acts) else (k, acts))
     else if ev_kind e = GitHubOperationRequested
     then (if status \<in> {TaskStatus.Running, TaskStatus.Integrating}
           then classify_request e idx (k, acts) else (k, acts))
     else (case task_next status (ev_kind e) of
             TaskTransition.Move to \<Rightarrow> (set_task_status idx to k, acts)
           | TaskTransition.Stay \<Rightarrow> (k, acts)))"

definition finish :: "Event \<Rightarrow> TaskId \<Rightarrow> nat \<Rightarrow> Kernel \<times> ActionVec \<Rightarrow> Kernel \<times> ActionVec" where
  "finish e tid idx = (\<lambda>(k, acts).
     let acts' = (if task_is_terminal (te_status (k_tasks k ! idx))
                  then acts @ [TaskFinished tid] else acts)
     in drain_ready (touch_task idx (ev_seq e) k, acts'))"

definition process_task :: "Event \<Rightarrow> TaskId \<Rightarrow> nat \<Rightarrow> Kernel \<times> ActionVec \<Rightarrow> Kernel \<times> ActionVec" where
  "process_task e tid idx = (\<lambda>(k, acts).
     if task_is_terminal (te_status (k_tasks k ! idx)) then (touch_task idx (ev_seq e) k, acts)
     else (case expired_awaiting e idx k of
       Some aidx \<Rightarrow>
         (touch_task idx (ev_seq e) (set_blocked idx ApprovalExpired
            (upd_approval aidx (\<lambda>a. a\<lparr>ae_status := ApprovalStatus.Expired\<rparr>) k)), acts)
     | None \<Rightarrow>
         (case fold_budget e idx k of
            Inl k1 \<Rightarrow> (k1, acts)
          | Inr k1 \<Rightarrow> finish e tid idx (dispatch e idx (apply_job e k1, acts)))))"

definition process :: "Event \<Rightarrow> Kernel \<times> ActionVec \<Rightarrow> Kernel \<times> ActionVec" where
  "process e = (\<lambda>(k, acts).
     if ev_kind e = TaskCreated then (create_task e k, acts)
     else (case ev_task_id e of
             None \<Rightarrow> (k, acts)
           | Some tid \<Rightarrow>
               (case task_index k tid of
                  None \<Rightarrow> (k, acts)
                | Some idx \<Rightarrow> process_task e tid idx (k, acts))))"

definition replayed :: "Event \<Rightarrow> Kernel \<Rightarrow> bool" where
  "replayed e k = (ev_seq e \<noteq> EventSeq_FIRST \<and> ev_seq e \<le> k_applied_through k)"

definition advance_frontier :: "Event \<Rightarrow> Kernel \<Rightarrow> Kernel" where
  "advance_frontier e k =
     (let k1 = k\<lparr>k_next_seq := next_saturating (k_next_seq k)\<rparr>
      in if ev_seq e \<noteq> EventSeq_FIRST \<and> ev_seq e > k_applied_through k1
         then k1\<lparr>k_applied_through := ev_seq e\<rparr> else k1)"

definition step :: "Kernel \<Rightarrow> Event \<Rightarrow> Kernel \<times> ActionVec" where
  "step k e =
     (if replayed e k then (k, [])
      else (let (k1, acts) = process e (k, [AppendEvent (ev_task_id e)])
            in (advance_frontier e k1, acts)))"

text \<open>A run feeds a sequence of events and collects every action.\<close>

fun run :: "Kernel \<Rightarrow> Event list \<Rightarrow> Kernel \<times> ActionVec" where
  "run k [] = (k, [])"
| "run k (e # es) =
     (let (k1, a1) = step k e; (k2, a2) = run k1 es in (k2, a1 @ a2))"

inductive reachable :: "PolicySnapshot \<Rightarrow> Kernel \<Rightarrow> bool" for p where
  reachable_new: "reachable p (Kernel_new p)"
| reachable_step: "reachable p k \<Longrightarrow> step k e = (k', acts) \<Longrightarrow> reachable p k'"

section \<open>The three arenas\<close>

interpretation tasks: arena te_id k_tasks "\<lambda>es k. k\<lparr>k_tasks := es\<rparr>" task_index task
  by unfold_locales (simp_all add: task_index_def task_def)

interpretation jobs: arena je_id k_jobs "\<lambda>es k. k\<lparr>k_jobs := es\<rparr>" job_index job
  by unfold_locales (simp_all add: job_index_def job_def)

interpretation approvals:
  arena ae_id k_approvals "\<lambda>es k. k\<lparr>k_approvals := es\<rparr>" approval_index approval
  by unfold_locales (simp_all add: approval_index_def approval_def)

end
