(* ===== verification/Kernel_Cases.thy ===== *)
theory Kernel_Cases
  imports Kernel_Step
begin

text \<open>
  What each kernel operation leaves alone, and for each operation a case rule that lists its
  outcomes with the guards that lead there. Later proofs use the rules, never the bodies.
\<close>

section \<open>Frames: what each update leaves alone\<close>

lemma upd_task_frame [simp, kernel_frame]:
  "k_next_seq (upd_task i f k) = k_next_seq k"
  "k_applied_through (upd_task i f k) = k_applied_through k"
  "k_policy (upd_task i f k) = k_policy k"
  "k_next_approval (upd_task i f k) = k_next_approval k"
  "k_jobs (upd_task i f k) = k_jobs k"
  "k_approvals (upd_task i f k) = k_approvals k"
  "k_ready (upd_task i f k) = k_ready k"
  "k_tasks (upd_task i f k) = (k_tasks k)[i := f (k_tasks k ! i)]"
  by (simp_all add: upd_task_def)

lemma upd_job_frame [simp, kernel_frame]:
  "k_next_seq (upd_job i f' k) = k_next_seq k"
  "k_applied_through (upd_job i f' k) = k_applied_through k"
  "k_policy (upd_job i f' k) = k_policy k"
  "k_next_approval (upd_job i f' k) = k_next_approval k"
  "k_tasks (upd_job i f' k) = k_tasks k"
  "k_approvals (upd_job i f' k) = k_approvals k"
  "k_ready (upd_job i f' k) = k_ready k"
  "k_jobs (upd_job i f' k) = (k_jobs k)[i := f' (k_jobs k ! i)]"
  by (simp_all add: upd_job_def)

lemma upd_approval_frame [simp, kernel_frame]:
  "k_next_seq (upd_approval i g k) = k_next_seq k"
  "k_applied_through (upd_approval i g k) = k_applied_through k"
  "k_policy (upd_approval i g k) = k_policy k"
  "k_next_approval (upd_approval i g k) = k_next_approval k"
  "k_tasks (upd_approval i g k) = k_tasks k"
  "k_jobs (upd_approval i g k) = k_jobs k"
  "k_ready (upd_approval i g k) = k_ready k"
  "k_approvals (upd_approval i g k) = (k_approvals k)[i := g (k_approvals k ! i)]"
  by (simp_all add: upd_approval_def)

text \<open>A lookup depends on its own arena only.\<close>

lemma arena_cong:
  "k_tasks k' = k_tasks k \<Longrightarrow> task_index k' = task_index k"
  "k_tasks k' = k_tasks k \<Longrightarrow> task k' = task k"
  "k_tasks k' = k_tasks k \<Longrightarrow> task_status k' = task_status k"
  "k_jobs k' = k_jobs k \<Longrightarrow> job_index k' = job_index k"
  "k_jobs k' = k_jobs k \<Longrightarrow> job k' = job k"
  "k_approvals k' = k_approvals k \<Longrightarrow> approval_index k' = approval_index k"
  "k_approvals k' = k_approvals k \<Longrightarrow> approval k' = approval k"
  by (simp_all add: fun_eq_iff task_index_def task_def task_status_def job_index_def job_def
      approval_index_def approval_def)

lemma arena_frame [simp]:
  "job_index (upd_task i f k) = job_index k" "job (upd_task i f k) = job k"
  "approval_index (upd_task i f k) = approval_index k" "approval (upd_task i f k) = approval k"
  "task_index (upd_job i f' k) = task_index k" "task (upd_job i f' k) = task k"
  "approval_index (upd_job i f' k) = approval_index k" "approval (upd_job i f' k) = approval k"
  "task_index (upd_approval i g k) = task_index k" "task (upd_approval i g k) = task k"
  "job_index (upd_approval i g k) = job_index k" "job (upd_approval i g k) = job k"
  by (rule arena_cong; simp)+

lemma task_upd_task:
  assumes "task_index k tid = Some idx" and "\<And>t. te_id (f t) = te_id t"
  shows "task (upd_task idx f k) t' =
    (if t' = tid then Some (f (k_tasks k ! idx)) else task k t')"
    and "task_index (upd_task idx f k) = task_index k"
  using tasks.lookup_put [OF assms(1)] tasks.index_put [OF assms(1)]
    tasks.index_SomeD [OF assms(1)] assms(2)
  by (simp_all add: upd_task_def fun_eq_iff)

lemma approval_upd_approval:
  assumes "approval_index k aid = Some aidx" and "\<And>a. ae_id (g a) = ae_id a"
  shows "approval (upd_approval aidx g k) a' =
    (if a' = aid then Some (g (k_approvals k ! aidx)) else approval k a')"
  using approvals.lookup_put [OF assms(1)] approvals.index_SomeD [OF assms(1)] assms(2)
  by (simp add: upd_approval_def)

lemma task_entry: "task_index k tid = Some idx \<Longrightarrow> task k tid = Some (k_tasks k ! idx)"
  by (simp add: tasks.lookup_index)

lemma task_entry_id [simp]: "task_index k tid = Some idx \<Longrightarrow> te_id (k_tasks k ! idx) = tid"
  by (auto dest: tasks.index_SomeD)

lemma approval_entry:
  "approval_index k aid = Some aidx \<Longrightarrow> approval k aid = Some (k_approvals k ! aidx)"
  by (simp add: approvals.lookup_index)

section \<open>Case rules\<close>

lemma set_blocked_eq:
  "set_blocked idx r k =
     upd_task idx (\<lambda>t. t\<lparr>te_status := TaskStatus.Blocked, te_block_reason := Some r,
                          te_awaiting := None\<rparr>) k"
  by (simp add: set_blocked_def)

lemma classify_request_cases:
  assumes "classify_request e idx (k, acts) = (k', acts')"
  obtains (ignored) "k' = k" "acts' = acts"
  | (allowed) j where "k' = k" "acts' = acts @ [RunTool j]" "ev_job_id e = Some j"
      "classify (k_policy k) (effective_reversibility e) = Allow"
      "is_runnable_job k j (te_id (k_tasks k ! idx))"
  | (asked) tc where "te_awaiting (k_tasks k ! idx) = None" "ev_tool_call_id e = Some tc"
      "requires_approval (effective_reversibility e)"
      "k' = snd (open_approval e tc idx k)"
      "acts' = acts @ [RequestApproval (ApprovalId (k_next_approval k))]"
  | (blocked) r where "k' = set_blocked idx r k" "acts' = acts"
      "r = PolicyDenied \<or> r = BlockReason.RiskDetected"
proof (cases "k_policy k" "effective_reversibility e" rule: classify_cases)
  case allow
  with assms that(1,2) show ?thesis
    by (auto simp: classify_request_def split: option.splits if_splits)
next
  case (ask m)
  show ?thesis
  proof (cases "te_awaiting (k_tasks k ! idx) = None")
    case True
    with ask assms that(3,4) show ?thesis
      by (auto simp: classify_request_def open_approval_def mint_approval_def Let_def
          split: option.splits)
  next
    case False
    with ask assms that(1) show ?thesis by (auto simp: classify_request_def)
  qed
next
  case (deny m)
  with assms that(4) show ?thesis by (auto simp: classify_request_def)
qed

text \<open>The approval a user resolution may act on: current, pending, bound to the operation.\<close>

definition resolvable :: "Event \<Rightarrow> nat \<Rightarrow> nat \<Rightarrow> Kernel \<Rightarrow> bool" where
  "resolvable e idx aidx k =
     (ev_actor e = Actor.User
      \<and> (\<exists>aid. ev_approval_id e = Some aid \<and> te_awaiting (k_tasks k ! idx) = Some aid
            \<and> approval_index k aid = Some aidx)
      \<and> ae_status (k_approvals k ! aidx) = ApprovalStatus.Pending
      \<and> op_matches (ae_op (k_approvals k ! aidx)) (ev_tool_call_id e))"

definition close_approval :: "nat \<Rightarrow> ApprovalStatus \<Rightarrow> Kernel \<Rightarrow> Kernel" where
  "close_approval aidx st = upd_approval aidx (\<lambda>a. a\<lparr>ae_status := st\<rparr>)"

definition resume_task :: "nat \<Rightarrow> Kernel \<Rightarrow> Kernel" where
  "resume_task idx = upd_task idx (\<lambda>t. t\<lparr>te_status := TaskStatus.Running,
     te_block_reason := None, te_awaiting := None\<rparr>)"

lemma close_approval_simps [simp, kernel_frame]:
  "k_tasks (close_approval i st k) = k_tasks k"
  "k_jobs (close_approval i st k) = k_jobs k"
  "k_ready (close_approval i st k) = k_ready k"
  "k_policy (close_approval i st k) = k_policy k"
  "k_next_approval (close_approval i st k) = k_next_approval k"
  "k_next_seq (close_approval i st k) = k_next_seq k"
  "k_applied_through (close_approval i st k) = k_applied_through k"
  "task_index (close_approval i st k) = task_index k" "task (close_approval i st k) = task k"
  by (simp_all add: close_approval_def)

lemma resolve_approval_cases:
  assumes "resolve_approval e idx (k, acts) = (k', acts')"
  obtains (ignored) "k' = k" "acts' = acts"
  | (expired) aidx where "resolvable e idx aidx k"
      "ev_timestamp e > ae_expires_at (k_approvals k ! aidx)"
      "k' = set_blocked idx ApprovalExpired (close_approval aidx ApprovalStatus.Expired k)"
      "acts' = acts"
  | (denied) aidx where "resolvable e idx aidx k"
      "ev_timestamp e \<le> ae_expires_at (k_approvals k ! aidx)"
      "ev_resolution e = Some ApprovalResolution.Deny"
      "k' = set_blocked idx ApprovalDenied (close_approval aidx ApprovalStatus.Denied k)"
      "acts' = acts"
  | (approved) aidx where "resolvable e idx aidx k"
      "ev_timestamp e \<le> ae_expires_at (k_approvals k ! aidx)"
      "ev_resolution e = Some Approve"
      "k' = resume_task idx (close_approval aidx ApprovalStatus.Approved k)"
      "acts' = acts \<or> (\<exists>j. ae_job (k_approvals k ! aidx) = Some j \<and> acts' = acts @ [RunTool j]
         \<and> is_runnable_job k j (te_id (k_tasks k ! idx)))"
proof (cases "\<exists>aidx. resolvable e idx aidx k")
  case False
  with assms that(1) show ?thesis
    by (auto simp: resolve_approval_def resolvable_def Let_def split: option.splits if_splits)
next
  case True
  then obtain aidx where r: "resolvable e idx aidx k" by blast
  then obtain aid where aid: "ev_approval_id e = Some aid"
    "te_awaiting (k_tasks k ! idx) = Some aid" "approval_index k aid = Some aidx"
    by (auto simp: resolvable_def)
  have lt: "aidx < length (k_approvals k)"
    using approvals.index_SomeD [OF aid(3)] by simp
  show ?thesis
  proof (cases "ev_timestamp e > ae_expires_at (k_approvals k ! aidx)")
    case True
    with r aid assms that(2) [of aidx] show ?thesis
      by (auto simp: resolve_approval_def resolvable_def Let_def close_approval_def)
  next
    case False
    then have le: "ev_timestamp e \<le> ae_expires_at (k_approvals k ! aidx)" by simp
    from False r aid assms have "resolve_pending e idx aidx (k, acts) = (k', acts')"
      by (auto simp: resolve_approval_def resolvable_def Let_def)
    then show ?thesis
      using that(1) that(3) [OF r le] that(4) [OF r le] lt
      by (auto simp: resolve_pending_def Let_def close_approval_def resume_task_def
          is_runnable_job_def split: option.splits ApprovalResolution.splits if_splits)
  qed
qed

section \<open>Jobs: what one event can do to the job arena\<close>

text \<open>
  The reference successor tables of the state machine's own property tests
  (\<^verbatim>\<open>legal_task_successors\<close>, \<^verbatim>\<open>legal_job_successors\<close>).
\<close>

fun legal_job_successors :: "JobStatus \<Rightarrow> JobStatus list" where
  "legal_job_successors JobStatus.Queued = [JobStatus.Leased, JobStatus.Killed, JobStatus.Failed]"
| "legal_job_successors JobStatus.Leased =
     [JobStatus.Running, JobStatus.Completed, JobStatus.Killed, JobStatus.Failed]"
| "legal_job_successors JobStatus.Running =
     [JobStatus.Completed, JobStatus.Killed, JobStatus.Failed]"
| "legal_job_successors JobStatus.HeartbeatMissing =
     [JobStatus.Running, JobStatus.Killed, JobStatus.Failed]"
| "legal_job_successors JobStatus.Retrying =
     [JobStatus.Queued, JobStatus.Killed, JobStatus.Failed]"
| "legal_job_successors _ = []"

fun legal_task_successors :: "TaskStatus \<Rightarrow> TaskStatus list" where
  "legal_task_successors TaskStatus.Created =
     [TaskStatus.Planning, TaskStatus.Queued, TaskStatus.Blocked, TaskStatus.Completed,
      TaskStatus.Failed, TaskStatus.Killed]"
| "legal_task_successors TaskStatus.Planning =
     [TaskStatus.Queued, TaskStatus.Running, TaskStatus.Blocked, TaskStatus.Completed,
      TaskStatus.Failed, TaskStatus.Killed]"
| "legal_task_successors TaskStatus.Queued =
     [TaskStatus.Running, TaskStatus.Blocked, TaskStatus.Completed, TaskStatus.Failed,
      TaskStatus.Killed]"
| "legal_task_successors TaskStatus.Running =
     [TaskStatus.AwaitingApproval, TaskStatus.Integrating, TaskStatus.Retrying,
      TaskStatus.Blocked, TaskStatus.Completed, TaskStatus.Failed, TaskStatus.Killed]"
| "legal_task_successors TaskStatus.AwaitingApproval =
     [TaskStatus.Blocked, TaskStatus.Completed, TaskStatus.Failed, TaskStatus.Killed]"
| "legal_task_successors TaskStatus.Blocked =
     [TaskStatus.Running, TaskStatus.Retrying, TaskStatus.Completed, TaskStatus.Failed,
      TaskStatus.Killed]"
| "legal_task_successors TaskStatus.Retrying =
     [TaskStatus.Queued, TaskStatus.Blocked, TaskStatus.Completed, TaskStatus.Failed,
      TaskStatus.Killed]"
| "legal_task_successors TaskStatus.Integrating =
     [TaskStatus.AwaitingUserReview, TaskStatus.Blocked, TaskStatus.Completed,
      TaskStatus.Failed, TaskStatus.Killed]"
| "legal_task_successors TaskStatus.AwaitingUserReview =
     [TaskStatus.Running, TaskStatus.Blocked, TaskStatus.Completed, TaskStatus.Failed,
      TaskStatus.Killed]"
| "legal_task_successors _ = []"

lemma task_next_legal:
  "task_next st kind = TaskTransition.Move to \<Longrightarrow> to = st \<or> to \<in> set (legal_task_successors st)"
  by (cases st; cases kind) (simp_all add: task_next_def)

lemma job_next_legal:
  "job_next st kind = JobTransition.Move to \<Longrightarrow> to = st \<or> to \<in> set (legal_job_successors st)"
  by (cases st; cases kind) (simp_all add: job_next_def)

text \<open>The edges of a task and of a job under a whole kernel step.\<close>

definition task_edge :: "TaskStatus \<Rightarrow> TaskStatus \<Rightarrow> bool" where
  "task_edge s s' =
     (s' = s \<or> s' \<in> set (legal_task_successors s)
      \<or> (s \<in> {TaskStatus.Running, TaskStatus.Integrating} \<and> s' = TaskStatus.AwaitingApproval)
      \<or> (s = TaskStatus.AwaitingApproval \<and> s' = TaskStatus.Running))"

definition job_edge :: "JobStatus \<Rightarrow> JobStatus \<Rightarrow> bool" where
  "job_edge s s' =
     (s' = s \<or> s' \<in> set (legal_job_successors s) \<or> (job_active s \<and> s' = JobStatus.Expired))"

definition job_evolves :: "JobEntry \<Rightarrow> JobEntry \<Rightarrow> bool" where
  "job_evolves j j' =
     (je_id j' = je_id j \<and> je_task j' = je_task j \<and> job_edge (je_status j) (je_status j'))"

lemma job_evolves_refl [simp]: "job_evolves j j"
  by (simp add: job_evolves_def job_edge_def)

lemma list_all2_update_self:
  "(\<And>x. R x x) \<Longrightarrow> (i < length xs \<Longrightarrow> R (xs ! i) y) \<Longrightarrow> list_all2 R xs (xs[i := y])"
  by (cases "i < length xs") (auto simp: list_all2_conv_all_nth nth_list_update)

lemma queue_job_frame [simp]:
  "k_tasks (queue_job e k) = k_tasks k"
  "k_approvals (queue_job e k) = k_approvals k"
  "k_policy (queue_job e k) = k_policy k"
  "k_next_approval (queue_job e k) = k_next_approval k"
  "k_next_seq (queue_job e k) = k_next_seq k"
  "k_applied_through (queue_job e k) = k_applied_through k"
  by (simp_all add: queue_job_def split: option.split)

lemma queue_job_ready [simp]: "k_ready (queue_job e k) = k_ready k"
  by (simp add: queue_job_def split: option.split)

lemma stop_jobs_frame [simp]:
  "k_tasks (stop_jobs e k) = k_tasks k"
  "k_approvals (stop_jobs e k) = k_approvals k"
  "k_policy (stop_jobs e k) = k_policy k"
  "k_next_approval (stop_jobs e k) = k_next_approval k"
  "k_next_seq (stop_jobs e k) = k_next_seq k"
  "k_applied_through (stop_jobs e k) = k_applied_through k"
  by (simp_all add: stop_jobs_def Let_def split: option.split)

lemma stop_jobs_ready [simp]: "k_ready (stop_jobs e k) = k_ready k"
  by (simp add: stop_jobs_def Let_def split: option.split)

lemma advance_job_frame [simp]:
  "k_tasks (advance_job e jid jidx k) = k_tasks k"
  "k_approvals (advance_job e jid jidx k) = k_approvals k"
  "k_policy (advance_job e jid jidx k) = k_policy k"
  "k_next_approval (advance_job e jid jidx k) = k_next_approval k"
  "k_next_seq (advance_job e jid jidx k) = k_next_seq k"
  "k_applied_through (advance_job e jid jidx k) = k_applied_through k"
  by (cases "job_next (je_status (k_jobs k ! jidx)) (ev_kind e)"; simp add: advance_job_def Let_def)+

lemma advance_job_ready:
  "k_ready (advance_job e jid jidx k) =
     (if ev_kind e = JobLeased then k_ready k @ [jid] else k_ready k)"
  by (cases "job_next (je_status (k_jobs k ! jidx)) (ev_kind e)") (simp_all add: advance_job_def Let_def)

text \<open>The five ways \<^verbatim>\<open>apply_job\<close> can end.\<close>

lemma apply_job_outcomes:
  obtains (none) "apply_job e k = k"
  | (queue) "ev_kind e = JobQueued" "apply_job e k = queue_job e k"
  | (stop) "ev_kind e \<in> {TaskKilled, TaskFailed}" "apply_job e k = stop_jobs e k"
  | (expire) jid jidx where "ev_job_id e = Some jid" "job_index k jid = Some jidx"
      "job_active (je_status (k_jobs k ! jidx))"
      "is_expired_at (je_lease (k_jobs k ! jidx)) (ev_timestamp e)"
      "apply_job e k = upd_job jidx (\<lambda>j. j\<lparr>je_status := JobStatus.Expired\<rparr>) k"
  | (advance) jid jidx where "ev_job_id e = Some jid" "job_index k jid = Some jidx"
      "\<not> job_is_terminal (je_status (k_jobs k ! jidx))"
      "apply_job e k = advance_job e jid jidx k"
proof (cases "ev_kind e = JobQueued \<or> ev_kind e \<in> {TaskKilled, TaskFailed}")
  case True
  then show ?thesis using queue stop by (auto simp: apply_job_def)
next
  case False
  show ?thesis
  proof (cases "ev_job_id e")
    case None
    with False none show ?thesis by (simp add: apply_job_def)
  next
    case (Some jid)
    show ?thesis
    proof (cases "job_index k jid")
      case None
      with False Some none show ?thesis by (simp add: apply_job_def)
    next
      case (Some jidx)
      let ?j = "k_jobs k ! jidx"
      have eq: "apply_job e k =
          (if job_is_terminal (je_status ?j) then k
           else if job_active (je_status ?j) \<and> stale_owner (je_lease ?j) (ev_lease_owner e) then k
           else if job_active (je_status ?j) \<and> is_expired_at (je_lease ?j) (ev_timestamp e)
           then upd_job jidx (\<lambda>j. j\<lparr>je_status := JobStatus.Expired\<rparr>) k
           else advance_job e jid jidx k)"
        using False Some \<open>ev_job_id e = Some jid\<close> by (simp add: apply_job_def Let_def)
      show ?thesis
        using none expire [OF \<open>ev_job_id e = Some jid\<close> Some]
          advance [OF \<open>ev_job_id e = Some jid\<close> Some] eq
        by (auto split: if_splits)
    qed
  qed
qed

lemma apply_job_frame [simp, kernel_frame]:
  "k_tasks (apply_job e k) = k_tasks k"
  "k_approvals (apply_job e k) = k_approvals k"
  "k_policy (apply_job e k) = k_policy k"
  "k_next_approval (apply_job e k) = k_next_approval k"
  "k_next_seq (apply_job e k) = k_next_seq k"
  "k_applied_through (apply_job e k) = k_applied_through k"
  by (cases e k rule: apply_job_outcomes; simp)+

lemma apply_job_ready:
  "k_ready (apply_job e k) = k_ready k
   \<or> (\<exists>j. ev_kind e = JobLeased \<and> ev_job_id e = Some j \<and> k_ready (apply_job e k) = k_ready k @ [j])"
  by (cases e k rule: apply_job_outcomes) (simp_all add: advance_job_ready)

lemma advance_job_jobs:
  "k_jobs (advance_job e jid jidx k) =
     (k_jobs k)[jidx := k_jobs (advance_job e jid jidx k) ! jidx]"
  "jidx < length (k_jobs k) \<Longrightarrow>
     job_evolves (k_jobs k ! jidx) (k_jobs (advance_job e jid jidx k) ! jidx)"
proof -
  show "k_jobs (advance_job e jid jidx k) =
     (k_jobs k)[jidx := k_jobs (advance_job e jid jidx k) ! jidx]"
    by (cases "jidx < length (k_jobs k)")
      (auto simp: advance_job_def Let_def list_update_beyond split: JobTransition.splits)
next
  assume "jidx < length (k_jobs k)"
  then show "job_evolves (k_jobs k ! jidx) (k_jobs (advance_job e jid jidx k) ! jidx)"
    by (auto simp: advance_job_def Let_def job_evolves_def job_edge_def dest: job_next_legal
        split: JobTransition.splits)
qed

lemma queue_job_cases:
  obtains (evolved) "list_all2 job_evolves (k_jobs k) (k_jobs (queue_job e k))"
  | (queued) jid tid where "ev_job_id e = Some jid" "ev_task_id e = Some tid"
      "job_index k jid = None"
      "k_jobs (queue_job e k) = k_jobs k @ [JobEntry_new jid tid (ev_seq e)]"
proof (cases "ev_job_id e"; cases "ev_task_id e")
  fix jid tid assume ids: "ev_job_id e = Some jid" "ev_task_id e = Some tid"
  show ?thesis
  proof (cases "job_index k jid")
    case None
    with ids show ?thesis by (intro queued) (simp_all add: queue_job_def)
  next
    case (Some i)
    with ids show ?thesis
      by (intro evolved) (auto simp: queue_job_def job_evolves_def job_edge_def
          intro!: list_all2_update_self list_all2_refl)
  qed
qed (rule evolved, simp add: queue_job_def list_all2_refl)+

lemma stop_jobs_evolves: "list_all2 job_evolves (k_jobs k) (k_jobs (stop_jobs e k))"
proof -
  have "\<not> job_is_terminal st \<Longrightarrow> job_edge st JobStatus.Killed \<and> job_edge st JobStatus.Failed" for st
    by (cases st) (simp_all add: job_edge_def)
  then show ?thesis
    by (cases "ev_task_id e")
      (auto simp: stop_jobs_def list_all2_conv_all_nth job_evolves_def job_edge_def Let_def)
qed

lemma apply_job_cases:
  obtains (evolved) "list_all2 job_evolves (k_jobs k) (k_jobs (apply_job e k))"
  | (queued) jid tid where "ev_kind e = JobQueued" "ev_job_id e = Some jid"
      "ev_task_id e = Some tid" "job_index k jid = None"
      "k_jobs (apply_job e k) = k_jobs k @ [JobEntry_new jid tid (ev_seq e)]"
proof (cases e k rule: apply_job_outcomes)
  case none
  then show ?thesis by (intro evolved) (simp add: list_all2_refl)
next
  case queue
  then show ?thesis
    using evolved queued by (cases rule: queue_job_cases [of k e]) simp_all
next
  case stop
  then show ?thesis by (intro evolved) (simp add: stop_jobs_evolves)
next
  case (expire jid jidx)
  then show ?thesis
    by (intro evolved) (auto simp: job_evolves_def job_edge_def intro!: list_all2_update_self)
next
  case (advance jid jidx)
  have "list_all2 job_evolves (k_jobs k) (k_jobs (advance_job e jid jidx k))"
    by (subst advance_job_jobs(1)) (rule list_all2_update_self; simp add: advance_job_jobs(2))
  with advance show ?thesis by (intro evolved) simp
qed

end
