(* ===== verification/Kernel_Inv.thy ===== *)
theory Kernel_Inv
  imports Kernel_Cases
begin

text \<open>
  The kernel's state invariant, its preservation operation by operation, and that every kernel a
  sequence of events can reach from a fresh one satisfies it.
\<close>

section \<open>The invariant\<close>

definition task_wf :: "TaskEntry \<Rightarrow> bool" where
  "task_wf t =
     (is_fully_bounded (te_budget t)
      \<and> te_status t \<noteq> TaskStatus.Archived
      \<and> (te_block_reason t \<noteq> None \<longleftrightarrow> te_status t = TaskStatus.Blocked)
      \<and> (te_awaiting t \<noteq> None \<longleftrightarrow> te_status t = TaskStatus.AwaitingApproval))"

definition job_wf :: "Kernel \<Rightarrow> JobEntry \<Rightarrow> bool" where
  "job_wf k j =
     (je_status j \<notin> {JobStatus.HeartbeatMissing, JobStatus.Retrying}
      \<and> je_task j \<in> te_id ` set (k_tasks k))"

text \<open>A task that waits, waits for a pending approval of its own that names its operation.\<close>

definition awaits_pending :: "Kernel \<Rightarrow> TaskEntry \<Rightarrow> bool" where
  "awaits_pending k t =
     (\<forall>aid. te_awaiting t = Some aid \<longrightarrow>
        (\<exists>a. approval k aid = Some a \<and> ae_task a = te_id t
             \<and> ae_status a = ApprovalStatus.Pending \<and> op_tool_call_id (ae_op a) \<noteq> None))"

text \<open>
  Approval ids are minted from a saturating 128-bit counter. As long as it has not reached its
  maximum, every id on record is below it, so the next one is fresh.
\<close>

definition approvals_wf :: "Kernel \<Rightarrow> bool" where
  "approvals_wf k =
     (k_next_approval k \<noteq> - 1 \<longrightarrow>
        (\<forall>a\<in>set (k_approvals k). approval_no (ae_id a) < k_next_approval k)
        \<and> (\<forall>t\<in>set (k_tasks k). awaits_pending k t))"

definition core_inv :: "Kernel \<Rightarrow> bool" where
  "core_inv k =
     (distinct (map te_id (k_tasks k))
      \<and> distinct (map je_id (k_jobs k))
      \<and> (\<forall>t\<in>set (k_tasks k). task_wf t)
      \<and> (\<forall>j\<in>set (k_jobs k). job_wf k j)
      \<and> approvals_wf k)"

definition kernel_inv :: "Kernel \<Rightarrow> bool" where
  "kernel_inv k = (core_inv k \<and> k_ready k = [])"

lemma core_inv_cong:
  assumes "k_tasks k' = k_tasks k" "k_jobs k' = k_jobs k" "k_approvals k' = k_approvals k"
    "k_next_approval k' = k_next_approval k"
  shows "core_inv k' = core_inv k"
  using assms
  by (simp add: core_inv_def job_wf_def approvals_wf_def awaits_pending_def approval_def)

lemma core_inv_task:
  assumes "core_inv k" and "task_index k tid = Some idx"
  shows "task_wf (k_tasks k ! idx)" "k_tasks k ! idx \<in> set (k_tasks k)"
    "k_next_approval k \<noteq> - 1 \<Longrightarrow> awaits_pending k (k_tasks k ! idx)"
  using assms tasks.index_mem [OF assms(2)]
  by (auto simp: core_inv_def approvals_wf_def)

lemma idents_upd_task:
  "task_index k tid = Some idx \<Longrightarrow> te_id (f (k_tasks k ! idx)) = te_id (k_tasks k ! idx) \<Longrightarrow>
     map te_id ((k_tasks k)[idx := f (k_tasks k ! idx)]) = map te_id (k_tasks k)"
  by (rule tasks.idents_put) auto

text \<open>One task record is rewritten; its own clauses are all there is to check.\<close>

lemma core_inv_upd_task:
  assumes inv: "core_inv k" and idx: "task_index k tid = Some idx"
    and id: "te_id (f (k_tasks k ! idx)) = te_id (k_tasks k ! idx)"
    and wf: "task_wf (f (k_tasks k ! idx))"
    and pend: "k_next_approval k \<noteq> - 1 \<Longrightarrow> awaits_pending k (f (k_tasks k ! idx))"
  shows "core_inv (upd_task idx f k)"
proof -
  have ids: "map te_id (k_tasks (upd_task idx f k)) = map te_id (k_tasks k)"
    using idents_upd_task [OF idx, of f] id by simp
  then have "te_id ` set (k_tasks (upd_task idx f k)) = te_id ` set (k_tasks k)"
    by (metis list.set_map)
  then have jw: "job_wf (upd_task idx f k) = job_wf k"
    by (simp add: fun_eq_iff job_wf_def)
  have ap: "awaits_pending (upd_task idx f k) = awaits_pending k"
    by (simp add: fun_eq_iff awaits_pending_def)
  have mem: "t \<in> set (k_tasks (upd_task idx f k)) \<Longrightarrow>
      t = f (k_tasks k ! idx) \<or> t \<in> set (k_tasks k)" for t
    by (auto dest: set_update_subset_insert [THEN subsetD])
  have "distinct (map te_id (k_tasks (upd_task idx f k)))"
    using inv ids by (metis core_inv_def)
  moreover have "\<forall>t\<in>set (k_tasks (upd_task idx f k)). task_wf t"
    using inv wf mem by (auto simp only: core_inv_def)
  moreover have "approvals_wf (upd_task idx f k)"
    unfolding approvals_wf_def ap
  proof (intro impI conjI ballI)
    assume n: "k_next_approval (upd_task idx f k) \<noteq> - 1"
    then have k: "(\<forall>a\<in>set (k_approvals k). approval_no (ae_id a) < k_next_approval k)
        \<and> (\<forall>t\<in>set (k_tasks k). awaits_pending k t)"
      using inv by (simp add: core_inv_def approvals_wf_def)
    show "approval_no (ae_id a) < k_next_approval (upd_task idx f k)"
      if "a \<in> set (k_approvals (upd_task idx f k))" for a
      using k that by simp
    show "awaits_pending k t" if "t \<in> set (k_tasks (upd_task idx f k))" for t
      using mem [OF that] k pend n by auto
  qed
  ultimately show ?thesis
    using inv jw by (simp add: core_inv_def del: upd_task_frame(8))
qed

text \<open>The awaited approval is closed and the task stops waiting, in one move.\<close>

lemma core_inv_close:
  assumes inv: "core_inv k" and idx: "task_index k tid = Some idx"
    and aw: "te_awaiting (k_tasks k ! idx) = Some aid" and aidx: "approval_index k aid = Some aidx"
    and id: "\<And>t. te_id (f t) = te_id t" and wf: "task_wf (f (k_tasks k ! idx))"
    and none: "te_awaiting (f (k_tasks k ! idx)) = None"
  shows "core_inv (upd_task idx f (close_approval aidx st k))"
proof -
  let ?k1 = "close_approval aidx st k"
  have idx1: "task_index ?k1 tid = Some idx" using idx by simp
  have lk: "approval ?k1 a' =
      (if a' = aid then Some ((k_approvals k ! aidx)\<lparr>ae_status := st\<rparr>) else approval k a')" for a'
    unfolding close_approval_def by (rule approval_upd_approval [OF aidx]) simp
  have ids: "map ae_id (k_approvals ?k1) = map ae_id (k_approvals k)"
    using approvals.idents_put [OF aidx, of "(k_approvals k ! aidx)\<lparr>ae_status := st\<rparr>"]
      approvals.index_SomeD [OF aidx]
    by (simp add: close_approval_def)
  have bound: "\<forall>a\<in>set (k_approvals ?k1). approval_no (ae_id a) < k_next_approval k"
    if "k_next_approval k \<noteq> - 1"
  proof -
    have "\<forall>a\<in>set (k_approvals k). approval_no (ae_id a) < k_next_approval k"
      using inv that by (simp add: core_inv_def approvals_wf_def)
    then have "\<forall>i\<in>ae_id ` set (k_approvals k). approval_no i < k_next_approval k" by simp
    also have "ae_id ` set (k_approvals k) = ae_id ` set (k_approvals ?k1)"
      using ids by (simp flip: set_map)
    finally show ?thesis by blast
  qed
  have dist: "distinct (map te_id (k_tasks k))" using inv by (simp add: core_inv_def)
  have ap: "awaits_pending (upd_task idx f ?k1) t"
    if n: "k_next_approval k \<noteq> - 1" and t: "t \<in> set (k_tasks (upd_task idx f ?k1))" for t
  proof (cases "t = f (k_tasks k ! idx)")
    case True
    then show ?thesis by (simp add: awaits_pending_def none)
  next
    case False
    with t have t': "t \<in> set (k_tasks k)" "te_id t \<noteq> tid"
      using tasks.mem_put_iff [OF dist idx] by auto
    have own: "awaits_pending k (k_tasks k ! idx)"
      using core_inv_task(3) [OF inv idx n] .
    have "awaits_pending k t"
      using inv n t' by (simp add: core_inv_def approvals_wf_def)
    moreover from own aw idx have "\<exists>a. approval k aid = Some a \<and> ae_task a = tid"
      by (auto simp: awaits_pending_def)
    ultimately have "te_awaiting t \<noteq> Some aid"
      using t'(2) by (auto simp: awaits_pending_def)
    with \<open>awaits_pending k t\<close> show ?thesis
      by (auto simp: awaits_pending_def lk)
  qed
  have ids_t: "map te_id (k_tasks (upd_task idx f ?k1)) = map te_id (k_tasks k)"
    using idents_upd_task [OF idx, of f] id by simp
  then have "te_id ` set (k_tasks (upd_task idx f ?k1)) = te_id ` set (k_tasks k)"
    by (metis list.set_map)
  then have "job_wf (upd_task idx f ?k1) = job_wf k"
    by (simp add: fun_eq_iff job_wf_def)
  moreover have "\<forall>t\<in>set (k_tasks (upd_task idx f ?k1)). task_wf t"
    using inv wf tasks.mem_put_iff [OF dist idx] by (auto simp: core_inv_def)
  ultimately show ?thesis
    using inv ids_t dist bound ap
    by (simp add: core_inv_def approvals_wf_def del: upd_task_frame(8))
qed

section \<open>Preservation\<close>

lemma evolves_idents:
  "list_all2 job_evolves js js' \<Longrightarrow> map je_id js' = map je_id js"
  by (induction rule: list_all2_induct) (auto simp: job_evolves_def)

lemma job_edge_settled:
  "job_edge st st' \<Longrightarrow> st \<notin> {JobStatus.HeartbeatMissing, JobStatus.Retrying} \<Longrightarrow>
     st' \<notin> {JobStatus.HeartbeatMissing, JobStatus.Retrying}"
  by (cases st) (auto simp: job_edge_def job_active_def)

lemma evolves_job_wf:
  assumes "list_all2 job_evolves js js'" and "\<forall>j\<in>set js. job_wf k j"
  shows "\<forall>j\<in>set js'. job_wf k j"
  using assms
proof (induction rule: list_all2_induct)
  case (Cons j js j' js')
  then have "je_task j' = je_task j" "job_edge (je_status j) (je_status j')" "job_wf k j"
    by (auto simp: job_evolves_def)
  then have "job_wf k j'"
    using job_edge_settled [of "je_status j" "je_status j'"] by (auto simp: job_wf_def)
  with Cons show ?case by simp
qed simp

lemma core_inv_apply_job:
  assumes inv: "core_inv k" and tid: "ev_task_id e = Some tid" "task_index k tid \<noteq> None"
  shows "core_inv (apply_job e k)"
proof -
  have wf: "job_wf (apply_job e k) = job_wf k"
    by (simp add: fun_eq_iff job_wf_def)
  have ap: "approvals_wf (apply_job e k) = approvals_wf k"
    by (simp add: approvals_wf_def awaits_pending_def approval_def)
  have "distinct (map je_id (k_jobs (apply_job e k))) \<and> (\<forall>j\<in>set (k_jobs (apply_job e k)). job_wf k j)"
  proof (cases rule: apply_job_cases [of k e])
    case evolved
    have "distinct (map je_id (k_jobs (apply_job e k)))"
      using evolves_idents [OF evolved] inv by (simp add: core_inv_def)
    moreover have "\<forall>j\<in>set (k_jobs (apply_job e k)). job_wf k j"
      by (rule evolves_job_wf [OF evolved]) (use inv in \<open>simp add: core_inv_def\<close>)
    ultimately show ?thesis ..
  next
    case (queued jid tid')
    have "job_wf k (JobEntry_new jid tid (ev_seq e))"
      using tid(2) by (auto simp: job_wf_def JobEntry_new_def tasks.index_None_iff)
    moreover have "distinct (map je_id (k_jobs k @ [JobEntry_new jid tid (ev_seq e)]))"
      using inv queued(4) by (intro jobs.distinct_push) (simp_all add: core_inv_def JobEntry_new_def)
    ultimately show ?thesis
      using inv queued tid(1) by (auto simp: core_inv_def)
  qed
  then show ?thesis using inv by (simp add: core_inv_def wf ap)
qed

lemma task_wf_blocked [simp]:
  "task_wf (t\<lparr>te_status := TaskStatus.Blocked, te_block_reason := Some r, te_awaiting := None\<rparr>) \<longleftrightarrow>
     is_fully_bounded (te_budget t)"
  by (simp add: task_wf_def)

lemma task_wf_bounded: "task_wf t \<Longrightarrow> is_fully_bounded (te_budget t)"
  by (simp add: task_wf_def)

lemma core_inv_set_blocked:
  "core_inv k \<Longrightarrow> task_index k tid = Some idx \<Longrightarrow> core_inv (set_blocked idx r k)"
  unfolding set_blocked_def
  by (rule core_inv_upd_task) (auto simp: awaits_pending_def dest: core_inv_task(1) task_wf_bounded)

lemma core_inv_touch:
  assumes "core_inv k" and "task_index k tid = Some idx"
  shows "core_inv (touch_task idx s k)"
  unfolding touch_task_def
  using assms core_inv_task [OF assms]
  by (intro core_inv_upd_task) (auto simp: task_wf_def awaits_pending_def)

lemma core_inv_set_task_status:
  assumes "core_inv k" and "task_index k tid = Some idx"
    and "to \<notin> {TaskStatus.Archived, TaskStatus.AwaitingApproval}"
  shows "core_inv (set_task_status idx to k)"
proof (cases "to = TaskStatus.Blocked")
  case True
  with assms show ?thesis by (simp add: set_task_status_def core_inv_set_blocked)
next
  case False
  have "core_inv (upd_task idx (\<lambda>t. t\<lparr>te_status := to, te_block_reason := None,
      te_awaiting := None\<rparr>) k)"
    using assms False core_inv_task(1) [OF assms(1,2)]
    by (intro core_inv_upd_task) (auto simp: task_wf_def awaits_pending_def)
  with False show ?thesis by (simp add: set_task_status_def)
qed

lemma core_inv_open_approval:
  assumes inv: "core_inv k" and idx: "task_index k tid = Some idx"
    and st: "te_status (k_tasks k ! idx) \<notin> {TaskStatus.Blocked}"
  shows "core_inv (snd (open_approval e tc idx k))"
proof -
  let ?aid = "ApprovalId (k_next_approval k)"
  define a where "a = \<lparr>ae_id = ?aid, ae_task = te_id (k_tasks k ! idx), ae_job = ev_job_id e,
    ae_status = ApprovalStatus.Pending, ae_op = \<lparr>op_tool_call_id = Some tc\<rparr>,
    ae_expires_at = from_millis (saturating_add (as_millis (ev_timestamp e)) APPROVAL_TTL_MS)\<rparr>"
  define k2 where "k2 = k\<lparr>k_next_approval := saturating_add (k_next_approval k) 1,
    k_approvals := k_approvals k @ [a]\<rparr>"
  define f where "f = (\<lambda>t :: TaskEntry. t\<lparr>te_awaiting := Some ?aid, te_status := TaskStatus.AwaitingApproval\<rparr>)"
  have eq: "snd (open_approval e tc idx k) = upd_task idx f k2"
    by (simp add: open_approval_def mint_approval_def Let_def k2_def a_def f_def)
  have sat: "k_next_approval k \<noteq> - 1" if "k_next_approval k2 \<noteq> - 1"
    using that by (auto simp: k2_def)
  have fresh: "approval_index k (ae_id a) = None" if "k_next_approval k \<noteq> - 1"
  proof -
    have "\<forall>x\<in>set (k_approvals k). approval_no (ae_id x) < k_next_approval k"
      using inv that by (simp add: core_inv_def approvals_wf_def)
    then have "\<forall>x\<in>set (k_approvals k). ae_id x \<noteq> ?aid"
      by (metis ApprovalId.sel less_irrefl)
    then show ?thesis by (auto simp: approvals.index_None_iff a_def)
  qed
  have lk: "approval k2 a' = (if a' = ?aid then Some a else approval k a')"
    if "k_next_approval k \<noteq> - 1" for a'
    using approvals.lookup_push [OF fresh [OF that]] by (simp add: k2_def approval_def a_def)
  have inv2: "core_inv k2"
  proof -
    have "approvals_wf k2"
      unfolding approvals_wf_def
    proof (intro impI conjI ballI)
      assume n2: "k_next_approval k2 \<noteq> - 1"
      note n = sat [OF n2]
      have less: "k_next_approval k < k_next_approval k2"
        using saturating_add_1_less [OF n] by (simp add: k2_def)
      have old: "\<forall>x\<in>set (k_approvals k). approval_no (ae_id x) < k_next_approval k"
        and pend: "\<forall>t\<in>set (k_tasks k). awaits_pending k t"
        using inv n by (simp_all add: core_inv_def approvals_wf_def)
      show "approval_no (ae_id x) < k_next_approval k2" if "x \<in> set (k_approvals k2)" for x
        using that old less by (auto simp: k2_def a_def intro: less_trans)
      show "awaits_pending k2 t" if "t \<in> set (k_tasks k2)" for t
      proof -
        have t: "awaits_pending k t" using that pend by (simp add: k2_def)
        have "approval k ?aid = None"
          using fresh [OF n] by (simp add: approvals.lookup_None_iff a_def)
        with t show ?thesis by (auto simp: awaits_pending_def lk [OF n])
      qed
    qed
    with inv show ?thesis by (simp add: core_inv_def k2_def job_wf_def)
  qed
  have idx2: "task_index k2 tid = Some idx" using idx by (simp add: k2_def task_index_def)
  have entry2: "k_tasks k2 ! idx = k_tasks k ! idx" by (simp add: k2_def)
  show ?thesis
    unfolding eq
  proof (rule core_inv_upd_task [OF inv2 idx2])
    show "task_wf (f (k_tasks k2 ! idx))"
      using core_inv_task(1) [OF inv idx] st by (simp add: task_wf_def f_def entry2)
    show "awaits_pending k2 (f (k_tasks k2 ! idx))" if "k_next_approval k2 \<noteq> - 1"
      using lk [OF sat [OF that]] by (simp add: awaits_pending_def f_def entry2 a_def)
  qed (simp add: f_def)
qed

lemma core_inv_classify_request:
  assumes inv: "core_inv k" and idx: "task_index k tid = Some idx"
    and st: "te_status (k_tasks k ! idx) \<noteq> TaskStatus.Blocked"
    and eq: "classify_request e idx (k, acts) = (k', acts')"
  shows "core_inv k'"
  using eq
proof (cases rule: classify_request_cases)
  case (asked tc)
  with core_inv_open_approval [OF inv idx] st show ?thesis by simp
next
  case (blocked r)
  with core_inv_set_blocked [OF inv idx] show ?thesis by simp
qed (use inv in auto)

lemma resolvable_awaiting:
  assumes "resolvable e idx aidx k"
  obtains aid where "ev_approval_id e = Some aid" "te_awaiting (k_tasks k ! idx) = Some aid"
    "approval_index k aid = Some aidx"
  using assms by (auto simp: resolvable_def)

lemma core_inv_resolve_approval:
  assumes inv: "core_inv k" and idx: "task_index k tid = Some idx"
    and eq: "resolve_approval e idx (k, acts) = (k', acts')"
  shows "core_inv k'"
proof -
  have bounded: "is_fully_bounded (te_budget (k_tasks k ! idx))"
    using core_inv_task(1) [OF inv idx] by (rule task_wf_bounded)
  have blocked: "core_inv (set_blocked idx r (close_approval aidx st k))"
    if "resolvable e idx aidx k" for aidx r st
    using that
  proof (cases rule: resolvable_awaiting)
    case (1 aid)
    show ?thesis
      unfolding set_blocked_eq
      by (rule core_inv_close [OF inv idx 1(2,3)]) (use bounded in simp_all)
  qed
  have resumed: "core_inv (resume_task idx (close_approval aidx st k))"
    if "resolvable e idx aidx k" for aidx st
    using that
  proof (cases rule: resolvable_awaiting)
    case (1 aid)
    show ?thesis
      unfolding resume_task_def
      by (rule core_inv_close [OF inv idx 1(2,3)]) (use bounded in \<open>simp_all add: task_wf_def\<close>)
  qed
  from eq show ?thesis
    by (cases rule: resolve_approval_cases) (use inv blocked resumed in auto)
qed

lemma dispatch_cases:
  assumes "dispatch e idx (k, acts) = (k', acts')"
  obtains (resolve) "ev_kind e = ApprovalResolved" "resolve_approval e idx (k, acts) = (k', acts')"
  | (request) "ev_kind e \<in> {ToolCallRequested, GitHubOperationRequested}"
      "te_status (k_tasks k ! idx) \<in> {TaskStatus.Running, TaskStatus.Integrating}"
      "ev_kind e = ToolCallRequested \<Longrightarrow> te_status (k_tasks k ! idx) = TaskStatus.Running"
      "classify_request e idx (k, acts) = (k', acts')"
  | (ignored) "k' = k" "acts' = acts"
  | (moved) to where "task_next (te_status (k_tasks k ! idx)) (ev_kind e) = TaskTransition.Move to"
      "k' = set_task_status idx to k" "acts' = acts"
proof -
  let ?st = "te_status (k_tasks k ! idx)"
  consider (a) "ev_kind e = ApprovalResolved"
    | (t) "ev_kind e = ToolCallRequested" | (g) "ev_kind e = GitHubOperationRequested"
    | (o) "ev_kind e \<notin> {ApprovalResolved, ToolCallRequested, GitHubOperationRequested}" by blast
  then show thesis
  proof cases
    case a
    with assms resolve show ?thesis by (simp add: dispatch_def)
  next
    case t
    with assms request ignored show ?thesis
      by (cases "?st = TaskStatus.Running") (simp_all add: dispatch_def)
  next
    case g
    with assms request ignored show ?thesis
      by (cases "?st \<in> {TaskStatus.Running, TaskStatus.Integrating}") (simp_all add: dispatch_def)
  next
    case o
    with assms moved ignored show ?thesis
      by (cases "task_next ?st (ev_kind e)") (simp_all add: dispatch_def)
  qed
qed

lemma task_next_targets:
  "task_next st kind = TaskTransition.Move to \<Longrightarrow>
     to \<notin> {TaskStatus.Archived, TaskStatus.AwaitingApproval}"
  by (cases st; cases kind) (simp_all add: task_next_def)

lemma core_inv_dispatch:
  assumes inv: "core_inv k" and idx: "task_index k tid = Some idx"
    and eq: "dispatch e idx (k, acts) = (k', acts')"
  shows "core_inv k'"
  using eq
proof (cases rule: dispatch_cases)
  case resolve
  with core_inv_resolve_approval [OF inv idx] show ?thesis by blast
next
  case request
  then have "te_status (k_tasks k ! idx) \<noteq> TaskStatus.Blocked" by auto
  with core_inv_classify_request [OF inv idx] request show ?thesis by blast
next
  case (moved to)
  with core_inv_set_task_status [OF inv idx task_next_targets] show ?thesis by blast
qed (use inv in auto)

lemma drain_ready_1:
  "drain_ready (k, acts) =
     (case k_ready k of
        [] \<Rightarrow> (k, acts)
      | jid # rest \<Rightarrow>
          (k\<lparr>k_ready := rest\<rparr>,
           case job_index k jid of
             None \<Rightarrow> acts
           | Some jidx \<Rightarrow>
               if task_status k (je_task (k_jobs k ! jidx)) = Some TaskStatus.Running
                  \<and> runnable_status (je_status (k_jobs k ! jidx))
               then acts @ [RequestModel jid] else acts))"
  by (auto simp: drain_ready_def READY_DRAIN_MAX_def Let_def job_index_def task_status_def task_def
      split: list.split option.split)

lemma drain_ready_frame:
  assumes "drain_ready (k, acts) = (k', acts')"
  shows "k_tasks k' = k_tasks k" "k_jobs k' = k_jobs k" "k_approvals k' = k_approvals k"
    "k_next_approval k' = k_next_approval k" "k_policy k' = k_policy k"
    "k_ready k' = tl (k_ready k)" "k_next_seq k' = k_next_seq k"
    "k_applied_through k' = k_applied_through k"
  using assms by (auto simp: drain_ready_1 split: list.splits)

section \<open>One event\<close>

lemma expired_awaiting_Some:
  assumes "expired_awaiting e idx k = Some aidx"
  obtains aid where "te_status (k_tasks k ! idx) = TaskStatus.AwaitingApproval"
    "te_awaiting (k_tasks k ! idx) = Some aid" "approval_index k aid = Some aidx"
    "ev_timestamp e > ae_expires_at (k_approvals k ! aidx)"
  using assms by (auto simp: expired_awaiting_def split: if_splits option.splits)

definition charge :: "Event \<Rightarrow> nat \<Rightarrow> Kernel \<Rightarrow> Kernel" where
  "charge e idx k =
     (case ev_budget_delta e of
        None \<Rightarrow> k
      | Some d \<Rightarrow> upd_task idx (\<lambda>t. t\<lparr>te_budget := fst (record_delta (te_budget t) d)\<rparr>) k)"

lemma fold_budget_cases:
  obtains (within) "fold_budget e idx k = Inr (charge e idx k)"
      "\<And>d. ev_budget_delta e = Some d \<Longrightarrow>
         snd (record_delta (te_budget (k_tasks k ! idx)) d) = WithinBudget"
  | (exhausted) d axis where "ev_budget_delta e = Some d"
      "snd (record_delta (te_budget (k_tasks k ! idx)) d) = Exhausted axis"
      "fold_budget e idx k =
         Inl (touch_task idx (ev_seq e) (set_blocked idx (BudgetExhausted axis) (charge e idx k)))"
proof (cases "ev_budget_delta e")
  case None
  with within show ?thesis by (simp add: fold_budget_def charge_def)
next
  case (Some d)
  obtain b c where bc: "record_delta (te_budget (k_tasks k ! idx)) d = (b, c)" by fastforce
  have ch: "charge e idx k = upd_task idx (\<lambda>t. t\<lparr>te_budget := b\<rparr>) k"
    using Some bc by (simp add: charge_def upd_task_def)
  show ?thesis
    using Some bc within exhausted [OF Some] ch
    by (cases c) (simp_all add: fold_budget_def Let_def)
qed

text \<open>The four ways an event that names a known task can go.\<close>

lemma process_task_cases:
  assumes "process_task e tid idx (k, acts) = (k', acts')"
  obtains (finished) "task_is_terminal (te_status (k_tasks k ! idx))"
      "k' = touch_task idx (ev_seq e) k" "acts' = acts"
  | (swept) aidx where "expired_awaiting e idx k = Some aidx"
      "k' = touch_task idx (ev_seq e)
         (set_blocked idx ApprovalExpired (close_approval aidx ApprovalStatus.Expired k))"
      "acts' = acts"
  | (exhausted) d axis where "\<not> task_is_terminal (te_status (k_tasks k ! idx))"
      "expired_awaiting e idx k = None" "ev_budget_delta e = Some d"
      "snd (record_delta (te_budget (k_tasks k ! idx)) d) = Exhausted axis"
      "k' = touch_task idx (ev_seq e) (set_blocked idx (BudgetExhausted axis) (charge e idx k))"
      "acts' = acts"
  | (dispatched) k2 a2 where "\<not> task_is_terminal (te_status (k_tasks k ! idx))"
      "expired_awaiting e idx k = None"
      "\<And>d. ev_budget_delta e = Some d \<Longrightarrow>
         snd (record_delta (te_budget (k_tasks k ! idx)) d) = WithinBudget"
      "dispatch e idx (apply_job e (charge e idx k), acts) = (k2, a2)"
      "finish e tid idx (k2, a2) = (k', acts')"
proof (cases "task_is_terminal (te_status (k_tasks k ! idx))")
  case True
  with assms finished show ?thesis by (simp add: process_task_def)
next
  case nt: False
  show ?thesis
  proof (cases "expired_awaiting e idx k")
    case (Some aidx)
    with nt assms swept show ?thesis by (simp add: process_task_def close_approval_def)
  next
    case None
    note [simp] = nt None
    show ?thesis
    proof (cases rule: fold_budget_cases [where e = e and idx = idx and k = k])
      case within
      obtain k2 a2 where d: "dispatch e idx (apply_job e (charge e idx k), acts) = (k2, a2)"
        by fastforce
      with assms within dispatched [OF nt None within(2) d] show ?thesis
        by (simp add: process_task_def)
    next
      case (exhausted d axis)
      with assms that(3) [OF nt None exhausted(1,2)] show ?thesis
        by (simp add: process_task_def)
    qed
  qed
qed

lemma charge_frame [simp, kernel_frame]:
  "k_next_seq (charge e idx k) = k_next_seq k"
  "k_applied_through (charge e idx k) = k_applied_through k"
  "k_policy (charge e idx k) = k_policy k"
  "k_next_approval (charge e idx k) = k_next_approval k"
  "k_jobs (charge e idx k) = k_jobs k"
  "k_approvals (charge e idx k) = k_approvals k"
  "k_ready (charge e idx k) = k_ready k"
  by (simp_all add: charge_def split: option.split)

lemma charge_entry:
  assumes "task_index k tid = Some idx"
  shows "k_tasks (charge e idx k) ! idx = (k_tasks k ! idx)\<lparr>te_budget :=
      (case ev_budget_delta e of None \<Rightarrow> te_budget (k_tasks k ! idx)
       | Some d \<Rightarrow> fst (record_delta (te_budget (k_tasks k ! idx)) d))\<rparr>"
  using assms tasks.index_SomeD [OF assms]
  by (auto simp: charge_def split: option.split)

lemma core_inv_charge:
  assumes "core_inv k" and "task_index k tid = Some idx"
  shows "core_inv (charge e idx k)"
  using assms core_inv_task [OF assms]
  by (auto simp: charge_def task_wf_def awaits_pending_def intro!: core_inv_upd_task
      split: option.split)

text \<open>Task lookups survive every operation on one event.\<close>

lemma task_index_upd_task: "(\<And>t. te_id (f t) = te_id t) \<Longrightarrow> task_index (upd_task i f k) = task_index k"
  by (simp add: fun_eq_iff task_index_def position_list_update)

lemma task_index_upd [simp]:
  "task_index (set_blocked idx r k) = task_index k"
  "task_index (touch_task idx s k) = task_index k"
  "task_index (set_task_status idx to k) = task_index k"
  "task_index (resume_task idx k) = task_index k"
  "task_index (charge e idx k) = task_index k"
  by (simp_all add: set_task_status_def set_blocked_def touch_task_def resume_task_def charge_def
      task_index_upd_task split: option.split)

lemma task_index_apply_job [simp]: "task_index (apply_job e k) = task_index k"
  by (rule arena_cong) simp

lemma task_index_open_approval [simp]:
  "task_index (snd (open_approval e tc idx k)) = task_index k"
proof -
  have "task_index (k\<lparr>k_next_approval := n, k_approvals := as\<rparr>) = task_index k" for n as
    by (rule arena_cong) simp
  then show ?thesis
    by (simp add: open_approval_def mint_approval_def Let_def task_index_upd_task)
qed

lemma task_index_dispatch:
  assumes "dispatch e idx (k, acts) = (k', acts')"
  shows "task_index k' = task_index k"
  using assms
proof (cases rule: dispatch_cases)
  case resolve
  from resolve(2) show ?thesis by (cases rule: resolve_approval_cases) auto
next
  case request
  from request(4) show ?thesis by (cases rule: classify_request_cases) auto
qed auto

lemma set_blocked_ready [simp]: "k_ready (set_blocked idx r k) = k_ready k"
  "k_ready (touch_task idx s k) = k_ready k"
  "k_ready (set_task_status idx to k) = k_ready k"
  "k_ready (resume_task idx k) = k_ready k"
  "k_ready (snd (open_approval e tc idx k)) = k_ready k"
  by (simp_all add: set_blocked_def touch_task_def set_task_status_def resume_task_def
      open_approval_def mint_approval_def Let_def)

lemma dispatch_ready:
  assumes "dispatch e idx (k, acts) = (k', acts')"
  shows "k_ready k' = k_ready k"
  using assms
proof (cases rule: dispatch_cases)
  case resolve
  from resolve(2) show ?thesis by (cases rule: resolve_approval_cases) auto
next
  case request
  from request(4) show ?thesis by (cases rule: classify_request_cases) auto
qed auto

lemma core_inv_finish:
  assumes inv: "core_inv k" and idx: "task_index k tid = Some idx"
    and eq: "finish e tid idx (k, acts) = (k', acts')"
  shows "core_inv k'" and "k_ready k' = tl (k_ready k)"
proof -
  obtain a where d: "drain_ready (touch_task idx (ev_seq e) k, a) = (k', acts')"
    using eq by (auto simp: finish_def Let_def)
  show "core_inv k'"
    using core_inv_touch [OF inv idx] core_inv_cong [OF drain_ready_frame(1-4) [OF d]] by simp
  show "k_ready k' = tl (k_ready k)"
    using drain_ready_frame(6) [OF d] by simp
qed

lemma kernel_inv_process_task:
  assumes inv: "kernel_inv k" and idx: "task_index k tid = Some idx" "ev_task_id e = Some tid"
    and eq: "process_task e tid idx (k, acts) = (k', acts')"
  shows "kernel_inv k'"
proof -
  have core: "core_inv k" and ready: "k_ready k = []"
    using inv by (simp_all add: kernel_inv_def)
  from eq show ?thesis
  proof (cases rule: process_task_cases)
    case finished
    with core_inv_touch [OF core idx(1)] ready show ?thesis by (simp add: kernel_inv_def)
  next
    case (swept aidx)
    from swept(1) obtain aid where aid: "te_awaiting (k_tasks k ! idx) = Some aid"
      "approval_index k aid = Some aidx" by (rule expired_awaiting_Some)
    have "core_inv (set_blocked idx ApprovalExpired (close_approval aidx ApprovalStatus.Expired k))"
      unfolding set_blocked_eq
      using core_inv_task(1) [OF core idx(1)]
      by (intro core_inv_close [OF core idx(1) aid]) (simp_all add: task_wf_bounded)
    then have "core_inv k'"
      unfolding swept(2) by (rule core_inv_touch [of _ tid]) (simp add: idx)
    with swept ready show ?thesis by (simp add: kernel_inv_def)
  next
    case (exhausted d axis)
    have "core_inv k'"
      unfolding exhausted(5)
      by (intro core_inv_touch [of _ tid] core_inv_set_blocked [of _ tid]
          core_inv_charge [OF core idx(1)])
        (simp_all add: idx)
    with exhausted ready show ?thesis by (simp add: kernel_inv_def)
  next
    case (dispatched k2 a2)
    have i1: "task_index (apply_job e (charge e idx k)) tid = Some idx"
      using idx by simp
    have c1: "core_inv (apply_job e (charge e idx k))"
      using i1 by (intro core_inv_apply_job [OF core_inv_charge [OF core idx(1)] idx(2)]) simp
    have c2: "core_inv k2" by (rule core_inv_dispatch [OF c1 i1 dispatched(4)])
    have i2: "task_index k2 tid = Some idx"
      using task_index_dispatch [OF dispatched(4)] i1 by simp
    have "tl (k_ready k2) = []"
      using apply_job_ready [of e "charge e idx k"] dispatch_ready [OF dispatched(4)] ready by auto
    with core_inv_finish [OF c2 i2 dispatched(5)] show ?thesis by (simp add: kernel_inv_def)
  qed
qed

lemma process_cases:
  assumes "process e (k, acts) = (k', acts')"
  obtains (create) "ev_kind e = TaskCreated" "k' = create_task e k" "acts' = acts"
  | (ignored) "k' = k" "acts' = acts"
  | (known) tid idx where "ev_kind e \<noteq> TaskCreated" "ev_task_id e = Some tid"
      "task_index k tid = Some idx" "process_task e tid idx (k, acts) = (k', acts')"
  using assms by (auto simp: process_def split: if_splits option.splits)

lemma create_task_cases:
  obtains (ignored) "create_task e k = k"
  | (created) tid b where "ev_task_id e = Some tid" "task_index k tid = None"
      "ev_budget e = Some b" "is_fully_bounded b"
      "create_task e k = k\<lparr>k_tasks := k_tasks k @ [TaskEntry_new tid b (ev_seq e)]\<rparr>"
proof (cases "ev_task_id e")
  case tid: (Some tid)
  show ?thesis
  proof (cases "task_index k tid")
    case None
    with tid ignored created [OF tid None] show ?thesis
      by (cases "ev_budget e"; cases "is_fully_bounded (the (ev_budget e))")
        (simp_all add: create_task_def)
  qed (use tid ignored in \<open>simp add: create_task_def\<close>)
qed (use ignored in \<open>simp add: create_task_def\<close>)

lemma kernel_inv_create_task: "kernel_inv k \<Longrightarrow> kernel_inv (create_task e k)"
proof (cases e k rule: create_task_cases)
  case (created tid b)
  let ?t = "TaskEntry_new tid b (ev_seq e)"
  let ?k' = "k\<lparr>k_tasks := k_tasks k @ [?t]\<rparr>"
  assume inv: "kernel_inv k"
  have "distinct (map te_id (k_tasks k @ [?t]))"
    using inv created(2)
    by (intro tasks.distinct_push) (simp_all add: kernel_inv_def core_inv_def TaskEntry_new_def)
  moreover have "task_wf ?t" using created(4) by (simp add: task_wf_def TaskEntry_new_def)
  moreover have "awaits_pending ?k' = awaits_pending k"
    by (simp add: awaits_pending_def approval_def fun_eq_iff)
  moreover have "awaits_pending k ?t" by (simp add: awaits_pending_def TaskEntry_new_def)
  ultimately have "core_inv ?k'"
    using inv by (auto simp: kernel_inv_def core_inv_def job_wf_def approvals_wf_def)
  with inv created show ?thesis by (simp add: kernel_inv_def)
qed simp

lemma kernel_inv_process:
  assumes "kernel_inv k" and "process e (k, acts) = (k', acts')"
  shows "kernel_inv k'"
  using assms(2)
  by (cases rule: process_cases) (use assms(1) kernel_inv_create_task kernel_inv_process_task in auto)

lemma advance_frontier_frame [simp, kernel_frame]:
  "k_tasks (advance_frontier e k) = k_tasks k"
  "k_jobs (advance_frontier e k) = k_jobs k"
  "k_approvals (advance_frontier e k) = k_approvals k"
  "k_policy (advance_frontier e k) = k_policy k"
  "k_next_approval (advance_frontier e k) = k_next_approval k"
  "k_ready (advance_frontier e k) = k_ready k"
  by (simp_all add: advance_frontier_def Let_def)

lemma step_cases:
  assumes "step k e = (k', acts)"
  obtains (replayed) "replayed e k" "k' = k" "acts = []"
  | (applied) k1 where "\<not> replayed e k" "process e (k, [AppendEvent (ev_task_id e)]) = (k1, acts)"
      "k' = advance_frontier e k1"
  using assms by (auto simp: step_def split: if_splits prod.splits)

lemma kernel_inv_step: "kernel_inv k \<Longrightarrow> step k e = (k', acts) \<Longrightarrow> kernel_inv k'"
proof (erule step_cases)
  fix k1 assume "kernel_inv k" "process e (k, [AppendEvent (ev_task_id e)]) = (k1, acts)"
    and k': "k' = advance_frontier e k1"
  then have "kernel_inv k1" using kernel_inv_process by blast
  moreover have "core_inv k' = core_inv k1" unfolding k' by (rule core_inv_cong) simp_all
  ultimately show "kernel_inv k'" by (simp add: kernel_inv_def k')
qed simp

lemma kernel_inv_new: "kernel_inv (Kernel_new p)"
  by (simp add: kernel_inv_def core_inv_def approvals_wf_def Kernel_new_def)

lemma kernel_inv_reachable: "reachable p k \<Longrightarrow> kernel_inv k"
  by (induction rule: reachable.induct) (auto intro: kernel_inv_new kernel_inv_step)

lemma reachable_run: "reachable p k \<Longrightarrow> run k es = (k', acts) \<Longrightarrow> reachable p k'"
proof (induction es arbitrary: k acts)
  case (Cons e es)
  obtain k1 a1 where s: "step k e = (k1, a1)" by fastforce
  with Cons.prems obtain a2 where "run k1 es = (k', a2)" by (auto split: prod.splits)
  with Cons.IH reachable_step [OF Cons.prems(1) s] show ?case by blast
qed simp

end
