(* ===== verification/Kernel_Effects.thy ===== *)
theory Kernel_Effects
  imports Kernel_Inv
begin

text \<open>
  What one kernel step emits: the authorization of every tool run, the conditions of a model
  request, an approval request and a finish notice, and the bound on the number of actions.
\<close>

section \<open>Authorization\<close>

definition is_request :: "EventKind \<Rightarrow> bool" where
  "is_request kind = (kind \<in> {ToolCallRequested, GitHubOperationRequested})"

text \<open>The event is a request the policy allows outright, from a state that may issue it.\<close>

definition policy_authorized :: "Kernel \<Rightarrow> Event \<Rightarrow> TaskId \<Rightarrow> JobId \<Rightarrow> bool" where
  "policy_authorized k e tid j =
     (is_request (ev_kind e) \<and> ev_job_id e = Some j
      \<and> (task_status k tid = Some TaskStatus.Running
         \<or> (ev_kind e = GitHubOperationRequested \<and> task_status k tid = Some TaskStatus.Integrating))
      \<and> classify (k_policy k) (effective_reversibility e) = Allow)"

text \<open>
  The event is the user's approval of the pending, unexpired approval the task waits for, and it
  names the operation that approval is bound to.
\<close>

definition user_authorized :: "Kernel \<Rightarrow> Event \<Rightarrow> TaskId \<Rightarrow> ApprovalEntry \<Rightarrow> bool" where
  "user_authorized k e tid a =
     (ev_kind e = ApprovalResolved \<and> ev_actor e = Actor.User
      \<and> ev_resolution e = Some Approve
      \<and> ev_approval_id e = Some (ae_id a) \<and> task_awaiting k tid = Some (ae_id a)
      \<and> approval k (ae_id a) = Some a \<and> ae_status a = ApprovalStatus.Pending
      \<and> op_tool_call_id (ae_op a) \<noteq> None \<and> ev_tool_call_id e = op_tool_call_id (ae_op a)
      \<and> ev_timestamp e \<le> ae_expires_at a)"

definition ready_request :: "Kernel \<Rightarrow> ActionVec" where
  "ready_request k =
     (case k_ready k of
        [] \<Rightarrow> []
      | jid # _ \<Rightarrow>
          (case job k jid of
             None \<Rightarrow> []
           | Some j \<Rightarrow> if task_status k (je_task j) = Some TaskStatus.Running
                          \<and> runnable_status (je_status j) then [RequestModel jid] else []))"

lemma finish_emits:
  assumes "task_index k tid = Some idx" and "finish e tid idx (k, acts) = (k', acts')"
  shows "acts' = acts @ (if task_is_terminal (te_status (k_tasks k ! idx)) then [TaskFinished tid] else [])
     @ ready_request (touch_task idx (ev_seq e) k)"
  using assms(2)
  by (auto simp: finish_def drain_ready_1 ready_request_def Let_def jobs.lookup_index
      split: list.splits option.splits if_splits)

lemma finish_frame:
  assumes "finish e tid idx (k, acts) = (k', acts')"
  shows "k_tasks k' = k_tasks (touch_task idx (ev_seq e) k)" "k_jobs k' = k_jobs k"
    "k_approvals k' = k_approvals k" "k_policy k' = k_policy k"
    "k_next_approval k' = k_next_approval k" "k_next_seq k' = k_next_seq k"
    "k_applied_through k' = k_applied_through k"
proof -
  obtain a where "drain_ready (touch_task idx (ev_seq e) k, a) = (k', acts')"
    using assms by (auto simp: finish_def Let_def)
  note d = drain_ready_frame [OF this]
  show "k_tasks k' = k_tasks (touch_task idx (ev_seq e) k)" "k_jobs k' = k_jobs k"
    "k_approvals k' = k_approvals k" "k_policy k' = k_policy k"
    "k_next_approval k' = k_next_approval k" "k_next_seq k' = k_next_seq k"
    "k_applied_through k' = k_applied_through k"
    using d by (simp_all add: touch_task_def)
qed

lemma task_op_frame [simp, kernel_frame]:
  "k_jobs (set_blocked idx r k) = k_jobs k" "k_jobs (set_task_status idx to k) = k_jobs k"
  "k_jobs (resume_task idx k) = k_jobs k" "k_jobs (snd (open_approval e tc idx k)) = k_jobs k"
  "k_jobs (touch_task idx s k) = k_jobs k"
  "k_approvals (set_blocked idx r k) = k_approvals k"
  "k_approvals (set_task_status idx to k) = k_approvals k"
  "k_approvals (resume_task idx k) = k_approvals k"
  "k_approvals (touch_task idx s k) = k_approvals k"
  "k_policy (set_blocked idx r k) = k_policy k" "k_policy (set_task_status idx to k) = k_policy k"
  "k_policy (resume_task idx k) = k_policy k" "k_policy (snd (open_approval e tc idx k)) = k_policy k"
  "k_policy (touch_task idx s k) = k_policy k"
  by (simp_all add: set_blocked_def set_task_status_def resume_task_def touch_task_def
      open_approval_def mint_approval_def Let_def)

lemma dispatch_jobs:
  assumes "dispatch e idx (k, acts) = (k', acts')"
  shows "k_jobs k' = k_jobs k" "k_policy k' = k_policy k"
proof -
  have "k_jobs k' = k_jobs k \<and> k_policy k' = k_policy k"
    using assms
  proof (cases rule: dispatch_cases)
    case resolve
    from resolve(2) show ?thesis by (cases rule: resolve_approval_cases) auto
  next
    case request
    from request(4) show ?thesis by (cases rule: classify_request_cases) auto
  qed auto
  then show "k_jobs k' = k_jobs k" "k_policy k' = k_policy k" by simp_all
qed

lemma is_runnable_job_cong: "k_jobs k' = k_jobs k \<Longrightarrow> is_runnable_job k' = is_runnable_job k"
  by (simp add: is_runnable_job_def fun_eq_iff)

lemma charge_fields:
  "te_status (k_tasks (charge e idx k) ! i) = te_status (k_tasks k ! i)"
  "te_awaiting (k_tasks (charge e idx k) ! i) = te_awaiting (k_tasks k ! i)"
  "te_id (k_tasks (charge e idx k) ! i) = te_id (k_tasks k ! i)"
  "te_block_reason (k_tasks (charge e idx k) ! i) = te_block_reason (k_tasks k ! i)"
  "te_last_event (k_tasks (charge e idx k) ! i) = te_last_event (k_tasks k ! i)"
  by (cases "i = idx \<and> idx < length (k_tasks k)";
      auto simp: charge_def list_update_beyond nth_list_update split: option.split)+

text \<open>What a dispatch adds to the action vector, with the authorization it had.\<close>

lemma resolvable_authorized:
  assumes "resolvable e idx aidx k" and "task_index k tid = Some idx"
    and "ev_kind e = ApprovalResolved" "ev_resolution e = Some Approve"
    and "ev_timestamp e \<le> ae_expires_at (k_approvals k ! aidx)"
  shows "user_authorized k e tid (k_approvals k ! aidx)"
proof -
  obtain aid where aid: "ev_approval_id e = Some aid" "te_awaiting (k_tasks k ! idx) = Some aid"
    "approval_index k aid = Some aidx"
    using assms(1) by (rule resolvable_awaiting)
  then have "ae_id (k_approvals k ! aidx) = aid" by (auto dest: approvals.index_SomeD)
  with aid assms show ?thesis
    by (auto simp: user_authorized_def resolvable_def op_matches_iff task_awaiting_def task_entry
        approval_entry)
qed

lemma dispatch_emits:
  assumes idx: "task_index k tid = Some idx" and eq: "dispatch e idx (k, acts) = (k', acts')"
  obtains (nothing) "acts' = acts"
  | (by_policy) j where "acts' = acts @ [RunTool j]" "k' = k" "is_runnable_job k j tid"
      "policy_authorized k e tid j"
  | (by_user) j a where "acts' = acts @ [RunTool j]" "is_runnable_job k j tid"
      "user_authorized k e tid a" "ae_job a = Some j"
  | (ask) tc where "is_request (ev_kind e)" "acts' = acts @ [RequestApproval (ApprovalId (k_next_approval k))]"
      "requires_approval (effective_reversibility e)" "te_awaiting (k_tasks k ! idx) = None"
      "ps_profile (k_policy k) \<noteq> ReadOnly"
      "ev_tool_call_id e = Some tc" "k' = snd (open_approval e tc idx k)"
  using eq
proof (cases rule: dispatch_cases)
  case resolve
  from resolve(2) show ?thesis
  proof (cases rule: resolve_approval_cases)
    case (approved aidx)
    note u = resolvable_authorized [OF approved(1) idx resolve(1) approved(3,2)]
    from approved(5) show ?thesis
    proof
      assume "acts' = acts"
      then show ?thesis by (rule nothing)
    next
      assume "\<exists>j. ae_job (k_approvals k ! aidx) = Some j \<and> acts' = acts @ [RunTool j]
        \<and> is_runnable_job k j (te_id (k_tasks k ! idx))"
      with idx u by_user show ?thesis by auto
    qed
  qed (rule nothing; assumption)+
next
  case request
  have st: "task_status k tid = Some (te_status (k_tasks k ! idx))"
    using idx by (simp add: task_status_def task_entry)
  from request(4) show ?thesis
  proof (cases rule: classify_request_cases)
    case (allowed j)
    have "policy_authorized k e tid j"
      using allowed request(1-3) st by (auto simp: policy_authorized_def is_request_def)
    with allowed idx by_policy show ?thesis by simp
  next
    case (asked tc)
    have "ps_profile (k_policy k) \<noteq> ReadOnly"
      using request(4) asked(5) by (auto simp: classify_request_def classify_def)
    with asked request(1) ask show ?thesis by (simp add: is_request_def)
  qed (rule nothing; assumption)+
qed (rule nothing; assumption)+


section \<open>A whole step\<close>

lemma step_known:
  assumes "step k e = (k', acts)" and "acts \<noteq> []" "acts \<noteq> [AppendEvent (ev_task_id e)]"
  obtains tid idx k2 a2 k1 where "ev_task_id e = Some tid" "task_index k tid = Some idx"
    "\<not> replayed e k" "ev_kind e \<noteq> TaskCreated"
    "\<not> task_is_terminal (te_status (k_tasks k ! idx))" "expired_awaiting e idx k = None"
    "dispatch e idx (apply_job e (charge e idx k), [AppendEvent (ev_task_id e)]) = (k2, a2)"
    "finish e tid idx (k2, a2) = (k1, acts)" "k' = advance_frontier e k1"
  using assms(1)
proof (cases rule: step_cases)
  case (applied k1)
  from applied(2) show ?thesis
  proof (cases rule: process_cases)
    case (known tid idx)
    from known(4) show ?thesis
      by (cases rule: process_task_cases) (use assms applied known that in auto)
  qed (use assms in auto)
qed (use assms in auto)

lemma authorized_before:
  assumes idx: "task_index k tid = Some idx"
  shows "policy_authorized (apply_job e (charge e idx k)) = policy_authorized k"
    and "user_authorized (apply_job e (charge e idx k)) = user_authorized k"
    and "task_status (apply_job e (charge e idx k)) = task_status k"
proof -
  let ?k = "apply_job e (charge e idx k)"
  have tk: "task ?k t = map_option (\<lambda>t'. t'\<lparr>te_budget := te_budget (the (task ?k t))\<rparr>) (task k t)" for t
  proof (cases "task_index k t")
    case None
    then show ?thesis by (simp add: tasks.lookup_index)
  next
    case (Some i)
    then show ?thesis
      by (auto simp: tasks.lookup_index charge_fields intro!: TaskEntry.equality)
  qed
  have st: "task_status ?k t = task_status k t" for t
    by (subst (2) task_status_def, subst task_status_def, subst tk) (simp add: option.map_comp comp_def)
  have aw: "task_awaiting ?k t = task_awaiting k t" for t
    by (subst (2) task_awaiting_def, subst task_awaiting_def, subst tk) (cases "task k t"; simp)
  have ap: "approval ?k = approval k" by (rule arena_cong) simp
  show "policy_authorized ?k = policy_authorized k" "user_authorized ?k = user_authorized k"
    "task_status ?k = task_status k"
    by (simp_all add: fun_eq_iff policy_authorized_def user_authorized_def st aw ap)
qed


text \<open>
  The anatomy of a step that emits anything beyond its log record. \<open>k1\<close> is the kernel just before
  the dispatch (budget charged, job arena advanced).
\<close>

lemma ready_request_set:
  assumes "RequestModel j \<in> set (ready_request k)"
  shows "\<exists>e rest. k_ready k = j # rest \<and> job k j = Some e \<and> runnable_status (je_status e)
     \<and> task_status k (je_task e) = Some TaskStatus.Running"
proof (cases "k_ready k")
  case (Cons i rest)
  with assms show ?thesis
    by (cases "job k i") (auto simp: ready_request_def split: if_splits)
qed (use assms in \<open>simp add: ready_request_def\<close>)

lemma ready_request_only [simp]:
  "RunTool j \<notin> set (ready_request k)" "RequestApproval a \<notin> set (ready_request k)"
  "AppendEvent t \<notin> set (ready_request k)" "TaskFinished t' \<notin> set (ready_request k)"
  by (auto simp: ready_request_def split: list.splits option.splits if_splits)

lemma step_run_tool:
  assumes "step k e = (k', acts)" and "RunTool j \<in> set acts"
  obtains tid where "ev_task_id e = Some tid" "is_runnable_job k' j tid"
    "policy_authorized k e tid j \<or> (\<exists>a. user_authorized k e tid a \<and> ae_job a = Some j)"
proof -
  from assms have "acts \<noteq> []" "acts \<noteq> [AppendEvent (ev_task_id e)]" by auto
  with assms(1) show ?thesis
  proof (rule step_known)
    fix tid idx k2 a2 k1
    let ?k = "apply_job e (charge e idx k)"
    assume tid: "ev_task_id e = Some tid" and idx: "task_index k tid = Some idx"
      and d: "dispatch e idx (?k, [AppendEvent (ev_task_id e)]) = (k2, a2)"
      and f: "finish e tid idx (k2, a2) = (k1, acts)" and k': "k' = advance_frontier e k1"
    have i1: "task_index ?k tid = Some idx" using idx by simp
    have i2: "task_index k2 tid = Some idx" using task_index_dispatch [OF d] i1 by simp
    have "RunTool j \<in> set a2"
      using finish_emits [OF i2 f] assms(2) by (auto split: if_splits)
    moreover have jobs: "is_runnable_job k' = is_runnable_job ?k"
      using dispatch_jobs(1) [OF d] finish_frame(2) [OF f] by (intro is_runnable_job_cong) (simp add: k')
    ultimately show thesis
      using that [OF tid] authorized_before(1,2) [OF idx]
      by (cases rule: dispatch_emits [OF i1 d]) (auto simp: jobs)
  qed
qed

text \<open>A leased job's model request goes out in the step of the lease, for a running task.\<close>

lemma step_request_model:
  assumes inv: "kernel_inv k" and st: "step k e = (k', acts)" and mem: "RequestModel j \<in> set acts"
  shows "ev_kind e = JobLeased \<and> ev_job_id e = Some j
     \<and> (\<exists>x. job k' j = Some x \<and> runnable_status (je_status x)
            \<and> task_status k' (je_task x) = Some TaskStatus.Running)"
proof -
  from mem have "acts \<noteq> []" "acts \<noteq> [AppendEvent (ev_task_id e)]" by auto
  with st show ?thesis
  proof (rule step_known)
    fix tid idx k2 a2 k1
    let ?k = "apply_job e (charge e idx k)"
    let ?k3 = "touch_task idx (ev_seq e) k2"
    assume tid: "ev_task_id e = Some tid" and idx: "task_index k tid = Some idx"
      and d: "dispatch e idx (?k, [AppendEvent (ev_task_id e)]) = (k2, a2)"
      and f: "finish e tid idx (k2, a2) = (k1, acts)" and k': "k' = advance_frontier e k1"
    have i1: "task_index ?k tid = Some idx" using idx by simp
    have i2: "task_index k2 tid = Some idx" using task_index_dispatch [OF d] i1 by simp
    have "RequestModel j \<notin> set a2"
      by (cases rule: dispatch_emits [OF i1 d]) auto
    then have "RequestModel j \<in> set (ready_request ?k3)"
      using finish_emits [OF i2 f] mem by (auto split: if_splits)
    from ready_request_set [OF this] obtain x rest where x: "k_ready k2 = j # rest"
      "job ?k3 j = Some x" "runnable_status (je_status x)"
      "task_status ?k3 (je_task x) = Some TaskStatus.Running" by auto
    have "job k' = job ?k3" "task_status k' = task_status ?k3"
      using finish_frame(1,2) [OF f] by (auto simp: k' intro!: arena_cong)
    moreover have "ev_kind e = JobLeased \<and> ev_job_id e = Some j"
      using apply_job_ready [of e "charge e idx k"] dispatch_ready [OF d] x(1) inv
      by (auto simp: kernel_inv_def)
    ultimately show ?thesis using x by simp
  qed
qed

lemma step_request_approval:
  assumes "step k e = (k', acts)" and "RequestApproval a \<in> set acts"
  shows "is_request (ev_kind e) \<and> requires_approval (effective_reversibility e)
     \<and> ps_profile (k_policy k) \<noteq> ReadOnly \<and> a = ApprovalId (k_next_approval k)"
proof -
  from assms have "acts \<noteq> []" "acts \<noteq> [AppendEvent (ev_task_id e)]" by auto
  with assms(1) show ?thesis
  proof (rule step_known)
    fix tid idx k2 a2 k1
    let ?k = "apply_job e (charge e idx k)"
    assume idx: "task_index k tid = Some idx"
      and d: "dispatch e idx (?k, [AppendEvent (ev_task_id e)]) = (k2, a2)"
      and f: "finish e tid idx (k2, a2) = (k1, acts)"
    have i1: "task_index ?k tid = Some idx" using idx by simp
    have i2: "task_index k2 tid = Some idx" using task_index_dispatch [OF d] i1 by simp
    have "RequestApproval a \<in> set a2"
      using finish_emits [OF i2 f] assms(2) by (auto split: if_splits)
    then show ?thesis by (cases rule: dispatch_emits [OF i1 d]) auto
  qed
qed

lemma length_ready_request: "length (ready_request k) \<le> 1"
  by (simp add: ready_request_def split: list.split option.split)

lemma entry_upd [simp]:
  assumes "idx < length (k_tasks k)"
  shows "k_tasks (set_task_status idx to k) ! idx =
      (k_tasks k ! idx)\<lparr>te_status := to, te_awaiting := None,
        te_block_reason := if to = TaskStatus.Blocked then Some BlockReason.RiskDetected else None\<rparr>"
    "k_tasks (set_blocked idx r k) ! idx = (k_tasks k ! idx)\<lparr>te_status := TaskStatus.Blocked,
        te_block_reason := Some r, te_awaiting := None\<rparr>"
    "k_tasks (resume_task idx k) ! idx = (k_tasks k ! idx)\<lparr>te_status := TaskStatus.Running,
        te_block_reason := None, te_awaiting := None\<rparr>"
    "k_tasks (touch_task idx s k) ! idx = (k_tasks k ! idx)\<lparr>te_last_event := s\<rparr>"
    "k_tasks (snd (open_approval e tc idx k)) ! idx = (k_tasks k ! idx)\<lparr>
        te_awaiting := Some (ApprovalId (k_next_approval k)),
        te_status := TaskStatus.AwaitingApproval\<rparr>"
  using assms
  by (simp_all add: set_task_status_def set_blocked_def resume_task_def touch_task_def
      open_approval_def mint_approval_def Let_def)

text \<open>A dispatch that emits something leaves the task in a state that is not terminal.\<close>

lemma dispatch_emits_live:
  assumes "idx < length (k_tasks k)" "\<not> task_is_terminal (te_status (k_tasks k ! idx))"
    and "dispatch e idx (k, acts) = (k', acts')" "acts' \<noteq> acts"
  shows "\<not> task_is_terminal (te_status (k_tasks k' ! idx))"
    and "ev_kind e \<in> {ApprovalResolved, ToolCallRequested, GitHubOperationRequested}"
proof -
  from assms(3) have "\<not> task_is_terminal (te_status (k_tasks k' ! idx))
      \<and> ev_kind e \<in> {ApprovalResolved, ToolCallRequested, GitHubOperationRequested}"
  proof (cases rule: dispatch_cases)
    case resolve
    from resolve(2) show ?thesis
      by (cases rule: resolve_approval_cases) (use assms resolve(1) in auto)
  next
    case request
    from request(4) show ?thesis
      by (cases rule: classify_request_cases) (use assms request(1) in auto)
  qed (use assms in auto)
  then show "\<not> task_is_terminal (te_status (k_tasks k' ! idx))"
    "ev_kind e \<in> {ApprovalResolved, ToolCallRequested, GitHubOperationRequested}" by simp_all
qed

end
