(* ===== verification/Kernel_Trace.thy ===== *)
theory Kernel_Trace
  imports Kernel_Effects
begin

text \<open>
  What one step does to each arena, and what follows for whole runs: the task and job edges, the
  life of an approval, budgets, the replay frontier, and the record of who asked for what.
\<close>

section \<open>One step on the approval arena\<close>

definition new_approval :: "Event \<Rightarrow> TaskId \<Rightarrow> ToolCallId \<Rightarrow> u128 \<Rightarrow> ApprovalEntry" where
  "new_approval e tid tc n =
     \<lparr>ae_id = ApprovalId n, ae_task = tid, ae_job = ev_job_id e, ae_status = ApprovalStatus.Pending,
      ae_op = \<lparr>op_tool_call_id = Some tc\<rparr>,
      ae_expires_at = from_millis (saturating_add (as_millis (ev_timestamp e)) APPROVAL_TTL_MS)\<rparr>"

lemma open_approval_approvals:
  assumes "task_index k tid = Some idx"
  shows "k_approvals (snd (open_approval e tc idx k)) =
      k_approvals k @ [new_approval e tid tc (k_next_approval k)]"
    and "k_next_approval (snd (open_approval e tc idx k)) = saturating_add (k_next_approval k) 1"
  using assms by (simp_all add: open_approval_def mint_approval_def Let_def new_approval_def)

text \<open>
  Nothing happens to the approvals, or one is opened by a request of the event's task, or the one
  the event's task waits for is closed.
\<close>

definition approvals_kept :: "Kernel \<Rightarrow> Kernel \<Rightarrow> bool" where
  "approvals_kept k k' = (k_approvals k' = k_approvals k \<and> k_next_approval k' = k_next_approval k)"

definition approval_opened :: "Event \<Rightarrow> Kernel \<Rightarrow> Kernel \<Rightarrow> bool" where
  "approval_opened e k k' =
     (\<exists>tid tc. ev_task_id e = Some tid \<and> ev_tool_call_id e = Some tc \<and> is_request (ev_kind e)
        \<and> requires_approval (effective_reversibility e)
        \<and> k_approvals k' = k_approvals k @ [new_approval e tid tc (k_next_approval k)]
        \<and> k_next_approval k' = saturating_add (k_next_approval k) 1)"

definition approval_closed :: "Event \<Rightarrow> Kernel \<Rightarrow> Kernel \<Rightarrow> bool" where
  "approval_closed e k k' =
     (\<exists>tid aid aidx st. ev_task_id e = Some tid \<and> task_awaiting k tid = Some aid
        \<and> approval_index k aid = Some aidx \<and> st \<noteq> ApprovalStatus.Pending
        \<and> (st = ApprovalStatus.Approved \<longrightarrow> user_authorized k e tid (k_approvals k ! aidx))
        \<and> k_approvals k' = k_approvals (close_approval aidx st k)
        \<and> k_next_approval k' = k_next_approval k)"

lemma op_next_approval [simp]:
  "k_next_approval (set_blocked idx r k) = k_next_approval k"
  "k_next_approval (set_task_status idx to k) = k_next_approval k"
  "k_next_approval (resume_task idx k) = k_next_approval k"
  "k_next_approval (touch_task idx s k) = k_next_approval k"
  by (simp_all add: set_blocked_def set_task_status_def resume_task_def touch_task_def)

lemma approval_closedI:
  assumes "ev_task_id e = Some tid" "task_index k tid = Some idx"
    and "te_awaiting (k_tasks k ! idx) = Some aid" "approval_index k aid = Some aidx"
    and "st \<noteq> ApprovalStatus.Pending"
    and "st = ApprovalStatus.Approved \<Longrightarrow> user_authorized k e tid (k_approvals k ! aidx)"
    and "k_approvals k' = k_approvals (close_approval aidx st k)" "k_next_approval k' = k_next_approval k"
  shows "approval_closed e k k'"
  using assms by (auto simp: approval_closed_def task_awaiting_def task_entry)

lemma dispatch_approvals:
  assumes tid: "ev_task_id e = Some tid" and idx: "task_index k tid = Some idx"
    and eq: "dispatch e idx (k, acts) = (k', acts')"
  shows "approvals_kept k k' \<or> approval_opened e k k' \<or> approval_closed e k k'"
  using eq
proof (cases rule: dispatch_cases)
  case resolve
  have closed: "approval_closed e k k'"
    if r: "resolvable e idx aidx k" and st: "st \<noteq> ApprovalStatus.Pending"
      and u: "st = ApprovalStatus.Approved \<Longrightarrow> user_authorized k e tid (k_approvals k ! aidx)"
      and k': "k_approvals k' = k_approvals (close_approval aidx st k)"
        "k_next_approval k' = k_next_approval k" for aidx st
    using r by (rule resolvable_awaiting) (rule approval_closedI [OF tid idx _ _ st u k']; assumption)
  from resolve(2) show ?thesis
  proof (cases rule: resolve_approval_cases)
    case (expired aidx)
    with closed [of aidx ApprovalStatus.Expired] show ?thesis by simp
  next
    case (denied aidx)
    with closed [of aidx ApprovalStatus.Denied] show ?thesis by simp
  next
    case (approved aidx)
    with closed [of aidx ApprovalStatus.Approved]
      resolvable_authorized [OF approved(1) idx resolve(1) approved(3,2)] show ?thesis by simp
  qed (simp add: approvals_kept_def)
next
  case request
  from request(4) show ?thesis
  proof (cases rule: classify_request_cases)
    case (asked tc)
    then have "approval_opened e k k'"
      using tid request(1) open_approval_approvals [OF idx]
      by (auto simp: approval_opened_def is_request_def)
    then show ?thesis by simp
  qed (simp_all add: approvals_kept_def)
qed (simp_all add: approvals_kept_def)

lemma approvals_before:
  assumes "task_index k tid = Some idx"
  shows "approvals_kept (apply_job e (charge e idx k)) = approvals_kept k"
    and "approval_opened e (apply_job e (charge e idx k)) = approval_opened e k"
    and "approval_closed e (apply_job e (charge e idx k)) = approval_closed e k"
proof -
  let ?k = "apply_job e (charge e idx k)"
  have aw: "task_awaiting ?k t = task_awaiting k t" for t
    by (cases "task_index k t") (simp_all add: task_awaiting_def tasks.lookup_index charge_fields)
  have ai: "approval_index ?k = approval_index k" by (rule arena_cong) simp
  show "approvals_kept ?k = approvals_kept k" "approval_opened e ?k = approval_opened e k"
    "approval_closed e ?k = approval_closed e k"
    using authorized_before(2) [OF assms]
    by (simp_all add: fun_eq_iff approvals_kept_def approval_opened_def approval_closed_def aw ai
        close_approval_def)
qed

lemma approvals_after:
  assumes "k_approvals k2 = k_approvals k1" "k_next_approval k2 = k_next_approval k1"
  shows "approvals_kept k k2 = approvals_kept k k1" "approval_opened e k k2 = approval_opened e k k1"
    "approval_closed e k k2 = approval_closed e k k1"
  using assms by (simp_all add: approvals_kept_def approval_opened_def approval_closed_def)

lemma process_task_approvals:
  assumes tid: "ev_task_id e = Some tid" and idx: "task_index k tid = Some idx"
    and eq: "process_task e tid idx (k, acts) = (k', acts')"
  shows "approvals_kept k k' \<or> approval_opened e k k' \<or> approval_closed e k k'"
  using eq
proof (cases rule: process_task_cases)
  case (swept aidx)
  from swept(1) show ?thesis
    by (rule expired_awaiting_Some)
      (rule disjI2, rule disjI2, rule approval_closedI [OF tid idx, where st = ApprovalStatus.Expired],
        use swept(2) in auto)
next
  case (dispatched k2 a2)
  have i1: "task_index (apply_job e (charge e idx k)) tid = Some idx" using idx by simp
  show ?thesis
    using dispatch_approvals [OF tid i1 dispatched(4)] approvals_before [OF idx]
      approvals_after [OF finish_frame(3,5) [OF dispatched(5)]] by auto
qed (simp_all add: approvals_kept_def)

lemma step_approvals:
  assumes "step k e = (k', acts)"
  shows "approvals_kept k k' \<or> approval_opened e k k' \<or> approval_closed e k k'"
  using assms
proof (cases rule: step_cases)
  case (applied k1)
  note after = approvals_after [of k' k1, unfolded applied(3) advance_frontier_frame,
      OF refl refl, folded applied(3)]
  from applied(2) have "approvals_kept k k1 \<or> approval_opened e k k1 \<or> approval_closed e k k1"
  proof (cases rule: process_cases)
    case create
    then show ?thesis
      by (cases e k rule: create_task_cases) (simp_all add: approvals_kept_def)
  next
    case (known tid idx)
    with process_task_approvals show ?thesis by blast
  qed (simp add: approvals_kept_def)
  with after show ?thesis by simp
qed (simp add: approvals_kept_def)


section \<open>One step on the task arena\<close>

definition touches :: "nat \<Rightarrow> Kernel \<Rightarrow> Kernel \<Rightarrow> bool" where
  "touches idx k k' = (k_tasks k' = (k_tasks k)[idx := k_tasks k' ! idx])"

lemma touchesI: "k_tasks k' = (k_tasks k)[idx := t] \<Longrightarrow> touches idx k k'"
  by (cases "idx < length (k_tasks k)") (auto simp: touches_def list_update_beyond)

lemma touches_trans: "touches idx k k1 \<Longrightarrow> touches idx k1 k2 \<Longrightarrow> touches idx k k2"
  unfolding touches_def by (metis list_update_overwrite)

lemma touches_refl [simp]: "touches idx k k"
  by (simp add: touches_def)

lemma length_task_ops [simp]:
  "length (k_tasks (set_blocked idx r k)) = length (k_tasks k)"
  "length (k_tasks (touch_task idx s k)) = length (k_tasks k)"
  "length (k_tasks (charge e idx k)) = length (k_tasks k)"
  by (simp_all add: set_blocked_def touch_task_def charge_def split: option.split)

lemma list_update_self_nth [simp]: "xs[i := xs[i := y] ! i] = xs[i := y]"
  by (cases "i < length xs") (simp_all add: list_update_beyond)

lemma touches_ops [simp]:
  "touches idx k (set_blocked idx r k)" "touches idx k (set_task_status idx to k)"
  "touches idx k (resume_task idx k)" "touches idx k (touch_task idx s k)"
  "touches idx k (charge e idx k)" "touches idx k (apply_job e k)"
  "touches idx k (close_approval a st k)" "touches idx k (snd (open_approval e tc idx k))"
  by (auto simp: touches_def set_blocked_def set_task_status_def resume_task_def touch_task_def
      charge_def open_approval_def mint_approval_def Let_def split: option.split)

lemma touches_lookup:
  assumes "touches idx k k'" and "task_index k tid = Some idx"
    and "te_id (k_tasks k' ! idx) = tid"
  shows "task k' t' = (if t' = tid then Some (k_tasks k' ! idx) else task k t')"
proof -
  have "k_tasks k' = k_tasks (k\<lparr>k_tasks := (k_tasks k)[idx := k_tasks k' ! idx]\<rparr>)"
    using assms(1) by (simp add: touches_def)
  then have "task k' = task (k\<lparr>k_tasks := (k_tasks k)[idx := k_tasks k' ! idx]\<rparr>)"
    by (rule arena_cong)
  with tasks.lookup_put [OF assms(2,3)] show ?thesis by simp
qed

lemma task_edge_refl [simp]: "task_edge s s"
  by (simp add: task_edge_def)

lemma task_edge_terminal: "task_is_terminal s \<Longrightarrow> task_edge s s' \<Longrightarrow> s' = s"
  by (cases s) (auto simp: task_edge_def)

lemma task_edge_Blocked: "\<not> task_is_terminal s \<Longrightarrow> task_edge s TaskStatus.Blocked"
  by (cases s) (auto simp: task_edge_def)

lemma dispatch_entry:
  assumes idx: "task_index k tid = Some idx" and wf: "task_wf (k_tasks k ! idx)"
    and live: "\<not> task_is_terminal (te_status (k_tasks k ! idx))"
    and eq: "dispatch e idx (k, acts) = (k', acts')"
  shows "touches idx k k'" "task_edge (te_status (k_tasks k ! idx)) (te_status (k_tasks k' ! idx))"
    "te_budget (k_tasks k' ! idx) = te_budget (k_tasks k ! idx)"
proof -
  have lt: "idx < length (k_tasks k)" using idx by (auto dest: tasks.index_SomeD)
  note blk = task_edge_Blocked [OF live]
  from eq have "touches idx k k' \<and> te_budget (k_tasks k' ! idx) = te_budget (k_tasks k ! idx)
    \<and> task_edge (te_status (k_tasks k ! idx)) (te_status (k_tasks k' ! idx))"
  proof (cases rule: dispatch_cases)
    case resolve
    have run: "task_edge (te_status (k_tasks k ! idx)) TaskStatus.Running" if "resolvable e idx aidx k" for aidx
      using that wf by (auto simp: resolvable_def task_wf_def task_edge_def)
    have cl: "touches idx k (set_blocked idx r (close_approval a st k))"
      "touches idx k (resume_task idx (close_approval a st k))" for r a st
      by (rule touches_trans [of _ _ "close_approval a st k"]; simp)+
    from resolve(2) show ?thesis
      by (cases rule: resolve_approval_cases) (use lt blk run cl in auto)
  next
    case request
    from request(4) show ?thesis
      by (cases rule: classify_request_cases) (use lt blk request(2) in \<open>auto simp: task_edge_def\<close>)
  next
    case (moved to)
    with task_next_legal [OF moved(1)] lt show ?thesis by (auto simp: task_edge_def)
  qed simp
  then show "touches idx k k'" "task_edge (te_status (k_tasks k ! idx)) (te_status (k_tasks k' ! idx))"
    "te_budget (k_tasks k' ! idx) = te_budget (k_tasks k ! idx)" by simp_all
qed

text \<open>What the event may do to its own task: one legal edge and one charge.\<close>

definition charged :: "Event \<Rightarrow> Budget \<Rightarrow> Budget" where
  "charged e b = (case ev_budget_delta e of None \<Rightarrow> b | Some d \<Rightarrow> fst (record_delta b d))"

definition task_evolves :: "Event \<Rightarrow> TaskEntry \<Rightarrow> TaskEntry \<Rightarrow> bool" where
  "task_evolves e t t' =
     (te_id t' = te_id t \<and> task_edge (te_status t) (te_status t')
      \<and> (te_budget t' = te_budget t \<or> te_budget t' = charged e (te_budget t)))"

lemma process_task_entry:
  assumes inv: "core_inv k" and idx: "task_index k tid = Some idx"
    and eq: "process_task e tid idx (k, acts) = (k', acts')"
  shows "touches idx k k'" "task_evolves e (k_tasks k ! idx) (k_tasks k' ! idx)"
proof -
  have lt: "idx < length (k_tasks k)" using idx by (auto dest: tasks.index_SomeD)
  have "touches idx k k' \<and> task_index k' = task_index k
    \<and> task_edge (te_status (k_tasks k ! idx)) (te_status (k_tasks k' ! idx))
    \<and> te_budget (k_tasks k' ! idx) \<in> {te_budget (k_tasks k ! idx), charged e (te_budget (k_tasks k ! idx))}"
    using eq
  proof (cases rule: process_task_cases)
    case (swept aidx)
    have "touches idx k k'"
      unfolding swept(2) by (intro touches_trans [OF touches_trans, OF _ touches_ops(1,4)] touches_ops)
    moreover have "te_status (k_tasks k ! idx) = TaskStatus.AwaitingApproval"
      using swept(1) by (auto elim: expired_awaiting_Some)
    ultimately show ?thesis using swept(2) lt by (simp add: task_edge_def)
  next
    case (exhausted d axis)
    have "touches idx k k'"
      unfolding exhausted(5)
      by (intro touches_trans [OF touches_trans, OF _ touches_ops(1,4)] touches_ops)
    moreover note charge_entry [OF idx, of e]
    ultimately show ?thesis
      using lt exhausted task_edge_Blocked [OF exhausted(1)] by (simp add: charged_def)
  next
    case (dispatched k2 a2)
    let ?k = "apply_job e (charge e idx k)"
    have i1: "task_index ?k tid = Some idx" using idx by simp
    have e1: "k_tasks ?k ! idx = (k_tasks k ! idx)\<lparr>te_budget := charged e (te_budget (k_tasks k ! idx))\<rparr>"
      by (simp add: charge_entry [OF idx] charged_def)
    have wf1: "task_wf (k_tasks ?k ! idx)"
      unfolding e1 using core_inv_task(1) [OF inv idx]
      by (simp add: task_wf_def charged_def split: option.split)
    have live: "\<not> task_is_terminal (te_status (k_tasks ?k ! idx))"
      unfolding e1 using dispatched(1) by simp
    note d = dispatch_entry [OF i1 wf1 live dispatched(4)]
    have lt2: "idx < length (k_tasks k2)"
      using task_index_dispatch [OF dispatched(4)] i1 tasks.index_SomeD by metis
    have "touches idx k ?k" by (rule touches_trans [OF touches_ops(5,6)])
    moreover have "touches idx k2 k'"
      using finish_frame(1) [OF dispatched(5)] by (intro touchesI) (simp add: touch_task_def)
    ultimately have "touches idx k k'" using d(1) touches_trans by blast
    moreover have "task_index k' = task_index k"
      using arena_cong(1) [OF finish_frame(1) [OF dispatched(5)]] task_index_dispatch [OF dispatched(4)]
      by simp
    ultimately show ?thesis
      using d(2,3) e1 finish_frame(1) [OF dispatched(5)] lt2 by simp
  qed (use lt in simp)
  moreover from this have "te_id (k_tasks k' ! idx) = tid"
    using idx by simp
  ultimately show "touches idx k k'" "task_evolves e (k_tasks k ! idx) (k_tasks k' ! idx)"
    using idx by (auto simp: task_evolves_def)
qed


lemma process_task_id:
  assumes "core_inv k" "task_index k tid = Some idx" "process_task e tid idx (k, acts) = (k', acts')"
  shows "te_id (k_tasks k' ! idx) = tid"
  using process_task_entry(2) [OF assms] assms(2) by (simp add: task_evolves_def)

lemma step_task:
  assumes inv: "kernel_inv k" and st: "step k e = (k', acts)" and t: "task k tid = Some t"
  obtains t' where "task k' tid = Some t'" "task_evolves e t t'"
    "ev_task_id e \<noteq> Some tid \<or> replayed e k \<Longrightarrow> t' = t"
proof -
  have refl: "task_evolves e t t" by (simp add: task_evolves_def)
  from st show ?thesis
  proof (cases rule: step_cases)
    case replayed
    with t refl that show ?thesis by blast
  next
    case (applied k1)
    have k': "task k' = task k1" unfolding applied(3) by (rule arena_cong) simp
    from applied(2) show ?thesis
    proof (cases rule: process_cases)
      case create
      have "task k1 tid = Some t"
        using t
      proof (cases e k rule: create_task_cases)
        case (created i b)
        then show ?thesis
          using tasks.lookup_push [of k "TaskEntry_new i b (ev_seq e)" tid] create t
          by (auto simp: TaskEntry_new_def tasks.lookup_index)
      qed (simp add: create)
      with k' refl that show ?thesis by simp
    next
      case ignored
      with k' t refl that show ?thesis by simp
    next
      case (known i idx)
      have core: "core_inv k" using inv by (simp add: kernel_inv_def)
      note pe = process_task_entry [OF core known(3,4)]
      note lk = touches_lookup [OF pe(1) known(3) process_task_id [OF core known(3,4)]]
      show ?thesis
      proof (cases "i = tid")
        case True
        with t known(3) have "t = k_tasks k ! idx" by (simp add: task_entry)
        with True lk pe(2) that k' known(2) applied(1) show ?thesis by simp
      next
        case False
        with lk that t k' refl show ?thesis by simp
      qed
    qed
  qed
qed

lemma step_new_task:
  assumes inv: "kernel_inv k" and st: "step k e = (k', acts)"
    and none: "task k tid = None" and t': "task k' tid = Some t'"
  shows "ev_kind e = TaskCreated \<and> ev_task_id e = Some tid
     \<and> (\<exists>b. ev_budget e = Some b \<and> is_fully_bounded b \<and> t' = TaskEntry_new tid b (ev_seq e))"
  using st
proof (cases rule: step_cases)
  case (applied k1)
  have k': "task k' = task k1" unfolding applied(3) by (rule arena_cong) simp
  from applied(2) show ?thesis
  proof (cases rule: process_cases)
    case create
    show ?thesis
    proof (cases e k rule: create_task_cases)
      case (created i b)
      then have "i = tid \<and> t' = TaskEntry_new tid b (ev_seq e)"
        using tasks.lookup_push [of k "TaskEntry_new i b (ev_seq e)" tid] create t' none k'
        by (auto simp: TaskEntry_new_def split: if_splits)
      with created create(1) show ?thesis by blast
    qed (use create none t' k' in simp)
  next
    case (known i idx)
    have core: "core_inv k" using inv by (simp add: kernel_inv_def)
    note lk = touches_lookup [OF process_task_entry(1) [OF core known(3,4)] known(3)
        process_task_id [OF core known(3,4)]]
    have "i \<noteq> tid" using none known(3) by (auto simp: tasks.lookup_None_iff)
    with lk none t' k' show ?thesis by simp
  qed (use none t' k' in simp)
qed (use none t' in simp)

section \<open>One step on the job arena and on the counters\<close>

lemma evolves_find:
  "list_all2 job_evolves js js' \<Longrightarrow> find (\<lambda>x. je_id x = j) js = Some x \<Longrightarrow>
     \<exists>x'. find (\<lambda>x. je_id x = j) js' = Some x' \<and> job_evolves x x'"
  by (induction rule: list_all2_induct) (auto simp: job_evolves_def)

lemma apply_job_lookup:
  assumes "job k j = Some x"
  shows "\<exists>x'. job (apply_job e k) j = Some x' \<and> job_evolves x x'"
proof (cases rule: apply_job_cases [of k e])
  case evolved
  then show ?thesis using evolves_find [OF evolved] assms by (simp add: job_def)
next
  case (queued jid tid)
  with assms show ?thesis by (auto simp: job_def find_append)
qed

lemma step_jobs:
  assumes "step k e = (k', acts)"
  obtains "k_jobs k' = k_jobs k"
  | idx where "k_jobs k' = k_jobs (apply_job e (charge e idx k))"
  using assms
proof (cases rule: step_cases)
  case (applied k1)
  from applied(2) show ?thesis
  proof (cases rule: process_cases)
    case create
    with applied that(1) show ?thesis
      by (cases e k rule: create_task_cases) simp_all
  next
    case (known tid idx)
    from known(4) show ?thesis
    proof (cases rule: process_task_cases)
      case (dispatched k2 a2)
      have "k_jobs k' = k_jobs (apply_job e (charge e idx k))"
        using dispatch_jobs(1) [OF dispatched(4)] finish_frame(2) [OF dispatched(5)] applied(3) by simp
      then show ?thesis by (rule that(2))
    qed (use applied(3) that(1) in simp_all)
  qed (use applied that(1) in simp)
qed (use that(1) in simp)

lemma step_job:
  assumes "step k e = (k', acts)" and "job k j = Some x"
  shows "\<exists>x'. job k' j = Some x' \<and> job_evolves x x'"
  using assms(1)
proof (cases rule: step_jobs)
  case 1
  then have "job k' = job k" by (rule arena_cong)
  with assms(2) show ?thesis by simp
next
  case (2 idx)
  then have "job k' = job (apply_job e (charge e idx k))" by (rule arena_cong)
  moreover have "job (charge e idx k) = job k" by (rule arena_cong) simp
  ultimately show ?thesis using apply_job_lookup [of "charge e idx k" j x e] assms(2) by simp
qed

lemma step_policy: "step k e = (k', acts) \<Longrightarrow> k_policy k' = k_policy k"
proof (erule step_cases)
  fix k1 assume p: "process e (k, [AppendEvent (ev_task_id e)]) = (k1, acts)"
    and k': "k' = advance_frontier e k1"
  from p have "k_policy k1 = k_policy k"
  proof (cases rule: process_cases)
    case create
    then show ?thesis by (cases e k rule: create_task_cases) simp_all
  next
    case (known tid idx)
    from known(4) show ?thesis
      by (cases rule: process_task_cases)
        (auto dest!: dispatch_jobs(2) finish_frame(4))
  qed simp
  with k' show "k_policy k' = k_policy k" by simp
qed simp

lemma process_frontier:
  assumes "process e (k, acts) = (k', acts')"
  shows "k_applied_through k' = k_applied_through k" "k_next_seq k' = k_next_seq k"
proof -
  have op: "k_applied_through (set_blocked i r k) = k_applied_through k"
    "k_applied_through (set_task_status i to k) = k_applied_through k"
    "k_applied_through (resume_task i k) = k_applied_through k"
    "k_applied_through (touch_task i s k) = k_applied_through k"
    "k_applied_through (snd (open_approval e tc i k)) = k_applied_through k"
    "k_next_seq (set_blocked i r k) = k_next_seq k"
    "k_next_seq (set_task_status i to k) = k_next_seq k"
    "k_next_seq (resume_task i k) = k_next_seq k"
    "k_next_seq (touch_task i s k) = k_next_seq k"
    "k_next_seq (snd (open_approval e tc i k)) = k_next_seq k" for i r to s e tc k
    by (simp_all add: set_blocked_def set_task_status_def resume_task_def touch_task_def
        open_approval_def mint_approval_def Let_def)
  have dsp: "k_applied_through k2 = k_applied_through k1 \<and> k_next_seq k2 = k_next_seq k1"
    if "dispatch e i (k1, a1) = (k2, a2)" for i k1 a1 k2 a2
    using that
  proof (cases rule: dispatch_cases)
    case resolve
    from resolve(2) show ?thesis by (cases rule: resolve_approval_cases) (auto simp: op)
  next
    case request
    from request(4) show ?thesis by (cases rule: classify_request_cases) (auto simp: op)
  qed (auto simp: op)
  have "k_applied_through k' = k_applied_through k \<and> k_next_seq k' = k_next_seq k"
    using assms
  proof (cases rule: process_cases)
    case create
    then show ?thesis by (cases e k rule: create_task_cases) simp_all
  next
    case (known tid idx)
    from known(4) show ?thesis
    proof (cases rule: process_task_cases)
      case (dispatched k2 a2)
      with dsp [OF dispatched(4)] finish_frame(6,7) [OF dispatched(5)] show ?thesis by simp
    qed (simp_all add: op)
  qed simp
  then show "k_applied_through k' = k_applied_through k" "k_next_seq k' = k_next_seq k" by simp_all
qed

end
