(* ===== verification/Kernel_Props.thy ===== *)
theory Kernel_Props
  imports Kernel_Trace
begin

text \<open>
  The kernel's properties, over single steps and over whole runs, with a worked run of a fresh
  kernel that the witnesses evaluate.
\<close>

section \<open>Runs\<close>

lemma run_invariant:
  assumes step: "\<And>k e k' acts. kernel_inv k \<Longrightarrow> P k \<Longrightarrow> step k e = (k', acts) \<Longrightarrow> P k'"
    and "kernel_inv k" "P k" "run k es = (k', acts)"
  shows "P k'"
  using assms(2-)
proof (induction es arbitrary: k acts)
  case (Cons e es)
  obtain k1 a1 where s: "step k e = (k1, a1)" by fastforce
  with Cons.prems obtain a2 where r: "run k1 es = (k', a2)" by (auto split: prod.splits)
  show ?case
    using Cons.IH [OF kernel_inv_step [OF Cons.prems(1) s] step [OF Cons.prems(1,2) s] r] .
qed simp

lemma run_append:
  "run k (es @ fs) = (let (k1, a1) = run k es; (k2, a2) = run k1 fs in (k2, a1 @ a2))"
  by (induction es arbitrary: k) (auto split: prod.splits)

lemma run_snocE:
  assumes "run k (es @ [e]) = (k', acts)"
  obtains k1 a1 a2 where "run k es = (k1, a1)" "step k1 e = (k', a2)" "acts = a1 @ a2"
  using assms by (auto simp: run_append split: prod.splits)

lemma kernel_inv_run: "run (Kernel_new p) es = (k, acts) \<Longrightarrow> kernel_inv k"
  using reachable_run [OF reachable_new] kernel_inv_reachable by blast

lemma run_policy: "run (Kernel_new p) es = (k, acts) \<Longrightarrow> k_policy k = p"
  by (rule run_invariant [where P = "\<lambda>k. k_policy k = p"])
    (auto simp: step_policy kernel_inv_new, simp add: Kernel_new_def)

section \<open>The origin of an approval\<close>

definition asked_by :: "Event list \<Rightarrow> ApprovalEntry \<Rightarrow> bool" where
  "asked_by es a =
     (\<exists>r\<in>set es. is_request (ev_kind r) \<and> requires_approval (effective_reversibility r)
        \<and> ev_task_id r = Some (ae_task a) \<and> ev_job_id r = ae_job a
        \<and> ev_tool_call_id r = op_tool_call_id (ae_op a)
        \<and> as_millis (ae_expires_at a) = saturating_add (as_millis (ev_timestamp r)) APPROVAL_TTL_MS)"

lemma asked_by_mono: "asked_by es a \<Longrightarrow> asked_by (es @ [e]) a"
  by (auto simp: asked_by_def)

lemma asked_by_status [simp]: "asked_by es (a\<lparr>ae_status := st\<rparr>) = asked_by es a"
  by (simp add: asked_by_def)

lemma run_origin:
  "run (Kernel_new p) es = (k, acts) \<Longrightarrow>
     (\<forall>a\<in>set (k_approvals k). asked_by es a)
     \<and> unat (k_next_approval k) \<le> 1 + length es"
proof (induction es arbitrary: k acts rule: rev_induct)
  case Nil
  then show ?case by (auto simp: Kernel_new_def)
next
  case (snoc e es)
  from snoc.prems obtain k1 a1 a2 where r: "run (Kernel_new p) es = (k1, a1)"
    and s: "step k1 e = (k, a2)" by (rule run_snocE)
  have old: "\<forall>a\<in>set (k_approvals k1). asked_by (es @ [e]) a"
    and n: "unat (k_next_approval k1) \<le> 1 + length es"
    using snoc.IH [OF r] asked_by_mono by auto
  from step_approvals [OF s] show ?case
  proof (elim disjE)
    assume "approvals_kept k1 k"
    with old n show ?case by (simp add: approvals_kept_def)
  next
    assume "approval_opened e k1 k"
    with old n show ?case
      by (auto simp: approval_opened_def new_approval_def asked_by_def unat_saturating_add)
  next
    assume "approval_closed e k1 k"
    then show ?case
      using old n
      by (auto simp: approval_closed_def close_approval_def
          dest!: set_update_subset_insert [THEN subsetD] approvals.index_mem)
  qed
qed

lemma run_unsaturated:
  assumes "run (Kernel_new p) es = (k, acts)" and "length es < 2 ^ 128 - 2"
  shows "k_next_approval k \<noteq> - 1"
  using run_origin [OF assms(1)] assms(2) by (auto simp: unat_max_word)


lemma awaiting_own:
  assumes "kernel_inv k" "k_next_approval k \<noteq> - 1"
    and "task_awaiting k tid = Some aid" "approval k aid = Some a"
  shows "ae_task a = tid \<and> ae_status a = ApprovalStatus.Pending"
proof -
  from assms(3) obtain t where t: "task k tid = Some t" "te_awaiting t = Some aid"
    by (auto simp: task_awaiting_def bind_eq_Some_conv)
  then have "t \<in> set (k_tasks k)" "te_id t = tid" by (auto dest: tasks.lookup_SomeD)
  with assms t show ?thesis
    by (auto simp: kernel_inv_def core_inv_def approvals_wf_def awaits_pending_def)
qed

lemma step_task_evolves:
  assumes "kernel_inv k" "step k e = (k', acts)" "task k tid = Some t"
  shows "\<exists>t'. task k' tid = Some t' \<and> task_evolves e t t' \<and> (ev_task_id e \<noteq> Some tid \<longrightarrow> t' = t)"
  by (rule step_task [OF assms]) blast

text \<open>The frontier: events at or below it are dropped.\<close>

lemma step_frontier:
  assumes "step k e = (k', acts)"
  shows "k_applied_through k \<le> k_applied_through k'"
    and "ev_seq e \<noteq> EventSeq_FIRST \<Longrightarrow> ev_seq e \<le> k_applied_through k'"
    and "k_next_seq k \<le> k_next_seq k'"
proof -
  have "k_applied_through k \<le> k_applied_through k' \<and> k_next_seq k \<le> k_next_seq k'
    \<and> (ev_seq e \<noteq> EventSeq_FIRST \<longrightarrow> ev_seq e \<le> k_applied_through k')"
    using assms
  proof (cases rule: step_cases)
    case (applied k1)
    with process_frontier [OF applied(2)] show ?thesis
      by (auto simp: advance_frontier_def Let_def)
  qed (simp add: replayed_def)
  then show "k_applied_through k \<le> k_applied_through k'"
    "ev_seq e \<noteq> EventSeq_FIRST \<Longrightarrow> ev_seq e \<le> k_applied_through k'"
    "k_next_seq k \<le> k_next_seq k'" by simp_all
qed

lemma run_frontier:
  assumes "run k es = (k', acts)"
  shows "k_applied_through k \<le> k_applied_through k'"
    and "\<And>e. e \<in> set es \<Longrightarrow> ev_seq e \<noteq> EventSeq_FIRST \<Longrightarrow> ev_seq e \<le> k_applied_through k'"
proof -
  have "k_applied_through k \<le> k_applied_through k'
    \<and> (\<forall>e\<in>set es. ev_seq e \<noteq> EventSeq_FIRST \<longrightarrow> ev_seq e \<le> k_applied_through k')"
    using assms
  proof (induction es arbitrary: k acts)
    case (Cons e es)
    obtain k1 a1 where s: "step k e = (k1, a1)" by fastforce
    with Cons.prems obtain a2 where r: "run k1 es = (k', a2)" by (auto split: prod.splits)
    with Cons.IH [OF r] step_frontier(1,2) [OF s] show ?case by (auto intro: order_trans)
  qed simp
  then show "k_applied_through k \<le> k_applied_through k'"
    "\<And>e. e \<in> set es \<Longrightarrow> ev_seq e \<noteq> EventSeq_FIRST \<Longrightarrow> ev_seq e \<le> k_applied_through k'" by auto
qed

lemma run_replayed: "\<forall>e\<in>set es. replayed e k \<Longrightarrow> run k es = (k, [])"
  by (induction es) (simp_all add: step_def)

text \<open>Under a read-only policy no approval is ever opened.\<close>

lemma dispatch_read_only:
  assumes "dispatch e idx (k, acts) = (k', acts')" and "ps_profile (k_policy k) = ReadOnly"
    and "k_approvals k = []"
  shows "k_approvals k' = []"
  using assms(1)
proof (cases rule: dispatch_cases)
  case resolve
  from resolve(2) show ?thesis
    by (cases rule: resolve_approval_cases) (use assms(3) in \<open>auto simp: close_approval_def\<close>)
next
  case request
  then have "k' = set_blocked idx PolicyDenied k"
    using assms(2) by (auto simp: classify_request_def classify_def)
  then show ?thesis using assms(3) by simp
qed (use assms(3) in simp_all)

lemma run_no_approvals:
  assumes "run (Kernel_new p) es = (k, acts)" and "ps_profile p = ReadOnly"
  shows "k_approvals k = []"
proof -
  have "k_approvals k = [] \<and> k_policy k = p"
  proof (rule run_invariant [where P = "\<lambda>k. k_approvals k = [] \<and> k_policy k = p", OF _ _ _ assms(1)])
    fix k e k' a
    assume k: "k_approvals k = [] \<and> k_policy k = p" and s: "step k e = (k', a)"
    from s have "k_approvals k' = []"
    proof (cases rule: step_cases)
      case (applied k1)
      from applied(2) have "k_approvals k1 = []"
      proof (cases rule: process_cases)
        case create
        with k show ?thesis by (cases e k rule: create_task_cases) simp_all
      next
        case (known tid idx)
        from known(4) show ?thesis
        proof (cases rule: process_task_cases)
          case (dispatched k2 a2)
          with dispatch_read_only [OF dispatched(4)] finish_frame(3) [OF dispatched(5)] k assms(2)
          show ?thesis by simp
        qed (use k in \<open>auto simp: close_approval_def\<close>)
      qed (use k in simp)
      with applied(3) show ?thesis by simp
    qed (use k in simp)
    with step_policy [OF s] k show "k_approvals k' = [] \<and> k_policy k' = p" by simp
  qed (simp_all add: kernel_inv_new, simp add: Kernel_new_def)
  then show ?thesis ..
qed

text \<open>Counters and resolved approvals are monotone.\<close>

lemma step_next_approval: "step k e = (k', acts) \<Longrightarrow> k_next_approval k \<le> k_next_approval k'"
  using step_approvals [of k e k' acts]
  by (auto simp: approvals_kept_def approval_opened_def approval_closed_def)

lemma run_next_approval: "run k es = (k', acts) \<Longrightarrow> k_next_approval k \<le> k_next_approval k'"
proof (induction es arbitrary: k acts)
  case (Cons e es)
  obtain k1 a1 where s: "step k e = (k1, a1)" by fastforce
  with Cons.prems obtain a2 where "run k1 es = (k', a2)" by (auto split: prod.splits)
  with Cons.IH step_next_approval [OF s] show ?case by (meson order_trans)
qed simp

lemma step_approval_final:
  assumes inv: "kernel_inv k" and n: "k_next_approval k \<noteq> - 1" and s: "step k e = (k', acts)"
    and st: "approval_status k aid = Some st" "st \<noteq> ApprovalStatus.Pending"
  shows "approval_status k' aid = Some st"
  using step_approvals [OF s]
proof (elim disjE)
  assume "approval_opened e k k'"
  then obtain x where "k_approvals k' = k_approvals k @ [x]"
    by (auto simp: approval_opened_def)
  with st(1) show ?thesis
    by (auto simp: approval_status_def approval_def find_append)
next
  assume "approval_closed e k k'"
  then obtain tid i aidx st' where c: "task_awaiting k tid = Some i" "approval_index k i = Some aidx"
    "k_approvals k' = k_approvals (close_approval aidx st' k)"
    by (auto simp: approval_closed_def)
  have "ae_status (k_approvals k ! aidx) = ApprovalStatus.Pending"
    using awaiting_own [OF inv n c(1) approval_entry [OF c(2)]] by simp
  then have "aid \<noteq> i" using st c(2) by (auto simp: approval_status_def approval_entry)
  moreover have "approval k' = approval (close_approval aidx st' k)" using c(3) by (rule arena_cong)
  ultimately show ?thesis
    using st(1) approval_upd_approval [OF c(2), of "\<lambda>a. a\<lparr>ae_status := st'\<rparr>" aid]
    by (simp add: approval_status_def close_approval_def)
qed (use st(1) in \<open>simp add: approvals_kept_def approval_status_def approval_def\<close>)

lemma dispatch_leased_live:
  assumes "idx < length (k_tasks k)" "\<not> task_is_terminal (te_status (k_tasks k ! idx))"
    and "dispatch e idx (k, acts) = (k', acts')" "ev_kind e = JobLeased"
  shows "\<not> task_is_terminal (te_status (k_tasks k' ! idx))" "acts' = acts"
proof -
  have leased: "task_next s JobLeased = TaskTransition.Move to \<Longrightarrow> to = TaskStatus.Running" for s to
    by (cases s) (simp_all add: task_next_def)
  from assms show "\<not> task_is_terminal (te_status (k_tasks k' ! idx))" "acts' = acts"
    by (auto simp: dispatch_def Let_def dest!: leased split: TaskTransition.splits)
qed

lemma process_task_actions:
  assumes inv: "kernel_inv k" and idx: "task_index k tid = Some idx"
    and eq: "process_task e tid idx (k, [a0]) = (k', acts)"
  shows "\<exists>rest. acts = a0 # rest \<and> length rest \<le> 1"
  using eq
proof (cases rule: process_task_cases)
  case (dispatched k2 a2)
  let ?k = "apply_job e (charge e idx k)"
  have i1: "task_index ?k tid = Some idx" using idx by simp
  have i2: "task_index k2 tid = Some idx" using task_index_dispatch [OF dispatched(4)] i1 by simp
  have lt: "idx < length (k_tasks ?k)" using i1 by (auto dest: tasks.index_SomeD)
  have live: "\<not> task_is_terminal (te_status (k_tasks ?k ! idx))"
    using dispatched(1) by (simp add: charge_fields)
  note em = finish_emits [OF i2 dispatched(5)]
  show ?thesis
  proof (cases "ev_kind e = JobLeased")
    case True
    from dispatch_leased_live [OF lt live dispatched(4) True] em
      length_ready_request [of "touch_task idx (ev_seq e) k2"] show ?thesis by simp
  next
    case False
    then have "k_ready k2 = []"
      using apply_job_ready [of e "charge e idx k"] dispatch_ready [OF dispatched(4)] inv
      by (auto simp: kernel_inv_def)
    then have no: "ready_request (touch_task idx (ev_seq e) k2) = []"
      by (simp add: ready_request_def)
    have "a2 = [a0] \<or> (\<exists>x. a2 = [a0, x])"
      by (cases rule: dispatch_emits [OF i1 dispatched(4)]) auto
    moreover have "a2 \<noteq> [a0] \<Longrightarrow> \<not> task_is_terminal (te_status (k_tasks k2 ! idx))"
      by (rule dispatch_emits_live(1) [OF lt live dispatched(4)])
    ultimately show ?thesis using em no by auto
  qed
qed simp_all

lemma step_actions:
  assumes inv: "kernel_inv k" and s: "step k e = (k', acts)"
  shows "length acts \<le> 2 \<and> (if replayed e k then acts = [] else hd acts = AppendEvent (ev_task_id e))"
  using s
proof (cases rule: step_cases)
  case (applied k1)
  from applied(2) show ?thesis
  proof (cases rule: process_cases)
    case (known tid idx)
    from process_task_actions [OF inv known(3,4)] applied(1) show ?thesis by auto
  qed (use applied(1) in simp_all)
qed simp

lemma approvals_distinct_step:
  assumes inv: "kernel_inv k" and s: "step k e = (k', acts)" and n: "k_next_approval k' \<noteq> - 1"
    and d: "distinct (map ae_id (k_approvals k))"
  shows "distinct (map ae_id (k_approvals k'))"
  using step_approvals [OF s]
proof (elim disjE)
  assume "approval_opened e k k'"
  then obtain x where x: "k_approvals k' = k_approvals k @ [x]" "ae_id x = ApprovalId (k_next_approval k)"
    by (auto simp: approval_opened_def new_approval_def)
  have "k_next_approval k \<noteq> - 1"
    using n step_next_approval [OF s] by (auto simp: word_order.extremum_unique)
  then have "\<forall>a\<in>set (k_approvals k). ae_id a \<noteq> ae_id x"
    using inv x(2) by (auto simp: kernel_inv_def core_inv_def approvals_wf_def)
  then show ?thesis using d by (auto simp: x(1))
next
  assume "approval_closed e k k'"
  then obtain aid aidx st where i: "approval_index k aid = Some aidx"
    and k': "k_approvals k' = (k_approvals k)[aidx := (k_approvals k ! aidx)\<lparr>ae_status := st\<rparr>]"
    by (auto simp: approval_closed_def close_approval_def)
  have "map ae_id (k_approvals k') = map ae_id (k_approvals k)"
    unfolding k' using i by (rule approvals.idents_put) (use approvals.index_SomeD [OF i] in simp)
  then show ?thesis using d by simp
qed (use d in \<open>simp add: approvals_kept_def\<close>)

lemma approvals_distinct: "reachable p k \<Longrightarrow> k_next_approval k \<noteq> - 1 \<Longrightarrow> distinct (map ae_id (k_approvals k))"
proof (induction rule: reachable.induct)
  case (reachable_step k e k' acts)
  have "k_next_approval k \<noteq> - 1"
    using reachable_step.prems step_next_approval [OF reachable_step(2)] by (auto simp: word_order.extremum_unique)
  from approvals_distinct_step [OF kernel_inv_reachable [OF reachable_step(1)] reachable_step(2) reachable_step.prems reachable_step.IH [OF this]]
  show ?case .
qed (simp add: Kernel_new_def)

text \<open>An answer of anybody but the user is recorded and nothing else.\<close>

lemma forged_resolution_silent:
  assumes inv: "kernel_inv k" and s: "step k e = (k', acts)"
    and e: "ev_kind e = ApprovalResolved" "ev_actor e \<noteq> Actor.User"
  shows "acts = [] \<or> acts = [AppendEvent (ev_task_id e)]"
proof (rule ccontr)
    assume "\<not> (acts = [] \<or> acts = [AppendEvent (ev_task_id e)])"
    then have "acts \<noteq> []" "acts \<noteq> [AppendEvent (ev_task_id e)]" by auto
    with s show False
    proof (rule step_known)
      fix tid idx k2 a2 k1
      let ?k = "apply_job e (charge e idx k)"
      assume idx: "task_index k tid = Some idx"
        and live: "\<not> task_is_terminal (te_status (k_tasks k ! idx))"
        and d: "dispatch e idx (?k, [AppendEvent (ev_task_id e)]) = (k2, a2)"
        and f: "finish e tid idx (k2, a2) = (k1, acts)"
      have "resolve_approval e idx (?k, [AppendEvent (ev_task_id e)]) = (k2, a2)"
        using d e(1) by (simp add: dispatch_def)
      then have r: "k2 = ?k" "a2 = [AppendEvent (ev_task_id e)]"
        using e(2) by (simp_all add: resolve_approval_def)
      have "k_ready k2 = []"
        using apply_job_ready [of e "charge e idx k"] inv e(1) by (auto simp: r kernel_inv_def)
      moreover have "te_status (k_tasks k2 ! idx) = te_status (k_tasks k ! idx)"
        by (simp add: r charge_fields)
      moreover have "task_index k2 tid = Some idx" using idx by (simp add: r)
      ultimately show False
        using finish_emits [of k2 tid idx, OF _ f] live r(2) \<open>acts \<noteq> [AppendEvent (ev_task_id e)]\<close>
        by (simp add: ready_request_def)
    qed
qed

section \<open>A worked run\<close>

text \<open>
  A task with the standard budget is created, a job is queued and leased, the job asks for a tool
  run without declaring it reversible, and the user approves.
\<close>

definition demo_task :: TaskId where
  "demo_task = TaskId 7"

definition demo_job :: JobId where
  "demo_job = JobId 3"

definition demo_event :: "EventKind \<Rightarrow> u64 \<Rightarrow> Event" where
  "demo_event kind n =
     with_timestamp (with_job (with_task (Event_inbound kind (EventSeq n) Actor.User) demo_task) demo_job)
       (from_millis n)"

definition demo_ask :: Event where
  "demo_ask = with_tool_call (demo_event ToolCallRequested 4) (ToolCallId 9)"

definition demo_approve :: Event where
  "demo_approve =
     with_resolution (with_approval (with_tool_call (demo_event ApprovalResolved 5) (ToolCallId 9))
       (ApprovalId 1)) Approve"

definition demo_start :: "Event list" where
  "demo_start =
     [Event_task_created (EventSeq 1) Actor.User demo_task standard_task,
      demo_event JobQueued 2, demo_event JobLeased 3]"

definition demo_policy :: PolicySnapshot where
  "demo_policy = PolicySnapshot_new Supervised"

definition demo_run :: "Event list \<Rightarrow> Kernel" where
  "demo_run es = fst (run (Kernel_new demo_policy) es)"

lemma demo_run_run: "run (Kernel_new demo_policy) es = (demo_run es, snd (run (Kernel_new demo_policy) es))"
  by (simp add: demo_run_def)

lemma demo_reachable: "reachable demo_policy (demo_run es)"
  by (rule reachable_run [OF reachable_new demo_run_run])

section \<open>Properties\<close>

text \<open>
  C1. No tool runs without authority. Whatever events a fresh kernel was fed, a step that emits a
  tool run for a job does so for a leased or running job of the event's own task, and either the
  event is a request that the policy in force allows outright, from a task that is running (or
  integrating, for a GitHub operation), or the event is the user's approval of an operation that
  an earlier request of the same task, the same job and the same tool call asked for, given no
  later than the approval deadline after that request.
\<close>

theorem tool_run_traced:
  assumes r: "run (Kernel_new p) es = (k, a0)" and len: "length es < 2 ^ 128 - 2"
    and s: "step k e = (k', acts)" and mem: "RunTool j \<in> set acts"
  shows "\<exists>tid. ev_task_id e = Some tid \<and> is_runnable_job k' j tid
    \<and> (policy_authorized k e tid j
       \<or> (ev_kind e = ApprovalResolved \<and> ev_actor e = Actor.User \<and> ev_resolution e = Some Approve
          \<and> ev_tool_call_id e \<noteq> None
          \<and> (\<exists>q\<in>set es. is_request (ev_kind q) \<and> requires_approval (effective_reversibility q)
               \<and> ev_task_id q = Some tid \<and> ev_job_id q = Some j
               \<and> ev_tool_call_id q = ev_tool_call_id e
               \<and> as_millis (ev_timestamp e)
                   \<le> saturating_add (as_millis (ev_timestamp q)) APPROVAL_TTL_MS)))"
  using s mem
proof (rule step_run_tool)
  fix tid
  assume tid: "ev_task_id e = Some tid" and run: "is_runnable_job k' j tid"
    and auth: "policy_authorized k e tid j \<or> (\<exists>a. user_authorized k e tid a \<and> ae_job a = Some j)"
  from auth show ?thesis
  proof
    assume "policy_authorized k e tid j"
    with tid run show ?thesis by blast
  next
    assume "\<exists>a. user_authorized k e tid a \<and> ae_job a = Some j"
    then obtain a where a: "user_authorized k e tid a" "ae_job a = Some j" by blast
    then have own: "ae_task a = tid"
      using awaiting_own [OF kernel_inv_run [OF r] run_unsaturated [OF r len]]
      by (auto simp: user_authorized_def)
    have "asked_by es a"
      using run_origin [OF r] a(1) by (auto simp: user_authorized_def dest: approvals.lookup_SomeD)
    with a own tid run show ?thesis
      by (auto simp: user_authorized_def asked_by_def less_eq_Timestamp_def)
  qed
qed

theorem tool_run_traced_witness:
  "\<exists>tid. ev_task_id demo_approve = Some tid
    \<and> is_runnable_job (fst (step (demo_run (demo_start @ [demo_ask])) demo_approve)) demo_job tid
    \<and> (policy_authorized (demo_run (demo_start @ [demo_ask])) demo_approve tid demo_job
       \<or> (ev_kind demo_approve = ApprovalResolved \<and> ev_actor demo_approve = Actor.User
          \<and> ev_resolution demo_approve = Some Approve \<and> ev_tool_call_id demo_approve \<noteq> None
          \<and> (\<exists>q\<in>set (demo_start @ [demo_ask]). is_request (ev_kind q)
               \<and> requires_approval (effective_reversibility q)
               \<and> ev_task_id q = Some tid \<and> ev_job_id q = Some demo_job
               \<and> ev_tool_call_id q = ev_tool_call_id demo_approve
               \<and> as_millis (ev_timestamp demo_approve)
                   \<le> saturating_add (as_millis (ev_timestamp q)) APPROVAL_TTL_MS)))"
proof (rule tool_run_traced [OF demo_run_run _ prod.collapse [symmetric]])
  show "length (demo_start @ [demo_ask]) < 2 ^ 128 - 2" by (simp add: demo_start_def)
  show "RunTool demo_job \<in> set (snd (step (demo_run (demo_start @ [demo_ask])) demo_approve))"
    by code_simp
qed

text \<open>
  C2. The kernel invariant holds in every kernel reachable from a fresh one: task and job ids are
  distinct; every task has a fully bounded budget, carries a block reason exactly when it is
  blocked and awaits an approval exactly when its status says so; every job belongs to a known
  task; no job is left in the ready queue between steps; and as long as the 128-bit counter of
  approvals is below its last value, no approval id was minted twice, all of them are below the
  counter, and a waiting task waits on a pending approval of its own that names its operation.
\<close>

theorem reachable_invariant:
  assumes "reachable p k"
  shows "kernel_inv k \<and> (k_next_approval k \<noteq> - 1 \<longrightarrow> distinct (map ae_id (k_approvals k)))"
  using kernel_inv_reachable [OF assms] approvals_distinct [OF assms] by blast

theorem reachable_invariant_witness:
  "kernel_inv (demo_run (demo_start @ [demo_ask]))
   \<and> distinct (map ae_id (k_approvals (demo_run (demo_start @ [demo_ask]))))"
proof -
  have "k_next_approval (demo_run (demo_start @ [demo_ask])) \<noteq> - 1" by code_simp
  then show ?thesis using reachable_invariant [OF demo_reachable, of "demo_start @ [demo_ask]"] by blast
qed

text \<open>
  C7. A request that declares itself irreversible, or declares nothing, never runs a tool in the
  step that makes it, and under a read-only policy it does not even open an approval; it can at
  most open one approval, and the id it gets is the next one.
\<close>

theorem irreversible_request_never_runs:
  assumes "step k e = (k', acts)" and "is_request (ev_kind e)"
    and "ev_reversibility e \<in> {None, Some Irreversible}"
  shows "RunTool j \<notin> set acts
    \<and> (RequestApproval a \<in> set acts \<longrightarrow>
        ps_profile (k_policy k) \<noteq> ReadOnly \<and> a = ApprovalId (k_next_approval k))"
proof
  have eff: "requires_approval (effective_reversibility e)"
    using assms(3) by (auto simp: effective_reversibility_def)
  show "RunTool j \<notin> set acts"
  proof
    assume "RunTool j \<in> set acts"
    with assms(1) show False
      by (rule step_run_tool) (use eff assms(2) in \<open>auto simp: policy_authorized_def
          user_authorized_def classify_Allow_iff is_request_def\<close>)
  qed
  show "RequestApproval a \<in> set acts \<longrightarrow>
      ps_profile (k_policy k) \<noteq> ReadOnly \<and> a = ApprovalId (k_next_approval k)"
    using step_request_approval [OF assms(1)] by blast
qed

theorem irreversible_request_never_runs_witness:
  "RequestApproval (ApprovalId 1) \<in> set (snd (step (demo_run demo_start) demo_ask))
   \<and> RunTool demo_job \<notin> set (snd (step (demo_run demo_start) demo_ask))"
proof
  show "RequestApproval (ApprovalId 1) \<in> set (snd (step (demo_run demo_start) demo_ask))"
    by code_simp
  show "RunTool demo_job \<notin> set (snd (step (demo_run demo_start) demo_ask))"
    by (rule irreversible_request_never_runs [OF prod.collapse [symmetric], THEN conjunct1]) code_simp+
qed

text \<open>
  C3. Only the user approves. An event from any other actor (the model, a subagent, an external
  worker, an adapter, the kernel itself) turns no approval into an approved one, whatever it
  claims, and in a reachable kernel its approval resolution emits nothing but the log record.
\<close>

theorem only_user_approves:
  assumes "step k e = (k', acts)" and "ev_actor e \<noteq> Actor.User"
  shows "(approval_status k' aid = Some ApprovalStatus.Approved \<longrightarrow>
      approval_status k aid = Some ApprovalStatus.Approved)
    \<and> (reachable p k \<and> ev_kind e = ApprovalResolved \<longrightarrow> acts = [] \<or> acts = [AppendEvent (ev_task_id e)])"
proof
  show "approval_status k' aid = Some ApprovalStatus.Approved \<longrightarrow>
      approval_status k aid = Some ApprovalStatus.Approved"
    using step_approvals [OF assms(1)]
  proof (elim disjE)
    assume "approval_opened e k k'"
    then obtain x where k': "k_approvals k' = k_approvals k @ [x]"
      and x: "ae_status x = ApprovalStatus.Pending"
      by (auto simp: approval_opened_def new_approval_def)
    have "approval k' aid = (case approval k aid of Some a \<Rightarrow> Some a
        | None \<Rightarrow> if ae_id x = aid then Some x else None)"
      by (simp add: approval_def k' find_append split: option.split)
    with x show ?thesis by (auto simp: approval_status_def split: option.splits if_splits)
  next
    assume "approval_closed e k k'"
    then obtain i aidx st where i: "approval_index k i = Some aidx"
      and st: "st \<noteq> ApprovalStatus.Approved"
      and k': "k_approvals k' = k_approvals (close_approval aidx st k)"
      using assms(2) by (auto simp: approval_closed_def user_authorized_def)
    have "approval k' = approval (close_approval aidx st k)" using k' by (rule arena_cong)
    with st approval_upd_approval [OF i, of "\<lambda>a. a\<lparr>ae_status := st\<rparr>" aid] show ?thesis
      by (auto simp: approval_status_def close_approval_def)
  qed (simp add: approvals_kept_def approval_status_def approval_def)
  show "reachable p k \<and> ev_kind e = ApprovalResolved \<longrightarrow> acts = [] \<or> acts = [AppendEvent (ev_task_id e)]"
    using forged_resolution_silent [OF kernel_inv_reachable assms(1) _ assms(2)] by blast
qed

definition demo_forged :: Event where
  "demo_forged = demo_approve\<lparr>ev_actor := Actor.Model\<rparr>"

theorem only_user_approves_witness:
  "approval_status (demo_run (demo_start @ [demo_ask, demo_forged])) (ApprovalId 1) = Some ApprovalStatus.Pending
   \<and> snd (step (demo_run (demo_start @ [demo_ask])) demo_forged) \<in> {[], [AppendEvent (Some demo_task)]}"
proof
  show "approval_status (demo_run (demo_start @ [demo_ask, demo_forged])) (ApprovalId 1) = Some ApprovalStatus.Pending"
    by code_simp
  have e: "ev_actor demo_forged \<noteq> Actor.User" "ev_kind demo_forged = ApprovalResolved" "ev_task_id demo_forged = Some demo_task"
    by code_simp+
  note forged = only_user_approves [OF prod.collapse [symmetric] e(1), THEN conjunct2, THEN mp, OF conjI [OF demo_reachable e(2)]]
  show "snd (step (demo_run (demo_start @ [demo_ask])) demo_forged) \<in> {[], [AppendEvent (Some demo_task)]}"
    using forged [of "demo_start @ [demo_ask]"] unfolding e(3) by auto
qed

text \<open>
  C9. Under a read-only policy nothing is ever executed: over any sequence of events a fresh
  kernel emits neither a tool run nor an approval request.
\<close>

theorem read_only_runs_nothing:
  assumes "run (Kernel_new p) es = (k, acts)" and "ps_profile p = ReadOnly"
  shows "RunTool j \<notin> set acts \<and> RequestApproval a \<notin> set acts"
  using assms(1)
proof (induction es arbitrary: k acts rule: rev_induct)
  case (snoc e es)
  from snoc.prems obtain k1 a1 a2 where r: "run (Kernel_new p) es = (k1, a1)"
    and s: "step k1 e = (k, a2)" and acts: "acts = a1 @ a2" by (rule run_snocE)
  have ro: "ps_profile (k_policy k1) = ReadOnly" using run_policy [OF r] assms(2) by simp
  have none: "k_approvals k1 = []"
    using r by (rule run_no_approvals) (rule assms(2))
  have "RequestApproval a \<notin> set a2" using step_request_approval [OF s] ro by blast
  moreover have "RunTool j \<notin> set a2"
  proof
    assume "RunTool j \<in> set a2"
    with s show False
      by (rule step_run_tool)
        (use ro none in \<open>auto simp: policy_authorized_def user_authorized_def classify_Allow_iff approval_def\<close>)
  qed
  ultimately show ?case using snoc.IH [OF r] acts by simp
qed simp

theorem read_only_runs_nothing_witness:
  "RunTool demo_job \<notin> set (snd (run (Kernel_new (PolicySnapshot_new ReadOnly)) (demo_start @ [demo_ask, demo_approve])))"
  by (rule read_only_runs_nothing [OF prod.collapse [symmetric], THEN conjunct1])
    (simp add: PolicySnapshot_new_def)


text \<open>
  A finished task stays finished. Once a task is completed, failed or killed, no sequence of
  events changes its status, and an event addressed to it emits exactly its log record: no tool
  run, no model request, no second finish notice.
\<close>

theorem terminal_task_absorbing:
  assumes "reachable p k" and "task_status k tid = Some st" and "task_is_terminal st"
    and "run k es = (k', acts)"
  shows "task_status k' tid = Some st
    \<and> (ev_task_id e = Some tid \<and> ev_kind e \<noteq> TaskCreated \<and> \<not> replayed e k' \<longrightarrow>
        snd (step k' e) = [AppendEvent (Some tid)])"
proof
  show fin: "task_status k' tid = Some st"
  proof (rule run_invariant [where P = "\<lambda>k. task_status k tid = Some st", OF _ _ _ assms(4)])
    fix k e k' a
    assume "kernel_inv k" "task_status k tid = Some st" "step k e = (k', a)"
    then show "task_status k' tid = Some st"
      using step_task_evolves [of k e k' a tid] task_edge_terminal [OF assms(3)]
      by (auto simp: task_status_def task_evolves_def)
  qed (use kernel_inv_reachable [OF assms(1)] assms(2) in simp_all)
  show "ev_task_id e = Some tid \<and> ev_kind e \<noteq> TaskCreated \<and> \<not> replayed e k' \<longrightarrow>
      snd (step k' e) = [AppendEvent (Some tid)]"
  proof
    assume e: "ev_task_id e = Some tid \<and> ev_kind e \<noteq> TaskCreated \<and> \<not> replayed e k'"
    obtain idx where idx: "task_index k' tid = Some idx" "te_status (k_tasks k' ! idx) = st"
      using fin by (auto simp: task_status_def tasks.lookup_index)
    with e assms(3) show "snd (step k' e) = [AppendEvent (Some tid)]"
      by (simp add: step_def process_def process_task_def)
  qed
qed

definition demo_kill :: Event where
  "demo_kill = demo_event TaskKilled 6"

theorem terminal_task_absorbing_witness:
  "task_status (fst (run (demo_run (demo_start @ [demo_kill]))
     [demo_event JobLeased 7, demo_event UserSteerReceived 8])) demo_task = Some TaskStatus.Killed
   \<and> task_is_terminal TaskStatus.Killed"
proof
  have "task_status (demo_run (demo_start @ [demo_kill])) demo_task = Some TaskStatus.Killed"
    by code_simp
  then show "task_status (fst (run (demo_run (demo_start @ [demo_kill]))
     [demo_event JobLeased 7, demo_event UserSteerReceived 8])) demo_task = Some TaskStatus.Killed"
    by (rule terminal_task_absorbing [OF demo_reachable _ _ prod.collapse [symmetric], THEN conjunct1]) simp
qed simp

text \<open>
  Replaying events that were already delivered is harmless: feeding a sequence of numbered
  events a second time changes nothing at all and emits nothing.
\<close>

theorem replay_idempotent:
  assumes "run k es = (k', acts)" and "\<forall>e\<in>set es. ev_seq e \<noteq> EventSeq_FIRST"
  shows "run k' es = (k', [])"
proof -
  have "\<forall>e\<in>set es. replayed e k'"
    using run_frontier [OF assms(1)] assms(2) by (auto simp: replayed_def)
  then show ?thesis by (rule run_replayed)
qed

theorem replay_idempotent_witness:
  "run (demo_run (demo_start @ [demo_ask])) (demo_start @ [demo_ask])
   = (demo_run (demo_start @ [demo_ask]), [])"
  by (rule replay_idempotent [OF demo_run_run]) code_simp

text \<open>
  C11. Every status change of a task is an edge of the state machine: in one step, of any reachable
  kernel, a task moves along a successor edge of the reference table, or between
  running/integrating, awaiting approval and back; and a task the event does not name is not
  touched at all.
\<close>

theorem task_lifecycle:
  assumes "reachable p k" and "step k e = (k', acts)" and "task k tid = Some t"
  shows "\<exists>t'. task k' tid = Some t' \<and> task_edge (te_status t) (te_status t')
    \<and> (ev_task_id e \<noteq> Some tid \<longrightarrow> t' = t)"
  using step_task_evolves [OF kernel_inv_reachable [OF assms(1)] assms(2,3)]
  by (auto simp: task_evolves_def)

theorem task_lifecycle_witness:
  "\<exists>t'. task (fst (step (demo_run demo_start) demo_ask)) demo_task = Some t'
    \<and> task_edge TaskStatus.Running (te_status t')"
proof -
  have "task_status (demo_run demo_start) demo_task = Some TaskStatus.Running" by code_simp
  then obtain t where t: "task (demo_run demo_start) demo_task = Some t" "te_status t = TaskStatus.Running"
    by (auto simp: task_status_def)
  from task_lifecycle [OF demo_reachable prod.collapse [symmetric] t(1), of demo_ask] t(2)
  show ?thesis by auto
qed

text \<open>
  Every status change of a job is an edge of its state machine: it follows the reference
  table, or an active job whose lease ran out expires; a job never changes its task and is never
  forgotten, so a terminal job is terminal for good.
\<close>

theorem job_lifecycle:
  assumes "run k es = (k', acts)" and "job k j = Some x"
  shows "\<exists>x'. job k' j = Some x' \<and> je_task x' = je_task x
    \<and> job_edge\<^sup>*\<^sup>* (je_status x) (je_status x')
    \<and> (job_is_terminal (je_status x) \<longrightarrow> je_status x' = je_status x)"
  using assms
proof (induction es arbitrary: k x acts)
  case (Cons e es)
  obtain k1 a1 where s: "step k e = (k1, a1)" by fastforce
  with Cons.prems obtain a2 where r: "run k1 es = (k', a2)" by (auto split: prod.splits)
  from step_job [OF s Cons.prems(2)] obtain x1 where x1: "job k1 j = Some x1" "job_evolves x x1"
    by blast
  then have "job_edge (je_status x) (je_status x1)" "je_task x1 = je_task x"
    by (auto simp: job_evolves_def)
  moreover have "job_is_terminal (je_status x) \<Longrightarrow> je_status x1 = je_status x"
    using calculation(1) by (cases "je_status x") (auto simp: job_edge_def job_active_def)
  ultimately show ?case
    using Cons.IH [OF r x1(1)] by (auto intro: converse_rtranclp_into_rtranclp)
qed simp

theorem job_lifecycle_witness:
  "\<exists>x'. job (fst (run (demo_run (take 2 demo_start)) [demo_event JobLeased 3, demo_kill])) demo_job = Some x'
    \<and> job_edge\<^sup>*\<^sup>* JobStatus.Queued (je_status x')"
proof -
  have "job_status (demo_run (take 2 demo_start)) demo_job = Some JobStatus.Queued" by code_simp
  then obtain x where x: "job (demo_run (take 2 demo_start)) demo_job = Some x" "je_status x = JobStatus.Queued"
    by (auto simp: job_status_def)
  from job_lifecycle [OF prod.collapse [symmetric] x(1), of "[demo_event JobLeased 3, demo_kill]"] x(2)
  show ?thesis by auto
qed


text \<open>
  A task's budget only ever shrinks: over any run the limit of every meter is constant and
  what it has used never decreases.
\<close>

theorem budget_monotone:
  assumes "reachable p k" and "run k es = (k', acts)" and "budget k tid = Some b"
  shows "\<exists>b'. budget k' tid = Some b' \<and> m_limit (meter b' x) = m_limit (meter b x)
    \<and> m_used (meter b x) \<le> m_used (meter b' x)"
proof (rule run_invariant [where P = "\<lambda>k. \<exists>b'. budget k tid = Some b'
      \<and> m_limit (meter b' x) = m_limit (meter b x) \<and> m_used (meter b x) \<le> m_used (meter b' x)",
      OF _ _ _ assms(2)])
  fix k e k' acts
  assume inv: "kernel_inv k" and s: "step k e = (k', acts)"
    and "\<exists>b'. budget k tid = Some b' \<and> m_limit (meter b' x) = m_limit (meter b x)
      \<and> m_used (meter b x) \<le> m_used (meter b' x)"
  then obtain t where t: "task k tid = Some t" "m_limit (meter (te_budget t) x) = m_limit (meter b x)"
    "m_used (meter b x) \<le> m_used (meter (te_budget t) x)" by (auto simp: budget_def)
  have ch: "m_limit (meter (charged e c) x) = m_limit (meter c x)
    \<and> m_used (meter c x) \<le> m_used (meter (charged e c) x)" for c
    by (cases "ev_budget_delta e")
      (simp_all add: charged_def meter_def record_delta_meters)
  from step_task_evolves [OF inv s t(1)] obtain t' where "task k' tid = Some t'"
    "te_budget t' = te_budget t \<or> te_budget t' = charged e (te_budget t)"
    by (auto simp: task_evolves_def)
  with t ch [of "te_budget t"] show "\<exists>b'. budget k' tid = Some b'
      \<and> m_limit (meter b' x) = m_limit (meter b x) \<and> m_used (meter b x) \<le> m_used (meter b' x)"
    by (auto simp: budget_def intro: order_trans)
qed (use kernel_inv_reachable [OF assms(1)] assms(3) in simp_all)

definition demo_spend :: Event where
  "demo_spend = with_budget_delta (demo_event CommandCompleted 4) (BudgetDelta_of Tokens 2000000)"

theorem budget_monotone_witness:
  "\<exists>b'. budget (fst (run (demo_run demo_start) [demo_spend])) demo_task = Some b'
    \<and> m_limit (meter b' Tokens) = m_limit (meter standard_task Tokens)
    \<and> m_used (meter standard_task Tokens) \<le> m_used (meter b' Tokens)"
proof (rule budget_monotone [OF demo_reachable prod.collapse [symmetric]])
  show "budget (demo_run demo_start) demo_task = Some standard_task" by code_simp
qed

text \<open>
  C12. Exceeding a budget stops the task at once. In a reachable kernel, take an event, neither a creation
  nor a replay, for a task that is not over and whose approval, if it waits for one, has not expired:
  if its charge takes some meter of the task over its limit, the task is blocked, with an axis that
  is over its limit as the reason, waits for no approval any more, keeps the charge on the
  books, and only the log record is emitted.
\<close>

theorem budget_exhaustion_blocks:
  assumes "reachable p k" and "task k tid = Some t"
    and "\<not> task_is_terminal (te_status t)"
    and "\<And>aid a. te_awaiting t = Some aid \<Longrightarrow> approval k aid = Some a \<Longrightarrow> ev_timestamp e \<le> ae_expires_at a"
    and "ev_task_id e = Some tid" "ev_kind e \<noteq> TaskCreated" "\<not> replayed e k"
    and "ev_budget_delta e = Some d"
    and over: "unat (m_limit (meter (te_budget t) x))
      < unat (m_used (meter (te_budget t) x)) + unat (amount d x)"
    and "step k e = (k', acts)"
  shows "acts = [AppendEvent (Some tid)] \<and> task_status k' tid = Some TaskStatus.Blocked
    \<and> task_awaiting k' tid = None
    \<and> budget k' tid = Some (fst (record_delta (te_budget t) d))
    \<and> (\<exists>y. block_reason k' tid = Some (BudgetExhausted y)
          \<and> \<not> within (meter (fst (record_delta (te_budget t) d)) y))"
proof -
  obtain idx where idx: "task_index k tid = Some idx" "k_tasks k ! idx = t"
    using assms(2) by (auto simp: tasks.lookup_index)
  have lt: "idx < length (k_tasks k)" using idx by (auto dest: tasks.index_SomeD)
  have "is_fully_bounded (te_budget t)"
    using kernel_inv_reachable [OF assms(1)] core_inv_task(1) [OF _ idx(1)] idx(2)
    by (auto simp: kernel_inv_def task_wf_bounded)
  then have "m_limit (meter (te_budget t) x) \<noteq> - 1"
    by (simp add: is_fully_bounded_iff meter_def)
  then have "\<not> within (meters (fst (record_delta (te_budget t) d)) x)"
    using over unat_less_max [of "m_limit (meter (te_budget t) x)"]
    by (simp add: within_def meter_def record_delta_meters Meter_add_def word_le_nat_alt
        unat_saturating_add)
  then obtain y where y: "snd (record_delta (te_budget t) d) = Exhausted y"
    by (cases "snd (record_delta (te_budget t) d)") (auto simp: record_delta_check check_Within_iff)
  then have ny: "\<not> within (meter (fst (record_delta (te_budget t) d)) y)"
    by (simp add: record_delta_check check_def check_axes_Exhausted_iff meter_def)
  have fb: "fold_budget e idx k =
      Inl (touch_task idx (ev_seq e) (set_blocked idx (BudgetExhausted y) (charge e idx k)))"
    by (rule fold_budget_cases [of e idx k]) (use y idx(2) assms(8) in auto)
  have "\<not> ae_expires_at (k_approvals k ! i) < ev_timestamp e"
    if "te_awaiting t = Some j" "approval_index k j = Some i" for i j
    using assms(4) [OF that(1), of "k_approvals k ! i"] that(2) by (simp add: approvals.lookup_index not_less)
  then have "expired_awaiting e idx k = None"
    using idx(2) by (auto simp: expired_awaiting_def split: option.splits)
  with fb idx assms(3,5,6,7,10) have k': "acts = [AppendEvent (Some tid)]"
    "k' = advance_frontier e (touch_task idx (ev_seq e)
       (set_blocked idx (BudgetExhausted y) (charge e idx k)))"
    by (auto simp: step_def process_def process_task_def)
  have "task_index k' tid = Some idx"
    unfolding k'(2) using idx by (subst arena_cong(1)) (rule advance_frontier_frame, simp)
  then have "task k' tid = Some (k_tasks k' ! idx)" by (rule task_entry)
  with k' ny lt idx(2) charge_entry [OF idx(1), of e] assms(8) show ?thesis
    by (simp add: task_status_def budget_def block_reason_def task_awaiting_def)
qed

theorem budget_exhaustion_blocks_witness:
  "task_status (demo_run demo_start) demo_task = Some TaskStatus.Running
   \<and> task_status (fst (step (demo_run demo_start) demo_spend)) demo_task = Some TaskStatus.Blocked"
proof
  show run: "task_status (demo_run demo_start) demo_task = Some TaskStatus.Running" by code_simp
  have "budget (demo_run demo_start) demo_task = Some standard_task" by code_simp
  moreover have "task_awaiting (demo_run demo_start) demo_task = None" by code_simp
  ultimately obtain t where t: "task (demo_run demo_start) demo_task = Some t"
    "te_status t = TaskStatus.Running" "te_budget t = standard_task" "te_awaiting t = None"
    using run by (auto simp: task_status_def budget_def task_awaiting_def)
  have "\<not> replayed demo_spend (demo_run demo_start)" by code_simp
  moreover have "unat (m_limit (meter (te_budget t) Tokens))
      < unat (m_used (meter (te_budget t) Tokens)) + unat (amount (BudgetDelta_of Tokens 2000000) Tokens)"
    unfolding t(3)
    by (simp add: meter_def standard_task_def Meter_with_limit_def amount_def BudgetDelta_of_def
        BudgetDelta_with_def BudgetDelta_none_def saturating_add_def)
  ultimately show "task_status (fst (step (demo_run demo_start) demo_spend)) demo_task = Some TaskStatus.Blocked"
    using budget_exhaustion_blocks [OF demo_reachable t(1) _ _ _ _ _ _ _ prod.collapse [symmetric],
        of demo_spend "BudgetDelta_of Tokens 2000000" Tokens] t(2,4)
    by (simp add: demo_spend_def demo_event_def model_defs)
qed


definition demo_late :: Event where
  "demo_late = with_timestamp demo_approve (from_millis 300005)"

text \<open>
  A resolution is final: once an approval was approved, denied or has expired, no later event
  changes it, so one approval authorizes at most one resumption.
\<close>

theorem approval_final:
  assumes "reachable p k" and "run k es = (k', acts)" and "k_next_approval k' \<noteq> - 1"
    and "approval_status k aid = Some st" "st \<noteq> ApprovalStatus.Pending"
  shows "approval_status k' aid = Some st"
  using assms
proof (induction es arbitrary: k acts)
  case (Cons e es)
  obtain k1 a1 where s: "step k e = (k1, a1)" by fastforce
  with Cons.prems(2) obtain a2 where r: "run k1 es = (k', a2)" by (auto split: prod.splits)
  have n: "k_next_approval k \<noteq> - 1"
    using Cons.prems(3) run_next_approval [OF Cons.prems(2)] by (auto simp: word_order.extremum_unique)
  have "approval_status k1 aid = Some st"
    by (rule step_approval_final [OF kernel_inv_reachable [OF Cons.prems(1)] n s Cons.prems(4,5)])
  with Cons.IH [OF reachable_step [OF Cons.prems(1) s] r Cons.prems(3) _ Cons.prems(5)]
  show ?case by simp
qed simp

theorem approval_final_witness:
  "approval_status (fst (run (demo_run (demo_start @ [demo_ask, demo_approve]))
     [demo_event ToolCallRequested 6, demo_late])) (ApprovalId 1) = Some ApprovalStatus.Approved"
proof (rule approval_final [OF demo_reachable prod.collapse [symmetric]])
  show "approval_status (demo_run (demo_start @ [demo_ask, demo_approve])) (ApprovalId 1)
      = Some ApprovalStatus.Approved" by code_simp
  show "k_next_approval (fst (run (demo_run (demo_start @ [demo_ask, demo_approve]))
     [demo_event ToolCallRequested 6, demo_late])) \<noteq> - 1" by code_simp
qed simp

text \<open>
  C13. An approval does not outlive its deadline. In a reachable kernel, the first event for a waiting task
  that carries a later timestamp, unless it is a creation or a replay, blocks the task with the
  expiry as the reason, ends its waiting, and emits only the log record, whatever else the event is, an
  approval included; and from then on the approval stays expired through every further run that leaves
  the counter of approvals below its last value: no later event revives it.
\<close>

theorem expired_approval_blocks:
  assumes "reachable p k" and "task_status k tid = Some TaskStatus.AwaitingApproval" "task_awaiting k tid = Some aid"
    and "approval k aid = Some a" and "ae_expires_at a < ev_timestamp e"
    and "ev_task_id e = Some tid" "ev_kind e \<noteq> TaskCreated" "\<not> replayed e k"
    and "step k e = (k', acts)"
  shows "acts = [AppendEvent (Some tid)] \<and> task_status k' tid = Some TaskStatus.Blocked
    \<and> block_reason k' tid = Some ApprovalExpired \<and> task_awaiting k' tid = None
    \<and> (\<forall>es k'' acts'. run k' es = (k'', acts') \<and> k_next_approval k'' \<noteq> - 1 \<longrightarrow>
         approval_status k'' aid = Some ApprovalStatus.Expired)"
proof -
  obtain idx where idx: "task_index k tid = Some idx"
    "te_status (k_tasks k ! idx) = TaskStatus.AwaitingApproval"
    "te_awaiting (k_tasks k ! idx) = Some aid"
    using assms(2,3) by (auto simp: task_status_def task_awaiting_def tasks.lookup_index)
  obtain aidx where aidx: "approval_index k aid = Some aidx" "k_approvals k ! aidx = a"
    using assms(4) by (auto simp: approvals.lookup_index)
  have lt: "idx < length (k_tasks k)" using idx by (auto dest: tasks.index_SomeD)
  have "expired_awaiting e idx k = Some aidx"
    using idx aidx assms(5) by (simp add: expired_awaiting_def)
  with idx assms(6-9) have k': "acts = [AppendEvent (Some tid)]"
    "k' = advance_frontier e (touch_task idx (ev_seq e)
       (set_blocked idx ApprovalExpired (close_approval aidx ApprovalStatus.Expired k)))"
    by (auto simp: step_def process_def process_task_def close_approval_def)
  have "task_index k' tid = Some idx"
    unfolding k'(2) using idx by (subst arena_cong(1)) (rule advance_frontier_frame, simp)
  then have t: "task k' tid = Some (k_tasks k' ! idx)" by (rule task_entry)
  have "approval k' = approval (close_approval aidx ApprovalStatus.Expired k)"
    unfolding k'(2) by (rule arena_cong) simp
  then have "approval_status k' aid = Some ApprovalStatus.Expired"
    using approval_upd_approval [OF aidx(1), of "\<lambda>a. a\<lparr>ae_status := ApprovalStatus.Expired\<rparr>" aid]
    by (simp add: approval_status_def close_approval_def)
  with approval_final [OF reachable_step [OF assms(1,9)]] k' t lt show ?thesis
    by (auto simp: task_status_def block_reason_def task_awaiting_def)
qed

theorem expired_approval_blocks_witness:
  "task_status (demo_run (demo_start @ [demo_ask])) demo_task = Some TaskStatus.AwaitingApproval
   \<and> approval_status (fst (run (fst (step (demo_run (demo_start @ [demo_ask])) demo_late))
        [demo_event ToolCallRequested 6])) (ApprovalId 1) = Some ApprovalStatus.Expired"
proof
  show st: "task_status (demo_run (demo_start @ [demo_ask])) demo_task = Some TaskStatus.AwaitingApproval"
    by code_simp
  have aw: "task_awaiting (demo_run (demo_start @ [demo_ask])) demo_task = Some (ApprovalId 1)" by code_simp
  have "map_option ae_expires_at (approval (demo_run (demo_start @ [demo_ask])) (ApprovalId 1))
      = Some (Timestamp 300004)" by code_simp
  then obtain a where a: "approval (demo_run (demo_start @ [demo_ask])) (ApprovalId 1) = Some a"
    "ae_expires_at a = Timestamp 300004" by auto
  have n: "k_next_approval (fst (run (fst (step (demo_run (demo_start @ [demo_ask])) demo_late))
        [demo_event ToolCallRequested 6])) \<noteq> - 1" by code_simp
  have r: "\<not> replayed demo_late (demo_run (demo_start @ [demo_ask]))" by code_simp
  have l: "ae_expires_at a < ev_timestamp demo_late" "ev_task_id demo_late = Some demo_task" "ev_kind demo_late \<noteq> TaskCreated"
    using a(2) by (simp_all add: demo_late_def demo_approve_def demo_event_def model_defs less_Timestamp_def from_millis_def)
  note kept = expired_approval_blocks [OF demo_reachable st aw a(1) l r prod.collapse [symmetric],
      THEN conjunct2, THEN conjunct2, THEN conjunct2, THEN conjunct2]
  show "approval_status (fst (run (fst (step (demo_run (demo_start @ [demo_ask])) demo_late))
        [demo_event ToolCallRequested 6])) (ApprovalId 1) = Some ApprovalStatus.Expired"
    by (rule kept [rule_format, OF conjI [OF prod.collapse [symmetric] n]])
qed

text \<open>
  The inline action vector never spills: a step of a reachable kernel emits at most two
  actions, nothing at all for a replayed event and the log record first otherwise.
\<close>

theorem actions_bounded:
  assumes "reachable p k" and "step k e = (k', acts)"
  shows "length acts \<le> 2 \<and> (if replayed e k then acts = [] else hd acts = AppendEvent (ev_task_id e))"
  using step_actions [OF kernel_inv_reachable [OF assms(1)] assms(2)] .

theorem actions_bounded_witness:
  "length (snd (step (demo_run demo_start) demo_ask)) \<le> 2"
  by (rule actions_bounded [OF demo_reachable prod.collapse [symmetric], THEN conjunct1])

text \<open>
  A model request goes out only for the job whose lease event is being processed, when that
  job is leased or running and its task is running after the step.
\<close>

theorem model_request_runnable:
  assumes "reachable p k" and "step k e = (k', acts)" and "RequestModel j \<in> set acts"
  shows "ev_kind e = JobLeased \<and> ev_job_id e = Some j
    \<and> (\<exists>x. job k' j = Some x \<and> je_status x \<in> {JobStatus.Leased, JobStatus.Running}
          \<and> task_status k' (je_task x) = Some TaskStatus.Running)"
  using step_request_model [OF kernel_inv_reachable [OF assms(1)] assms(2,3)]
  by (auto simp: runnable_status_def)

theorem model_request_runnable_witness:
  "\<exists>x. job (fst (step (demo_run (take 2 demo_start)) (demo_event JobLeased 3))) demo_job = Some x
     \<and> je_status x \<in> {JobStatus.Leased, JobStatus.Running}"
proof -
  have "RequestModel demo_job \<in> set (snd (step (demo_run (take 2 demo_start)) (demo_event JobLeased 3)))"
    by code_simp
  from model_request_runnable [OF demo_reachable prod.collapse [symmetric] this] show ?thesis by blast
qed


text \<open>
  Leases fence off stale workers: an event for an active job that names another lease holder
  than the one on record leaves the job exactly as it was, and an event that arrives after the
  lease ran out cannot advance the job, it can only expire it. (Queueing, killing and failing are
  not worker events and are not fenced.)
\<close>

theorem lease_fencing:
  assumes "step k e = (k', acts)" and "job k j = Some x" and "job_active (je_status x)"
    and "ev_job_id e = Some j" and "ev_kind e \<notin> {JobQueued, TaskKilled, TaskFailed}"
  shows "(stale_owner (je_lease x) (ev_lease_owner e) \<longrightarrow> job k' j = Some x)
    \<and> (is_expired_at (je_lease x) (ev_timestamp e) \<longrightarrow>
        job k' j \<in> {Some x, Some (x\<lparr>je_status := JobStatus.Expired\<rparr>)})"
  using assms(1)
proof (cases rule: step_jobs)
  case 1
  then have "job k' = job k" by (rule arena_cong)
  with assms(2) show ?thesis by simp
next
  case (2 idx)
  let ?k = "charge e idx k"
  have k': "job k' = job (apply_job e ?k)" using 2 by (rule arena_cong)
  obtain jidx where jidx: "job_index k j = Some jidx" "k_jobs k ! jidx = x"
    using assms(2) by (auto simp: jobs.lookup_index)
  have i: "job_index ?k j = Some jidx" using jidx by (subst arena_cong(4)) simp_all
  have live: "\<not> job_is_terminal (je_status x)"
    using assms(3) by (cases "je_status x") (simp_all add: job_active_def)
  have same: "job ?k = job k" by (rule arena_cong) simp
  have ex: "job (upd_job jidx (\<lambda>j. j\<lparr>je_status := JobStatus.Expired\<rparr>) ?k) j
      = Some (x\<lparr>je_status := JobStatus.Expired\<rparr>)"
    using jobs.lookup_put [OF i, of "x\<lparr>je_status := JobStatus.Expired\<rparr>" j] jidx
      jobs.index_SomeD [OF jidx(1)]
    by (simp add: upd_job_def)
  show ?thesis
    using assms(2-5) live i jidx(2) same ex
    by (simp add: k' apply_job_def Let_def)
qed

definition demo_worker :: "EventKind \<Rightarrow> u64 \<Rightarrow> u64 \<Rightarrow> Event" where
  "demo_worker kind n w = with_lease_owner (demo_event kind n) (LeaseOwner w)"

definition demo_leased :: "Event list" where
  "demo_leased = take 2 demo_start @ [demo_worker JobLeased 3 1]"

theorem lease_fencing_witness:
  "job_status (demo_run demo_leased) demo_job = Some JobStatus.Leased
   \<and> job_status (fst (step (demo_run demo_leased) (demo_worker CommandCompleted 4 2))) demo_job
       = Some JobStatus.Leased"
proof
  show st: "job_status (demo_run demo_leased) demo_job = Some JobStatus.Leased" by code_simp
  have "map_option (ls_owner \<circ> je_lease) (job (demo_run demo_leased) demo_job) = Some (Some (LeaseOwner 1))"
    by code_simp
  with st obtain x where x: "job (demo_run demo_leased) demo_job = Some x"
    "je_status x = JobStatus.Leased" "ls_owner (je_lease x) = Some (LeaseOwner 1)"
    by (auto simp: job_status_def)
  from lease_fencing [OF prod.collapse [symmetric] x(1), of "demo_worker CommandCompleted 4 2"] x(2,3)
  show "job_status (fst (step (demo_run demo_leased) (demo_worker CommandCompleted 4 2))) demo_job
       = Some JobStatus.Leased"
    by (simp add: demo_worker_def demo_event_def model_defs job_active_def stale_owner_def job_status_def)
qed

section \<open>The transition tables as machines\<close>

definition task_advance :: "TaskStatus \<Rightarrow> EventKind \<Rightarrow> TaskStatus" where
  "task_advance s kind = (case task_next s kind of TaskTransition.Move to \<Rightarrow> to | TaskTransition.Stay \<Rightarrow> s)"

definition job_advance :: "JobStatus \<Rightarrow> EventKind \<Rightarrow> JobStatus" where
  "job_advance s kind = (case job_next s kind of JobTransition.Move to \<Rightarrow> to | JobTransition.Stay \<Rightarrow> s)"

interpretation task_machine: absorbing_machine task_advance task_is_terminal
  by unfold_locales (simp add: task_advance_def task_next_def)

interpretation job_machine: absorbing_machine job_advance job_is_terminal
  by unfold_locales (simp add: job_advance_def job_next_def)

text \<open>
  The pure transition tables refine the reference successor tables: every move of
  \<^verbatim>\<open>task_next\<close> and \<^verbatim>\<open>job_next\<close> goes to a legal successor (or stays), and once a sequence of event
  kinds has driven a status into a terminal one, no continuation leaves it.
\<close>

theorem tables_refine_successors:
  "task_advance s kind \<in> insert s (set (legal_task_successors s))
   \<and> job_advance js kind \<in> insert js (set (legal_job_successors js))
   \<and> (task_is_terminal (foldl task_advance s kinds) \<longrightarrow>
       foldl task_advance s (kinds @ rest) = foldl task_advance s kinds)
   \<and> (job_is_terminal (foldl job_advance js kinds) \<longrightarrow>
       foldl job_advance js (kinds @ rest) = foldl job_advance js kinds)"
proof (intro conjI impI)
  show "task_advance s kind \<in> insert s (set (legal_task_successors s))"
    using task_next_legal [of s kind] by (auto simp: task_advance_def split: TaskTransition.split)
  show "job_advance js kind \<in> insert js (set (legal_job_successors js))"
    using job_next_legal [of js kind] by (auto simp: job_advance_def split: JobTransition.split)
qed (rule task_machine.run_once_terminal job_machine.run_once_terminal; assumption)+

theorem tables_refine_successors_witness:
  "foldl task_advance TaskStatus.Created ([TaskPlanned, JobLeased, TaskKilled] @ [JobQueued, UserSteerReceived])
     = TaskStatus.Killed"
proof -
  have k: "foldl task_advance TaskStatus.Created [TaskPlanned, JobLeased, TaskKilled] = TaskStatus.Killed"
    by code_simp
  with tables_refine_successors [where s = TaskStatus.Created and kinds = "[TaskPlanned, JobLeased, TaskKilled]"
      and rest = "[JobQueued, UserSteerReceived]"]
  show ?thesis by (metis task_is_terminal.simps)
qed

end
