(* ===== verification/Bytes.thy ===== *)
theory Bytes
  imports Prelude
begin

text \<open>
  Byte encodings of machine integers (\<^verbatim>\<open>to_le_bytes\<close>, \<^verbatim>\<open>from_le_bytes\<close> and the big-endian pair
  of the standard library), and reading fixed-size fields at an offset of a byte slice.
\<close>

primrec to_le :: "nat \<Rightarrow> 'a::len word \<Rightarrow> bytes" where
  "to_le 0 w = []"
| "to_le (Suc n) w = ucast w # to_le n (drop_bit 8 w)"

primrec from_le :: "bytes \<Rightarrow> 'a::len word" where
  "from_le [] = 0"
| "from_le (b # bs) = ucast b OR push_bit 8 (from_le bs)"

definition to_be :: "nat \<Rightarrow> 'a::len word \<Rightarrow> bytes" where
  "to_be n w = rev (to_le n w)"

definition from_be :: "bytes \<Rightarrow> 'a::len word" where
  "from_be bs = from_le (rev bs)"

lemma length_to_le [simp]: "length (to_le n w) = n"
  by (induction n arbitrary: w) simp_all

lemma length_to_be [simp]: "length (to_be n w) = n"
  by (simp add: to_be_def)

lemma from_le_to_le: "from_le (to_le n w) = take_bit (8 * n) (w :: 'a::len word)"
proof (induction n arbitrary: w)
  case (Suc n)
  show ?case
    by (rule bit_word_eqI)
      (auto simp: Suc.IH bit_simps bit_ucast_iff less_diff_conv2)
qed simp

lemma from_le_to_le_full [simp]:
  "8 * n = LENGTH('a) \<Longrightarrow> from_le (to_le n w) = (w :: 'a::len word)"
  by (simp add: from_le_to_le take_bit_word_eq_self)

lemma to_le_from_le:
  "8 * length bs \<le> LENGTH('a) \<Longrightarrow> to_le (length bs) (from_le bs :: 'a::len word) = bs"
proof (induction bs)
  case (Cons b bs)
  have len: "8 + 8 * length bs \<le> LENGTH('a)" using Cons.prems by simp
  have "ucast (ucast b OR push_bit 8 (from_le bs :: 'a word)) = b"
    using len by (intro bit_word_eqI) (auto simp: bit_simps bit_ucast_iff)
  moreover have "drop_bit 8 (ucast b OR push_bit 8 (from_le bs :: 'a word))
      = take_bit (LENGTH('a) - 8) (from_le bs)"
    using len by (intro bit_word_eqI) (auto simp: bit_simps bit_ucast_iff dest: bit_imp_le_length)
  moreover have "to_le n (take_bit m (w :: 'a word)) = to_le n w" if "8 * n \<le> m" for n m w
    using that
  proof (induction n arbitrary: m w)
    case (Suc n)
    have "ucast (take_bit m w) = (ucast w :: 8 word)"
      using Suc.prems by (intro bit_word_eqI) (auto simp: bit_simps bit_ucast_iff)
    moreover have "drop_bit 8 (take_bit m w) = take_bit (m - 8) (drop_bit 8 w)"
      by (simp add: drop_bit_take_bit)
    ultimately show ?case using Suc by simp
  qed simp
  ultimately show ?case using Cons len by simp
qed simp

lemma to_le_inj:
  assumes "to_le n a = to_le n b" and "8 * n = LENGTH('a)"
  shows "a = (b :: 'a::len word)"
  using arg_cong [OF assms(1), of "from_le :: bytes \<Rightarrow> 'a word"] assms(2) by simp

lemma from_be_to_be [simp]: "8 * n = LENGTH('a) \<Longrightarrow> from_be (to_be n w) = (w :: 'a::len word)"
  by (simp add: from_be_def to_be_def)

lemma to_be_inj:
  assumes "to_be n a = to_be n b" and "8 * n = LENGTH('a)"
  shows "a = (b :: 'a::len word)"
  using to_le_inj [of n a b] assms by (simp add: to_be_def)

lemma from_le_eq_iff:
  assumes "length bs = n" "8 * n = LENGTH('a)"
  shows "from_le bs = (w :: 'a::len word) \<longleftrightarrow> bs = to_le n w"
proof
  assume "from_le bs = w"
  with assms to_le_from_le [of bs, where 'a = 'a] show "bs = to_le n w" by auto
next
  assume "bs = to_le n w"
  with assms(2) show "from_le bs = w" by simp
qed

section \<open>Fields of a byte slice\<close>

text \<open>\<open>holds_at bytes off xs\<close>: the bytes \<open>xs\<close> stand at offset \<open>off\<close> of the slice.\<close>

definition holds_at :: "bytes \<Rightarrow> nat \<Rightarrow> bytes \<Rightarrow> bool" where
  "holds_at bytes off xs = (off + length xs \<le> length bytes \<and> take (length xs) (drop off bytes) = xs)"

text \<open>
  \<^verbatim>\<open>read_array::<N>(bytes, at)\<close> adds with an overflow check and then slices; a single byte is read
  with \<^verbatim>\<open>get\<close>.
\<close>

definition read_array :: "nat \<Rightarrow> bytes \<Rightarrow> nat \<Rightarrow> bytes option" where
  "read_array n bytes at =
     Option.bind (checked_add_usize at n) (\<lambda>end.
       if end \<le> length bytes then Some (take n (drop at bytes)) else None)"

definition get_byte :: "bytes \<Rightarrow> nat \<Rightarrow> u8 option" where
  "get_byte bytes at = (if at < length bytes then Some (bytes ! at) else None)"

lemma holds_at_append [simp]:
  "holds_at bytes off (xs @ ys) \<longleftrightarrow> holds_at bytes off xs \<and> holds_at bytes (off + length xs) ys"
proof
  assume h: "holds_at bytes off (xs @ ys)"
  then have le: "off + length xs + length ys \<le> length bytes"
    and eq: "take (length xs + length ys) (drop off bytes) = xs @ ys"
    by (simp_all add: holds_at_def)
  have "take (length xs) (drop off bytes) = xs"
    using arg_cong [OF eq, of "take (length xs)"] by (simp add: min_def)
  moreover have "take (length ys) (drop (off + length xs) bytes) = ys"
    using arg_cong [OF eq, of "drop (length xs)"] by (simp add: drop_take add.commute)
  ultimately show "holds_at bytes off xs \<and> holds_at bytes (off + length xs) ys"
    using le by (simp add: holds_at_def)
next
  assume "holds_at bytes off xs \<and> holds_at bytes (off + length xs) ys"
  then show "holds_at bytes off (xs @ ys)"
    by (simp add: holds_at_def take_add add.commute)
qed

lemma holds_at_Nil [simp]: "holds_at bytes off [] \<longleftrightarrow> off \<le> length bytes"
  by (simp add: holds_at_def)

lemma holds_at_single: "holds_at bytes off [x] \<longleftrightarrow> off < length bytes \<and> bytes ! off = x"
  by (auto simp: holds_at_def take_Suc hd_drop_conv_nth)

lemma holds_at_self [simp]: "holds_at (pre @ xs @ post) (length pre) xs"
  by (simp add: holds_at_def)

lemma read_array_iff:
  assumes "length bytes \<le> usize_max"
  shows "read_array n bytes at = Some xs \<longleftrightarrow> length xs = n \<and> holds_at bytes at xs"
  using assms
  by (auto simp: read_array_def checked_add_usize_def holds_at_def bind_eq_Some_conv
      split: if_splits)

lemma get_byte_iff: "get_byte bytes at = Some b \<longleftrightarrow> holds_at bytes at [b]"
  by (auto simp: get_byte_def holds_at_single)

section \<open>Fixed-size chunks\<close>

text \<open>\<^verbatim>\<open>chunks_exact(n)\<close>: the full chunks, the remainder dropped.\<close>

fun chunks_exact :: "nat \<Rightarrow> 'a list \<Rightarrow> 'a list list" where
  "chunks_exact n xs =
     (if n = 0 \<or> length xs < n then [] else take n xs # chunks_exact n (drop n xs))"

declare chunks_exact.simps [simp del]

lemma chunks_exact_concat:
  "0 < n \<Longrightarrow> n dvd length xs \<Longrightarrow> concat (chunks_exact n xs) = xs"
proof (induction n xs rule: chunks_exact.induct)
  case (1 n xs)
  show ?case
  proof (cases "length xs < n")
    case True
    with 1(3) have "xs = []" by (auto dest: dvd_imp_le)
    then show ?thesis using 1(2) by (simp add: chunks_exact.simps)
  next
    case False
    with 1 show ?thesis by (subst chunks_exact.simps) (simp add: dvd_minus_self)
  qed
qed

lemma chunks_exact_length: "c \<in> set (chunks_exact n xs) \<Longrightarrow> length c = n"
proof (induction n xs rule: chunks_exact.induct)
  case (1 n xs)
  then show ?case
    by (subst (asm) (2) chunks_exact.simps) (auto split: if_splits simp: not_less)
qed

end
