(* ===== verification/Hash.thy ===== *)
theory Hash
  imports Bytes
begin

text \<open>
  The vendored SHA-256 and HMAC-SHA-256, the constant-time comparison and the hex decoder
  (\<^verbatim>\<open>crates/crustcore-types/src/hash.rs\<close>). The working variables of a round are an 8-tuple, the
  message schedule a list that grows from 16 to 64 words; both are computed in full, so digests
  evaluate.
\<close>

section \<open>SHA-256\<close>

definition H0 :: "u32 list" where
  "H0 =
     [0x6a09e667, 0xbb67ae85, 0x3c6ef372, 0xa54ff53a, 0x510e527f, 0x9b05688c,
      0x1f83d9ab, 0x5be0cd19]"

text \<open>The round constants, eight to a row.\<close>

definition K :: "u32 list" where
  "K =
     concat [
       [0x428a2f98, 0x71374491, 0xb5c0fbcf, 0xe9b5dba5,
        0x3956c25b, 0x59f111f1, 0x923f82a4, 0xab1c5ed5],
       [0xd807aa98, 0x12835b01, 0x243185be, 0x550c7dc3,
        0x72be5d74, 0x80deb1fe, 0x9bdc06a7, 0xc19bf174],
       [0xe49b69c1, 0xefbe4786, 0x0fc19dc6, 0x240ca1cc,
        0x2de92c6f, 0x4a7484aa, 0x5cb0a9dc, 0x76f988da],
       [0x983e5152, 0xa831c66d, 0xb00327c8, 0xbf597fc7,
        0xc6e00bf3, 0xd5a79147, 0x06ca6351, 0x14292967],
       [0x27b70a85, 0x2e1b2138, 0x4d2c6dfc, 0x53380d13,
        0x650a7354, 0x766a0abb, 0x81c2c92e, 0x92722c85],
       [0xa2bfe8a1, 0xa81a664b, 0xc24b8b70, 0xc76c51a3,
        0xd192e819, 0xd6990624, 0xf40e3585, 0x106aa070],
       [0x19a4c116, 0x1e376c08, 0x2748774c, 0x34b0bcb5,
        0x391c0cb3, 0x4ed8aa4a, 0x5b9cca4f, 0x682e6ff3],
       [0x748f82ee, 0x78a5636f, 0x84c87814, 0x8cc70208,
        0x90befffa, 0xa4506ceb, 0xbef9a3f7, 0xc67178f2]]"

definition BLOCK :: nat where
  "BLOCK = 64"

definition rotate_right :: "nat \<Rightarrow> u32 \<Rightarrow> u32" where
  "rotate_right n w = drop_bit n w OR push_bit (32 - n) w"

lemma pad_step:
  assumes "n mod 64 \<noteq> (56 :: nat)"
  shows "(120 - n mod 64) mod 64 = Suc ((120 - Suc n mod 64) mod 64)"
proof -
  define r where "r = n mod 64"
  have r: "r < 64" "r \<noteq> 56" using assms by (simp_all add: r_def)
  have m: "(120 - q) mod 64 = (if q \<le> 56 then 56 - q else 120 - q)" if "q < 64" for q :: nat
  proof (cases "q \<le> 56")
    case True
    then have "120 - q = (56 - q) + 64" by arith
    then have "(120 - q) mod 64 = (56 - q) mod 64" by (simp only: mod_add_self2)
    also have "\<dots> = 56 - q" by (rule mod_less) arith
    finally show ?thesis using True by simp
  next
    case False
    then have "120 - q < 64" by arith
    then have "(120 - q) mod 64 = 120 - q" by (rule mod_less)
    with False show ?thesis by simp
  qed
  have s: "Suc n mod 64 = (if r = 63 then 0 else Suc r)" by (simp add: r_def mod_Suc)
  show ?thesis
    unfolding s r_def [symmetric] using r m [of r] m [of 0] m [of "Suc r"] by auto
qed

text \<open>The zero padding loop: push zeros until the length is 56 modulo the block size.\<close>

function pad_zeros :: "bytes \<Rightarrow> bytes" where
  "pad_zeros msg = (if length msg mod BLOCK = 56 then msg else pad_zeros (msg @ [0]))"
  by pat_completeness auto

termination
proof (relation "measure (\<lambda>msg. (120 - length msg mod 64) mod 64)")
  fix msg :: bytes
  assume "length msg mod BLOCK \<noteq> 56"
  from pad_step [OF this [unfolded BLOCK_def]]
  show "(msg @ [0], msg) \<in> measure (\<lambda>msg. (120 - length msg mod 64) mod 64)" by simp
qed simp

declare pad_zeros.simps [simp del]

definition pad :: "bytes \<Rightarrow> bytes" where
  "pad data =
     (let bit_len = (of_nat (length data) :: u64) * 8
      in pad_zeros (data @ [0x80]) @ to_be 8 bit_len)"

definition block_words :: "bytes \<Rightarrow> u32 list" where
  "block_words block = map from_be (chunks_exact 4 (take 64 block))"

definition schedule_word :: "u32 list \<Rightarrow> nat \<Rightarrow> u32" where
  "schedule_word w i =
     (let s0 = rotate_right 7 (w ! (i - 15)) XOR rotate_right 18 (w ! (i - 15)) XOR drop_bit 3 (w ! (i - 15));
          s1 = rotate_right 17 (w ! (i - 2)) XOR rotate_right 19 (w ! (i - 2)) XOR drop_bit 10 (w ! (i - 2))
      in w ! (i - 16) + s0 + w ! (i - 7) + s1)"

definition schedule :: "bytes \<Rightarrow> u32 list" where
  "schedule block = foldl (\<lambda>w i. w @ [schedule_word w i]) (block_words block) [16..<64]"

type_synonym working = "u32 \<times> u32 \<times> u32 \<times> u32 \<times> u32 \<times> u32 \<times> u32 \<times> u32"

fun sha_round :: "working \<Rightarrow> u32 \<times> u32 \<Rightarrow> working" where
  "sha_round (a, b, c, d, e, f, g, hh) (ki, wi) =
     (let s1 = rotate_right 6 e XOR rotate_right 11 e XOR rotate_right 25 e;
          ch = (e AND f) XOR (NOT e AND g);
          t1 = hh + s1 + ch + ki + wi;
          s0 = rotate_right 2 a XOR rotate_right 13 a XOR rotate_right 22 a;
          maj = (a AND b) XOR (a AND c) XOR (b AND c);
          t2 = s0 + maj
      in (t1 + t2, a, b, c, d + t1, e, f, g))"

definition to_working :: "u32 list \<Rightarrow> working" where
  "to_working h = (h ! 0, h ! 1, h ! 2, h ! 3, h ! 4, h ! 5, h ! 6, h ! 7)"

fun add_working :: "u32 list \<Rightarrow> working \<Rightarrow> u32 list" where
  "add_working h (a, b, c, d, e, f, g, hh) =
     [h ! 0 + a, h ! 1 + b, h ! 2 + c, h ! 3 + d, h ! 4 + e, h ! 5 + f, h ! 6 + g, h ! 7 + hh]"

definition compress :: "u32 list \<Rightarrow> bytes \<Rightarrow> u32 list" where
  "compress h block =
     add_working h (foldl sha_round (to_working h) (zip K (schedule block)))"

definition sha256 :: "bytes \<Rightarrow> bytes" where
  "sha256 data = concat (map (to_be 4) (foldl compress H0 (chunks_exact BLOCK (pad data))))"

section \<open>HMAC-SHA-256\<close>

definition hmac_key :: "bytes \<Rightarrow> bytes" where
  "hmac_key key =
     (let k = (if length key > BLOCK then sha256 key else key)
      in k @ replicate (BLOCK - length k) 0)"

definition hmac_sha256 :: "bytes \<Rightarrow> bytes \<Rightarrow> bytes" where
  "hmac_sha256 key msg =
     (let k = hmac_key key;
          ipad = map (\<lambda>b. 0x36 XOR b) k;
          opad = map (\<lambda>b. 0x5c XOR b) k;
          inner_hash = sha256 (ipad @ msg)
      in sha256 (opad @ inner_hash))"

section \<open>Comparison and hex\<close>

text \<open>Every byte is visited; the differences are accumulated with bitwise or.\<close>

definition ct_eq :: "bytes \<Rightarrow> bytes \<Rightarrow> bool" where
  "ct_eq a b = (foldl (\<lambda>diff i. diff OR (a ! i XOR b ! i)) 0 [0..<32] = 0)"

definition hex_val :: "u8 \<Rightarrow> u8 option" where
  "hex_val c =
     (if 0x30 \<le> c \<and> c \<le> 0x39 then Some (c - 0x30)
      else if 0x61 \<le> c \<and> c \<le> 0x66 then Some (c - 0x61 + 10)
      else if 0x41 \<le> c \<and> c \<le> 0x46 then Some (c - 0x41 + 10)
      else None)"

definition hex_pair :: "bytes \<Rightarrow> u8 option" where
  "hex_pair p =
     Option.bind (hex_val (p ! 0)) (\<lambda>hi.
     Option.bind (hex_val (p ! 1)) (\<lambda>lo. Some (push_bit 4 hi OR lo)))"

fun decode_pairs :: "bytes list \<Rightarrow> bytes option" where
  "decode_pairs [] = Some []"
| "decode_pairs (p # ps) =
     Option.bind (hex_pair p) (\<lambda>b. map_option (Cons b) (decode_pairs ps))"

definition hex32_decode :: "bytes \<Rightarrow> bytes option" where
  "hex32_decode s = (if length s \<noteq> 64 then None else decode_pairs (chunks_exact 2 s))"

section \<open>Lengths\<close>

lemma pad_zeros_eq:
  "pad_zeros msg = msg @ replicate ((120 - length msg mod 64) mod 64) 0"
proof (induction msg rule: pad_zeros.induct)
  case (1 msg)
  show ?case
  proof (cases "length msg mod 64 = 56")
    case True
    then show ?thesis by (simp add: pad_zeros.simps [of msg] BLOCK_def)
  next
    case False
    with 1 have "pad_zeros msg = (msg @ [0]) @ replicate ((120 - Suc (length msg) mod 64) mod 64) 0"
      by (simp add: pad_zeros.simps [of msg] BLOCK_def)
    also have "\<dots> = msg @ replicate ((120 - length msg mod 64) mod 64) 0"
      unfolding pad_step [OF False] by simp
    finally show ?thesis .
  qed
qed

lemma pad_zeros_length: "length (pad_zeros msg) mod 64 = 56"
proof (induction msg rule: pad_zeros.induct)
  case (1 msg)
  then show ?case
    by (cases "length msg mod 64 = 56") (simp_all add: pad_zeros.simps [of msg] BLOCK_def)
qed

lemma pad_blocks: "BLOCK dvd length (pad data)"
proof -
  have "(length (pad_zeros (data @ [0x80])) + 8) mod 64 = (56 + 8) mod 64"
    by (subst mod_add_left_eq [symmetric]) (simp only: pad_zeros_length)
  then show ?thesis by (simp add: pad_def Let_def BLOCK_def dvd_eq_mod_eq_0)
qed

lemma length_add_working [simp]: "length (add_working h w) = 8"
  by (cases "(h, w)" rule: add_working.cases) simp

lemma length_compress_fold: "length (foldl compress h bs) = (if bs = [] then length h else 8)"
  by (cases bs rule: rev_cases) (simp_all add: compress_def)

lemma length_sha256 [simp]: "length (sha256 data) = 32"
proof -
  have "length (foldl compress H0 bs) = 8" for bs
    by (simp add: length_compress_fold H0_def)
  moreover have "length (concat (map (to_be 4) ws)) = 4 * length ws" for ws :: "u32 list"
    by (induction ws) simp_all
  ultimately show ?thesis by (simp add: sha256_def)
qed

lemma length_hmac_sha256 [simp]: "length (hmac_sha256 key msg) = 32"
  by (simp add: hmac_sha256_def Let_def)

lemma length_hmac_key [simp]: "length (hmac_key key) = BLOCK"
  by (simp add: hmac_key_def Let_def BLOCK_def)

section \<open>Comparison\<close>

lemma fold_or_zero:
  "foldl (\<lambda>d i. d OR f i) (z :: u8) is = 0 \<longleftrightarrow> z = 0 \<and> (\<forall>i\<in>set is. f i = 0)"
  by (induction "is" arbitrary: z) (auto simp: or_eq_0_iff)

lemma xor_eq_0_word: "a XOR b = 0 \<longleftrightarrow> a = (b :: 'a::len word)"
proof
  assume "a XOR b = 0"
  then have "(a XOR b) XOR b = b" by simp
  then show "a = b" by (simp add: xor.assoc)
qed simp

lemma ct_eq_iff:
  assumes "length a = 32" "length b = 32"
  shows "ct_eq a b \<longleftrightarrow> a = b"
proof -
  have "ct_eq a b \<longleftrightarrow> (\<forall>i<32. a ! i XOR b ! i = 0)"
    by (auto simp: ct_eq_def fold_or_zero)
  also have "\<dots> \<longleftrightarrow> (\<forall>i<32. a ! i = b ! i)"
    by (simp add: xor_eq_0_word)
  finally show ?thesis using assms by (auto simp: list_eq_iff_nth_eq)
qed


section \<open>A published test vector\<close>

text \<open>
  The FIPS 180-4 example \<^verbatim>\<open>"abc"\<close>, evaluated in stages: the padded block, its schedule, and the
  sixty-four rounds in four groups.
\<close>

definition abc :: bytes where
  "abc = [0x61, 0x62, 0x63]"

definition abc_schedule :: "u32 list" where
  "abc_schedule =
     [0x61626380, 0x0, 0x0, 0x0, 0x0, 0x0, 0x0,
      0x0, 0x0, 0x0, 0x0, 0x0, 0x0, 0x0,
      0x0, 0x18, 0x61626380, 0xf0000, 0x7da86405, 0x600003c6, 0x3e9d7b78,
      0x183fc00, 0x12dcbfdb, 0xe2e2c38e, 0xc8215c1a, 0xb73679a2, 0xe5bc3909, 0x32663c5b,
      0x9d209d67, 0xec8726cb, 0x702138a4, 0xd3b7973b, 0x93f5997f, 0x3b68ba73, 0xaff4ffc1,
      0xf10a5c62, 0xa8b3996, 0x72af830a, 0x9409e33e, 0x24641522, 0x9f47bf94, 0xf0a64f5a,
      0x3e246a79, 0x27333ba3, 0xc4763f2, 0x840abf27, 0x7a290d5d, 0x65c43da, 0xfb3e89cb,
      0xcc7617db, 0xb9e66c34, 0xa9993667, 0x84badedd, 0xc21462bc, 0x1487472c, 0xb20f7a99,
      0xef57b9cd, 0xebe6b238, 0x9fe3095e, 0x78bc8d4b, 0xa43fcf15, 0x668b2ff8, 0xeeaba2cc,
      0x12b1edeb]"

lemma pad_abc: "pad abc = abc @ [0x80] @ replicate 59 0 @ [0x18]"
  by code_simp

lemma schedule_abc: "schedule (abc @ [0x80] @ replicate 59 0 @ [0x18]) = abc_schedule"
  by code_simp

lemma rounds_abc_0:
  "foldl sha_round (0x6a09e667, 0xbb67ae85, 0x3c6ef372, 0xa54ff53a, 0x510e527f, 0x9b05688c, 0x1f83d9ab, 0x5be0cd19) (take 16 (drop 0 (zip K abc_schedule)))
   = (0xb0fa238e, 0xc0645fde, 0xd932eb16, 0x87912990, 0x7590dcd, 0xb92f20c, 0x745a48de, 0x1e578218)"
  by code_simp

lemma rounds_abc_1:
  "foldl sha_round (0xb0fa238e, 0xc0645fde, 0xd932eb16, 0x87912990, 0x7590dcd, 0xb92f20c, 0x745a48de, 0x1e578218) (take 16 (drop 16 (zip K abc_schedule)))
   = (0x73b33bf5, 0xea992a22, 0xa0060b30, 0x363482c9, 0xba591112, 0x109ab3a, 0xade79437, 0x6112a3b7)"
  by code_simp

lemma rounds_abc_2:
  "foldl sha_round (0x73b33bf5, 0xea992a22, 0xa0060b30, 0x363482c9, 0xba591112, 0x109ab3a, 0xade79437, 0x6112a3b7) (take 16 (drop 32 (zip K abc_schedule)))
   = (0x4172328d, 0xa14c14b0, 0x72ab4b91, 0x26628815, 0xfecf0bc6, 0xd57b94a9, 0xb7755da1, 0xa80f11f0)"
  by code_simp

lemma rounds_abc_3:
  "foldl sha_round (0x4172328d, 0xa14c14b0, 0x72ab4b91, 0x26628815, 0xfecf0bc6, 0xd57b94a9, 0xb7755da1, 0xa80f11f0) (take 16 (drop 48 (zip K abc_schedule)))
   = (0x506e3058, 0xd39a2165, 0x4d24d6c, 0xb85e2ce9, 0x5ef50f24, 0xfb121210, 0x948d25b6, 0x961f4894)"
  by code_simp

lemma split_quarters:
  assumes "length xs = 4 * n"
  shows "xs = take n xs @ take n (drop n xs) @ take n (drop (2 * n) xs) @ take n (drop (3 * n) xs)"
proof -
  have "xs = take n xs @ drop n xs" by simp
  also have "drop n xs = take n (drop n xs) @ drop (2 * n) xs"
    by (metis append_take_drop_id drop_drop mult_2)
  also have "drop (2 * n) xs = take n (drop (2 * n) xs) @ drop (3 * n) xs"
    using append_take_drop_id [of n "drop (2 * n) xs"] by (simp add: algebra_simps)
  also have "drop (3 * n) xs = take n (drop (3 * n) xs)" using assms by simp
  finally show ?thesis .
qed

lemma rounds_abc:
  "foldl sha_round (to_working H0) (zip K abc_schedule) = (0x506e3058, 0xd39a2165, 0x4d24d6c, 0xb85e2ce9, 0x5ef50f24, 0xfb121210, 0x948d25b6, 0x961f4894)"
proof -
  let ?z = "zip K abc_schedule"
  have "length ?z = 4 * 16" by code_simp
  from split_quarters [OF this]
  have z: "?z = take 16 (drop 0 ?z) @ take 16 (drop 16 ?z) @ take 16 (drop 32 ?z) @ take 16 (drop 48 ?z)"
    by simp
  have w: "to_working H0 = (0x6a09e667, 0xbb67ae85, 0x3c6ef372, 0xa54ff53a, 0x510e527f, 0x9b05688c, 0x1f83d9ab, 0x5be0cd19)"
    by code_simp
  show ?thesis
    by (subst z) (simp only: foldl_append w rounds_abc_0 rounds_abc_1 rounds_abc_2 rounds_abc_3)
qed

text \<open>
  The vendored SHA-256 computes the published digest: on the FIPS 180-4 example message
  \<^verbatim>\<open>"abc"\<close> it returns the published thirty-two bytes.
\<close>

theorem sha256_abc:
  "sha256 abc =
     [0xba, 0x78, 0x16, 0xbf, 0x8f, 0x01, 0xcf, 0xea, 0x41, 0x41, 0x40, 0xde,
      0x5d, 0xae, 0x22, 0x23, 0xb0, 0x03, 0x61, 0xa3, 0x96, 0x17, 0x7a, 0x9c,
      0xb4, 0x10, 0xff, 0x61, 0xf2, 0x00, 0x15, 0xad]"
proof -
  have "chunks_exact BLOCK (pad abc) = [abc @ [0x80] @ replicate 59 0 @ [0x18]]"
    unfolding pad_abc by code_simp
  then have "sha256 abc = concat (map (to_be 4) (add_working H0
      (foldl sha_round (to_working H0) (zip K abc_schedule))))"
    by (simp only: sha256_def foldl.simps compress_def schedule_abc)
  also note rounds_abc
  also have "concat (map (to_be 4) (add_working H0 (0x506e3058, 0xd39a2165, 0x4d24d6c, 0xb85e2ce9, 0x5ef50f24, 0xfb121210, 0x948d25b6, 0x961f4894))) = [0xba, 0x78, 0x16, 0xbf, 0x8f, 0x01, 0xcf, 0xea, 0x41, 0x41, 0x40, 0xde,
      0x5d, 0xae, 0x22, 0x23, 0xb0, 0x03, 0x61, 0xa3, 0x96, 0x17, 0x7a, 0x9c,
      0xb4, 0x10, 0xff, 0x61, 0xf2, 0x00, 0x15, 0xad]"
    by code_simp
  finally show ?thesis .
qed

section \<open>Padding is injective\<close>

lemma pad_length_field:
  "drop (length (pad data) - 8) (pad data) = to_be 8 ((of_nat (length data) :: u64) * 8)"
  by (simp add: pad_def Let_def)

lemma pad_prefix: "take (length data) (pad data) = data"
  by (simp add: pad_def Let_def pad_zeros_eq)

lemma bit_length_inj:
  assumes "m < 2 ^ 61" "n < 2 ^ 61" and "(of_nat m :: u64) * 8 = of_nat n * 8"
  shows "m = n"
proof -
  have "unat ((of_nat m :: u64) * 8) = m * 8" if "m < 2 ^ 61" for m
  proof -
    have "(of_nat m :: u64) * 8 = of_nat (m * 8)" by simp
    then have "unat ((of_nat m :: u64) * 8) = (m * 8) mod 2 ^ 64"
      by (simp only: unat_of_nat) simp
    with that show ?thesis by simp
  qed
  with assms show ?thesis by (metis mult_cancel2 zero_neq_numeral)
qed

text \<open>
  Padding loses nothing: two messages shorter than two to the sixty-one bytes with the same
  padded form are equal, and the padded form is a whole number of blocks, so every byte enters
  the compression function.
\<close>

theorem pad_injective:
  assumes "length a < 2 ^ 61" "length b < 2 ^ 61" and "pad a = pad b"
  shows "a = b \<and> concat (chunks_exact BLOCK (pad a)) = pad a"
proof
  have "length a = length b"
  proof (rule bit_length_inj [OF assms(1,2)])
    have "to_be 8 ((of_nat (length a) :: u64) * 8) = to_be 8 ((of_nat (length b) :: u64) * 8)"
      using pad_length_field [of a] pad_length_field [of b] assms(3) by simp
    then show "(of_nat (length a) :: u64) * 8 = of_nat (length b) * 8"
      by (rule to_be_inj) simp
  qed
  then show "a = b" using pad_prefix [of a] pad_prefix [of b] assms(3) by metis
  show "concat (chunks_exact BLOCK (pad a)) = pad a"
    using pad_blocks [of a] by (intro chunks_exact_concat) (simp_all add: BLOCK_def)
qed

text \<open>
  The constant-time comparison decides equality of digests: it visits all thirty-two bytes and
  answers yes exactly when they agree everywhere.
\<close>

theorem ct_eq_decides:
  assumes "length a = 32" "length b = 32"
  shows "ct_eq a b \<longleftrightarrow> a = b"
  using assms by (rule ct_eq_iff)

theorem ct_eq_decides_witness:
  "ct_eq (sha256 []) (sha256 [1]) \<longleftrightarrow> sha256 [] = sha256 [1]"
  by (rule ct_eq_decides) simp_all

theorem pad_injective_witness: "abc = abc \<and> concat (chunks_exact BLOCK (pad abc)) = pad abc"
  by (rule pad_injective) (simp_all add: abc_def)


end
