(* ===== verification/Frames.thy ===== *)
theory Frames
  imports Kernel_Events Hash
begin

text \<open>
  The frame codec of the event log (\<^verbatim>\<open>crates/crustcore-eventlog/src/lib.rs\<close>): the fields of a
  frame, its encoder and its decoder, and the characterization of the decoder by the encoder.
\<close>

section \<open>Frame fields\<close>

definition FRAME_MAGIC :: bytes where
  "FRAME_MAGIC = [0x43, 0x43, 0x45, 0x4C]"

definition FRAME_VERSION :: u16 where
  "FRAME_VERSION = 1"

definition GENESIS_PREV_HASH :: bytes where
  "GENESIS_PREV_HASH = replicate 32 0"

definition FLAG_HAS_TASK :: u8 where
  "FLAG_HAS_TASK = 1"

definition FLAG_HAS_JOB :: u8 where
  "FLAG_HAS_JOB = 2"

datatype RedactionState = Clean | Redacted

fun redaction_to_byte :: "RedactionState \<Rightarrow> u8" where
  "redaction_to_byte Clean = 0"
| "redaction_to_byte Redacted = 1"

definition redaction_from_byte :: "u8 \<Rightarrow> RedactionState option" where
  "redaction_from_byte b = (if b = 0 then Some Clean else if b = 1 then Some Redacted else None)"

fun visibility_to_byte :: "Visibility \<Rightarrow> u8" where
  "visibility_to_byte ModelVisible = 0"
| "visibility_to_byte Internal = 1"

definition visibility_from_byte :: "u8 \<Rightarrow> Visibility option" where
  "visibility_from_byte b =
     (if b = 0 then Some ModelVisible else if b = 1 then Some Internal else None)"

text \<open>\<^verbatim>\<open>actor as u8\<close> and \<^verbatim>\<open>kind as u8\<close>: the declaration index.\<close>

fun actor_byte :: "Actor \<Rightarrow> u8" where
  "actor_byte Actor.Kernel = 0"
| "actor_byte Actor.User = 1"
| "actor_byte Actor.Model = 2"
| "actor_byte Actor.Subagent = 3"
| "actor_byte Actor.ExternalWorker = 4"
| "actor_byte Actor.Adapter = 5"

fun kind_byte :: "EventKind \<Rightarrow> u8" where
  "kind_byte TaskCreated = 0"
| "kind_byte TaskPlanned = 1"
| "kind_byte JobQueued = 2"
| "kind_byte JobLeased = 3"
| "kind_byte ModelRequestStarted = 4"
| "kind_byte ModelOutputReceived = 5"
| "kind_byte ToolCallRequested = 6"
| "kind_byte ToolCallApproved = 7"
| "kind_byte ToolCallDenied = 8"
| "kind_byte ToolCallStarted = 9"
| "kind_byte ToolCallCompleted = 10"
| "kind_byte SandboxStarted = 11"
| "kind_byte CommandStarted = 12"
| "kind_byte CommandOutputCaptured = 13"
| "kind_byte CommandCompleted = 14"
| "kind_byte PatchProposed = 15"
| "kind_byte PatchVerified = 16"
| "kind_byte PatchRejected = 17"
| "kind_byte ApprovalRequested = 18"
| "kind_byte ApprovalResolved = 19"
| "kind_byte UserMessageQueued = 20"
| "kind_byte UserSteerReceived = 21"
| "kind_byte GitHubOperationRequested = 22"
| "kind_byte GitHubOperationCompleted = 23"
| "kind_byte SecretRequested = 24"
| "kind_byte SecretHandleStored = 25"
| "kind_byte RiskDetected = 26"
| "kind_byte TaskCompleted = 27"
| "kind_byte TaskFailed = 28"
| "kind_byte TaskKilled = 29"

definition actor_from_byte :: "u8 \<Rightarrow> Actor option" where
  "actor_from_byte b = find (\<lambda>a. actor_byte a = b) Actor_ALL"

definition kind_from_byte :: "u8 \<Rightarrow> EventKind option" where
  "kind_from_byte b = find (\<lambda>k. kind_byte k = b) EventKind_ALL"

record FrameMeta =
  fm_seq :: EventSeq
  fm_timestamp :: Timestamp
  fm_task_id :: "TaskId option"
  fm_job_id :: "JobId option"
  fm_actor :: Actor
  fm_kind :: EventKind
  fm_visibility :: Visibility
  fm_redaction :: RedactionState

definition FrameMeta_new :: "u64 \<Rightarrow> EventKind \<Rightarrow> FrameMeta" where
  "FrameMeta_new seq kind =
     \<lparr>fm_seq = EventSeq seq, fm_timestamp = EPOCH, fm_task_id = None, fm_job_id = None,
      fm_actor = Actor.Kernel, fm_kind = kind, fm_visibility = Internal, fm_redaction = Clean\<rparr>"

definition meta_actor :: "FrameMeta \<Rightarrow> Actor \<Rightarrow> FrameMeta" where
  "meta_actor m a = m\<lparr>fm_actor := a\<rparr>"

definition meta_visibility :: "FrameMeta \<Rightarrow> Visibility \<Rightarrow> FrameMeta" where
  "meta_visibility m v = m\<lparr>fm_visibility := v\<rparr>"

definition meta_redaction :: "FrameMeta \<Rightarrow> RedactionState \<Rightarrow> FrameMeta" where
  "meta_redaction m r = m\<lparr>fm_redaction := r\<rparr>"

definition meta_timestamp :: "FrameMeta \<Rightarrow> Timestamp \<Rightarrow> FrameMeta" where
  "meta_timestamp m t = m\<lparr>fm_timestamp := t\<rparr>"

definition meta_task :: "FrameMeta \<Rightarrow> TaskId \<Rightarrow> FrameMeta" where
  "meta_task m t = m\<lparr>fm_task_id := Some t\<rparr>"

definition meta_job :: "FrameMeta \<Rightarrow> JobId \<Rightarrow> FrameMeta" where
  "meta_job m j = m\<lparr>fm_job_id := Some j\<rparr>"

text \<open>A decoded frame header: the metadata and the three hashes.\<close>

record EventFrame = FrameMeta +
  ef_payload_hash :: bytes
  ef_prev_hash :: bytes
  ef_frame_hash :: bytes

datatype BreakReason =
    BadMagic | BadVersion | BadDiscriminant | Truncated | PayloadHashMismatch
  | FrameHashMismatch | PrevHashMismatch | NonMonotonicSeq | HeadMismatch

datatype ChainStatus = Intact (frames: nat) | Broken (frame_index: nat) BreakReason

fun is_intact :: "ChainStatus \<Rightarrow> bool" where
  "is_intact (Intact _) = True"
| "is_intact (Broken _ _) = False"

section \<open>Encoding\<close>

definition flags_of :: "'a FrameMeta_scheme \<Rightarrow> u8" where
  "flags_of m =
     (let flags = 0;
          flags = (if fm_task_id m \<noteq> None then flags OR FLAG_HAS_TASK else flags)
      in if fm_job_id m \<noteq> None then flags OR FLAG_HAS_JOB else flags)"

fun task_bytes :: "TaskId option \<Rightarrow> bytes" where
  "task_bytes None = []"
| "task_bytes (Some (TaskId v)) = to_le 16 v"

fun job_bytes :: "JobId option \<Rightarrow> bytes" where
  "job_bytes None = []"
| "job_bytes (Some (JobId v)) = to_le 16 v"

definition encode_frame_prefix :: "'a FrameMeta_scheme \<Rightarrow> u32 \<Rightarrow> bytes \<Rightarrow> bytes \<Rightarrow> bytes" where
  "encode_frame_prefix m payload_len payload_hash prev_hash =
     FRAME_MAGIC @ to_le 2 FRAME_VERSION @ [flags_of m]
     @ [actor_byte (fm_actor m)] @ [kind_byte (fm_kind m)]
     @ [visibility_to_byte (fm_visibility m)] @ [redaction_to_byte (fm_redaction m)]
     @ to_le 8 (seq_no (fm_seq m)) @ to_le 8 (as_millis (fm_timestamp m))
     @ task_bytes (fm_task_id m) @ job_bytes (fm_job_id m)
     @ to_le 4 payload_len @ payload_hash @ prev_hash"

section \<open>Decoding\<close>

definition read :: "nat \<Rightarrow> bytes \<Rightarrow> nat \<Rightarrow> BreakReason + bytes" where
  "read n bytes off = ok_or (read_array n bytes off) Truncated"

definition read_byte :: "bytes \<Rightarrow> nat \<Rightarrow> BreakReason + u8" where
  "read_byte bytes off = ok_or (get_byte bytes off) Truncated"

definition read_word :: "nat \<Rightarrow> bytes \<Rightarrow> nat \<Rightarrow> BreakReason + 'a::len word" where
  "read_word n bytes off = and_then (read n bytes off) (\<lambda>v. Inr (from_le v))"

definition decode_head :: "bytes \<Rightarrow> nat \<Rightarrow> BreakReason + (u8 \<times> nat)" where
  "decode_head bytes off =
     and_then (read 4 bytes off) (\<lambda>magic.
       if magic \<noteq> FRAME_MAGIC then Inl BadMagic
       else let off = off + 4 in
         and_then (read_word 2 bytes off) (\<lambda>version.
           if version \<noteq> FRAME_VERSION then Inl BadVersion
           else let off = off + 2 in
             and_then (read_byte bytes off) (\<lambda>flags.
               let off = off + 1 in
               if flags AND NOT (FLAG_HAS_TASK OR FLAG_HAS_JOB) \<noteq> 0 then Inl BadDiscriminant
               else Inr (flags, off))))"

definition decode_enums ::
  "bytes \<Rightarrow> nat \<Rightarrow> BreakReason + (Actor \<times> EventKind \<times> Visibility \<times> RedactionState \<times> nat)" where
  "decode_enums bytes off =
     and_then (and_then (read_byte bytes off) (\<lambda>b. ok_or (actor_from_byte b) BadDiscriminant)) (\<lambda>actor.
     let off = off + 1 in
     and_then (and_then (read_byte bytes off) (\<lambda>b. ok_or (kind_from_byte b) BadDiscriminant)) (\<lambda>kind.
     let off = off + 1 in
     and_then (and_then (read_byte bytes off) (\<lambda>b. ok_or (visibility_from_byte b) BadDiscriminant)) (\<lambda>vis.
     let off = off + 1 in
     and_then (and_then (read_byte bytes off) (\<lambda>b. ok_or (redaction_from_byte b) BadDiscriminant)) (\<lambda>red.
     Inr (actor, kind, vis, red, off + 1)))))"

definition decode_ids ::
  "u8 \<Rightarrow> bytes \<Rightarrow> nat \<Rightarrow> BreakReason + (EventSeq \<times> Timestamp \<times> TaskId option \<times> JobId option \<times> nat)" where
  "decode_ids flags bytes off =
     and_then (read_word 8 bytes off) (\<lambda>seq.
     let off = off + 8 in
     and_then (read_word 8 bytes off) (\<lambda>ts.
     let off = off + 8 in
     and_then
       (if flags AND FLAG_HAS_TASK \<noteq> 0
        then and_then (read_word 16 bytes off) (\<lambda>v. Inr (Some (TaskId v), off + 16))
        else Inr (None, off)) (\<lambda>(task_id, off).
     and_then
       (if flags AND FLAG_HAS_JOB \<noteq> 0
        then and_then (read_word 16 bytes off) (\<lambda>v. Inr (Some (JobId v), off + 16))
        else Inr (None, off)) (\<lambda>(job_id, off).
     Inr (EventSeq seq, from_millis ts, task_id, job_id, off)))))"

text \<open>
  The payload length is attacker controlled: the offset addition is checked, then the slice is
  taken. The result carries the payload, the three hashes, the offset of the frame hash and the
  offset of the next frame.
\<close>

definition decode_tail ::
  "bytes \<Rightarrow> nat \<Rightarrow> BreakReason + (bytes \<times> bytes \<times> bytes \<times> bytes \<times> nat \<times> nat)" where
  "decode_tail bytes off =
     and_then (read_word 4 bytes off) (\<lambda>n.
     let payload_len = unat (n :: u32); off = off + 4 in
     and_then (read 32 bytes off) (\<lambda>payload_hash.
     let off = off + 32 in
     and_then (read 32 bytes off) (\<lambda>prev_hash.
     let off = off + 32 in
     and_then (ok_or (checked_add_usize off payload_len) Truncated) (\<lambda>payload_end.
     and_then (if payload_end \<le> length bytes then Inr (take payload_len (drop off bytes))
               else Inl Truncated) (\<lambda>payload.
     and_then (read 32 bytes payload_end) (\<lambda>frame_hash.
     Inr (payload, payload_hash, prev_hash, frame_hash, payload_end, payload_end + 32)))))))"

record Decoded =
  dc_frame :: EventFrame
  dc_payload :: bytes
  dc_frame_hash_offset :: nat
  dc_next_offset :: nat

definition decode_at :: "bytes \<Rightarrow> nat \<Rightarrow> BreakReason + Decoded" where
  "decode_at bytes start =
     and_then (decode_head bytes start) (\<lambda>(flags, off).
     and_then (decode_enums bytes off) (\<lambda>(actor, kind, vis, red, off).
     and_then (decode_ids flags bytes off) (\<lambda>(seq, ts, task_id, job_id, off).
     and_then (decode_tail bytes off) (\<lambda>(payload, payload_hash, prev_hash, frame_hash, fho, next).
     Inr \<lparr>dc_frame =
            \<lparr>fm_seq = seq, fm_timestamp = ts, fm_task_id = task_id, fm_job_id = job_id,
             fm_actor = actor, fm_kind = kind, fm_visibility = vis, fm_redaction = red,
             ef_payload_hash = payload_hash, ef_prev_hash = prev_hash, ef_frame_hash = frame_hash\<rparr>,
          dc_payload = payload, dc_frame_hash_offset = fho, dc_next_offset = next\<rparr>))))"

section \<open>The codec\<close>

lemma actor_from_byte_iff: "actor_from_byte b = Some a \<longleftrightarrow> b = actor_byte a"
  by (cases a) (auto simp: actor_from_byte_def Actor_ALL_def)

lemma kind_from_byte_sound: "kind_from_byte b = Some k \<Longrightarrow> b = kind_byte k"
  by (auto simp: kind_from_byte_def find_Some_iff)

lemma kind_from_byte_complete: "kind_from_byte (kind_byte k) = Some k"
  by (cases k) (simp_all add: kind_from_byte_def EventKind_ALL_def)

lemma kind_from_byte_iff: "kind_from_byte b = Some k \<longleftrightarrow> b = kind_byte k"
  using kind_from_byte_sound kind_from_byte_complete by blast

lemma visibility_from_byte_iff: "visibility_from_byte b = Some v \<longleftrightarrow> b = visibility_to_byte v"
  by (cases v) (auto simp: visibility_from_byte_def)

lemma redaction_from_byte_iff: "redaction_from_byte b = Some r \<longleftrightarrow> b = redaction_to_byte r"
  by (cases r) (auto simp: redaction_from_byte_def)

lemmas byte_iffs = actor_from_byte_iff kind_from_byte_iff visibility_from_byte_iff
  redaction_from_byte_iff

lemma flags_cases:
  assumes "f AND NOT (FLAG_HAS_TASK OR FLAG_HAS_JOB) = 0"
  shows "f \<in> {0, 1, 2, 3}"
proof -
  have "f = (f AND 3) OR (f AND NOT 3)"
    by (simp add: bit.conj_disj_distrib [symmetric])
  also have "f AND NOT 3 = 0"
    using assms by (simp add: FLAG_HAS_TASK_def FLAG_HAS_JOB_def)
  also have "f AND 3 = take_bit 2 f"
    by (simp add: take_bit_eq_mask mask_eq_exp_minus_1)
  also have "take_bit 2 f = f mod 4" by (simp add: take_bit_eq_mod)
  finally have "unat f = unat (f mod 4)" by simp
  also have "\<dots> = unat f mod 4" by (simp add: unat_mod)
  finally have "unat f = unat f mod 4" .
  moreover have "unat f mod 4 < 4" by simp
  ultimately have "unat f < 4" by linarith
  then have "unat f \<in> {0, 1, 2, 3}" by auto
  then show ?thesis
    by (auto simp: word_unat_eq_iff)
qed


lemma read_iff:
  "length bytes \<le> usize_max \<Longrightarrow> read n bytes at = Inr xs \<longleftrightarrow> length xs = n \<and> holds_at bytes at xs"
  by (simp add: read_def read_array_iff)

lemma read_byte_iff: "read_byte bytes at = Inr b \<longleftrightarrow> holds_at bytes at [b]"
  by (simp add: read_byte_def get_byte_iff)

lemma read_word_iff:
  assumes "length bytes \<le> usize_max" and "8 * n = LENGTH('a::len)"
  shows "read_word n bytes at = Inr (w :: 'a word) \<longleftrightarrow> holds_at bytes at (to_le n w)"
proof
  assume "read_word n bytes at = Inr w"
  then obtain v where v: "length v = n" "holds_at bytes at v" "from_le v = w"
    by (auto simp: read_word_def and_then_Inr_iff read_iff [OF assms(1)])
  with from_le_eq_iff [OF v(1) assms(2), of w] show "holds_at bytes at (to_le n w)" by simp
next
  assume "holds_at bytes at (to_le n w)"
  then show "read_word n bytes at = Inr w"
    using assms
    by (auto simp: read_word_def and_then_Inr_iff read_iff intro!: exI [of _ "to_le n w"])
qed

lemma holds_at_Cons:
  "holds_at bytes off (x # xs) \<longleftrightarrow> off < length bytes \<and> bytes ! off = x \<and> holds_at bytes (off + 1) xs"
  using holds_at_append [of bytes off "[x]" xs] by (simp add: holds_at_single)

lemma holds_at_end: "holds_at bytes at xs \<Longrightarrow> at + length xs \<le> length bytes"
  by (simp add: holds_at_def)

lemma decode_head_iff:
  assumes "length bytes \<le> usize_max"
  shows "decode_head bytes off = Inr (flags, off') \<longleftrightarrow>
    holds_at bytes off (FRAME_MAGIC @ to_le 2 FRAME_VERSION @ [flags])
    \<and> flags AND NOT (FLAG_HAS_TASK OR FLAG_HAS_JOB) = 0 \<and> off' = off + 7"
proof -
  have [simp]: "length FRAME_MAGIC = 4" by (simp add: FRAME_MAGIC_def)
  show ?thesis
    unfolding decode_head_def
    by (auto simp: and_then_Inr_iff read_iff [OF assms] read_byte_iff read_word_iff [OF assms] Let_def add.assoc
        split: if_splits)
qed

lemma decode_enums_iff:
  "decode_enums bytes off = Inr (actor, kind, vis, red, off') \<longleftrightarrow>
    holds_at bytes off ([actor_byte actor] @ [kind_byte kind] @ [visibility_to_byte vis]
      @ [redaction_to_byte red]) \<and> off' = off + 4"
  unfolding decode_enums_def holds_at_append
  by (auto simp: and_then_Inr_iff read_byte_iff byte_iffs Let_def add.assoc)

lemma decode_ids_iff:
  assumes "length bytes \<le> usize_max" and f: "flags AND NOT (FLAG_HAS_TASK OR FLAG_HAS_JOB) = 0"
  shows "decode_ids flags bytes off = Inr (seq, ts, task_id, job_id, off') \<longleftrightarrow>
    holds_at bytes off (to_le 8 (seq_no seq) @ to_le 8 (as_millis ts) @ task_bytes task_id @ job_bytes job_id)
    \<and> (task_id \<noteq> None \<longleftrightarrow> flags AND FLAG_HAS_TASK \<noteq> 0)
    \<and> (job_id \<noteq> None \<longleftrightarrow> flags AND FLAG_HAS_JOB \<noteq> 0)
    \<and> off' = off + 16 + length (task_bytes task_id) + length (job_bytes job_id)"
proof -
  note rd = read_word_iff [OF assms(1)]
  have task: "(if c then and_then (read_word 16 bytes o1) (\<lambda>v. Inr (Some (TaskId v), o1 + 16))
       else Inr (None, o1)) = Inr (t, o2) \<longleftrightarrow>
      (t \<noteq> None \<longleftrightarrow> c) \<and> (t \<noteq> None \<longrightarrow> holds_at bytes o1 (task_bytes t)) \<and> o2 = o1 + length (task_bytes t)"
    for c o1 o2 t
    by (cases t rule: task_bytes.cases) (auto simp: rd and_then_Inr_iff)
  have job: "(if c then and_then (read_word 16 bytes o1) (\<lambda>v. Inr (Some (JobId v), o1 + 16))
       else Inr (None, o1)) = Inr (t, o2) \<longleftrightarrow>
      (t \<noteq> None \<longleftrightarrow> c) \<and> (t \<noteq> None \<longrightarrow> holds_at bytes o1 (job_bytes t)) \<and> o2 = o1 + length (job_bytes t)"
    for c o1 o2 t
    by (cases t rule: job_bytes.cases) (auto simp: rd and_then_Inr_iff)
  have "decode_ids flags bytes off = Inr (seq, ts, task_id, job_id, off') \<longleftrightarrow>
    holds_at bytes off (to_le 8 (seq_no seq)) \<and> holds_at bytes (off + 8) (to_le 8 (as_millis ts))
    \<and> (task_id \<noteq> None \<longleftrightarrow> flags AND FLAG_HAS_TASK \<noteq> 0)
    \<and> (task_id \<noteq> None \<longrightarrow> holds_at bytes (off + 16) (task_bytes task_id))
    \<and> (job_id \<noteq> None \<longleftrightarrow> flags AND FLAG_HAS_JOB \<noteq> 0)
    \<and> (job_id \<noteq> None \<longrightarrow> holds_at bytes (off + 16 + length (task_bytes task_id)) (job_bytes job_id))
    \<and> off' = off + 16 + length (task_bytes task_id) + length (job_bytes job_id)"
    unfolding decode_ids_def Let_def
    by (cases seq; cases ts) (auto simp: and_then_Inr_iff rd task job from_millis_def add.assoc)
  moreover have "holds_at bytes o1 xs \<Longrightarrow> o1 + length xs \<le> length bytes" for o1 xs
    by (simp add: holds_at_def)
  ultimately show ?thesis
    by (cases task_id; cases job_id) (auto simp: add.assoc dest: holds_at_end)
qed


lemma decode_tail_iff:
  assumes "length bytes \<le> usize_max"
  shows "decode_tail bytes off = Inr (payload, ph, prev, fh, fho, next) \<longleftrightarrow>
    holds_at bytes off (to_le 4 (of_nat (length payload) :: u32) @ ph @ prev @ payload @ fh)
    \<and> length ph = 32 \<and> length prev = 32 \<and> length fh = 32 \<and> length payload < 2 ^ 32
    \<and> fho = off + 68 + length payload \<and> next = fho + 32"
proof -
  note rd = read_iff [OF assms] read_word_iff [OF assms]
  have slice: "(\<exists>pe. checked_add_usize o1 n = Some pe \<and> pe \<le> length bytes
        \<and> p = take n (drop o1 bytes) \<and> Q pe) \<longleftrightarrow>
      holds_at bytes o1 p \<and> length p = n \<and> Q (o1 + n)" for o1 n p Q
    using assms by (auto simp: checked_add_usize_def holds_at_def)
  have "decode_tail bytes off = Inr (payload, ph, prev, fh, fho, next) \<longleftrightarrow>
    (\<exists>n :: u32. holds_at bytes off (to_le 4 n) \<and> length ph = 32 \<and> holds_at bytes (off + 4) ph
      \<and> length prev = 32 \<and> holds_at bytes (off + 36) prev
      \<and> (\<exists>pe. checked_add_usize (off + 68) (unat n) = Some pe \<and> pe \<le> length bytes
           \<and> payload = take (unat n) (drop (off + 68) bytes)
           \<and> (length fh = 32 \<and> holds_at bytes pe fh \<and> fho = pe \<and> next = pe + 32)))"
    unfolding decode_tail_def Let_def
    by (auto simp: and_then_Inr_iff rd add.assoc split: if_splits)
  also have "\<dots> \<longleftrightarrow> (\<exists>n :: u32. holds_at bytes off (to_le 4 n) \<and> length ph = 32
      \<and> holds_at bytes (off + 4) ph \<and> length prev = 32 \<and> holds_at bytes (off + 36) prev
      \<and> (holds_at bytes (off + 68) payload \<and> length payload = unat n
         \<and> (length fh = 32 \<and> holds_at bytes (off + 68 + unat n) fh
            \<and> fho = off + 68 + unat n \<and> next = off + 68 + unat n + 32)))"
    by (simp only: slice)
  also have "\<dots> \<longleftrightarrow>
    holds_at bytes off (to_le 4 (of_nat (length payload) :: u32) @ ph @ prev @ payload @ fh)
    \<and> length ph = 32 \<and> length prev = 32 \<and> length fh = 32 \<and> length payload < 2 ^ 32
    \<and> fho = off + 68 + length payload \<and> next = fho + 32" (is "?l \<longleftrightarrow> ?r")
  proof
    assume ?l
    then obtain n :: u32 where n: "holds_at bytes off (to_le 4 n)" "length payload = unat n"
      and rest: "length ph = 32" "holds_at bytes (off + 4) ph" "length prev = 32"
      "holds_at bytes (off + 36) prev" "holds_at bytes (off + 68) payload" "length fh = 32"
      "holds_at bytes (off + 68 + unat n) fh" "fho = off + 68 + unat n"
      "next = off + 68 + unat n + 32" by blast
    have "of_nat (length payload) = n" "length payload < 2 ^ 32"
      using n(2) unat_less_pow [of n] by simp_all
    with n rest show ?r by (simp add: add.assoc)
  next
    assume r: ?r
    then have "unat (of_nat (length payload) :: u32) = length payload"
      by (simp add: unat_of_nat)
    with r show ?l
      by (intro exI [of _ "of_nat (length payload) :: u32"]) (auto simp: add.assoc)
  qed
  finally show ?thesis .
qed


text \<open>
  A frame as it lies in the log: the body the frame hash is computed over, then that hash.
\<close>

definition frame_body :: "EventFrame \<times> bytes \<Rightarrow> bytes" where
  "frame_body = (\<lambda>(f, p). encode_frame_prefix f (of_nat (length p)) (ef_payload_hash f) (ef_prev_hash f) @ p)"

definition frame_bytes :: "EventFrame \<times> bytes \<Rightarrow> bytes" where
  "frame_bytes x = frame_body x @ ef_frame_hash (fst x)"

definition frame_wf :: "EventFrame \<times> bytes \<Rightarrow> bool" where
  "frame_wf = (\<lambda>(f, p). length p < 2 ^ 32 \<and> length (ef_payload_hash f) = 32
     \<and> length (ef_prev_hash f) = 32 \<and> length (ef_frame_hash f) = 32)"

lemma flags_of_valid: "flags_of m AND NOT (FLAG_HAS_TASK OR FLAG_HAS_JOB) = 0"
  by (simp add: flags_of_def FLAG_HAS_TASK_def FLAG_HAS_JOB_def Let_def)

lemma flags_of_iff:
  assumes "f AND NOT (FLAG_HAS_TASK OR FLAG_HAS_JOB) = 0"
  shows "(fm_task_id m \<noteq> None \<longleftrightarrow> f AND FLAG_HAS_TASK \<noteq> 0)
      \<and> (fm_job_id m \<noteq> None \<longleftrightarrow> f AND FLAG_HAS_JOB \<noteq> 0) \<longleftrightarrow> f = flags_of m"
  using flags_cases [OF assms]
  by (cases "fm_task_id m"; cases "fm_job_id m")
    (auto simp: flags_of_def FLAG_HAS_TASK_def FLAG_HAS_JOB_def Let_def)

text \<open>
  The decoder accepts at an offset exactly the encodings of well-formed frames that stand there:
  round trip and soundness in one.
\<close>

lemma decode_at_iff:
  assumes len: "length bytes \<le> usize_max"
  shows "decode_at bytes start = Inr d \<longleftrightarrow>
    (let x = (dc_frame d, dc_payload d) in
     frame_wf x \<and> holds_at bytes start (frame_bytes x)
     \<and> dc_frame_hash_offset d = start + length (frame_body x)
     \<and> dc_next_offset d = start + length (frame_bytes x))"
proof -
  obtain f p fho nxt where d: "d = \<lparr>dc_frame = f, dc_payload = p, dc_frame_hash_offset = fho, dc_next_offset = nxt\<rparr>"
    by (cases d) simp
  obtain seq ts tid jid actor kind vis red ph prev fh where f: "f = \<lparr>fm_seq = seq,
      fm_timestamp = ts, fm_task_id = tid, fm_job_id = jid, fm_actor = actor, fm_kind = kind,
      fm_visibility = vis, fm_redaction = red, ef_payload_hash = ph, ef_prev_hash = prev,
      ef_frame_hash = fh\<rparr>" by (cases f) simp
  have [simp]: "length FRAME_MAGIC = 4" by (simp add: FRAME_MAGIC_def)
  have fl: "flags AND NOT (FLAG_HAS_TASK OR FLAG_HAS_JOB) = 0
        \<and> (tid \<noteq> None \<longleftrightarrow> flags AND FLAG_HAS_TASK \<noteq> 0) \<and> (jid \<noteq> None \<longleftrightarrow> flags AND FLAG_HAS_JOB \<noteq> 0)
      \<longleftrightarrow> flags = flags_of f" for flags
    using flags_of_iff [of flags f] flags_of_valid [of f] by (auto simp: f)
  have "decode_at bytes start = Inr d \<longleftrightarrow> (\<exists>flags o1 o2 o3.
      decode_head bytes start = Inr (flags, o1)
      \<and> decode_enums bytes o1 = Inr (actor, kind, vis, red, o2)
      \<and> decode_ids flags bytes o2 = Inr (seq, ts, tid, jid, o3)
      \<and> decode_tail bytes o3 = Inr (p, ph, prev, fh, fho, nxt))"
    unfolding decode_at_def d f
    by (auto simp: and_then_Inr_iff)
  also have "\<dots> \<longleftrightarrow> (\<exists>flags. (flags AND NOT (FLAG_HAS_TASK OR FLAG_HAS_JOB) = 0
        \<and> (tid \<noteq> None \<longleftrightarrow> flags AND FLAG_HAS_TASK \<noteq> 0) \<and> (jid \<noteq> None \<longleftrightarrow> flags AND FLAG_HAS_JOB \<noteq> 0))
      \<and> holds_at bytes start (FRAME_MAGIC @ to_le 2 FRAME_VERSION @ [flags])
      \<and> decode_enums bytes (start + 7) = Inr (actor, kind, vis, red, start + 11)
      \<and> holds_at bytes (start + 11) (to_le 8 (seq_no seq) @ to_le 8 (as_millis ts) @ task_bytes tid @ job_bytes jid)
      \<and> decode_tail bytes (start + 27 + length (task_bytes tid) + length (job_bytes jid))
          = Inr (p, ph, prev, fh, fho, nxt))"
    by (auto simp: decode_head_iff [OF len] decode_enums_iff decode_ids_iff [OF len] add.assoc
        simp del: holds_at_append)
  also have "\<dots> \<longleftrightarrow> holds_at bytes start (FRAME_MAGIC @ to_le 2 FRAME_VERSION @ [flags_of f])
      \<and> decode_enums bytes (start + 7) = Inr (actor, kind, vis, red, start + 11)
      \<and> holds_at bytes (start + 11) (to_le 8 (seq_no seq) @ to_le 8 (as_millis ts) @ task_bytes tid @ job_bytes jid)
      \<and> decode_tail bytes (start + 27 + length (task_bytes tid) + length (job_bytes jid))
          = Inr (p, ph, prev, fh, fho, nxt)"
    unfolding fl by blast
  also have "\<dots> \<longleftrightarrow> frame_wf (f, p) \<and> holds_at bytes start (frame_bytes (f, p))
     \<and> fho = start + length (frame_body (f, p)) \<and> nxt = start + length (frame_bytes (f, p))"
    unfolding decode_enums_iff decode_tail_iff [OF len]
    by (auto simp: frame_wf_def frame_bytes_def frame_body_def encode_frame_prefix_def f ac_simps
        holds_at_Cons)
  finally show ?thesis by (simp add: d Let_def)
qed


end
