(* ===== verification/EventLog.thy ===== *)
theory EventLog
  imports Frames
begin

text \<open>
  The append-only, hash-chained event log (\<^verbatim>\<open>crates/crustcore-eventlog/src/lib.rs\<close>): appending,
  the verifier and its anchored variant, loading, inspection and export. The digest is the SHA-256
  of theory \<^verbatim>\<open>Hash\<close>. Frame counters are natural numbers: a log holds fewer frames than bytes, and
  a vector never holds more than \<open>isize_max\<close> bytes, so the 64-bit counters of the source cannot wrap.
\<close>

section \<open>The log\<close>

record EventLog =
  el_bytes :: bytes
  el_head_hash :: bytes
  el_count :: nat

definition EventLog_new :: EventLog where
  "EventLog_new = \<lparr>el_bytes = [], el_head_hash = GENESIS_PREV_HASH, el_count = 0\<rparr>"

text \<open>
  \<^verbatim>\<open>append\<close> in a release build: a payload over \<^verbatim>\<open>u32::MAX\<close> bytes is cut to that length (a debug
  build asserts instead).
\<close>

definition append_frame :: "EventLog \<Rightarrow> FrameMeta \<Rightarrow> bytes \<Rightarrow> EventLog \<times> bytes" where
  "append_frame log meta payload =
     (let payload_len = (if length payload < 2 ^ 32 then of_nat (length payload) else - 1 :: u32);
          written = take (unat payload_len) payload;
          payload_hash = sha256 written;
          prev_hash = el_head_hash log;
          frame = encode_frame_prefix meta payload_len payload_hash prev_hash @ written;
          frame_hash = sha256 frame
      in (\<lparr>el_bytes = el_bytes log @ frame @ frame_hash, el_head_hash = frame_hash,
           el_count = el_count log + 1\<rparr>, frame_hash))"

section \<open>Reading\<close>

text \<open>Every decoded frame moves the offset forward, so the readers terminate on any bytes.\<close>

lemma decode_progress: "decode_at bytes start = Inr d \<Longrightarrow> start < dc_next_offset d"
proof -
  assume "decode_at bytes start = Inr d"
  then obtain flags o1 a b c r o2 seq ts t j o3 p ph pv fh fho nxt where
    s: "decode_head bytes start = Inr (flags, o1)" "decode_enums bytes o1 = Inr (a, b, c, r, o2)"
    "decode_ids flags bytes o2 = Inr (seq, ts, t, j, o3)"
    "decode_tail bytes o3 = Inr (p, ph, pv, fh, fho, nxt)" "dc_next_offset d = nxt"
    by (auto simp: decode_at_def and_then_Inr_iff)
  have "start < o1"
    using s(1) by (auto simp: decode_head_def and_then_Inr_iff Let_def split: if_splits)
  also have "o1 < o2"
    using s(2) by (auto simp: decode_enums_def and_then_Inr_iff Let_def)
  also have "o2 < o3"
    using s(3) by (auto simp: decode_ids_def and_then_Inr_iff Let_def split: if_splits)
  also have "o3 < nxt"
    using s(4) by (auto simp: decode_tail_def and_then_Inr_iff Let_def checked_add_usize_def
        split: if_splits)
  finally show ?thesis using s(5) by simp
qed

text \<open>The verifier's loop: the frames verified so far (in order) and the overall status.\<close>

function walk_from ::
  "bytes \<Rightarrow> nat \<Rightarrow> bytes \<Rightarrow> nat \<Rightarrow> u64 option \<Rightarrow> (EventFrame \<times> bytes) list \<times> ChainStatus" where
  "walk_from bytes offset prev_hash index last_seq =
     (if offset < length bytes then
        (case decode_at bytes offset of
           Inl reason \<Rightarrow> ([], Broken index reason)
         | Inr d \<Rightarrow>
             let f = dc_frame d;
                 frame_body = take (dc_frame_hash_offset d - offset) (drop offset bytes)
             in if sha256 (dc_payload d) \<noteq> ef_payload_hash f then ([], Broken index PayloadHashMismatch)
                else if sha256 frame_body \<noteq> ef_frame_hash f then ([], Broken index FrameHashMismatch)
                else if ef_prev_hash f \<noteq> prev_hash then ([], Broken index PrevHashMismatch)
                else if (case last_seq of Some s \<Rightarrow> seq_no (fm_seq f) \<le> s | None \<Rightarrow> False)
                then ([], Broken index NonMonotonicSeq)
                else (let (fs, st) = walk_from bytes (dc_next_offset d) (ef_frame_hash f) (index + 1)
                                       (Some (seq_no (fm_seq f)))
                      in ((f, dc_payload d) # fs, st)))
      else ([], Intact index))"
  by pat_completeness auto

termination
  by (relation "measure (\<lambda>(bytes, offset, _). length bytes - offset)") (auto dest!: decode_progress)

declare walk_from.simps [simp del]

definition walk :: "EventLog \<Rightarrow> (EventFrame \<times> bytes) list \<times> ChainStatus" where
  "walk log = walk_from (el_bytes log) 0 GENESIS_PREV_HASH 0 None"

definition verify :: "EventLog \<Rightarrow> ChainStatus" where
  "verify log = snd (walk log)"

definition verify_to_head :: "EventLog \<Rightarrow> bytes \<Rightarrow> ChainStatus" where
  "verify_to_head log expected_head =
     (let (fs, status) = walk log in
      case status of
        Broken _ _ \<Rightarrow> status
      | Intact n \<Rightarrow>
          let actual_head = (if fs = [] then GENESIS_PREV_HASH else ef_frame_hash (fst (last fs)))
          in if actual_head = expected_head then Intact n else Broken n HeadMismatch)"

text \<open>The frame iterator decodes without verifying and stops at the first undecodable frame.\<close>

function frame_iter :: "bytes \<Rightarrow> nat \<Rightarrow> (EventFrame \<times> bytes) list" where
  "frame_iter bytes offset =
     (if offset \<ge> length bytes then []
      else (case decode_at bytes offset of
              Inl _ \<Rightarrow> []
            | Inr d \<Rightarrow> (dc_frame d, dc_payload d) # frame_iter bytes (dc_next_offset d)))"
  by pat_completeness auto

termination
  by (relation "measure (\<lambda>(bytes, offset). length bytes - offset)") (auto dest!: decode_progress)

declare frame_iter.simps [simp del]

definition from_bytes :: "bytes \<Rightarrow> EventLog" where
  "from_bytes bytes =
     (let fs = frame_iter bytes 0
      in \<lparr>el_bytes = bytes,
          el_head_hash = foldl (\<lambda>_ (f, _). ef_frame_hash f) GENESIS_PREV_HASH fs,
          el_count = length fs\<rparr>)"

section \<open>Inspection\<close>

record TaskSummary =
  ts_task_id :: TaskId
  ts_frames :: nat
  ts_first_seq :: EventSeq
  ts_last_seq :: EventSeq
  ts_terminal :: "EventKind option"

record InspectReport =
  ir_status :: ChainStatus
  ir_total_frames :: nat
  ir_tasks :: "TaskSummary list"

definition is_terminal_kind :: "EventKind \<Rightarrow> bool" where
  "is_terminal_kind k = (k \<in> {TaskCompleted, TaskFailed, TaskKilled})"

fun note_frame :: "TaskSummary list \<Rightarrow> EventFrame \<times> bytes \<Rightarrow> TaskSummary list" where
  "note_frame tasks (f, _) =
     (case fm_task_id f of
        None \<Rightarrow> tasks
      | Some tid \<Rightarrow>
          (case position (\<lambda>t. ts_task_id t = tid) tasks of
             Some i \<Rightarrow>
               tasks[i := (tasks ! i)\<lparr>ts_frames := ts_frames (tasks ! i) + 1,
                       ts_last_seq := fm_seq f,
                       ts_terminal := (if is_terminal_kind (fm_kind f) then Some (fm_kind f)
                                       else ts_terminal (tasks ! i))\<rparr>]
           | None \<Rightarrow>
               tasks @ [\<lparr>ts_task_id = tid, ts_frames = 1, ts_first_seq = fm_seq f,
                         ts_last_seq = fm_seq f,
                         ts_terminal = (if is_terminal_kind (fm_kind f) then Some (fm_kind f)
                                        else None)\<rparr>]))"

definition inspect :: "EventLog \<Rightarrow> InspectReport" where
  "inspect log =
     (let (fs, status) = walk log
      in \<lparr>ir_status = status, ir_total_frames = length fs, ir_tasks = foldl note_frame [] fs\<rparr>)"


section \<open>What the verifier establishes\<close>

definition frame_ok :: "EventFrame \<times> bytes \<Rightarrow> bool" where
  "frame_ok x =
     (frame_wf x \<and> ef_payload_hash (fst x) = sha256 (snd x) \<and> ef_frame_hash (fst x) = sha256 (frame_body x))"

definition frame_link :: "EventFrame \<times> bytes \<Rightarrow> bytes" where
  "frame_link x = ef_prev_hash (fst x)"

definition frame_digest :: "EventFrame \<times> bytes \<Rightarrow> bytes" where
  "frame_digest x = sha256 (frame_body x)"

fun seqs_from :: "u64 option \<Rightarrow> (EventFrame \<times> bytes) list \<Rightarrow> bool" where
  "seqs_from ls [] = True"
| "seqs_from ls (x # xs) =
     ((case ls of None \<Rightarrow> True | Some s \<Rightarrow> s < seq_no (fm_seq (fst x)))
      \<and> seqs_from (Some (seq_no (fm_seq (fst x)))) xs)"

lemma length_encode_prefix_le:
  "length (encode_frame_prefix m n ph pv) \<le> 63 + length ph + length pv"
proof -
  have "length (task_bytes t) \<le> 16" "length (job_bytes j) \<le> 16" for t j
    by (cases t rule: task_bytes.cases, simp_all) (cases j rule: job_bytes.cases, simp_all)
  from this(1) [of "fm_task_id m"] this(2) [of "fm_job_id m"] show ?thesis
    by (simp add: encode_frame_prefix_def FRAME_MAGIC_def)
qed

lemma length_frame_bytes: "frame_wf x \<Longrightarrow> 0 < length (frame_bytes x) \<and> length (frame_bytes x) \<le> usize_max"
  using length_encode_prefix_le [of "fst x" "of_nat (length (snd x))" "ef_payload_hash (fst x)" "ef_prev_hash (fst x)"]
  by (auto simp: frame_wf_def frame_bytes_def frame_body_def usize_max_def split: prod.splits)

text \<open>A frame is determined by its body: the encoder is injective on well-formed frames.\<close>

lemma frame_bytes_inj:
  assumes "frame_wf x" "frame_wf y" "frame_bytes x = frame_bytes y"
  shows "x = y"
proof -
  let ?d = "\<lambda>z. \<lparr>dc_frame = fst z, dc_payload = snd z, dc_frame_hash_offset = length (frame_body z),
    dc_next_offset = length (frame_bytes z)\<rparr>"
  have "decode_at (frame_bytes z) 0 = Inr (?d z)" if "frame_wf z" for z
    using that length_frame_bytes [OF that]
    by (subst decode_at_iff) (simp_all add: Let_def holds_at_def)
  with assms show ?thesis by (metis Decoded.select_convs(1,2) prod.collapse sum.inject(2))
qed

interpretation log_chain: hash_chain frame_ok frame_link frame_body sha256 GENESIS_PREV_HASH
proof
  fix x y
  assume "frame_ok x" "frame_ok y" "frame_body x = frame_body y"
  then show "x = y"
    by (intro frame_bytes_inj) (simp_all add: frame_ok_def frame_bytes_def)
qed

text \<open>
  One iteration of the loop on bytes that hold a frame: it goes on exactly when the frame is
  consistent, links to the expected predecessor and increases the sequence number.
\<close>

lemma walk_step:
  assumes len: "length bytes \<le> usize_max" and d: "decode_at bytes off = Inr d" and off: "off < length bytes"
  defines "x \<equiv> (dc_frame d, dc_payload d)"
  shows "walk_from bytes off prev idx ls =
    (if frame_ok x \<and> frame_link x = prev \<and> seqs_from ls [x]
     then (let (fs, st) = walk_from bytes (off + length (frame_bytes x)) (frame_digest x) (idx + 1)
             (Some (seq_no (fm_seq (fst x)))) in (x # fs, st))
     else ([], snd (walk_from bytes off prev idx ls)))"
    and "\<not> (frame_ok x \<and> frame_link x = prev \<and> seqs_from ls [x]) \<Longrightarrow>
      \<exists>r. snd (walk_from bytes off prev idx ls) = Broken idx r"
proof -
  have wf: "frame_wf x" and h: "holds_at bytes off (frame_bytes x)"
    and o: "dc_frame_hash_offset d = off + length (frame_body x)"
    "dc_next_offset d = off + length (frame_bytes x)"
    using decode_at_iff [OF len, of off d] d by (simp_all add: Let_def x_def)
  have b: "take (dc_frame_hash_offset d - off) (drop off bytes) = frame_body x"
    using h unfolding frame_bytes_def holds_at_append by (simp add: o holds_at_def)
  show "walk_from bytes off prev idx ls =
    (if frame_ok x \<and> frame_link x = prev \<and> seqs_from ls [x]
     then (let (fs, st) = walk_from bytes (off + length (frame_bytes x)) (frame_digest x) (idx + 1)
             (Some (seq_no (fm_seq (fst x)))) in (x # fs, st))
     else ([], snd (walk_from bytes off prev idx ls)))"
    unfolding walk_from.simps [of bytes off]
    using off wf
    by (auto simp: d Let_def b o(2) frame_ok_def frame_link_def frame_digest_def x_def
        split: option.splits)
  show "\<exists>r. snd (walk_from bytes off prev idx ls) = Broken idx r"
    if "\<not> (frame_ok x \<and> frame_link x = prev \<and> seqs_from ls [x])"
    unfolding walk_from.simps [of bytes off]
    using off wf that
    by (auto simp: d Let_def b o(2) frame_ok_def frame_link_def x_def split: option.splits)
qed


abbreviation log_chained :: "bytes \<Rightarrow> (EventFrame \<times> bytes) list \<Rightarrow> bool" where
  "log_chained \<equiv> chained frame_ok frame_link frame_digest"

abbreviation log_head :: "bytes \<Rightarrow> (EventFrame \<times> bytes) list \<Rightarrow> bytes" where
  "log_head \<equiv> chain_head frame_digest"

text \<open>
  Whatever the bytes are, the verifier's frames are a chained, consistent sequence with increasing
  sequence numbers that lies at the front of the bytes, and the index it reports is their number.
\<close>

lemma walk_sound:
  assumes "length bytes \<le> usize_max" and "off \<le> length bytes"
    and "walk_from bytes off prev idx ls = (fs, st)"
  shows "log_chained prev fs \<and> seqs_from ls fs
    \<and> (\<exists>rest. drop off bytes = concat (map frame_bytes fs) @ rest \<and> (is_intact st \<longrightarrow> rest = []))
    \<and> (st = Intact (idx + length fs) \<or> (\<exists>r. st = Broken (idx + length fs) r))"
  using assms(2,3)
proof (induction "length bytes - off" arbitrary: off prev idx ls fs st rule: less_induct)
  case less
  note len = assms(1)
  consider (stop) "\<not> off < length bytes" | (bad) r where "off < length bytes" "decode_at bytes off = Inl r"
    | (frame) d where "off < length bytes" "decode_at bytes off = Inr d"
    by (cases "decode_at bytes off") auto
  then show ?case
  proof cases
    case stop
    from less(3) have "fs = []" "st = Intact idx"
      by (subst (asm) walk_from.simps, simp add: stop)+
    with stop less(2) show ?thesis by simp
  next
    case bad
    from less(3) have "fs = []" "st = Broken idx r"
      by (subst (asm) walk_from.simps, simp add: bad)+
    then show ?thesis by simp
  next
    case (frame d)
    let ?x = "(dc_frame d, dc_payload d)"
    let ?off = "off + length (frame_bytes ?x)"
    have wf: "frame_wf ?x" and h: "holds_at bytes off (frame_bytes ?x)"
      using decode_at_iff [OF len, of off d] frame by (simp_all add: Let_def)
    show ?thesis
    proof (cases "frame_ok ?x \<and> frame_link ?x = prev \<and> seqs_from ls [?x]")
      case False
      have "fs = []"
        using walk_step(1) [OF len frame(2,1), of prev idx ls] False less(3) by (simp only: if_False) simp
      moreover obtain r where "st = Broken idx r"
        using walk_step(2) [OF len frame(2,1) False, of idx] less(3) by auto
      ultimately show ?thesis by simp
    next
      case True
      obtain fs' where fs: "fs = ?x # fs'" and w: "walk_from bytes ?off (frame_digest ?x) (idx + 1)
          (Some (seq_no (fm_seq (fst ?x)))) = (fs', st)"
        using walk_step(1) [OF len frame(2,1), of prev idx ls] True less(3) by (auto split: prod.splits)
      have off': "?off \<le> length bytes" using h by (rule holds_at_end)
      have "length bytes - ?off < length bytes - off"
        using length_frame_bytes [OF wf, THEN conjunct1] frame(1) by linarith
      note IH = less(1) [OF this off' w]
      then obtain rest where rest: "drop ?off bytes = concat (map frame_bytes fs') @ rest"
        "is_intact st \<longrightarrow> rest = []" by blast
      have "drop off bytes = frame_bytes ?x @ drop ?off bytes"
        using h by (metis append_take_drop_id add.commute drop_drop holds_at_def)
      with rest have "\<exists>rest. drop off bytes = concat (map frame_bytes fs) @ rest \<and> (is_intact st \<longrightarrow> rest = [])"
        by (simp add: fs)
      moreover have "log_chained prev fs" "seqs_from ls fs"
        using IH True by (simp_all add: fs)
      moreover have "st = Intact (idx + length fs) \<or> (\<exists>r. st = Broken (idx + length fs) r)"
        using IH by (simp add: fs)
      ultimately show ?thesis by blast
    qed
  qed
qed

text \<open>And it accepts every such sequence.\<close>

lemma walk_complete:
  assumes len: "length bytes \<le> usize_max" and "off \<le> length bytes"
    and "drop off bytes = concat (map frame_bytes fs)" "log_chained prev fs" "seqs_from ls fs"
  shows "walk_from bytes off prev idx ls = (fs, Intact (idx + length fs))"
  using assms(2-)
proof (induction fs arbitrary: off prev idx ls)
  case Nil
  then have "\<not> off < length bytes" by simp
  then show ?case by (subst walk_from.simps) simp
next
  case (Cons x fs)
  let ?off = "off + length (frame_bytes x)"
  have ok: "frame_ok x" "frame_link x = prev" "seqs_from ls [x]" using Cons.prems by simp_all
  then have wf: "frame_wf x" by (simp add: frame_ok_def)
  have dr: "drop off bytes = frame_bytes x @ concat (map frame_bytes fs)" using Cons.prems(2) by simp
  have "length bytes - off = length (frame_bytes x) + length (concat (map frame_bytes fs))"
    using arg_cong [OF dr, of length] by simp
  then have "off + length (frame_bytes x) \<le> length bytes" using Cons.prems(1) by linarith
  then have h: "holds_at bytes off (frame_bytes x)"
    by (simp add: holds_at_def dr)
  then have off': "?off \<le> length bytes" by (rule holds_at_end)
  have lt: "off < length bytes" using length_frame_bytes [OF wf, THEN conjunct1] off' by linarith
  define d where "d = \<lparr>dc_frame = fst x, dc_payload = snd x,
    dc_frame_hash_offset = off + length (frame_body x), dc_next_offset = ?off\<rparr>"
  have d: "decode_at bytes off = Inr d"
    using wf h by (subst decode_at_iff [OF len]) (simp add: Let_def d_def)
  have x: "(dc_frame d, dc_payload d) = x" by (simp add: d_def)
  have "drop ?off bytes = concat (map frame_bytes fs)"
    using arg_cong [OF dr, of "drop (length (frame_bytes x))"] by (simp add: add.commute)
  from Cons.IH [OF off' this, of "frame_digest x" "Some (seq_no (fm_seq (fst x)))" "idx + 1"] Cons.prems
  have "walk_from bytes ?off (frame_digest x) (idx + 1) (Some (seq_no (fm_seq (fst x))))
      = (fs, Intact (idx + 1 + length fs))" by simp
  then show ?case
    using walk_step(1) [OF len d lt, of prev idx ls] ok by (simp add: x)
qed


text \<open>The two directions together: intact logs are exactly the chained encodings.\<close>

lemma walk_intact_iff:
  assumes "length (el_bytes log) \<le> usize_max"
  shows "walk log = (fs, Intact n) \<longleftrightarrow>
    el_bytes log = concat (map frame_bytes fs) \<and> log_chained GENESIS_PREV_HASH fs
    \<and> seqs_from None fs \<and> n = length fs"
proof
  assume "walk log = (fs, Intact n)"
  from walk_sound [OF assms _ this [unfolded walk_def]]
  show "el_bytes log = concat (map frame_bytes fs) \<and> log_chained GENESIS_PREV_HASH fs
    \<and> seqs_from None fs \<and> n = length fs" by auto
next
  assume "el_bytes log = concat (map frame_bytes fs) \<and> log_chained GENESIS_PREV_HASH fs
    \<and> seqs_from None fs \<and> n = length fs"
  then show "walk log = (fs, Intact n)"
    using walk_complete [OF assms, of 0 fs GENESIS_PREV_HASH None 0] by (simp add: walk_def)
qed

lemma head_of_chain:
  "log_chained h fs \<Longrightarrow> log_head h fs = (if fs = [] then h else ef_frame_hash (fst (last fs)))"
  by (cases fs rule: rev_cases) (auto simp: frame_digest_def frame_ok_def)

lemma verify_to_head_iff:
  "verify_to_head log h = Intact n \<longleftrightarrow>
     (\<exists>fs. walk log = (fs, Intact n)
        \<and> h = (if fs = [] then GENESIS_PREV_HASH else ef_frame_hash (fst (last fs))))"
  by (cases "walk log"; cases "snd (walk log)") (auto simp: verify_to_head_def Let_def)

section \<open>The log invariant\<close>

text \<open>The log's cached head and count are those of the chain its bytes encode.\<close>

definition log_inv :: "EventLog \<Rightarrow> bool" where
  "log_inv log =
     (\<exists>fs. walk log = (fs, Intact (el_count log)) \<and> el_head_hash log = log_head GENESIS_PREV_HASH fs)"

definition last_seq :: "EventLog \<Rightarrow> u64 option" where
  "last_seq log =
     (let fs = fst (walk log) in if fs = [] then None else Some (seq_no (fm_seq (fst (last fs)))))"

text \<open>The frame an append adds to the abstract log.\<close>

definition framed :: "bytes \<Rightarrow> FrameMeta \<Rightarrow> bytes \<Rightarrow> EventFrame \<times> bytes" where
  "framed prev m p =
     (FrameMeta.extend m
        \<lparr>ef_payload_hash = sha256 p, ef_prev_hash = prev,
         ef_frame_hash = sha256 (encode_frame_prefix m (of_nat (length p)) (sha256 p) prev @ p)\<rparr>, p)"

lemma framed_fields [simp]:
  "fm_seq (fst (framed prev m p)) = fm_seq m" "snd (framed prev m p) = p"
  "ef_prev_hash (fst (framed prev m p)) = prev" "ef_payload_hash (fst (framed prev m p)) = sha256 p"
  by (simp_all add: framed_def FrameMeta.defs)

lemma frame_body_framed:
  "frame_body (framed prev m p) = encode_frame_prefix m (of_nat (length p)) (sha256 p) prev @ p"
  by (simp add: framed_def frame_body_def FrameMeta.defs encode_frame_prefix_def flags_of_def)

lemma framed_ok: "length p < 2 ^ 32 \<Longrightarrow> length prev = 32 \<Longrightarrow> frame_ok (framed prev m p)"
  unfolding frame_ok_def frame_body_framed
  by (simp add: frame_wf_def framed_def FrameMeta.defs)

lemma append_frame_eq:
  assumes "length p < 2 ^ 32"
  shows "append_frame log m p =
    (let x = framed (el_head_hash log) m p in
     (\<lparr>el_bytes = el_bytes log @ frame_bytes x, el_head_hash = frame_digest x,
       el_count = el_count log + 1\<rparr>, frame_digest x))"
proof -
  have "unat (of_nat (length p) :: u32) = length p" using assms by (simp add: unat_of_nat)
  with assms show ?thesis
    by (simp add: append_frame_def Let_def frame_bytes_def frame_body_framed frame_digest_def)
      (simp add: framed_def FrameMeta.defs)
qed

lemma log_head_length: "log_chained GENESIS_PREV_HASH fs \<Longrightarrow> length (log_head GENESIS_PREV_HASH fs) = 32"
  by (cases fs rule: rev_cases) (simp_all add: GENESIS_PREV_HASH_def frame_digest_def)

lemma seqs_from_snoc:
  "seqs_from ls (fs @ [x]) \<longleftrightarrow> seqs_from ls fs
     \<and> seqs_from (if fs = [] then ls else Some (seq_no (fm_seq (fst (last fs))))) [x]"
  by (induction fs arbitrary: ls) auto

text \<open>Appending adds one frame to the abstract log.\<close>

lemma append_frame_walk:
  assumes inv: "log_inv log" and p: "length p < 2 ^ 32"
    and seq: "\<And>s. last_seq log = Some s \<Longrightarrow> s < seq_no (fm_seq m)"
    and app: "append_frame log m p = (log', h)" and len: "length (el_bytes log') \<le> usize_max"
  shows "walk log' = (fst (walk log) @ [framed (el_head_hash log) m p], Intact (el_count log + 1))"
    and "el_head_hash log' = log_head GENESIS_PREV_HASH (fst (walk log'))"
proof -
  let ?x = "framed (el_head_hash log) m p"
  obtain fs where fs: "walk log = (fs, Intact (el_count log))"
    "el_head_hash log = log_head GENESIS_PREV_HASH fs"
    using inv by (auto simp: log_inv_def)
  have log': "el_bytes log' = el_bytes log @ frame_bytes ?x" "el_head_hash log' = frame_digest ?x"
    using app append_frame_eq [OF p, of log m] by (auto simp: Let_def)
  have "length (el_bytes log) \<le> usize_max" using len log'(1) by simp
  note wi = walk_intact_iff [OF this, of fs "el_count log"]
  have old: "el_bytes log = concat (map frame_bytes fs)" "log_chained GENESIS_PREV_HASH fs"
    "seqs_from None fs" "el_count log = length fs" using wi fs(1) by auto
  have ok: "frame_ok ?x"
    using log_head_length [OF old(2)] p fs(2) by (intro framed_ok) simp_all
  have "seqs_from None (fs @ [?x])"
    using old(3) seq by (auto simp: seqs_from_snoc last_seq_def fs(1) Let_def)
  moreover have "log_chained GENESIS_PREV_HASH (fs @ [?x])"
    using old(2) ok fs(2) by (simp add: frame_link_def)
  ultimately show w: "walk log' = (fst (walk log) @ [?x], Intact (el_count log + 1))"
    using walk_intact_iff [OF len, of "fs @ [?x]" "el_count log + 1"] old log'(1) fs(1) by simp
  then show "el_head_hash log' = log_head GENESIS_PREV_HASH (fst (walk log'))"
    using log'(2) by simp
qed

end
