(* ===== verification/EventLog_Export.thy ===== *)
theory EventLog_Export
  imports EventLog Format
begin

text \<open>
  Rendering the verified frames as JSON lines (\<^verbatim>\<open>export_jsonl\<close>) and the inspection report
  (\<^verbatim>\<open>InspectReport\<close>'s \<^verbatim>\<open>Display\<close>), and what the two surfaces may reveal.
\<close>

section \<open>Formatting\<close>

definition hex_into :: "string \<Rightarrow> bytes \<Rightarrow> string" where
  "hex_into out bytes = foldl (\<lambda>s b. s @ hex_byte b) out bytes"

lemma hex_into_eq: "hex_into out bytes = out @ concat (map hex_byte bytes)"
  by (induction bytes arbitrary: out) (simp_all add: hex_into_def)

text \<open>The derived \<^verbatim>\<open>Debug\<close> of the field enums prints the constructor name.\<close>

fun debug_actor :: "Actor \<Rightarrow> string" where
  "debug_actor Actor.Kernel = ''Kernel''"
| "debug_actor Actor.User = ''User''"
| "debug_actor Actor.Model = ''Model''"
| "debug_actor Actor.Subagent = ''Subagent''"
| "debug_actor Actor.ExternalWorker = ''ExternalWorker''"
| "debug_actor Actor.Adapter = ''Adapter''"

fun debug_kind :: "EventKind \<Rightarrow> string" where
  "debug_kind TaskCreated = ''TaskCreated''"
| "debug_kind TaskPlanned = ''TaskPlanned''"
| "debug_kind JobQueued = ''JobQueued''"
| "debug_kind JobLeased = ''JobLeased''"
| "debug_kind ModelRequestStarted = ''ModelRequestStarted''"
| "debug_kind ModelOutputReceived = ''ModelOutputReceived''"
| "debug_kind ToolCallRequested = ''ToolCallRequested''"
| "debug_kind ToolCallApproved = ''ToolCallApproved''"
| "debug_kind ToolCallDenied = ''ToolCallDenied''"
| "debug_kind ToolCallStarted = ''ToolCallStarted''"
| "debug_kind ToolCallCompleted = ''ToolCallCompleted''"
| "debug_kind SandboxStarted = ''SandboxStarted''"
| "debug_kind CommandStarted = ''CommandStarted''"
| "debug_kind CommandOutputCaptured = ''CommandOutputCaptured''"
| "debug_kind CommandCompleted = ''CommandCompleted''"
| "debug_kind PatchProposed = ''PatchProposed''"
| "debug_kind PatchVerified = ''PatchVerified''"
| "debug_kind PatchRejected = ''PatchRejected''"
| "debug_kind ApprovalRequested = ''ApprovalRequested''"
| "debug_kind ApprovalResolved = ''ApprovalResolved''"
| "debug_kind UserMessageQueued = ''UserMessageQueued''"
| "debug_kind UserSteerReceived = ''UserSteerReceived''"
| "debug_kind GitHubOperationRequested = ''GitHubOperationRequested''"
| "debug_kind GitHubOperationCompleted = ''GitHubOperationCompleted''"
| "debug_kind SecretRequested = ''SecretRequested''"
| "debug_kind SecretHandleStored = ''SecretHandleStored''"
| "debug_kind RiskDetected = ''RiskDetected''"
| "debug_kind TaskCompleted = ''TaskCompleted''"
| "debug_kind TaskFailed = ''TaskFailed''"
| "debug_kind TaskKilled = ''TaskKilled''"

fun debug_visibility :: "Visibility \<Rightarrow> string" where
  "debug_visibility ModelVisible = ''ModelVisible''"
| "debug_visibility Internal = ''Internal''"

fun debug_redaction :: "RedactionState \<Rightarrow> string" where
  "debug_redaction Clean = ''Clean''"
| "debug_redaction Redacted = ''Redacted''"

fun break_message :: "BreakReason \<Rightarrow> string" where
  "break_message BadMagic = ''bad frame magic''"
| "break_message BadVersion = ''unsupported frame version''"
| "break_message BadDiscriminant = ''invalid field discriminant''"
| "break_message Truncated = ''truncated/partial frame''"
| "break_message PayloadHashMismatch = ''payload hash mismatch''"
| "break_message FrameHashMismatch = ''frame hash mismatch''"
| "break_message PrevHashMismatch = ''prev-hash chain mismatch''"
| "break_message NonMonotonicSeq = ''non-monotonic sequence''"
| "break_message HeadMismatch = ''head mismatch (trailing frames removed?)''"

section \<open>Export\<close>

definition quote :: string where
  "quote = [CHR 0x22]"

definition key :: "string \<Rightarrow> string" where
  "key k = quote @ k @ quote @ '':''"

definition quoted :: "string \<Rightarrow> string" where
  "quoted s = quote @ s @ quote"

fun show_task :: "TaskId option \<Rightarrow> string" where
  "show_task (Some (TaskId t)) = show_nat (unat t)"
| "show_task None = ''null''"

fun show_job :: "JobId option \<Rightarrow> string" where
  "show_job (Some (JobId j)) = show_nat (unat j)"
| "show_job None = ''null''"

definition export_header :: "EventFrame \<Rightarrow> string" where
  "export_header f =
     ''{'' @ key ''seq'' @ show_nat (unat (seq_no (fm_seq f)))
     @ '','' @ key ''timestamp'' @ show_nat (unat (as_millis (fm_timestamp f)))
     @ '','' @ key ''task_id'' @ show_task (fm_task_id f)
     @ '','' @ key ''job_id'' @ show_job (fm_job_id f)
     @ '','' @ key ''actor'' @ quoted (debug_actor (fm_actor f))
     @ '','' @ key ''kind'' @ quoted (debug_kind (fm_kind f))
     @ '','' @ key ''visibility'' @ quoted (debug_visibility (fm_visibility f))
     @ '','' @ key ''redaction'' @ quoted (debug_redaction (fm_redaction f))
     @ '','' @ key ''payload_hash'' @ quoted (hex_into [] (ef_payload_hash f))
     @ '','' @ key ''prev_hash'' @ quoted (hex_into [] (ef_prev_hash f))
     @ '','' @ key ''frame_hash'' @ quoted (hex_into [] (ef_frame_hash f))"

definition export_payload :: "EventFrame \<Rightarrow> bytes \<Rightarrow> string" where
  "export_payload f payload =
     (if fm_redaction f = Redacted
      then '','' @ key ''payload_len'' @ ''null'' @ '','' @ key ''payload'' @ quoted ''<redacted>''
      else if fm_visibility f = ModelVisible
      then '','' @ key ''payload_len'' @ show_nat (length payload)
           @ '','' @ key ''payload'' @ quoted (hex_into [] payload)
      else '','' @ key ''payload_len'' @ show_nat (length payload)
           @ '','' @ key ''payload'' @ quoted ''<internal>'')"

definition export_line :: "EventFrame \<times> bytes \<Rightarrow> string" where
  "export_line = (\<lambda>(f, payload). export_header f @ export_payload f payload @ ''}'' @ [CHR 0x0A])"

definition export_jsonl :: "EventLog \<Rightarrow> string" where
  "export_jsonl log = concat (map export_line (fst (walk log)))"

section \<open>The inspection report\<close>

definition report_line :: "TaskSummary \<Rightarrow> string" where
  "report_line t =
     (case ts_task_id t of TaskId n \<Rightarrow>
       ''  task '' @ show_nat (unat n) @ '': '' @ show_nat (ts_frames t) @ '' frame(s), seq ''
       @ show_nat (unat (seq_no (ts_first_seq t))) @ ''..'' @ show_nat (unat (seq_no (ts_last_seq t)))
       @ '', '' @ (case ts_terminal t of Some k \<Rightarrow> debug_kind k | None \<Rightarrow> ''open'') @ [CHR 0x0A])"

definition report_text :: "InspectReport \<Rightarrow> string" where
  "report_text r =
     (case ir_status r of
        Intact n \<Rightarrow> ''event log: '' @ show_nat n @ '' frame(s), chain INTACT'' @ [CHR 0x0A]
      | Broken i reason \<Rightarrow>
          ''event log: chain BROKEN at frame '' @ show_nat i @ '': '' @ break_message reason @ [CHR 0x0A])
     @ (if ir_tasks r = [] then ''  (no task-scoped events)'' @ [CHR 0x0A] else [])
     @ concat (map report_line (ir_tasks r))"

end
