(* ===== verification/EventLog_Props.thy ===== *)
theory EventLog_Props
  imports EventLog_Export
begin

text \<open>The event log's properties.\<close>

section \<open>Sample log\<close>

definition demo_meta :: FrameMeta where
  "demo_meta = FrameMeta_new 1 TaskCreated"

definition demo_log :: EventLog where
  "demo_log = fst (append_frame EventLog_new demo_meta [1, 2, 3])"

lemma new_log_inv: "walk EventLog_new = ([], Intact 0)" "log_inv EventLog_new"
proof -
  show w: "walk EventLog_new = ([], Intact 0)"
    by (simp add: walk_def EventLog_new_def walk_from.simps)
  then show "log_inv EventLog_new"
    by (simp add: log_inv_def) (simp add: EventLog_new_def)
qed

lemma demo_log_bytes: "el_bytes demo_log = frame_bytes (framed GENESIS_PREV_HASH demo_meta [1, 2, 3])"
  by (simp add: demo_log_def append_frame_eq Let_def EventLog_new_def)

lemma demo_log_length: "length (el_bytes demo_log) \<le> usize_max"
proof -
  have "frame_ok (framed GENESIS_PREV_HASH demo_meta [1, 2, 3])"
    by (rule framed_ok) (simp_all add: GENESIS_PREV_HASH_def)
  then show ?thesis
    unfolding demo_log_bytes by (simp add: frame_ok_def length_frame_bytes)
qed

lemma demo_walk: "walk demo_log = ([framed GENESIS_PREV_HASH demo_meta [1, 2, 3]], Intact 1)"
  "log_inv demo_log"
proof -
  have a: "append_frame EventLog_new demo_meta [1, 2, 3] = (demo_log, snd (append_frame EventLog_new demo_meta [1, 2, 3]))"
    by (simp add: demo_log_def)
  have l: "last_seq EventLog_new = Some s \<Longrightarrow> s < seq_no (fm_seq demo_meta)" for s
    by (simp add: last_seq_def new_log_inv(1))
  have p: "length [1, 2, 3 :: u8] < 2 ^ 32" by simp
  note w = append_frame_walk [OF new_log_inv(2) p l a demo_log_length]
  from w(1) show "walk demo_log = ([framed GENESIS_PREV_HASH demo_meta [1, 2, 3]], Intact 1)"
    by (simp add: new_log_inv(1)) (simp add: EventLog_new_def)
  then show "log_inv demo_log"
    using w(2) by (simp add: log_inv_def) (simp add: demo_log_def append_frame_eq Let_def EventLog_new_def)
qed

section \<open>Properties\<close>

text \<open>
  C8. Appending refines adding one frame to the abstract log. From a log whose cached head and
  count are right, appending a payload of less than four gibibytes under a higher sequence number
  gives such a log again; the verifier accepts it, also against the returned hash as the anchored
  head; and the frames it reads back are the old ones followed by the new metadata with exactly
  that payload, its digest and the old head as predecessor.
\<close>

theorem append_refines_snoc:
  assumes "log_inv log" and "length p < 2 ^ 32"
    and "\<forall>s. last_seq log = Some s \<longrightarrow> s < seq_no (fm_seq m)"
    and "append_frame log m p = (log', h)" and "length (el_bytes log') \<le> usize_max"
  shows "log_inv log' \<and> walk log' = (fst (walk log) @ [framed (el_head_hash log) m p], Intact (el_count log + 1))
    \<and> verify log' = Intact (el_count log + 1) \<and> verify_to_head log' h = Intact (el_count log + 1)"
proof -
  note w = append_frame_walk [OF assms(1,2) _ assms(4,5)]
  have w1: "walk log' = (fst (walk log) @ [framed (el_head_hash log) m p], Intact (el_count log + 1))"
    and w2: "el_head_hash log' = log_head GENESIS_PREV_HASH (fst (walk log'))"
    using w assms(3) by auto
  have log': "el_count log' = el_count log + 1" "h = frame_digest (framed (el_head_hash log) m p)"
    using assms(4) append_frame_eq [OF assms(2), of log m] by (auto simp: Let_def)
  have "h = ef_frame_hash (fst (framed (el_head_hash log) m p))"
    unfolding log'(2) frame_digest_def frame_body_framed by (simp add: framed_def FrameMeta.defs)
  with w1 have "verify_to_head log' h = Intact (el_count log + 1)"
    by (simp add: verify_to_head_iff)
  with w1 w2 log' show ?thesis by (simp add: log_inv_def verify_def)
qed

theorem append_refines_snoc_witness:
  "verify demo_log = Intact 1
   \<and> fst (walk demo_log) = [framed GENESIS_PREV_HASH demo_meta [1, 2, 3]]"
proof -
  have a: "append_frame EventLog_new demo_meta [1, 2, 3] = (demo_log, snd (append_frame EventLog_new demo_meta [1, 2, 3]))"
    by (simp add: demo_log_def)
  from append_refines_snoc [OF new_log_inv(2) _ _ a demo_log_length] show ?thesis
    by (simp add: last_seq_def new_log_inv(1)) (simp add: EventLog_new_def)
qed

text \<open>
  C4. Tamper evidence against an anchored head: two logs that verify against the same head hash
  hold the very same bytes, unless one can exhibit a SHA-256 collision between two different frame
  bodies taken from the two logs, or a frame body whose digest is all zeros. Editing, reordering,
  inserting, deleting or truncating frames under an anchor therefore requires breaking the hash.
\<close>

theorem anchored_log_unique:
  assumes "length (el_bytes a) \<le> usize_max" "length (el_bytes b) \<le> usize_max"
    and "verify_to_head a h = Intact n" "verify_to_head b h = Intact m"
  shows "el_bytes a = el_bytes b
    \<or> (\<exists>x\<in>set (fst (walk a)). \<exists>y\<in>set (fst (walk b)).
         frame_body x \<noteq> frame_body y \<and> sha256 (frame_body x) = sha256 (frame_body y))
    \<or> (\<exists>x\<in>set (fst (walk a)) \<union> set (fst (walk b)). sha256 (frame_body x) = GENESIS_PREV_HASH)"
proof -
  obtain fa fb where w: "walk a = (fa, Intact n)" "walk b = (fb, Intact m)"
    and h: "h = (if fa = [] then GENESIS_PREV_HASH else ef_frame_hash (fst (last fa)))"
    "h = (if fb = [] then GENESIS_PREV_HASH else ef_frame_hash (fst (last fb)))"
    using assms(3,4) by (auto simp: verify_to_head_iff)
  note ia = walk_intact_iff [OF assms(1), THEN iffD1, OF w(1)]
    and ib = walk_intact_iff [OF assms(2), THEN iffD1, OF w(2)]
  have dg: "frame_digest = (\<lambda>x. sha256 (frame_body x))" by (simp add: fun_eq_iff frame_digest_def)
  have "log_head GENESIS_PREV_HASH fa = log_head GENESIS_PREV_HASH fb"
    using h ia ib by (simp add: head_of_chain)
  with ia ib have "fa = fb
    \<or> (\<exists>x\<in>set fa. \<exists>y\<in>set fb. frame_body x \<noteq> frame_body y \<and> sha256 (frame_body x) = sha256 (frame_body y))
    \<or> (\<exists>x\<in>set fa \<union> set fb. sha256 (frame_body x) = GENESIS_PREV_HASH)"
    unfolding dg by (intro log_chain.chain_unique) simp_all
  with ia ib w show ?thesis by auto
qed

theorem anchored_log_unique_witness:
  "el_bytes demo_log = el_bytes demo_log
    \<or> (\<exists>x\<in>set (fst (walk demo_log)). \<exists>y\<in>set (fst (walk demo_log)).
         frame_body x \<noteq> frame_body y \<and> sha256 (frame_body x) = sha256 (frame_body y))
    \<or> (\<exists>x\<in>set (fst (walk demo_log)) \<union> set (fst (walk demo_log)). sha256 (frame_body x) = GENESIS_PREV_HASH)"
proof (rule anchored_log_unique [OF demo_log_length demo_log_length])
  show "verify_to_head demo_log (ef_frame_hash (fst (framed GENESIS_PREV_HASH demo_meta [1, 2, 3]))) = Intact 1"
    "verify_to_head demo_log (ef_frame_hash (fst (framed GENESIS_PREV_HASH demo_meta [1, 2, 3]))) = Intact 1"
    by (simp_all add: verify_to_head_iff demo_walk)
qed

text \<open>
  The decoder is exact. On bytes of any length a vector can have, decoding at an offset succeeds
  with a frame and payload if and only if the encoding of that frame stands at that offset, its
  three hashes have thirty-two bytes and its payload is shorter than four gibibytes; the reported
  offsets are those of its frame hash and of the byte after it.
\<close>

theorem decode_exact:
  assumes "length bytes \<le> usize_max"
  shows "decode_at bytes start = Inr d \<longleftrightarrow>
    frame_wf (dc_frame d, dc_payload d) \<and> holds_at bytes start (frame_bytes (dc_frame d, dc_payload d))
    \<and> dc_frame_hash_offset d = start + length (frame_body (dc_frame d, dc_payload d))
    \<and> dc_next_offset d = start + length (frame_bytes (dc_frame d, dc_payload d))"
  using decode_at_iff [OF assms] by (simp add: Let_def)

theorem decode_exact_witness:
  "\<exists>d. decode_at (el_bytes demo_log) 0 = Inr d \<and> dc_payload d = [1, 2, 3]"
proof -
  let ?x = "framed GENESIS_PREV_HASH demo_meta [1, 2, 3]"
  let ?d = "\<lparr>dc_frame = fst ?x, dc_payload = snd ?x, dc_frame_hash_offset = length (frame_body ?x),
    dc_next_offset = length (frame_bytes ?x)\<rparr>"
  have "frame_ok ?x" by (rule framed_ok) (simp_all add: GENESIS_PREV_HASH_def)
  then have "decode_at (el_bytes demo_log) 0 = Inr ?d"
    using decode_exact [OF demo_log_length, of 0 ?d]
    by (simp add: frame_ok_def demo_log_bytes holds_at_def del: framed_fields(2))
  then show ?thesis by (intro exI [of _ ?d]) simp
qed

text \<open>
  C10. On arbitrary bytes the verifier never overclaims: the frames it returns form a chain from the
  genesis hash in which every payload digest, frame digest and link is right and the sequence
  numbers strictly increase, they are encoded at the front of the bytes, the index it reports is
  their number, and it says intact only when nothing is left over.
\<close>

theorem verifier_sound:
  assumes "length (el_bytes log) \<le> usize_max" and "walk log = (fs, st)"
  shows "log_chained GENESIS_PREV_HASH fs \<and> seqs_from None fs
    \<and> (\<exists>rest. el_bytes log = concat (map frame_bytes fs) @ rest \<and> (is_intact st \<longrightarrow> rest = []))
    \<and> (st = Intact (length fs) \<or> (\<exists>r. st = Broken (length fs) r))"
  using walk_sound [OF assms(1) _ assms(2) [unfolded walk_def]] by auto

theorem verifier_sound_witness:
  "\<exists>rest. [0x43] = concat (map frame_bytes (fst (walk \<lparr>el_bytes = [0x43], el_head_hash = [], el_count = 0\<rparr>))) @ rest"
  using verifier_sound [OF _ prod.collapse [symmetric], of "\<lparr>el_bytes = [0x43], el_head_hash = [], el_count = 0\<rparr>"]
  by (auto simp: usize_max_def)

lemma frame_iter_complete:
  assumes len: "length bytes \<le> usize_max" and "off \<le> length bytes"
    and "drop off bytes = concat (map frame_bytes fs)" "\<forall>x\<in>set fs. frame_wf x"
  shows "frame_iter bytes off = fs"
  using assms(2-)
proof (induction fs arbitrary: off)
  case Nil
  then show ?case by (simp add: frame_iter.simps)
next
  case (Cons x fs)
  let ?off = "off + length (frame_bytes x)"
  have dr: "drop off bytes = frame_bytes x @ concat (map frame_bytes fs)" using Cons.prems(2) by simp
  have "length bytes - off = length (frame_bytes x) + length (concat (map frame_bytes fs))"
    using arg_cong [OF dr, of length] by simp
  then have off': "?off \<le> length bytes" using Cons.prems(1) by linarith
  define d where "d = \<lparr>dc_frame = fst x, dc_payload = snd x,
    dc_frame_hash_offset = off + length (frame_body x), dc_next_offset = ?off\<rparr>"
  have wf: "frame_wf x" using Cons.prems(3) by simp
  have "decode_at bytes off = Inr d"
    using wf off' by (subst decode_at_iff [OF len]) (simp add: Let_def d_def holds_at_def dr)
  moreover have "off < length bytes"
    using length_frame_bytes [OF wf, THEN conjunct1] off' by linarith
  moreover have "drop ?off bytes = concat (map frame_bytes fs)"
    using arg_cong [OF dr, of "drop (length (frame_bytes x))"] by (simp add: add.commute)
  ultimately show ?case
    using Cons.IH [OF off'] Cons.prems(3) by (subst frame_iter.simps) (simp add: d_def)
qed

lemma load_head:
  "foldl (\<lambda>_ (f, _). ef_frame_hash f) h fs = (if fs = [] then h else ef_frame_hash (fst (last fs)))"
  by (induction fs arbitrary: h) auto

text \<open>
  Loading what was stored gives back the log: head hash and frame count recovered from the raw
  bytes of a log in good order are the ones it had.
\<close>

theorem load_roundtrip:
  assumes "log_inv log" and "length (el_bytes log) \<le> usize_max"
  shows "from_bytes (el_bytes log) = log"
proof -
  obtain fs where fs: "walk log = (fs, Intact (el_count log))"
    "el_head_hash log = log_head GENESIS_PREV_HASH fs" using assms(1) by (auto simp: log_inv_def)
  note i = walk_intact_iff [OF assms(2), THEN iffD1, OF fs(1)]
  have "\<forall>x\<in>set fs. frame_wf x" using i chained_ok by (fastforce simp: frame_ok_def)
  then have "frame_iter (el_bytes log) 0 = fs"
    using i assms(2) by (intro frame_iter_complete) auto
  then show ?thesis
    using i fs(2) by (simp add: from_bytes_def Let_def load_head head_of_chain)
qed

theorem load_roundtrip_witness: "from_bytes (el_bytes demo_log) = demo_log"
  by (rule load_roundtrip [OF demo_walk(2) demo_log_length])

definition blank :: "EventFrame \<times> bytes \<Rightarrow> EventFrame \<times> bytes" where
  "blank = (\<lambda>(f, payload).
     (f, if fm_redaction f = Redacted then []
         else if fm_visibility f = Internal then replicate (length payload) 0
         else payload))"

lemma blank_line: "export_line (blank x) = export_line x"
  by (cases "fm_visibility (fst x)") (auto simp: blank_def export_line_def export_payload_def split: prod.splits)

text \<open>
  The export surface reveals no more than it may: the export of any log is the one computed
  after every redacted payload has been erased and every internal payload overwritten with zeros.
  Nothing of a redacted payload, not even its length, and nothing but the length of an internal
  payload enters the exported text, the digests in the frame headers apart.
\<close>

theorem export_noninterference:
  "export_jsonl log = concat (map export_line (map blank (fst (walk log))))"
  by (simp add: export_jsonl_def blank_line comp_def)

lemma hex_digit_roundtrip: "n < 16 \<Longrightarrow> hex_val (of_char (digit n)) = Some (of_nat n)"
proof -
  have "list_all (\<lambda>n. hex_val (of_char (digit n)) = Some (of_nat n)) [0..<16]" by code_simp
  then show "n < 16 \<Longrightarrow> ?thesis" by (simp add: list_all_iff)
qed

lemma hex_byte_roundtrip: "hex_pair (map of_char (hex_byte b)) = Some b"
proof -
  have lt: "unat b div 16 < 16" using unat_less_pow [of b] by (simp add: less_mult_imp_div_less)
  have "push_bit 4 (of_nat (unat b div 16)) OR (of_nat (unat b mod 16) :: u8) = b"
  proof -
    have hi: "(of_nat (unat b div 16) :: u8) = drop_bit 4 b"
      using lt by (simp add: word_unat_eq_iff unat_of_nat drop_bit_eq_div unat_div)
    have lo: "(of_nat (unat b mod 16) :: u8) = take_bit 4 b"
      by (simp add: word_unat_eq_iff unat_of_nat take_bit_eq_mod unat_mod)
    show ?thesis
      unfolding hi lo by (rule bit_word_eqI) (auto simp: bit_simps)
  qed
  then show ?thesis
    using hex_digit_roundtrip [OF lt] hex_digit_roundtrip [of "unat b mod 16"]
    by (simp add: hex_pair_def hex_byte_def)
qed

lemma chunks_hex: "chunks_exact 2 (map of_char (concat (map hex_byte bs))) = map (\<lambda>b. map of_char (hex_byte b)) bs"
proof (induction bs)
  case Nil
  then show ?case by (simp add: chunks_exact.simps)
next
  case (Cons b bs)
  then show ?case by (subst chunks_exact.simps) (simp add: hex_byte_def [of b])
qed

text \<open>
  A digest survives its hex rendering: what the log prints for a thirty-two byte hash decodes
  to that hash.
\<close>

theorem hex_roundtrip:
  assumes "length d = 32"
  shows "hex32_decode (map of_char (hex_into [] d)) = Some d"
proof -
  have "decode_pairs (map (\<lambda>b. map of_char (hex_byte b)) bs) = Some bs" for bs
    by (induction bs) (simp_all add: hex_byte_roundtrip)
  moreover have "length (concat (map hex_byte bs)) = 2 * length bs" for bs
    by (induction bs) (simp_all add: hex_byte_def)
  ultimately show ?thesis
    using assms by (simp add: hex32_decode_def hex_into_eq chunks_hex)
qed

theorem hex_roundtrip_witness:
  "hex32_decode (map of_char (hex_into [] GENESIS_PREV_HASH)) = Some GENESIS_PREV_HASH"
  by (rule hex_roundtrip) (simp add: GENESIS_PREV_HASH_def)

definition summary_of :: "TaskId \<Rightarrow> EventFrame list \<Rightarrow> TaskSummary option" where
  "summary_of tid own =
     (if own = [] then None
      else Some \<lparr>ts_task_id = tid, ts_frames = length own, ts_first_seq = fm_seq (hd own),
                 ts_last_seq = fm_seq (last own),
                 ts_terminal = (let ks = filter is_terminal_kind (map fm_kind own)
                                in if ks = [] then None else Some (last ks))\<rparr>)"

interpretation summaries: arena ts_task_id "\<lambda>s. s" "\<lambda>es s. es"
  "\<lambda>s k. position (\<lambda>t. ts_task_id t = k) s" "\<lambda>s k. find (\<lambda>t. ts_task_id t = k) s"
  by unfold_locales simp_all

lemma note_frame_lookup:
  assumes "\<And>t. find (\<lambda>s. ts_task_id s = t) tasks = summary_of t (own t)"
  shows "find (\<lambda>s. ts_task_id s = t) (note_frame tasks (f, p)) =
    summary_of t (if fm_task_id f = Some t then own t @ [f] else own t)"
proof (cases "fm_task_id f")
  case None
  with assms show ?thesis by simp
next
  case tid: (Some tid)
  obtain new where new: "summary_of tid (own tid @ [f]) = Some new" "ts_task_id new = tid"
    by (simp add: summary_of_def)
  show ?thesis
  proof (cases "position (\<lambda>s. ts_task_id s = tid) tasks")
    case None
    then have "own tid = []"
      using assms [of tid] by (simp add: find_position summary_of_def split: if_splits)
    then have "note_frame tasks (f, p) = tasks @ [new]"
      using None tid new(1) by (auto simp: summary_of_def Let_def)
    then show ?thesis
      using summaries.lookup_push [of new tasks t] None assms [of t] tid new by simp
  next
    case (Some i)
    then have "own tid \<noteq> []" "Some (tasks ! i) = summary_of tid (own tid)"
      using assms [of tid] by (auto simp: find_position summary_of_def split: if_splits)
    then have "note_frame tasks (f, p) = tasks[i := new]"
      using tid Some new(1) by (auto simp: summary_of_def Let_def)
    then show ?thesis
      using summaries.lookup_put [OF Some new(2), of t] assms [of t] tid new(1) by simp
  qed
qed

text \<open>
  The inspection report is accurate: for every task id, the report has a summary exactly when
  some verified frame names the task, and then it states how many do, the first and the last
  sequence number among them, and the last terminal event, if there was one.
\<close>

theorem inspect_accurate:
  "find (\<lambda>s. ts_task_id s = tid) (ir_tasks (inspect log)) =
     summary_of tid (filter (\<lambda>f. fm_task_id f = Some tid) (map fst (fst (walk log))))
   \<and> ir_total_frames (inspect log) = length (fst (walk log)) \<and> ir_status (inspect log) = verify log"
proof -
  have "find (\<lambda>s. ts_task_id s = t) (foldl note_frame [] fs) =
      summary_of t (filter (\<lambda>f. fm_task_id f = Some t) (map fst fs))" for fs t
  proof (induction fs arbitrary: t rule: rev_induct)
    case Nil
    then show ?case by (simp add: summary_of_def)
  next
    case (snoc x fs)
    obtain f p where x: "x = (f, p)" by fastforce
    from note_frame_lookup [OF snoc, of t f p] show ?case by (simp add: x)
  qed
  then show ?thesis by (simp add: inspect_def verify_def split: prod.split)
qed

end
