(* ===== verification/Receipts.thy ===== *)
theory Receipts
  imports Types Hash
begin

text \<open>
  Tool receipts (\<^verbatim>\<open>crates/crustcore-receipts/src/lib.rs\<close>): the receipt record and its binary form,
  the MAC-authenticated hash chain, and the two verifiers. The key is a parameter of the chain
  record; reading it from disk is not modelled.
\<close>

section \<open>Receipts\<close>

definition GENESIS_RECEIPT_HASH :: bytes where
  "GENESIS_RECEIPT_HASH = replicate 32 0"

record ToolReceipt =
  tr_task_id :: TaskId
  tr_job_id :: JobId
  tr_tool_call_id :: ToolCallId
  tr_tool_name_hash :: bytes
  tr_args_hash :: bytes
  tr_result_hash :: bytes
  tr_artifact_hashes :: "ArtifactId list"
  tr_event_seq :: EventSeq
  tr_prev_receipt_hash :: bytes
  tr_mac :: bytes

definition MAX_RECEIPT_ARTIFACTS :: nat where
  "MAX_RECEIPT_ARTIFACTS = 256"

definition RECEIPT_MAGIC :: bytes where
  "RECEIPT_MAGIC = [0x43, 0x43, 0x52, 0x31]"

definition RECEIPT_FIXED_BYTES :: nat where
  "RECEIPT_FIXED_BYTES = 4 + 16 * 3 + 8 + 32 * 5 + 4"

datatype ReceiptDecodeError = Truncated | BadMagic | TooManyArtifacts | InvalidLength

fun task_no :: "TaskId \<Rightarrow> u128" where "task_no (TaskId v) = v"
fun job_no :: "JobId \<Rightarrow> u128" where "job_no (JobId v) = v"
fun call_no :: "ToolCallId \<Rightarrow> u128" where "call_no (ToolCallId v) = v"

definition receipt_to_bytes :: "ToolReceipt \<Rightarrow> bytes" where
  "receipt_to_bytes r =
     (let artifact_count = min (length (tr_artifact_hashes r)) MAX_RECEIPT_ARTIFACTS in
      RECEIPT_MAGIC
      @ to_le 16 (task_no (tr_task_id r)) @ to_le 16 (job_no (tr_job_id r))
      @ to_le 16 (call_no (tr_tool_call_id r)) @ to_le 8 (seq_no (tr_event_seq r))
      @ tr_tool_name_hash r @ tr_args_hash r @ tr_result_hash r @ tr_prev_receipt_hash r @ tr_mac r
      @ to_le 4 (of_nat artifact_count :: u32)
      @ concat (map artifact_bytes (take artifact_count (tr_artifact_hashes r))))"

text \<open>\<^verbatim>\<open>input[off..off + n]\<close>; the fixed part was checked to be long enough, so it does not panic.\<close>

definition slice :: "bytes \<Rightarrow> nat \<Rightarrow> nat \<Rightarrow> bytes" where
  "slice bytes off n = take n (drop off bytes)"

definition receipt_from_bytes :: "bytes \<Rightarrow> ReceiptDecodeError + ToolReceipt" where
  "receipt_from_bytes bytes =
     (if length bytes < RECEIPT_FIXED_BYTES then Inl Truncated
      else if take 4 bytes \<noteq> RECEIPT_MAGIC then Inl BadMagic
      else
        let task_id = TaskId (from_le (slice bytes 4 16));
            job_id = JobId (from_le (slice bytes 20 16));
            tool_call_id = ToolCallId (from_le (slice bytes 36 16));
            event_seq = EventSeq (from_le (slice bytes 52 8));
            tool_name_hash = slice bytes 60 32;
            args_hash = slice bytes 92 32;
            result_hash = slice bytes 124 32;
            prev_receipt_hash = slice bytes 156 32;
            mac = slice bytes 188 32;
            artifact_count = unat (from_le (slice bytes 220 4) :: u32)
        in if artifact_count > MAX_RECEIPT_ARTIFACTS then Inl TooManyArtifacts
           else if length bytes \<noteq> 224 + artifact_count * 32 then Inl InvalidLength
           else Inr \<lparr>tr_task_id = task_id, tr_job_id = job_id, tr_tool_call_id = tool_call_id,
                     tr_tool_name_hash = tool_name_hash, tr_args_hash = args_hash,
                     tr_result_hash = result_hash,
                     tr_artifact_hashes = map (\<lambda>i. ArtifactId (slice bytes (224 + i * 32) 32))
                                            [0..<artifact_count],
                     tr_event_seq = event_seq, tr_prev_receipt_hash = prev_receipt_hash,
                     tr_mac = mac\<rparr>)"

definition result_matches :: "ToolReceipt \<Rightarrow> bytes \<Rightarrow> bool" where
  "result_matches r res = (sha256 res = tr_result_hash r)"

definition args_matches :: "ToolReceipt \<Rightarrow> bytes \<Rightarrow> bool" where
  "args_matches r args = (sha256 args = tr_args_hash r)"

section \<open>The chain\<close>

record ReceiptParams =
  rp_task_id :: TaskId
  rp_job_id :: JobId
  rp_tool_call_id :: ToolCallId
  rp_tool_name :: bytes
  rp_args :: bytes
  rp_result :: bytes
  rp_artifacts :: "ArtifactId list"
  rp_event_seq :: EventSeq

datatype ReceiptBreak = ChainMismatch | BadMac | EndTruncated

datatype ReceiptStatus = Intact (receipt_count: nat) | Broken (receipt_index: nat) ReceiptBreak

fun receipts_intact :: "ReceiptStatus \<Rightarrow> bool" where
  "receipts_intact (Intact _) = True"
| "receipts_intact (Broken _ _) = False"

definition receipt_body :: "ToolReceipt \<Rightarrow> bytes" where
  "receipt_body r =
     to_le 16 (task_no (tr_task_id r)) @ to_le 16 (job_no (tr_job_id r))
     @ to_le 16 (call_no (tr_tool_call_id r))
     @ tr_tool_name_hash r @ tr_args_hash r @ tr_result_hash r
     @ to_le 4 (of_nat (length (tr_artifact_hashes r)) :: u32)
     @ concat (map artifact_bytes (tr_artifact_hashes r))
     @ to_le 8 (seq_no (tr_event_seq r)) @ tr_prev_receipt_hash r"

definition receipt_chain_hash :: "ToolReceipt \<Rightarrow> bytes" where
  "receipt_chain_hash r = sha256 (receipt_body r)"

definition links_to :: "ToolReceipt \<Rightarrow> ToolReceipt \<Rightarrow> bool" where
  "links_to r prev = (tr_prev_receipt_hash r = receipt_chain_hash prev)"

record ReceiptChain =
  rc_key :: bytes
  rc_head :: bytes
  rc_count :: nat

definition ReceiptChain_new :: "bytes \<Rightarrow> ReceiptChain" where
  "ReceiptChain_new key = \<lparr>rc_key = key, rc_head = GENESIS_RECEIPT_HASH, rc_count = 0\<rparr>"

definition mint :: "ReceiptChain \<Rightarrow> ReceiptParams \<Rightarrow> ReceiptChain \<times> ToolReceipt" where
  "mint chain params =
     (let receipt =
            \<lparr>tr_task_id = rp_task_id params, tr_job_id = rp_job_id params,
             tr_tool_call_id = rp_tool_call_id params,
             tr_tool_name_hash = sha256 (rp_tool_name params),
             tr_args_hash = sha256 (rp_args params), tr_result_hash = sha256 (rp_result params),
             tr_artifact_hashes = take MAX_RECEIPT_ARTIFACTS (rp_artifacts params),
             tr_event_seq = rp_event_seq params, tr_prev_receipt_hash = rc_head chain,
             tr_mac = replicate 32 0\<rparr>;
          body = receipt_body receipt;
          receipt = receipt\<lparr>tr_mac := hmac_sha256 (rc_key chain) body\<rparr>
      in (chain\<lparr>rc_head := sha256 body, rc_count := rc_count chain + 1\<rparr>, receipt))"

fun receipt_walk_from ::
  "bytes \<Rightarrow> bytes \<Rightarrow> nat \<Rightarrow> ToolReceipt list \<Rightarrow> ReceiptStatus \<times> bytes" where
  "receipt_walk_from key expected_prev i [] = (Intact i, expected_prev)"
| "receipt_walk_from key expected_prev i (r # rs) =
     (if tr_prev_receipt_hash r \<noteq> expected_prev then (Broken i ChainMismatch, expected_prev)
      else let body = receipt_body r; mac = hmac_sha256 key body in
        if \<not> ct_eq mac (tr_mac r) then (Broken i BadMac, expected_prev)
        else receipt_walk_from key (sha256 body) (i + 1) rs)"

definition receipt_walk :: "ReceiptChain \<Rightarrow> ToolReceipt list \<Rightarrow> ReceiptStatus \<times> bytes" where
  "receipt_walk chain rs = receipt_walk_from (rc_key chain) GENESIS_RECEIPT_HASH 0 rs"

definition verify_receipts :: "ReceiptChain \<Rightarrow> ToolReceipt list \<Rightarrow> ReceiptStatus" where
  "verify_receipts chain rs = fst (receipt_walk chain rs)"

definition verify_complete :: "ReceiptChain \<Rightarrow> ToolReceipt list \<Rightarrow> ReceiptStatus" where
  "verify_complete chain rs =
     (let (status, final_head) = receipt_walk chain rs in
      case status of
        Broken _ _ \<Rightarrow> status
      | Intact count \<Rightarrow>
          if count \<noteq> rc_count chain \<or> final_head \<noteq> rc_head chain
          then Broken count EndTruncated else Intact count)"

section \<open>Joining receipts to the event log (join.rs)\<close>

record FrameRef =
  fr_seq :: EventSeq
  fr_tool_completed :: bool
  fr_task_id :: "TaskId option"
  fr_job_id :: "JobId option"

datatype JoinBreak = NoFrameAtSeq | NotAToolCompletion | TaskMismatch | JobMismatch

datatype JoinStatus = Joined nat | JoinBroken nat JoinBreak

text \<open>\<^verbatim>\<open>entry(seq).or_insert(frame)\<close>: the first frame with a sequence number wins.\<close>

definition by_seq :: "FrameRef list \<Rightarrow> u64 \<rightharpoonup> FrameRef" where
  "by_seq frames =
     foldl (\<lambda>m f. case m (seq_no (fr_seq f)) of
                    None \<Rightarrow> m(seq_no (fr_seq f) \<mapsto> f) | Some _ \<Rightarrow> m) Map.empty frames"

fun join_from :: "(u64 \<rightharpoonup> FrameRef) \<Rightarrow> nat \<Rightarrow> ToolReceipt list \<Rightarrow> JoinStatus" where
  "join_from m i [] = Joined i"
| "join_from m i (r # rs) =
     (case m (seq_no (tr_event_seq r)) of
        None \<Rightarrow> JoinBroken i NoFrameAtSeq
      | Some frame \<Rightarrow>
          if \<not> fr_tool_completed frame then JoinBroken i NotAToolCompletion
          else if fr_task_id frame \<noteq> Some (tr_task_id r) then JoinBroken i TaskMismatch
          else if fr_job_id frame \<noteq> Some (tr_job_id r) then JoinBroken i JobMismatch
          else join_from m (i + 1) rs)"

definition verify_against_log :: "ToolReceipt list \<Rightarrow> FrameRef list \<Rightarrow> JoinStatus" where
  "verify_against_log receipts frames = join_from (by_seq frames) 0 receipts"

end
