(* ===== verification/Receipts_Props.thy ===== *)
theory Receipts_Props
  imports Receipts
begin

text \<open>The receipts' properties: the binary form, the chain and its verifiers, the join.\<close>

section \<open>The binary form\<close>

definition receipt_wf :: "ToolReceipt \<Rightarrow> bool" where
  "receipt_wf r =
     (length (tr_tool_name_hash r) = 32 \<and> length (tr_args_hash r) = 32
      \<and> length (tr_result_hash r) = 32 \<and> length (tr_prev_receipt_hash r) = 32
      \<and> length (tr_mac r) = 32 \<and> length (tr_artifact_hashes r) \<le> MAX_RECEIPT_ARTIFACTS
      \<and> (\<forall>a\<in>set (tr_artifact_hashes r). length (artifact_bytes a) = 32))"

lemma slice_iff: "slice bytes off n = xs \<and> off + n \<le> length bytes \<longleftrightarrow> holds_at bytes off xs \<and> length xs = n"
  by (auto simp: slice_def holds_at_def)

lemma slice_holds: "holds_at bytes off xs \<Longrightarrow> slice bytes off (length xs) = xs"
  by (simp add: slice_def holds_at_def)

lemma holds_slice: "off + n \<le> length bytes \<Longrightarrow> holds_at bytes off (slice bytes off n)"
  by (simp add: slice_def holds_at_def)

lemma length_concat_artifacts:
  "\<forall>a\<in>set as. length (artifact_bytes a) = 32 \<Longrightarrow> length (concat (map artifact_bytes as)) = 32 * length as"
  by (induction as) simp_all

lemma slices_concat:
  assumes "holds_at bytes off (concat (map artifact_bytes as))"
    and "\<forall>a\<in>set as. length (artifact_bytes a) = 32"
  shows "map (\<lambda>i. ArtifactId (slice bytes (off + i * 32) 32)) [0..<length as] = as"
  using assms
proof (induction as arbitrary: off)
  case (Cons a as)
  then have h: "holds_at bytes off (artifact_bytes a)" "length (artifact_bytes a) = 32"
    "holds_at bytes (off + 32) (concat (map artifact_bytes as))" by auto
  have "map (\<lambda>i. ArtifactId (slice bytes (off + i * 32) 32)) [0..<length (a # as)] =
      ArtifactId (slice bytes off 32) #
      map (\<lambda>i. ArtifactId (slice bytes (off + 32 + i * 32) 32)) [0..<length as]"
    by (simp add: upt_conv_Cons map_Suc_upt [symmetric] comp_def add.assoc del: upt_Suc)
  also have "ArtifactId (slice bytes off 32) = a"
    using slice_holds [OF h(1)] h(2) by (cases a) simp
  finally show ?case using Cons.IH [OF h(3)] Cons.prems(2) by simp
qed simp


lemma receipt_roundtrip_lemma:
  assumes wf: "receipt_wf r"
  shows "receipt_from_bytes (receipt_to_bytes r) = Inr r"
proof -
  let ?b = "receipt_to_bytes r" and ?n = "length (tr_artifact_hashes r)"
  have n: "?n \<le> 256" using wf by (simp add: receipt_wf_def MAX_RECEIPT_ARTIFACTS_def)
  have l: "length (tr_tool_name_hash r) = 32" "length (tr_args_hash r) = 32"
    "length (tr_result_hash r) = 32" "length (tr_prev_receipt_hash r) = 32"
    "length (tr_mac r) = 32" "\<forall>a\<in>set (tr_artifact_hashes r). length (artifact_bytes a) = 32"
    using wf by (simp_all add: receipt_wf_def)
  have eq: "?b = RECEIPT_MAGIC @ to_le 16 (task_no (tr_task_id r)) @ to_le 16 (job_no (tr_job_id r))
      @ to_le 16 (call_no (tr_tool_call_id r)) @ to_le 8 (seq_no (tr_event_seq r))
      @ tr_tool_name_hash r @ tr_args_hash r @ tr_result_hash r @ tr_prev_receipt_hash r @ tr_mac r
      @ to_le 4 (of_nat ?n :: u32) @ concat (map artifact_bytes (tr_artifact_hashes r))"
    using n by (simp add: receipt_to_bytes_def MAX_RECEIPT_ARTIFACTS_def min_def)
  have m: "length RECEIPT_MAGIC = 4" by (simp add: RECEIPT_MAGIC_def)
  have len: "length ?b = 224 + ?n * 32"
    using length_concat_artifacts [OF l(6)] by (simp add: eq m l)
  have "holds_at ?b 0 ?b" by (simp add: holds_at_def)
  then have h: "holds_at ?b 0 RECEIPT_MAGIC" "holds_at ?b 4 (to_le 16 (task_no (tr_task_id r)))"
    "holds_at ?b 20 (to_le 16 (job_no (tr_job_id r)))"
    "holds_at ?b 36 (to_le 16 (call_no (tr_tool_call_id r)))"
    "holds_at ?b 52 (to_le 8 (seq_no (tr_event_seq r)))"
    "holds_at ?b 60 (tr_tool_name_hash r)" "holds_at ?b 92 (tr_args_hash r)"
    "holds_at ?b 124 (tr_result_hash r)" "holds_at ?b 156 (tr_prev_receipt_hash r)"
    "holds_at ?b 188 (tr_mac r)" "holds_at ?b 220 (to_le 4 (of_nat ?n :: u32))"
    "holds_at ?b 224 (concat (map artifact_bytes (tr_artifact_hashes r)))"
    by (subst (asm) (2) eq, simp add: m l)+
  note s = h [THEN slice_holds, unfolded length_to_le l m]
  have cnt: "unat (of_nat ?n :: u32) = ?n" using n by (simp add: unat_of_nat)
  have "take 4 ?b = RECEIPT_MAGIC" using s(1) by (simp add: slice_def)
  moreover have "TaskId (from_le (slice ?b 4 16)) = tr_task_id r"
    "JobId (from_le (slice ?b 20 16)) = tr_job_id r"
    "ToolCallId (from_le (slice ?b 36 16)) = tr_tool_call_id r"
    "EventSeq (from_le (slice ?b 52 8)) = tr_event_seq r"
    "unat (from_le (slice ?b 220 4) :: u32) = ?n"
    unfolding s(2-5,11) using cnt
    by (cases "tr_task_id r", simp, cases "tr_job_id r", simp, cases "tr_tool_call_id r", simp, simp_all)
  ultimately show ?thesis
    using n len slices_concat [OF h(12) l(6)]
    by (simp add: receipt_from_bytes_def Let_def s RECEIPT_FIXED_BYTES_def MAX_RECEIPT_ARTIFACTS_def)
qed

lemma length_slice: "off + k \<le> length b \<Longrightarrow> length (slice b off k) = k"
  by (simp add: slice_def)

lemma to_le_slice:
  "off + k \<le> length b \<Longrightarrow> 8 * k = LENGTH('a) \<Longrightarrow>
     to_le k (from_le (slice b off k) :: 'a::len word) = slice b off k"
  using to_le_from_le [of "slice b off k", where 'a = 'a] by (simp add: length_slice)

lemma artifacts_hold:
  assumes "length b = 224 + n * 32" "j \<le> n"
  shows "holds_at b (224 + j * 32) (concat (map (\<lambda>i. slice b (224 + i * 32) 32) [j..<n]))"
  using assms(2)
proof (induction j rule: inc_induct)
  case base
  then show ?case using assms(1) by simp
next
  case (step j)
  then show ?case
    using assms(1) by (subst upt_conv_Cons) (simp_all add: holds_slice length_slice ac_simps)
qed

lemma receipt_decode_sound:
  assumes "receipt_from_bytes b = Inr r"
  shows "receipt_wf r \<and> receipt_to_bytes r = b"
proof -
  define n where "n = unat (from_le (slice b 220 4) :: u32)"
  have fx: "224 \<le> length b" "take 4 b = RECEIPT_MAGIC" "n \<le> 256" "length b = 224 + n * 32"
    and r: "r = \<lparr>tr_task_id = TaskId (from_le (slice b 4 16)), tr_job_id = JobId (from_le (slice b 20 16)),
      tr_tool_call_id = ToolCallId (from_le (slice b 36 16)), tr_tool_name_hash = slice b 60 32,
      tr_args_hash = slice b 92 32, tr_result_hash = slice b 124 32,
      tr_artifact_hashes = map (\<lambda>i. ArtifactId (slice b (224 + i * 32) 32)) [0..<n],
      tr_event_seq = EventSeq (from_le (slice b 52 8)), tr_prev_receipt_hash = slice b 156 32,
      tr_mac = slice b 188 32\<rparr>"
    using assms
    by (auto simp: receipt_from_bytes_def Let_def n_def RECEIPT_FIXED_BYTES_def
        MAX_RECEIPT_ARTIFACTS_def split: if_splits)
  have wf: "receipt_wf r"
    using fx by (auto simp: receipt_wf_def r length_slice MAX_RECEIPT_ARTIFACTS_def)
  have cnt: "to_le 4 (of_nat n :: u32) = slice b 220 4"
    unfolding n_def using to_le_slice [of 220 4 b, where 'a = 32] fx by simp
  have m4: "length RECEIPT_MAGIC = 4" by (simp add: RECEIPT_MAGIC_def)
  then have mg: "holds_at b 0 RECEIPT_MAGIC" "length RECEIPT_MAGIC = 4"
    using fx by (simp_all add: holds_at_def)
  have h: "holds_at b 0 (receipt_to_bytes r)"
    using fx artifacts_hold [OF fx(4), of 0] mg
    by (simp add: receipt_to_bytes_def r Let_def MAX_RECEIPT_ARTIFACTS_def min_def to_le_slice cnt
        holds_slice length_slice comp_def)
  have "length (receipt_to_bytes r) = length b"
    using fx wf mg length_concat_artifacts [of "tr_artifact_hashes r"]
    by (simp add: receipt_to_bytes_def Let_def receipt_wf_def MAX_RECEIPT_ARTIFACTS_def min_def)
      (simp add: r)
  with h wf show ?thesis by (simp add: holds_at_def)
qed


section \<open>The chain\<close>

definition receipt_ok :: "bytes \<Rightarrow> ToolReceipt \<Rightarrow> bool" where
  "receipt_ok key r = (receipt_wf r \<and> tr_mac r = hmac_sha256 key (receipt_body r))"

lemma ids_inj [simp]:
  "task_no a = task_no b \<longleftrightarrow> a = b" "job_no c = job_no d \<longleftrightarrow> c = d" "call_no e = call_no f \<longleftrightarrow> e = f"
  "seq_no g = seq_no h \<longleftrightarrow> g = h"
  by ((cases a; cases b; simp), (cases c; cases d; simp), (cases e; cases f; simp), (cases g; cases h; simp))

lemma receipt_body_inj:
  assumes "receipt_wf r" "receipt_wf s" "receipt_body r = receipt_body s" "tr_mac r = tr_mac s"
  shows "r = s"
proof -
  have lr: "length (tr_tool_name_hash x) = 32 \<and> length (tr_args_hash x) = 32
      \<and> length (tr_result_hash x) = 32 \<and> length (tr_prev_receipt_hash x) = 32
      \<and> length (concat (map artifact_bytes (tr_artifact_hashes x))) = 32 * length (tr_artifact_hashes x)"
    if "x \<in> {r, s}" for x
    using that assms(1,2) length_concat_artifacts [of "tr_artifact_hashes x"]
    by (auto simp: receipt_wf_def)
  have n: "length (tr_artifact_hashes r) = length (tr_artifact_hashes s)"
    using arg_cong [OF assms(3), of length] lr [of r] lr [of s] by (simp add: receipt_body_def)
  have parts: "to_le 16 (task_no (tr_task_id r)) = to_le 16 (task_no (tr_task_id s))"
    "to_le 16 (job_no (tr_job_id r)) = to_le 16 (job_no (tr_job_id s))"
    "to_le 16 (call_no (tr_tool_call_id r)) = to_le 16 (call_no (tr_tool_call_id s))"
    "tr_tool_name_hash r = tr_tool_name_hash s" "tr_args_hash r = tr_args_hash s"
    "tr_result_hash r = tr_result_hash s"
    "concat (map artifact_bytes (tr_artifact_hashes r)) = concat (map artifact_bytes (tr_artifact_hashes s))"
    "to_le 8 (seq_no (tr_event_seq r)) = to_le 8 (seq_no (tr_event_seq s))"
    "tr_prev_receipt_hash r = tr_prev_receipt_hash s"
    using assms(3) lr [of r] lr [of s] n by (simp_all add: receipt_body_def)
  have ids: "tr_task_id r = tr_task_id s" "tr_job_id r = tr_job_id s"
    "tr_tool_call_id r = tr_tool_call_id s" "tr_event_seq r = tr_event_seq s"
    using parts(1-3,8) [THEN to_le_inj] by simp_all
  have "map artifact_bytes (tr_artifact_hashes r) = map artifact_bytes (tr_artifact_hashes s)"
    using parts(7) n assms(1,2)
    by (subst (asm) concat_eq_concat_iff) (auto simp: receipt_wf_def in_set_zip)
  then have "tr_artifact_hashes r = tr_artifact_hashes s"
    by (rule map_injective) (auto intro!: injI ArtifactId.expand)
  with ids parts assms(4) show ?thesis by (intro ToolReceipt.equality) simp_all
qed

interpretation receipt_chain: hash_chain "receipt_ok key" tr_prev_receipt_hash receipt_body sha256
  GENESIS_RECEIPT_HASH for key
  by unfold_locales (auto simp: receipt_ok_def intro: receipt_body_inj)


abbreviation receipts_chained :: "bytes \<Rightarrow> bytes \<Rightarrow> ToolReceipt list \<Rightarrow> bool" where
  "receipts_chained key \<equiv> chained (receipt_ok key) tr_prev_receipt_hash receipt_chain_hash"

abbreviation receipts_head :: "bytes \<Rightarrow> ToolReceipt list \<Rightarrow> bytes" where
  "receipts_head \<equiv> chain_head receipt_chain_hash"

lemma receipt_walk_iff:
  assumes "\<forall>r\<in>set rs. receipt_wf r"
  shows "receipt_walk_from key prev i rs = (Intact n, h) \<longleftrightarrow>
    receipts_chained key prev rs \<and> n = i + length rs \<and> h = receipts_head prev rs"
  using assms
proof (induction rs arbitrary: prev i)
  case (Cons r rs)
  have "ct_eq (hmac_sha256 key (receipt_body r)) (tr_mac r) \<longleftrightarrow> hmac_sha256 key (receipt_body r) = tr_mac r"
    using Cons.prems by (intro ct_eq_iff) (simp_all add: receipt_wf_def)
  with Cons show ?case
    by (auto simp: Let_def receipt_ok_def receipt_chain_hash_def)
qed auto

lemma verify_complete_iff:
  assumes "\<forall>r\<in>set rs. receipt_wf r"
  shows "verify_complete chain rs = Intact n \<longleftrightarrow>
    receipts_chained (rc_key chain) GENESIS_RECEIPT_HASH rs \<and> n = length rs
    \<and> rc_count chain = length rs \<and> rc_head chain = receipts_head GENESIS_RECEIPT_HASH rs"
proof -
  have "verify_complete chain rs = Intact n \<longleftrightarrow>
      receipt_walk_from (rc_key chain) GENESIS_RECEIPT_HASH 0 rs = (Intact n, rc_head chain)
      \<and> n = rc_count chain"
    by (auto simp: verify_complete_def receipt_walk_def Let_def split: prod.splits ReceiptStatus.splits)
  then show ?thesis using receipt_walk_iff [OF assms] by auto
qed

text \<open>Minting a sequence of receipts.\<close>

fun mint_all :: "ReceiptChain \<Rightarrow> ReceiptParams list \<Rightarrow> ReceiptChain \<times> ToolReceipt list" where
  "mint_all chain [] = (chain, [])"
| "mint_all chain (p # ps) =
     (let (c1, r) = mint chain p; (c2, rs) = mint_all c1 ps in (c2, r # rs))"

definition params_ok :: "ReceiptParams \<Rightarrow> bool" where
  "params_ok p = (\<forall>a\<in>set (rp_artifacts p). length (artifact_bytes a) = 32)"

lemma mint_receipt:
  assumes "params_ok p" "length (rc_head chain) = 32" "mint chain p = (chain', r)"
  shows "receipt_ok (rc_key chain) r" "tr_prev_receipt_hash r = rc_head chain"
    "rc_head chain' = receipt_chain_hash r" "rc_count chain' = rc_count chain + 1"
    "rc_key chain' = rc_key chain" "result_matches r (rp_result p)" "args_matches r (rp_args p)"
    "tr_event_seq r = rp_event_seq p" "tr_tool_call_id r = rp_tool_call_id p"
proof -
  have arts: "\<forall>a\<in>set (take MAX_RECEIPT_ARTIFACTS (rp_artifacts p)). length (artifact_bytes a) = 32"
    using assms(1) by (auto simp: params_ok_def dest: in_set_takeD)
  show "receipt_ok (rc_key chain) r" "tr_prev_receipt_hash r = rc_head chain"
    "rc_head chain' = receipt_chain_hash r" "rc_count chain' = rc_count chain + 1"
    "rc_key chain' = rc_key chain" "result_matches r (rp_result p)" "args_matches r (rp_args p)"
    "tr_event_seq r = rp_event_seq p" "tr_tool_call_id r = rp_tool_call_id p"
    using assms(2,3) arts
    by (auto simp: mint_def Let_def receipt_ok_def receipt_wf_def receipt_chain_hash_def
        result_matches_def args_matches_def receipt_body_def)
qed

lemma mint_all_chained:
  assumes "\<forall>p\<in>set ps. params_ok p" "length (rc_head chain) = 32" "mint_all chain ps = (chain', rs)"
  shows "receipts_chained (rc_key chain) (rc_head chain) rs \<and> rc_head chain' = receipts_head (rc_head chain) rs
    \<and> rc_count chain' = rc_count chain + length rs \<and> rc_key chain' = rc_key chain
    \<and> length rs = length ps
    \<and> list_all2 (\<lambda>p r. result_matches r (rp_result p) \<and> args_matches r (rp_args p)
         \<and> tr_event_seq r = rp_event_seq p) ps rs"
  using assms
proof (induction ps arbitrary: chain rs)
  case (Cons p ps)
  obtain c1 r where m: "mint chain p = (c1, r)" by fastforce
  then obtain rs' where rs: "mint_all c1 ps = (chain', rs')" "rs = r # rs'"
    using Cons.prems(3) by (auto split: prod.splits)
  note r = mint_receipt [OF _ Cons.prems(2) m]
  have h: "length (rc_head c1) = 32"
    using r(3) Cons.prems(1) by (simp add: receipt_chain_hash_def)
  from Cons.IH [OF _ h rs(1)] Cons.prems(1) r show ?case by (simp add: rs(2))
qed simp

lemma chained_wf: "receipts_chained key h rs \<Longrightarrow> r \<in> set rs \<Longrightarrow> receipt_wf r"
  using chained_ok by (fastforce simp: receipt_ok_def)


section \<open>Properties\<close>

text \<open>
  The receipt codec is exact: a byte string decodes to a receipt if and only if the receipt has
  hashes of thirty-two bytes and at most 256 artifacts and the string is its encoding. So every
  storable receipt survives the round trip, nothing else is accepted, and a record cannot be
  padded, cut or re-encoded.
\<close>

theorem receipt_codec_exact:
  "receipt_from_bytes b = Inr r \<longleftrightarrow> receipt_wf r \<and> receipt_to_bytes r = b"
  using receipt_decode_sound receipt_roundtrip_lemma by blast

text \<open>
  What was minted verifies: a fresh chain that mints a sequence of receipts accepts exactly
  that sequence as complete, and each receipt answers for the result, the arguments and the event
  sequence number of its own call.
\<close>

theorem minted_chain_verifies:
  assumes "\<forall>p\<in>set ps. params_ok p" and "mint_all (ReceiptChain_new key) ps = (chain, rs)"
  shows "verify_complete chain rs = Intact (length ps) \<and> verify_receipts chain rs = Intact (length ps)
    \<and> list_all2 (\<lambda>p r. result_matches r (rp_result p) \<and> args_matches r (rp_args p)
         \<and> tr_event_seq r = rp_event_seq p) ps rs"
proof -
  have g: "length (rc_head (ReceiptChain_new key)) = 32" "rc_head (ReceiptChain_new key) = GENESIS_RECEIPT_HASH"
    by (simp_all add: ReceiptChain_new_def GENESIS_RECEIPT_HASH_def)
  note m = mint_all_chained [OF assms(1) g(1) assms(2)]
  then have wf: "\<forall>r\<in>set rs. receipt_wf r" using chained_wf by blast
  from m g show ?thesis
    using verify_complete_iff [OF wf, of chain "length ps"]
      receipt_walk_iff [OF wf, of "rc_key chain" GENESIS_RECEIPT_HASH 0 "length ps" "rc_head chain"]
    by (auto simp: ReceiptChain_new_def verify_receipts_def receipt_walk_def)
qed

definition demo_params :: ReceiptParams where
  "demo_params =
     \<lparr>rp_task_id = TaskId 7, rp_job_id = JobId 3, rp_tool_call_id = ToolCallId 9,
      rp_tool_name = [1], rp_args = [2], rp_result = [3], rp_artifacts = [], rp_event_seq = EventSeq 5\<rparr>"

theorem minted_chain_verifies_witness:
  "verify_complete (fst (mint_all (ReceiptChain_new (replicate 32 7)) [demo_params]))
     (snd (mint_all (ReceiptChain_new (replicate 32 7)) [demo_params])) = Intact 1"
  using minted_chain_verifies [OF _ prod.collapse [symmetric], of "[demo_params]" "replicate 32 7"]
  by (simp add: params_ok_def demo_params_def)

text \<open>
  C5. The minted chain is the only one: any list of well-formed receipts that the chain accepts as
  complete is the list it minted, unless two different receipt bodies among them have the same
  SHA-256 digest or one hashes to the genesis value. Altering, reordering, inserting or dropping
  receipts is therefore noticed, or exhibits such a collision.
\<close>

theorem complete_chain_unique:
  assumes "\<forall>p\<in>set ps. params_ok p" and "mint_all (ReceiptChain_new key) ps = (chain, rs)"
    and "\<forall>r\<in>set rs'. receipt_wf r" and "verify_complete chain rs' = Intact n"
  shows "rs' = rs
    \<or> (\<exists>x\<in>set rs'. \<exists>y\<in>set rs. receipt_body x \<noteq> receipt_body y
         \<and> sha256 (receipt_body x) = sha256 (receipt_body y))
    \<or> (\<exists>x\<in>set rs' \<union> set rs. sha256 (receipt_body x) = GENESIS_RECEIPT_HASH)"
proof -
  have g: "length (rc_head (ReceiptChain_new key)) = 32" "rc_head (ReceiptChain_new key) = GENESIS_RECEIPT_HASH"
    "rc_key (ReceiptChain_new key) = key"
    by (simp_all add: ReceiptChain_new_def GENESIS_RECEIPT_HASH_def)
  note m = mint_all_chained [OF assms(1) g(1) assms(2), unfolded g(2,3)]
  note v = verify_complete_iff [OF assms(3), THEN iffD1, OF assms(4)]
  have ch: "receipt_chain_hash = (\<lambda>x. sha256 (receipt_body x))" by (simp add: fun_eq_iff receipt_chain_hash_def)
  from m v show ?thesis
    unfolding ch by (intro receipt_chain.chain_unique [of key]) simp_all
qed

theorem complete_chain_unique_witness:
  "let rs = snd (mint_all (ReceiptChain_new (replicate 32 7)) [demo_params])
   in rs = rs
    \<or> (\<exists>x\<in>set rs. \<exists>y\<in>set rs. receipt_body x \<noteq> receipt_body y
         \<and> sha256 (receipt_body x) = sha256 (receipt_body y))
    \<or> (\<exists>x\<in>set rs \<union> set rs. sha256 (receipt_body x) = GENESIS_RECEIPT_HASH)"
proof -
  let ?c = "mint_all (ReceiptChain_new (replicate 32 7)) [demo_params]"
  have ps: "\<forall>p\<in>set [demo_params]. params_ok p" by (simp add: params_ok_def demo_params_def)
  have h: "length (rc_head (ReceiptChain_new (replicate 32 7))) = 32"
    by (simp add: ReceiptChain_new_def GENESIS_RECEIPT_HASH_def)
  have g: "rc_head (ReceiptChain_new (replicate 32 7)) = GENESIS_RECEIPT_HASH"
    "rc_key (ReceiptChain_new (replicate 32 7)) = replicate 32 7" "rc_count (ReceiptChain_new (replicate 32 7)) = 0"
    by (simp_all add: ReceiptChain_new_def)
  note m = mint_all_chained [OF ps h prod.collapse [symmetric], unfolded g]
  then have wf: "\<forall>r\<in>set (snd ?c). receipt_wf r" using chained_wf by blast
  have "verify_complete (fst ?c) (snd ?c) = Intact 1"
    using m verify_complete_iff [OF wf, of "fst ?c" 1] by simp
  from complete_chain_unique [OF ps prod.collapse [symmetric] wf this] show ?thesis
    by (simp add: Let_def)
qed


text \<open>
  Dropping trailing receipts is invisible to the prefix check and caught by the complete one:
  every proper prefix of a minted chain still verifies as a prefix, and the complete check reports
  it as truncated at its end.
\<close>

theorem truncation_detected:
  assumes "\<forall>p\<in>set ps. params_ok p" and "mint_all (ReceiptChain_new key) ps = (chain, rs)"
    and "n < length rs"
  shows "verify_receipts chain (take n rs) = Intact n
    \<and> verify_complete chain (take n rs) = Broken n EndTruncated"
proof -
  have g: "length (rc_head (ReceiptChain_new key)) = 32" "rc_head (ReceiptChain_new key) = GENESIS_RECEIPT_HASH"
    "rc_key (ReceiptChain_new key) = key" "rc_count (ReceiptChain_new key) = 0"
    by (simp_all add: ReceiptChain_new_def GENESIS_RECEIPT_HASH_def)
  note m = mint_all_chained [OF assms(1) g(1) assms(2), unfolded g(2-4)]
  then have "receipts_chained key GENESIS_RECEIPT_HASH (take n rs @ drop n rs)" by simp
  then have c: "receipts_chained key GENESIS_RECEIPT_HASH (take n rs)" by (simp only: chained_append)
  then have wf: "\<forall>r\<in>set (take n rs). receipt_wf r" using chained_wf by blast
  have "receipt_walk_from key GENESIS_RECEIPT_HASH 0 (take n rs)
      = (Intact n, receipts_head GENESIS_RECEIPT_HASH (take n rs))"
    using receipt_walk_iff [OF wf] c assms(3) by simp
  with m assms(3) show ?thesis
    by (auto simp: verify_receipts_def verify_complete_def receipt_walk_def Let_def)
qed

theorem truncation_detected_witness:
  "verify_complete (fst (mint_all (ReceiptChain_new (replicate 32 7)) [demo_params, demo_params]))
     (take 1 (snd (mint_all (ReceiptChain_new (replicate 32 7)) [demo_params, demo_params])))
   = Broken 1 EndTruncated"
proof -
  have ps: "\<forall>p\<in>set [demo_params, demo_params]. params_ok p" by (simp add: params_ok_def demo_params_def)
  have h: "length (rc_head (ReceiptChain_new (replicate 32 7))) = 32"
    by (simp add: ReceiptChain_new_def GENESIS_RECEIPT_HASH_def)
  have "length (snd (mint_all (ReceiptChain_new (replicate 32 7)) [demo_params, demo_params])) = 2"
    using mint_all_chained [OF ps h prod.collapse [symmetric]] by simp
  then show ?thesis
    using truncation_detected [OF ps prod.collapse [symmetric], of 1] by simp
qed

lemma by_seq_find: "by_seq frames s = find (\<lambda>f. seq_no (fr_seq f) = s) frames"
proof -
  have "foldl (\<lambda>m f. case m (seq_no (fr_seq f)) of
        None \<Rightarrow> m(seq_no (fr_seq f) \<mapsto> f) | Some _ \<Rightarrow> m) m0 frames s =
      (case m0 s of Some f \<Rightarrow> Some f | None \<Rightarrow> find (\<lambda>f. seq_no (fr_seq f) = s) frames)" for m0
    by (induction frames arbitrary: m0) (auto split: option.splits)
  from this [of Map.empty] show ?thesis by (simp add: by_seq_def)
qed

definition backed :: "FrameRef list \<Rightarrow> ToolReceipt \<Rightarrow> bool" where
  "backed frames r =
     (\<exists>f. find (\<lambda>f. fr_seq f = tr_event_seq r) frames = Some f \<and> fr_tool_completed f
         \<and> fr_task_id f = Some (tr_task_id r) \<and> fr_job_id f = Some (tr_job_id r))"

lemma joined_count: "join_from m i rs = Joined n \<Longrightarrow> n = i + length rs"
proof (induction rs arbitrary: i)
  case (Cons r rs)
  from Cons.prems Cons.IH [of "i + 1"] show ?case by (auto split: option.splits if_splits)
qed simp

lemma joined_backed: "(\<exists>n. verify_against_log rs refs = Joined n) \<longleftrightarrow> list_all (backed refs) rs"
proof -
  have bk: "by_seq refs (seq_no (tr_event_seq r)) = find (\<lambda>f. fr_seq f = tr_event_seq r) refs" for r
    by (simp add: by_seq_find)
  have "(\<exists>n. join_from (by_seq refs) i rs = Joined n) \<longleftrightarrow> list_all (backed refs) rs" for i
    by (induction rs arbitrary: i) (auto simp: bk backed_def split: option.splits)
  then show ?thesis by (simp add: verify_against_log_def)
qed

text \<open>
  C14. The join check decides whether every receipt is backed by the log: it answers joined exactly
  when for each receipt the first log frame with the receipt's sequence number is a completed tool
  call of the same task and the same job.
\<close>

theorem join_iff_backed:
  "verify_against_log rs frames = Joined (length rs) \<longleftrightarrow> list_all (backed frames) rs"
  using joined_backed [of rs frames] joined_count [of "by_seq frames" 0 rs] by (auto simp: verify_against_log_def)

theorem join_iff_backed_witness:
  "list_all
     (backed [\<lparr>fr_seq = EventSeq 5, fr_tool_completed = True, fr_task_id = Some (TaskId 7),
               fr_job_id = Some (JobId 3)\<rparr>])
     (snd (mint_all (ReceiptChain_new (replicate 32 7)) [demo_params]))"
proof -
  have "verify_against_log (snd (mint_all (ReceiptChain_new (replicate 32 7)) [demo_params]))
      [\<lparr>fr_seq = EventSeq 5, fr_tool_completed = True, fr_task_id = Some (TaskId 7),
        fr_job_id = Some (JobId 3)\<rparr>] = Joined 1"
    by (simp add: mint_def demo_params_def Let_def verify_against_log_def by_seq_def)
  then show ?thesis
    by (subst join_iff_backed [symmetric]) (simp add: Let_def split: prod.splits)
qed

end
