(* ===== verification/Confine_Props.thy ===== *)
theory Confine_Props
  imports Confine
begin

text \<open>The resolver's properties: lexical normalization and confinement under the real root.\<close>

section \<open>Normalization\<close>

definition is_normal :: "Component \<Rightarrow> bool" where
  "is_normal c = (case c of Normal _ \<Rightarrow> True | _ \<Rightarrow> False)"

definition ups :: "path \<Rightarrow> nat" where
  "ups cs = length (filter (\<lambda>c. c = ParentDir) cs)"

definition downs :: "path \<Rightarrow> nat" where
  "downs cs = length (filter is_normal cs)"

lemma counts [simp]:
  "ups [] = 0" "downs [] = 0"
  "ups (ParentDir # cs) = Suc (ups cs)" "downs (ParentDir # cs) = downs cs"
  "ups (CurDir # cs) = ups cs" "downs (CurDir # cs) = downs cs"
  "ups (Normal s # cs) = ups cs" "downs (Normal s # cs) = Suc (downs cs)"
  by (simp_all add: ups_def downs_def is_normal_def)

lemma all_prefixes_Cons: "(\<forall>k. P (take k (c # cs))) \<longleftrightarrow> P [] \<and> (\<forall>k. P (c # take k cs))"
proof
  assume p: "\<forall>k. P (take k (c # cs))"
  have "P (c # take k cs)" for k using p [rule_format, of "Suc k"] by simp
  with p [rule_format, of 0] show "P [] \<and> (\<forall>k. P (c # take k cs))" by simp
next
  assume p: "P [] \<and> (\<forall>k. P (c # take k cs))"
  show "\<forall>k. P (take k (c # cs))"
  proof
    fix k show "P (take k (c # cs))" using p by (cases k) simp_all
  qed
qed

lemma normalize_loop_iff:
  "(\<exists>r. normalize_loop cs out = Inr r) \<longleftrightarrow>
     RootDir \<notin> set cs \<and> (\<forall>k. ups (take k cs) \<le> length out + downs (take k cs))"
proof (induction cs out rule: normalize_loop.induct)
  case (4 cs out)
  have "(\<forall>k. ups (take k (ParentDir # cs)) \<le> length out + downs (take k (ParentDir # cs))) \<longleftrightarrow>
      (\<forall>k. Suc (ups (take k cs)) \<le> length out + downs (take k cs))"
    using all_prefixes_Cons [of "\<lambda>p. ups p \<le> length out + downs p" ParentDir cs] by simp
  moreover have "(\<forall>k. Suc (ups (take k cs)) \<le> downs (take k cs)) \<longleftrightarrow> False"
    by (auto intro!: exI [of _ 0])
  ultimately show ?case
    using 4 by (cases out rule: rev_cases) auto
next
  case (5 s cs out)
  have "(\<forall>k. ups (take k (Normal s # cs)) \<le> length out + downs (take k (Normal s # cs))) \<longleftrightarrow>
      (\<forall>k. ups (take k cs) \<le> Suc (length out + downs (take k cs)))"
    using all_prefixes_Cons [of "\<lambda>p. ups p \<le> length out + downs p" "Normal s" cs] by simp
  with 5 show ?case by simp
next
  case (3 cs out)
  have "(\<forall>k. ups (take k (CurDir # cs)) \<le> length out + downs (take k (CurDir # cs))) \<longleftrightarrow>
      (\<forall>k. ups (take k cs) \<le> length out + downs (take k cs))"
    using all_prefixes_Cons [of "\<lambda>p. ups p \<le> length out + downs p" CurDir cs] by simp
  with 3 show ?case by simp
qed auto

lemma normalize_loop_result:
  "normalize_loop cs out = Inr r \<Longrightarrow>
     length r + ups cs = length out + downs cs \<and> set r \<subseteq> set out \<union> {s. Normal s \<in> set cs}"
proof (induction cs out arbitrary: r rule: normalize_loop.induct)
  case (4 cs out)
  then show ?case by (cases out rule: rev_cases) (auto split: if_splits)
next
  case (5 s cs out)
  then show ?case by fastforce
qed auto

text \<open>Pieces of a split never hold the separator.\<close>

lemma split_on_pieces: "p \<in> set (split_on sep s) \<Longrightarrow> sep \<notin> set p \<and> set p \<subseteq> set s"
proof (induction s arbitrary: p)
  case (Cons c cs)
  then show ?case
    by (cases "split_on sep cs") (fastforce split: if_splits)+
qed simp

lemma split_on_not_Nil: "split_on sep s \<noteq> []"
  by (induction s) (auto split: list.splits)

definition plain_name :: "string \<Rightarrow> bool" where
  "plain_name s = (s \<noteq> [] \<and> s \<noteq> ''.'' \<and> s \<noteq> ''..'' \<and> CHR ''/'' \<notin> set s \<and> CHR 0x00 \<notin> set s)"

lemma body_components_plain:
  "Normal s \<in> set (body_components ps) \<Longrightarrow> s \<in> set ps \<and> s \<noteq> [] \<and> s \<noteq> ''.'' \<and> s \<noteq> ''..''"
  by (auto simp: body_components_def piece_component_def split: if_splits)

lemma components_plain:
  assumes "Normal s \<in> set (components rel)" "CHR 0x00 \<notin> set rel"
  shows "plain_name s"
proof -
  obtain p ps where sp: "split_on (CHR ''/'') rel = p # ps"
    using split_on_not_Nil [of "CHR ''/''" rel] by (cases "split_on (CHR ''/'') rel") auto
  have "s \<in> set (split_on (CHR ''/'') rel) \<and> s \<noteq> [] \<and> s \<noteq> ''.'' \<and> s \<noteq> ''..''"
    using assms(1) body_components_plain [of s ps] body_components_plain [of s "p # ps"]
    by (auto simp: components_def sp split: if_splits)
  with split_on_pieces [of s "CHR ''/''" rel] assms(2) show ?thesis
    by (auto simp: plain_name_def)
qed


section \<open>Properties\<close>

text \<open>
  Lexical normalization is exact: it succeeds precisely on paths without a NUL byte that are
  relative and in which no prefix climbs above its start, and the result consists of plain names
  only: no separator, no NUL, no empty name, no dot and no dot-dot component.
\<close>

theorem normalize_exact:
  "((\<exists>p. normalize_relative rel = Inr p) \<longleftrightarrow>
      CHR 0x00 \<notin> set rel \<and> RootDir \<notin> set (components rel)
      \<and> (\<forall>k. ups (take k (components rel)) \<le> downs (take k (components rel))))
   \<and> (\<forall>p. normalize_relative rel = Inr p \<longrightarrow> (\<forall>c\<in>set p. \<exists>s. c = Normal s \<and> plain_name s))"
proof
  show "(\<exists>p. normalize_relative rel = Inr p) \<longleftrightarrow>
      CHR 0x00 \<notin> set rel \<and> RootDir \<notin> set (components rel)
      \<and> (\<forall>k. ups (take k (components rel)) \<le> downs (take k (components rel)))"
    using normalize_loop_iff [of "components rel" "[]"]
    by (auto simp: normalize_relative_def split: sum.splits)
  show "\<forall>p. normalize_relative rel = Inr p \<longrightarrow> (\<forall>c\<in>set p. \<exists>s. c = Normal s \<and> plain_name s)"
  proof (intro allI impI ballI)
    fix p c assume n: "normalize_relative rel = Inr p" and c: "c \<in> set p"
    then obtain out where out: "normalize_loop (components rel) [] = Inr out" "p = map Normal out"
      "CHR 0x00 \<notin> set rel"
      by (auto simp: normalize_relative_def split: if_splits sum.splits)
    with c obtain s where s: "c = Normal s" "s \<in> set out" by auto
    with normalize_loop_result [OF out(1)] have "Normal s \<in> set (components rel)" by auto
    with components_plain out(3) s(1) show "\<exists>s. c = Normal s \<and> plain_name s" by blast
  qed
qed

theorem normalize_exact_witness:
  "normalize_relative ''a/./b/../c'' = Inr [Normal ''a'', Normal ''c''] \<and> plain_name ''c''"
proof
  show n: "normalize_relative ''a/./b/../c'' = Inr [Normal ''a'', Normal ''c'']" by code_simp
  then show "plain_name ''c''"
    using normalize_exact [of "''a/./b/../c''"] by auto
qed

text \<open>The ancestor walk stops at the first path, going up, that canonicalizes.\<close>

lemma deepest_existing_sound:
  "deepest_existing_canonical f p = Inr c \<Longrightarrow>
     (\<exists>q. prefix q p \<and> canonicalize f q = Inr c
        \<and> (\<forall>r. prefix q r \<and> prefix r p \<and> r \<noteq> q \<longrightarrow> (\<exists>m. canonicalize f r = Inl (NotFound m))))"
proof (induction f p rule: deepest_existing_canonical.induct)
  case (1 f p)
  show ?case
  proof (cases "canonicalize f p")
    case (Inr c')
    with 1(2) have "c' = c" by (subst (asm) deepest_existing_canonical.simps) simp
    with Inr show ?thesis
      by (intro exI [of _ p]) (auto intro: prefix_order.antisym)
  next
    case (Inl e)
    with 1(2) obtain m q where m: "e = NotFound m" and q: "parent p = Some q" "q \<noteq> []"
      and d: "deepest_existing_canonical f q = Inr c"
      by (subst (asm) deepest_existing_canonical.simps)
        (auto split: IoError.splits option.splits if_splits)
    from 1(1) [OF Inl m q d] obtain q' where q': "prefix q' q" "canonicalize f q' = Inr c"
      "\<forall>r. prefix q' r \<and> prefix r q \<and> r \<noteq> q' \<longrightarrow> (\<exists>m. canonicalize f r = Inl (NotFound m))"
      by blast
    have p: "p \<noteq> []" "q = butlast p" using q(1) by (auto simp: parent_def split: if_splits)
    then have "prefix q p" by (metis append_butlast_last_id prefixI)
    moreover have "r = p \<or> prefix r q" if "prefix r p" for r
      using that p by (metis append_butlast_last_id prefix_snoc)
    ultimately show ?thesis
      using q' Inl m by (intro exI [of _ q']) (auto intro: prefix_order.trans)
  qed
qed

text \<open>
  A confined read path stays inside: the relative part has only plain names, so the path lies
  under the root; its deepest existing ancestor resolves, symbolic links followed, to a place under
  the canonical root; and if the path itself exists, so does the place it resolves to.
\<close>

theorem confine_read_inside:
  assumes "confine_read f r rel = Inr c"
  shows "\<exists>root. canonicalize f (as_path r) = Inr root \<and> crp_root c = r
    \<and> (\<forall>x\<in>set (crp_relative c). \<exists>s. x = Normal s \<and> plain_name s)
    \<and> (\<exists>q real. prefix q (root @ crp_relative c) \<and> canonicalize f q = Inr real
          \<and> starts_with real root)
    \<and> (\<forall>real. canonicalize f (root @ crp_relative c) = Inr real \<longrightarrow> starts_with real root)"
proof -
  obtain relp root where n: "normalize_relative rel = Inr relp" and root: "canonical f r = Inr root"
    and u: "assert_under_root f root (root @ relp) = Inr ()"
    and c: "c = \<lparr>crp_root = r, crp_relative = relp\<rparr>"
    using assms by (auto simp: confine_read_def and_then_Inr_iff Let_def)
  from u obtain real where d: "deepest_existing_canonical f (root @ relp) = Inr real"
    and sw: "starts_with real root"
    by (auto simp: assert_under_root_def and_then_Inr_iff split: if_splits)
  have plain: "\<forall>x\<in>set relp. \<exists>s. x = Normal s \<and> plain_name s"
    using n normalize_loop_result components_plain
    by (fastforce simp: normalize_relative_def split: if_splits sum.splits)
  from deepest_existing_sound [OF d] obtain q where q: "prefix q (root @ relp)" "canonicalize f q = Inr real"
    by blast
  have "canonicalize f (root @ relp) = Inr x \<Longrightarrow> x = real" for x
    using d by (subst (asm) deepest_existing_canonical.simps) simp
  with plain q sw root c show ?thesis
    by (auto simp: canonical_def split: sum.splits)
qed


text \<open>
  A file system for the witnesses: everything resolves to itself except \<^verbatim>\<open>/w/out\<close>, a symbolic
  link to \<^verbatim>\<open>/etc\<close>, and names under \<^verbatim>\<open>/w/new\<close>, which do not exist.
\<close>

definition demo_root :: path where
  "demo_root = [RootDir, Normal ''w'']"

definition demo_fs :: fs where
  "demo_fs =
     \<lparr>canonicalize = (\<lambda>p. if p = demo_root @ [Normal ''out''] then Inr [RootDir, Normal ''etc'']
                          else if prefix (demo_root @ [Normal ''new'']) p then Inl (NotFound ''none'')
                          else Inr p),
      is_symlink = (\<lambda>p. p = demo_root @ [Normal ''out'']),
      is_dir = (\<lambda>p. True)\<rparr>"

theorem confine_read_inside_witness:
  "confine_read demo_fs (WorktreeRoot demo_root) ''out'' = Inl SymlinkEscape
   \<and> (\<exists>root. canonicalize demo_fs demo_root = Inr root
        \<and> (\<exists>q real. prefix q (root @ [Normal ''new'', Normal ''x'']) \<and> canonicalize demo_fs q = Inr real
              \<and> starts_with real root))"
proof
  show "confine_read demo_fs (WorktreeRoot demo_root) ''out'' = Inl SymlinkEscape" by code_simp
  have "confine_read demo_fs (WorktreeRoot demo_root) ''new/x''
      = Inr \<lparr>crp_root = WorktreeRoot demo_root, crp_relative = [Normal ''new'', Normal ''x'']\<rparr>" by code_simp
  from confine_read_inside [OF this]
  show "\<exists>root. canonicalize demo_fs demo_root = Inr root
        \<and> (\<exists>q real. prefix q (root @ [Normal ''new'', Normal ''x'']) \<and> canonicalize demo_fs q = Inr real
              \<and> starts_with real root)" by auto
qed

text \<open>
  What resolving a path (\<^verbatim>\<open>std::fs::canonicalize\<close>) means for its last component: if a name in a directory
  resolves and is not a symbolic link, its directory resolves too, and the name resolves to an
  entry directly inside it. (The empty path, which does not resolve, is no directory here.)
\<close>

definition leaf_law :: "fs \<Rightarrow> bool" where
  "leaf_law f =
     (\<forall>p s c. p \<noteq> [] \<and> canonicalize f (p @ [Normal s]) = Inr c \<and> \<not> is_symlink f (p @ [Normal s]) \<longrightarrow>
        (\<exists>d x. canonicalize f p = Inr d \<and> c = d @ [x]))"

text \<open>
  C6. A confined write path stays inside and is not written through a link. On a file system where a name
  that is no symbolic link resolves to an entry of what its directory resolves to, the path names
  something strictly below the root by plain names only, its last component is no symbolic link, the
  deepest existing ancestor of its directory (nothing further down exists) resolves under
  the canonical root, and if the target exists it resolves under the canonical root too.
\<close>

theorem confine_write_inside:
  assumes "confine_write f r rel = Inr c" and "leaf_law f"
  shows "\<exists>root. canonicalize f (as_path r) = Inr root \<and> cwp_root c = r \<and> cwp_relative c \<noteq> []
    \<and> (\<forall>x\<in>set (cwp_relative c). \<exists>s. x = Normal s \<and> plain_name s)
    \<and> \<not> is_symlink f (root @ cwp_relative c)
    \<and> (\<exists>q real. prefix q (root @ butlast (cwp_relative c)) \<and> canonicalize f q = Inr real \<and> starts_with real root
          \<and> (\<forall>q'. prefix q q' \<and> prefix q' (root @ butlast (cwp_relative c)) \<and> q' \<noteq> q \<longrightarrow>
                (\<exists>m. canonicalize f q' = Inl (NotFound m))))
    \<and> (\<forall>real. canonicalize f (root @ cwp_relative c) = Inr real \<longrightarrow> starts_with real root)"
proof -
  obtain relp root par where n: "normalize_relative rel = Inr relp" "relp \<noteq> []"
    and root: "canonical f r = Inr root" and ns: "\<not> is_symlink f (root @ relp)"
    and par: "parent (root @ relp) = Some par" and u: "assert_under_root f root par = Inr ()"
    and c: "c = \<lparr>cwp_root = r, cwp_relative = relp\<rparr>"
    using assms(1) by (auto simp: confine_write_def and_then_Inr_iff Let_def split: if_splits)
  from u obtain real where d: "deepest_existing_canonical f par = Inr real" and sw: "starts_with real root"
    by (auto simp: assert_under_root_def and_then_Inr_iff split: if_splits)
  have plain: "\<forall>x\<in>set relp. \<exists>s. x = Normal s \<and> plain_name s"
    using n(1) normalize_loop_result components_plain
    by (fastforce simp: normalize_relative_def split: if_splits sum.splits)
  have par': "par = root @ butlast relp"
    using par n(2) by (auto simp: parent_def butlast_append split: if_splits)
  have dir: "canonicalize f par = Inr x \<Longrightarrow> x = real" for x
    using d by (subst (asm) deepest_existing_canonical.simps) simp
  obtain s where s: "relp = butlast relp @ [Normal s]"
    using plain n(2) by (metis append_butlast_last_id last_in_set)
  have target: "starts_with t root" if "canonicalize f (root @ relp) = Inr t" for t
  proof (cases "par = []")
    case True
    then show ?thesis using par' by (simp add: starts_with_def)
  next
    case False
    have "root @ relp = par @ [Normal s]" using s par' by simp
    with that ns False have "par \<noteq> [] \<and> canonicalize f (par @ [Normal s]) = Inr t \<and> \<not> is_symlink f (par @ [Normal s])"
      by simp
    with assms(2) obtain e x where "canonicalize f par = Inr e" "t = e @ [x]"
      unfolding leaf_law_def by blast
    with dir sw show ?thesis by (simp add: starts_with_def)
  qed
  have deep: "\<exists>q real. prefix q (root @ butlast relp) \<and> canonicalize f q = Inr real \<and> starts_with real root
      \<and> (\<forall>q'. prefix q q' \<and> prefix q' (root @ butlast relp) \<and> q' \<noteq> q \<longrightarrow> (\<exists>m. canonicalize f q' = Inl (NotFound m)))"
    using deepest_existing_sound [OF d] sw unfolding par' by blast
  have "canonicalize f (as_path r) = Inr root" using root by (auto simp: canonical_def split: sum.splits)
  then show ?thesis
    unfolding c by (intro exI [of _ root]) (use plain n(2) ns target deep in simp)
qed

text \<open>A file system in which one name of the worktree is a link to a directory outside it.\<close>

definition link_fs :: fs where
  "link_fs = (let l = demo_root @ [Normal ''out''] in
     \<lparr>canonicalize = (\<lambda>p. Inr (if prefix l p then [RootDir, Normal ''etc''] @ drop (length l) p else p)),
      is_symlink = (\<lambda>p. p = l), is_dir = (\<lambda>p. True)\<rparr>)"

lemma link_fs_law: "leaf_law link_fs"
  by (auto simp: leaf_law_def link_fs_def Let_def prefix_snoc dest!: prefix_length_le)

theorem confine_write_inside_witness:
  "confine_write link_fs (WorktreeRoot demo_root) ''out'' = Inl SymlinkEscape
   \<and> confine_write link_fs (WorktreeRoot demo_root) ''out/x'' = Inl SymlinkEscape
   \<and> \<not> is_symlink link_fs (demo_root @ [Normal ''a''])"
proof (intro conjI)
  show "confine_write link_fs (WorktreeRoot demo_root) ''out'' = Inl SymlinkEscape"
    "confine_write link_fs (WorktreeRoot demo_root) ''out/x'' = Inl SymlinkEscape" by code_simp+
  have w: "confine_write link_fs (WorktreeRoot demo_root) ''a''
      = Inr \<lparr>cwp_root = WorktreeRoot demo_root, cwp_relative = [Normal ''a'']\<rparr>" by code_simp
  from confine_write_inside [OF w link_fs_law] show "\<not> is_symlink link_fs (demo_root @ [Normal ''a''])"
    by (auto simp: link_fs_def Let_def demo_root_def)
qed

end
