(* ===== verification/Utf8.thy ===== *)
theory Utf8
  imports Prelude
begin

text \<open>
  Text of the standard library: a \<^verbatim>\<open>str\<close> is the \<^typ>\<open>string\<close> of its UTF-8 bytes, a Rust
  \<^verbatim>\<open>char\<close> the number of its Unicode scalar value. Decoding into characters, encoding, validity
  and the lossy conversion are those of the Unicode standard, as the library documents them.
\<close>

section \<open>Strings and bytes of the standard library\<close>

definition as_bytes :: "string \<Rightarrow> bytes" where
  "as_bytes s = map of_char s"

definition of_bytes :: "bytes \<Rightarrow> string" where
  "of_bytes b = map (\<lambda>x. char_of (unat x)) b"

lemma length_as_bytes [simp]: "length (as_bytes s) = length s"
  by (simp add: as_bytes_def)

lemma length_of_bytes [simp]: "length (of_bytes b) = length b"
  by (simp add: of_bytes_def)

lemma as_bytes_of_bytes [simp]: "as_bytes (of_bytes b) = b"
proof -
  have "(of_char (char_of (unat x)) :: u8) = x" for x :: u8
  proof -
    have "(of_char (char_of (unat x)) :: u8) = of_nat (of_char (char_of (unat x)))"
      by (simp only: of_nat_of_char)
    also have "\<dots> = of_nat (unat x mod 256)" by (simp only: of_char_of)
    also have "\<dots> = x" using unat_less_pow [of x] by simp
    finally show ?thesis .
  qed
  then show ?thesis by (simp add: as_bytes_def of_bytes_def comp_def)
qed

lemma of_bytes_as_bytes [simp]: "of_bytes (as_bytes s) = s"
proof -
  have "char_of (unat (of_char c :: u8)) = c" for c :: char
  proof -
    have "unat (of_char c :: u8) = unat (of_nat (of_char c) :: u8)" by (simp only: of_nat_of_char)
    also have "\<dots> = of_char c" by (subst unat_of_nat) simp
    finally show ?thesis by simp
  qed
  then show ?thesis by (simp add: as_bytes_def of_bytes_def comp_def map_idI)
qed

lemma as_bytes_eq_iff: "as_bytes s = b \<longleftrightarrow> s = of_bytes b"
  by (metis as_bytes_of_bytes of_bytes_as_bytes)

text \<open>\<^verbatim>\<open>str::from_utf8\<close>: the well-formed byte sequences of the Unicode standard.\<close>

definition cont :: "u8 \<Rightarrow> bool" where
  "cont b = (0x80 \<le> b \<and> b \<le> 0xBF)"

definition second_of_three :: "u8 \<Rightarrow> u8 \<Rightarrow> bool" where
  "second_of_three a b =
     (if a = 0xE0 then 0xA0 \<le> b \<and> b \<le> 0xBF else if a = 0xED then 0x80 \<le> b \<and> b \<le> 0x9F else cont b)"

definition second_of_four :: "u8 \<Rightarrow> u8 \<Rightarrow> bool" where
  "second_of_four a b =
     (if a = 0xF0 then 0x90 \<le> b \<and> b \<le> 0xBF else if a = 0xF4 then 0x80 \<le> b \<and> b \<le> 0x8F else cont b)"

fun utf8_valid :: "bytes \<Rightarrow> bool" where
  "utf8_valid [] = True"
| "utf8_valid (a # s) =
     (if a < 0x80 then utf8_valid s
      else if 0xC2 \<le> a \<and> a \<le> 0xDF
      then (case s of b # s \<Rightarrow> cont b \<and> utf8_valid s | _ \<Rightarrow> False)
      else if 0xE0 \<le> a \<and> a \<le> 0xEF
      then (case s of b # c # s \<Rightarrow> second_of_three a b \<and> cont c \<and> utf8_valid s | _ \<Rightarrow> False)
      else if 0xF0 \<le> a \<and> a \<le> 0xF4
      then (case s of b # c # d # s \<Rightarrow> second_of_four a b \<and> cont c \<and> cont d \<and> utf8_valid s | _ \<Rightarrow> False)
      else False)"

definition from_utf8 :: "bytes \<Rightarrow> string option" where
  "from_utf8 b = (if utf8_valid b then Some (of_bytes b) else None)"

text \<open>
  \<^verbatim>\<open>String::from_utf8_lossy\<close>: every maximal part of an ill-formed sequence becomes one replacement
  character.
\<close>

definition replacement :: string where
  "replacement = of_bytes [0xEF, 0xBF, 0xBD]"

fun utf8_lossy :: "bytes \<Rightarrow> string" where
  "utf8_lossy [] = []"
| "utf8_lossy (a # s) =
     (if a < 0x80 then of_bytes [a] @ utf8_lossy s
      else if 0xC2 \<le> a \<and> a \<le> 0xDF
      then (case s of
              b # s1 \<Rightarrow> if cont b then of_bytes [a, b] @ utf8_lossy s1 else replacement @ utf8_lossy s
            | [] \<Rightarrow> replacement)
      else if 0xE0 \<le> a \<and> a \<le> 0xEF
      then (case s of
              b # s1 \<Rightarrow>
                if second_of_three a b
                then (case s1 of
                        c # s2 \<Rightarrow> if cont c then of_bytes [a, b, c] @ utf8_lossy s2
                                  else replacement @ utf8_lossy s1
                      | [] \<Rightarrow> replacement)
                else replacement @ utf8_lossy s
            | [] \<Rightarrow> replacement)
      else if 0xF0 \<le> a \<and> a \<le> 0xF4
      then (case s of
              b # s1 \<Rightarrow>
                if second_of_four a b
                then (case s1 of
                        c # s2 \<Rightarrow>
                          if cont c
                          then (case s2 of
                                  d # s3 \<Rightarrow> if cont d then of_bytes [a, b, c, d] @ utf8_lossy s3
                                            else replacement @ utf8_lossy s2
                                | [] \<Rightarrow> replacement)
                          else replacement @ utf8_lossy s1
                      | [] \<Rightarrow> replacement)
                else replacement @ utf8_lossy s
            | [] \<Rightarrow> replacement)
      else replacement @ utf8_lossy s)"

lemma of_bytes_append: "of_bytes (a @ b) = of_bytes a @ of_bytes b"
  by (simp add: of_bytes_def)

section \<open>Characters\<close>

type_synonym scalar = nat

definition valid_scalar :: "scalar \<Rightarrow> bool" where
  "valid_scalar c = (c < 0xD800 \<or> (0xE000 \<le> c \<and> c \<le> 0x10FFFF))"

text \<open>\<^verbatim>\<open>String::push\<close>: the bytes of one character.\<close>

definition utf8_char :: "scalar \<Rightarrow> string" where
  "utf8_char c =
     (if c < 0x80 then [char_of c]
      else if c < 0x800 then [char_of (0xC0 + c div 64), char_of (0x80 + c mod 64)]
      else if c < 0x10000
      then [char_of (0xE0 + c div 4096), char_of (0x80 + c div 64 mod 64), char_of (0x80 + c mod 64)]
      else [char_of (0xF0 + c div 262144), char_of (0x80 + c div 4096 mod 64),
            char_of (0x80 + c div 64 mod 64), char_of (0x80 + c mod 64)])"

definition utf8 :: "scalar list \<Rightarrow> string" where
  "utf8 cs = concat (map utf8_char cs)"

text \<open>\<^verbatim>\<open>str::chars\<close>, for well-formed text: the leading byte gives the length.\<close>

definition low6 :: "char \<Rightarrow> nat" where
  "low6 b = of_char b - 0x80"

fun chars :: "string \<Rightarrow> scalar list" where
  "chars [] = []"
| "chars (a # s) =
     (let n = of_char a in
      if n < 0x80 then n # chars s
      else if n < 0xE0
      then (case s of b # s \<Rightarrow> ((n - 0xC0) * 64 + low6 b) # chars s | [] \<Rightarrow> [])
      else if n < 0xF0
      then (case s of b # c # s \<Rightarrow> ((n - 0xE0) * 4096 + low6 b * 64 + low6 c) # chars s | _ \<Rightarrow> [])
      else (case s of
              b # c # d # s \<Rightarrow>
                ((n - 0xF0) * 262144 + low6 b * 4096 + low6 c * 64 + low6 d) # chars s
            | _ \<Rightarrow> []))"

lemma of_char_of_less: "n < 256 \<Longrightarrow> of_char (char_of n :: char) = (n :: nat)"
  by simp

lemma chars_2:
  "q < 32 \<Longrightarrow> r < 64
   \<Longrightarrow> chars (char_of (0xC0 + q) # char_of (0x80 + r) # s) = (q * 64 + r) # chars s"
  by (simp add: low6_def Let_def of_char_of_less)

lemma chars_3:
  "p < 16 \<Longrightarrow> q < 64 \<Longrightarrow> r < 64
   \<Longrightarrow> chars (char_of (0xE0 + p) # char_of (0x80 + q) # char_of (0x80 + r) # s) =
       (p * 4096 + q * 64 + r) # chars s"
  by (simp add: low6_def Let_def of_char_of_less)

lemma chars_4:
  "k < 8 \<Longrightarrow> p < 64 \<Longrightarrow> q < 64 \<Longrightarrow> r < 64
   \<Longrightarrow> chars (char_of (0xF0 + k) # char_of (0x80 + p) # char_of (0x80 + q) # char_of (0x80 + r) # s) =
       (k * 262144 + p * 4096 + q * 64 + r) # chars s"
  by (simp add: low6_def Let_def of_char_of_less)

lemma sixes:
  "c = c div 64 * 64 + c mod 64"
  "c = c div 4096 * 4096 + c div 64 mod 64 * 64 + c mod 64"
  "c = c div 262144 * 262144 + c div 4096 mod 64 * 4096 + c div 64 mod 64 * 64 + c mod 64"
  for c :: nat
proof -
  have e: "c = c div 64 * 64 + c mod 64" "c div 64 = c div 64 div 64 * 64 + c div 64 mod 64"
    "c div 64 div 64 = c div 64 div 64 div 64 * 64 + c div 64 div 64 mod 64" by simp_all
  have d: "c div 4096 = c div 64 div 64" "c div 262144 = c div 64 div 64 div 64"
    by (simp_all add: div_mult2_eq [symmetric])
  show "c = c div 64 * 64 + c mod 64" by (fact e(1))
  show "c = c div 4096 * 4096 + c div 64 mod 64 * 64 + c mod 64"
    unfolding d using e(1,2) by linarith
  show "c = c div 262144 * 262144 + c div 4096 mod 64 * 4096 + c div 64 mod 64 * 64 + c mod 64"
    unfolding d using e by linarith
qed

lemma chars_utf8_char:
  assumes "c \<le> 0x10FFFF"
  shows "chars (utf8_char c @ s) = c # chars s"
proof -
  consider "c < 0x80" | "\<not> c < 0x80" "c < 0x800" | "\<not> c < 0x80" "\<not> c < 0x800" "c < 0x10000"
    | "\<not> c < 0x80" "\<not> c < 0x800" "\<not> c < 0x10000"
    by blast
  then show ?thesis
  proof cases
    case 2
    then have "c div 64 < 32" by auto
    with 2 show ?thesis
      by (simp only: utf8_char_def if_True if_False append_Cons append_Nil chars_2 mod_less_divisor
          sixes(1) [symmetric])
  next
    case 3
    then have "c div 4096 < 16" by auto
    with 3 show ?thesis
      by (simp only: utf8_char_def if_True if_False append_Cons append_Nil chars_3 mod_less_divisor
          sixes(2) [symmetric])
  next
    case 4
    then have "c div 262144 < 8" using assms by auto
    with 4 show ?thesis
      by (simp only: utf8_char_def if_True if_False append_Cons append_Nil chars_4 mod_less_divisor
          sixes(3) [symmetric])
  qed (simp add: utf8_char_def Let_def of_char_of_less)
qed

lemma chars_utf8: "(\<forall>c\<in>set cs. c \<le> 0x10FFFF) \<Longrightarrow> chars (utf8 cs @ s) = cs @ chars s"
  by (induction cs) (simp_all add: utf8_def chars_utf8_char)

text \<open>The lossy conversion keeps every well-formed text.\<close>

lemma byte_of: "n < 256 \<Longrightarrow> unat (of_char (char_of n :: char) :: u8) = n"
proof -
  assume "n < 256"
  have "(of_char (char_of n :: char) :: u8) = of_nat (of_char (char_of n :: char))" by (simp only: of_nat_of_char)
  also have "\<dots> = of_nat n" using \<open>n < 256\<close> by (simp only: of_char_of_less)
  finally have "(of_char (char_of n :: char) :: u8) = of_nat n" .
  with \<open>n < 256\<close> show ?thesis by (simp add: unat_of_nat)
qed

lemma lossy_2:
  fixes h l :: nat
  assumes "2 \<le> h" "h < 32" "l < 64"
  shows "utf8_lossy (as_bytes [char_of (0xC0 + h), char_of (0x80 + l)] @ s) =
    [char_of (0xC0 + h), char_of (0x80 + l)] @ utf8_lossy s"
proof -
  have u: "unat (of_char (char_of (0xC0 + h) :: char) :: u8) = 0xC0 + h"
    "unat (of_char (char_of (0x80 + l) :: char) :: u8) = 0x80 + l"
    using assms by (simp_all only: byte_of)
  show ?thesis
    using assms of_bytes_as_bytes [of "[char_of (0xC0 + h), char_of (0x80 + l)]"]
    by (simp add: as_bytes_def cont_def word_less_nat_alt word_le_nat_alt u)
qed

lemma lossy_3:
  fixes h m l :: nat
  assumes "h < 16" "m < 64" "l < 64" "h = 0 \<longrightarrow> 32 \<le> m" "h = 13 \<longrightarrow> m < 32"
  shows "utf8_lossy (as_bytes [char_of (0xE0 + h), char_of (0x80 + m), char_of (0x80 + l)] @ s) =
    [char_of (0xE0 + h), char_of (0x80 + m), char_of (0x80 + l)] @ utf8_lossy s"
proof -
  have u: "unat (of_char (char_of (0xE0 + h) :: char) :: u8) = 0xE0 + h"
    "unat (of_char (char_of (0x80 + m) :: char) :: u8) = 0x80 + m"
    "unat (of_char (char_of (0x80 + l) :: char) :: u8) = 0x80 + l"
    using assms by (simp_all only: byte_of)
  show ?thesis
    using assms of_bytes_as_bytes [of "[char_of (0xE0 + h), char_of (0x80 + m), char_of (0x80 + l)]"]
    by (auto simp: as_bytes_def cont_def second_of_three_def word_less_nat_alt word_le_nat_alt u word_unat_eq_iff)
qed

lemma lossy_4:
  fixes h i m l :: nat
  assumes "h < 5" "i < 64" "m < 64" "l < 64" "h = 0 \<longrightarrow> 16 \<le> i" "h = 4 \<longrightarrow> i < 16"
  shows "utf8_lossy (as_bytes [char_of (0xF0 + h), char_of (0x80 + i), char_of (0x80 + m), char_of (0x80 + l)] @ s) =
    [char_of (0xF0 + h), char_of (0x80 + i), char_of (0x80 + m), char_of (0x80 + l)] @ utf8_lossy s"
proof -
  have u: "unat (of_char (char_of (0xF0 + h) :: char) :: u8) = 0xF0 + h"
    "unat (of_char (char_of (0x80 + i) :: char) :: u8) = 0x80 + i"
    "unat (of_char (char_of (0x80 + m) :: char) :: u8) = 0x80 + m"
    "unat (of_char (char_of (0x80 + l) :: char) :: u8) = 0x80 + l"
    using assms by (simp_all only: byte_of)
  show ?thesis
    using assms of_bytes_as_bytes [of "[char_of (0xF0 + h), char_of (0x80 + i), char_of (0x80 + m), char_of (0x80 + l)]"]
    by (auto simp: as_bytes_def cont_def second_of_four_def word_less_nat_alt word_le_nat_alt u word_unat_eq_iff)
qed

lemma lossy_char:
  assumes "valid_scalar c"
  shows "utf8_lossy (as_bytes (utf8_char c) @ s) = utf8_char c @ utf8_lossy s"
proof -
  consider "c < 0x80" | "\<not> c < 0x80" "c < 0x800" | "\<not> c < 0x80" "\<not> c < 0x800" "c < 0x10000"
    | "\<not> c < 0x80" "\<not> c < 0x800" "\<not> c < 0x10000"
    by blast
  then show ?thesis
  proof cases
    case 1
    have "unat (of_char (char_of c :: char) :: u8) = c" by (rule byte_of) (use 1 in simp)
    then show ?thesis
      using 1 of_bytes_as_bytes [of "[char_of c]"] by (simp add: utf8_char_def as_bytes_def word_less_nat_alt)
  next
    case 2
    have "2 \<le> c div 64" "c div 64 < 32" using 2 by linarith+
    from lossy_2 [OF this, of "c mod 64" s] 2 show ?thesis by (simp only: utf8_char_def if_True if_False mod_less_divisor)
  next
    case 3
    have d: "c div 4096 < 16" "c div 4096 = 0 \<longrightarrow> 32 \<le> c div 64 mod 64" "c div 4096 = 13 \<longrightarrow> c div 64 mod 64 < 32"
      using 3 assms sixes(2) [of c] by (auto simp: valid_scalar_def)
    from lossy_3 [OF d(1) _ _ d(2,3), of "c mod 64" s] 3 show ?thesis by (simp only: utf8_char_def if_True if_False mod_less_divisor)
  next
    case 4
    have d: "c div 262144 < 5" "c div 262144 = 0 \<longrightarrow> 16 \<le> c div 4096 mod 64" "c div 262144 = 4 \<longrightarrow> c div 4096 mod 64 < 16"
      using 4 assms sixes(3) [of c] by (auto simp: valid_scalar_def)
    from lossy_4 [OF d(1) _ _ _ d(2,3), of "c div 64 mod 64" "c mod 64" s] 4
    show ?thesis by (simp only: utf8_char_def if_True if_False mod_less_divisor)
  qed
qed

lemma as_bytes_append: "as_bytes (a @ b) = as_bytes a @ as_bytes b"
  by (simp add: as_bytes_def)

lemma lossy_utf8: "list_all valid_scalar cs \<Longrightarrow> utf8_lossy (as_bytes (utf8 cs)) = utf8 cs"
  by (induction cs) (simp_all add: utf8_def as_bytes_append lossy_char, simp add: as_bytes_def)

section \<open>White space\<close>

text \<open>Unicode white space, and \<^verbatim>\<open>str::trim\<close>.\<close>

definition is_whitespace :: "scalar \<Rightarrow> bool" where
  "is_whitespace c =
     ((9 \<le> c \<and> c \<le> 13) \<or> c = 32 \<or> c = 0x85 \<or> c = 0xA0 \<or> c = 0x1680 \<or> (0x2000 \<le> c \<and> c \<le> 0x200A)
      \<or> c = 0x2028 \<or> c = 0x2029 \<or> c = 0x202F \<or> c = 0x205F \<or> c = 0x3000)"

definition str_trim :: "string \<Rightarrow> string" where
  "str_trim s = utf8 (rev (dropWhile is_whitespace (rev (dropWhile is_whitespace (chars s)))))"

end
