(* ===== verification/Redactor.thy ===== *)
theory Redactor
  imports Types Utf8 "HOL-Library.Product_Lexorder"
begin

text \<open>
  The redaction boundary of \<^verbatim>\<open>crates/crustcore-secrets/src/lib.rs\<close>: the redactor with its registered
  secrets, the collection of match spans, and the loop that merges them and splices markers into the
  output. Text is a \<^typ>\<open>string\<close> whose characters are its UTF-8 bytes; a secret is a byte vector.
\<close>

section \<open>Substrings\<close>

text \<open>\<^verbatim>\<open>str::find\<close>: the first place where a pattern occurs.\<close>

definition occurs_at :: "string \<Rightarrow> string \<Rightarrow> nat \<Rightarrow> bool" where
  "occurs_at v t i = (i + length v \<le> length t \<and> take (length v) (drop i t) = v)"

definition str_find :: "string \<Rightarrow> string \<Rightarrow> nat option" where
  "str_find v t = find (occurs_at v t) [0..<Suc (length t)]"

definition str_contains :: "string \<Rightarrow> string \<Rightarrow> bool" where
  "str_contains t v = (str_find v t \<noteq> None)"

lemma str_find_Some:
  "str_find v t = Some i \<longleftrightarrow> occurs_at v t i \<and> (\<forall>j<i. \<not> occurs_at v t j)"
proof
  assume "str_find v t = Some i"
  then obtain k where k: "k < Suc (length t)" "occurs_at v t ([0..<Suc (length t)] ! k)"
      "i = [0..<Suc (length t)] ! k" "\<forall>j<k. \<not> occurs_at v t ([0..<Suc (length t)] ! j)"
    unfolding str_find_def find_Some_iff by auto
  then have "i = k" by (simp del: upt_Suc)
  with k show "occurs_at v t i \<and> (\<forall>j<i. \<not> occurs_at v t j)" by (simp del: upt_Suc)
next
  assume i: "occurs_at v t i \<and> (\<forall>j<i. \<not> occurs_at v t j)"
  then have "i < Suc (length t)" by (auto simp: occurs_at_def)
  with i show "str_find v t = Some i"
    unfolding str_find_def find_Some_iff by (intro exI [of _ i]) (simp del: upt_Suc)
qed

lemma str_find_None: "str_find v t = None \<longleftrightarrow> (\<forall>i. \<not> occurs_at v t i)"
  by (auto simp: str_find_def find_None_iff occurs_at_def simp del: upt_Suc)

lemma str_contains_iff: "str_contains t v \<longleftrightarrow> (\<exists>i. occurs_at v t i)"
  using str_find_None by (auto simp: str_contains_def)

lemma occurs_at_drop: "off \<le> length t \<Longrightarrow> occurs_at v (drop off t) i \<longleftrightarrow> occurs_at v t (off + i)"
  by (auto simp: occurs_at_def add.commute)

lemma occurs_at_nth:
  "occurs_at v t i \<longleftrightarrow> i + length v \<le> length t \<and> (\<forall>k<length v. t ! (i + k) = v ! k)"
  by (auto simp: occurs_at_def list_eq_iff_nth_eq)

section \<open>The redactor\<close>

record Redactor =
  needles :: "(string \<times> bytes) list"

definition Redactor_new :: Redactor where
  "Redactor_new = \<lparr>needles = []\<rparr>"

definition redaction_marker :: "string \<Rightarrow> string" where
  "redaction_marker label = ''[REDACTED:'' @ label @ '']''"

definition register :: "Redactor \<Rightarrow> string \<Rightarrow> bytes \<Rightarrow> Redactor" where
  "register r label value =
     (if value = [] then r
      else \<lparr>needles = sort_key (\<lambda>(_, v). - int (length v)) (needles r @ [(label, value)])\<rparr>)"

definition max_needle_len :: "Redactor \<Rightarrow> nat" where
  "max_needle_len r = (if needles r = [] then 0 else Max (set (map (\<lambda>(_, v). length v) (needles r))))"

text \<open>
  The inner loop of \<^verbatim>\<open>longest_dangling_prefix\<close> counts \<open>k\<close> down to the best length so far and stops
  at the first prefix of the secret that the text ends with.
\<close>

fun dangling_loop :: "bytes \<Rightarrow> bytes \<Rightarrow> nat \<Rightarrow> nat \<Rightarrow> nat" where
  "dangling_loop t needle best 0 = best"
| "dangling_loop t needle best (Suc k) =
     (if Suc k \<le> best then best
      else if drop (length t - Suc k) t = take (Suc k) needle then Suc k
      else dangling_loop t needle best k)"

definition longest_dangling_prefix :: "Redactor \<Rightarrow> string \<Rightarrow> nat" where
  "longest_dangling_prefix r s =
     (let t = as_bytes s in
      foldl (\<lambda>best (_, needle). dangling_loop t needle best (min (length t) (length needle - 1)))
        0 (needles r))"

type_synonym span = "nat \<times> nat \<times> string"

function find_spans :: "string \<Rightarrow> string \<Rightarrow> string \<Rightarrow> nat \<Rightarrow> span list" where
  "find_spans label v t off =
     (if v = [] then []
      else (case str_find v (drop off t) of
              None \<Rightarrow> []
            | Some pos \<Rightarrow>
                (off + pos, off + pos + length v, label)
                  # find_spans label v t (off + pos + length v)))"
  by pat_completeness auto
termination
proof (relation "measure (\<lambda>(label, v, t, off). length t - off)")
  fix label v t :: string and off pos
  assume "v \<noteq> []" "str_find v (drop off t) = Some pos"
  then have "0 < length v" "pos + length v \<le> length t - off"
    by (simp_all add: str_find_Some occurs_at_def)
  then have "length t - (off + pos + length v) < length t - off" by linarith
  then show "((label, v, t, off + pos + length v), label, v, t, off)
      \<in> measure (\<lambda>(label, v, t, off). length t - off)" by simp
qed simp

declare find_spans.simps [simp del]

definition collect_spans :: "Redactor \<Rightarrow> string \<Rightarrow> span list" where
  "collect_spans r t =
     concat (map (\<lambda>(label, value).
       case from_utf8 value of None \<Rightarrow> [] | Some v \<Rightarrow> find_spans label v t 0) (needles r))"

definition sort_spans :: "span list \<Rightarrow> span list" where
  "sort_spans spans = sort_key (\<lambda>(s, e, _). (s, - int e)) spans"

text \<open>The inner loop absorbs the spans that touch the current interval and widens its end.\<close>

fun absorb :: "nat \<Rightarrow> span list \<Rightarrow> nat \<times> span list" where
  "absorb stop [] = (stop, [])"
| "absorb stop ((s, e, l) # rest) =
     (if s \<le> stop then absorb (if e > stop then e else stop) rest else (stop, (s, e, l) # rest))"

lemma absorb_length: "absorb e ss = (e', ss') \<Longrightarrow> length ss' \<le> length ss"
  by (induction e ss rule: absorb.induct) (fastforce split: if_splits)+

function splice :: "string \<Rightarrow> nat \<Rightarrow> span list \<Rightarrow> string" where
  "splice t cursor [] = drop cursor t"
| "splice t cursor ((start, stop, label) # rest) =
     (let (stop', rest') = absorb stop rest in
      (if start > cursor then take (start - cursor) (drop cursor t) else [])
        @ redaction_marker label @ splice t stop' rest')"
  by pat_completeness auto
termination
  by (relation "measure (\<lambda>(t, cursor, spans). length spans)") (simp_all add: absorb_length less_Suc_eq_le split: prod.splits)

definition redact :: "Redactor \<Rightarrow> string \<Rightarrow> string" where
  "redact r t =
     (let spans = collect_spans r t in
      if spans = [] then t else splice t 0 (sort_spans spans))"

datatype ModelVisibleText = ModelVisibleText (visible_str: string)

definition to_model_visible :: "Redactor \<Rightarrow> string \<Rightarrow> ModelVisibleText" where
  "to_model_visible r t = ModelVisibleText (redact r t)"

definition would_leak :: "Redactor \<Rightarrow> string \<Rightarrow> bool" where
  "would_leak r t =
     list_ex (\<lambda>(_, v). case from_utf8 v of None \<Rightarrow> False | Some s \<Rightarrow> s \<noteq> [] \<and> str_contains t s)
       (needles r)"

datatype 'a Tainted = Tainted (raw: 'a)

definition declassify :: "string Tainted \<Rightarrow> Redactor \<Rightarrow> ModelVisibleText" where
  "declassify t r = to_model_visible r (raw t)"

end
