(* ===== verification/Redactor_Props.thy ===== *)
theory Redactor_Props
  imports Redactor
begin

text \<open>What redaction removes: the spans found, their merge, and the text that is left.\<close>

section \<open>Spans\<close>

abbreviation (input) stop_of :: "span \<Rightarrow> nat" where
  "stop_of p \<equiv> fst (snd p)"

lemma find_spans_unfold:
  "v \<noteq> [] \<Longrightarrow> find_spans label v t off =
     (case str_find v (drop off t) of
        None \<Rightarrow> []
      | Some pos \<Rightarrow> (off + pos, off + pos + length v, label)
          # find_spans label v t (off + pos + length v))"
  by (subst find_spans.simps) simp

lemma find_spans_Nil [simp]: "find_spans label [] t off = []"
  by (subst find_spans.simps) simp

lemma find_spans_sound:
  "(s, e, l) \<in> set (find_spans label v t off) \<Longrightarrow> off \<le> length t \<Longrightarrow>
     l = label \<and> v \<noteq> [] \<and> off \<le> s \<and> e = s + length v \<and> occurs_at v t s"
proof (induction label v t off rule: find_spans.induct)
  case (1 label v t off)
  then have v: "v \<noteq> []" by auto
  have "str_find v (drop off t) \<noteq> None"
  proof
    assume "str_find v (drop off t) = None"
    then have "find_spans label v t off = []" by (subst find_spans_unfold [OF v]) simp
    with 1(2) show False by simp
  qed
  then obtain pos where pos: "str_find v (drop off t) = Some pos" by blast
  then have eq: "find_spans label v t off =
      (off + pos, off + pos + length v, label) # find_spans label v t (off + pos + length v)"
    by (subst find_spans_unfold [OF v]) simp
  from pos have o: "occurs_at v t (off + pos)"
    using 1(3) by (simp add: str_find_Some occurs_at_drop)
  then have "off + pos + length v \<le> length t" by (simp add: occurs_at_def)
  with 1(1) [OF v pos] 1(2) [unfolded eq] v o show ?case by auto
qed

text \<open>Every occurrence of the pattern has its first character inside a found span.\<close>

lemma find_spans_hit:
  "v \<noteq> [] \<Longrightarrow> occurs_at v t i \<Longrightarrow> off \<le> i \<Longrightarrow>
     \<exists>s e. (s, e, label) \<in> set (find_spans label v t off) \<and> s \<le> i \<and> i < e"
proof (induction label v t off rule: find_spans.induct)
  case (1 label v t off)
  have le: "off \<le> length t" using 1(3,4) by (simp add: occurs_at_def)
  then have i: "occurs_at v (drop off t) (i - off)" using 1(3,4) by (simp add: occurs_at_drop)
  then obtain pos where pos: "str_find v (drop off t) = Some pos"
    using str_find_None by (metis not_None_eq)
  then have "pos \<le> i - off" using i by (metis str_find_Some not_le_imp_less)
  have eq: "find_spans label v t off =
      (off + pos, off + pos + length v, label) # find_spans label v t (off + pos + length v)"
    using pos by (subst find_spans_unfold [OF 1(2)]) simp
  show ?case
  proof (cases "i < off + pos + length v")
    case True
    with \<open>pos \<le> i - off\<close> 1(4) show ?thesis
      unfolding eq by (intro exI [of _ "off + pos"] exI [of _ "off + pos + length v"]) simp
  next
    case False
    with 1(1) [OF 1(2) pos 1(2,3)] show ?thesis unfolding eq by auto
  qed
qed

text \<open>A pattern with no proper border cannot overlap itself, so each of its occurrences is found.\<close>

definition borderless :: "string \<Rightarrow> bool" where
  "borderless v = (\<forall>k. 0 < k \<and> k < length v \<longrightarrow> take k v \<noteq> drop (length v - k) v)"

lemma borderless_code [code]:
  "borderless v = list_all (\<lambda>k. take k v \<noteq> drop (length v - k) v) [1..<length v]"
  by (auto simp: borderless_def list_all_iff)

lemma overlap_border:
  assumes "occurs_at v t s" "occurs_at v t i" "s < i" "i < s + length v"
  shows "take (s + length v - i) v = drop (i - s) v"
proof (rule nth_equalityI)
  show "length (take (s + length v - i) v) = length (drop (i - s) v)" using assms(3,4) by simp
next
  fix k assume "k < length (take (s + length v - i) v)"
  then have k: "k < s + length v - i" by simp
  then have "v ! k = t ! (i + k)" using assms(2,3) by (simp add: occurs_at_nth)
  moreover have "i - s + k < length v" using assms(3) k by linarith
  with assms(1) have "t ! (s + (i - s + k)) = v ! (i - s + k)" by (simp only: occurs_at_nth)
  ultimately show "take (s + length v - i) v ! k = drop (i - s) v ! k"
    using assms(3,4) k by simp
qed

lemma borderless_occurrences:
  assumes "borderless v" "occurs_at v t s" "occurs_at v t i" "s \<le> i" "i < s + length v"
  shows "s = i"
proof (rule ccontr)
  assume "s \<noteq> i"
  then have "s < i" using assms(4) by simp
  with overlap_border [OF assms(2,3) this assms(5)] assms(1,5) show False
    unfolding borderless_def by (elim allE [of _ "s + length v - i"]) auto
qed

section \<open>Collected spans\<close>

definition secret :: "Redactor \<Rightarrow> string \<Rightarrow> string \<Rightarrow> bool" where
  "secret r label v = (\<exists>b. (label, b) \<in> set (needles r) \<and> from_utf8 b = Some v \<and> v \<noteq> [])"

lemma collect_spans_sound:
  assumes "(s, e, l) \<in> set (collect_spans r t)"
  shows "\<exists>v. secret r l v \<and> e = s + length v \<and> occurs_at v t s"
proof -
  obtain lb b v where b: "(lb, b) \<in> set (needles r)" "from_utf8 b = Some v"
    "(s, e, l) \<in> set (find_spans lb v t 0)"
    using assms by (auto simp: collect_spans_def eq_commute [of "Some _"] split: option.splits)
  with find_spans_sound [OF b(3)] show ?thesis by (auto simp: secret_def)
qed

lemma collect_span_of:
  assumes "p \<in> set (collect_spans r t)"
  shows "\<exists>v. secret r (snd (snd p)) v \<and> stop_of p = fst p + length v \<and> occurs_at v t (fst p)"
  using collect_spans_sound [of "fst p" "stop_of p" "snd (snd p)" r t] assms by simp

lemma collect_spans_hit:
  assumes "secret r l v" "occurs_at v t i"
  shows "\<exists>s e. (s, e, l) \<in> set (collect_spans r t) \<and> s \<le> i \<and> i < e"
proof -
  obtain b where b: "(l, b) \<in> set (needles r)" "from_utf8 b = Some v" "v \<noteq> []"
    using assms(1) by (auto simp: secret_def)
  from find_spans_hit [OF b(3) assms(2), of 0 l] obtain s e
    where "(s, e, l) \<in> set (find_spans l v t 0)" "s \<le> i" "i < e" by auto
  with b show ?thesis
    by (intro exI [of _ s] exI [of _ e]) (force simp: collect_spans_def)
qed

lemma collect_spans_borderless:
  assumes "secret r l v" "occurs_at v t i" "borderless v"
  shows "(i, i + length v, l) \<in> set (collect_spans r t)"
proof -
  obtain b where b: "(l, b) \<in> set (needles r)" "from_utf8 b = Some v" "v \<noteq> []"
    using assms(1) by (auto simp: secret_def)
  from find_spans_hit [OF b(3) assms(2), of 0 l] obtain s e
    where se: "(s, e, l) \<in> set (find_spans l v t 0)" "s \<le> i" "i < e" by auto
  with find_spans_sound [OF se(1)] have "e = s + length v" "occurs_at v t s" by simp_all
  moreover from this have "s = i" using borderless_occurrences assms(2,3) se by blast
  ultimately have "(i, i + length v, l) \<in> set (find_spans l v t 0)" using se(1) by simp
  with b show ?thesis by (force simp: collect_spans_def)
qed

section \<open>Merging\<close>

text \<open>The merged intervals of a list of spans, and the text spliced around them.\<close>

function merged :: "span list \<Rightarrow> span list" where
  "merged [] = []"
| "merged ((s, e, l) # rest) = (let (e', rest') = absorb e rest in (s, e', l) # merged rest')"
  by pat_completeness auto
termination
  by (relation "measure length") (auto dest: absorb_length [OF sym] simp: less_Suc_eq_le)

fun render :: "string \<Rightarrow> nat \<Rightarrow> span list \<Rightarrow> string" where
  "render t cursor [] = drop cursor t"
| "render t cursor ((s, e, l) # rest) =
     take (s - cursor) (drop cursor t) @ redaction_marker l @ render t e rest"

lemma splice_render: "splice t cursor spans = render t cursor (merged spans)"
  by (induction t cursor spans rule: splice.induct) (auto split: prod.splits)

lemma absorb_spec:
  "absorb e ss = (e', rest) \<Longrightarrow> sorted (map fst ss) \<Longrightarrow>
     e \<le> e' \<and> (\<exists>gone. ss = gone @ rest \<and> (\<forall>p\<in>set gone. stop_of p \<le> e')
       \<and> (e' = e \<or> (\<exists>p\<in>set gone. e' = stop_of p))
       \<and> (\<forall>x. e \<le> x \<and> x < e' \<longrightarrow> (\<exists>p\<in>set gone. fst p \<le> x \<and> x < stop_of p)))
     \<and> (\<forall>p\<in>set rest. e' < fst p)"
proof (induction e ss rule: absorb.induct)
  case (2 e s x l ss)
  show ?case
  proof (cases "s \<le> e")
    case True
    let ?m = "if x > e then x else e"
    from 2 True have a: "absorb ?m ss = (e', rest)" by simp
    have "sorted (map fst ss)" using 2(3) by simp
    from 2(1) [OF True a this] obtain gone where "?m \<le> e'" "ss = gone @ rest"
      "\<forall>p\<in>set gone. stop_of p \<le> e'" "e' = ?m \<or> (\<exists>p\<in>set gone. e' = stop_of p)"
      "\<forall>y. ?m \<le> y \<and> y < e' \<longrightarrow> (\<exists>p\<in>set gone. fst p \<le> y \<and> y < stop_of p)"
      "\<forall>p\<in>set rest. e' < fst p" by blast
    moreover from this(5) True
    have "\<forall>y. e \<le> y \<and> y < e' \<longrightarrow> (\<exists>p\<in>set ((s, x, l) # gone). fst p \<le> y \<and> y < stop_of p)"
      by (auto simp: not_less split: if_splits)
    ultimately show ?thesis
      by (intro conjI exI [of _ "(s, x, l) # gone"]) (auto split: if_splits)
  next
    case False
    with 2 have "e' = e" "rest = (s, x, l) # ss" by auto
    with False 2(3) show ?thesis by (intro conjI exI [of _ "[]"]) fastforce+
  qed
qed auto

lemma merged_spec:
  assumes "sorted (map fst ss)"
  shows "(\<forall>p\<in>set ss. \<exists>q\<in>set (merged ss). fst q \<le> fst p \<and> stop_of p \<le> stop_of q)
    \<and> sorted_wrt (\<lambda>p q. stop_of p < fst q) (merged ss)
    \<and> (\<forall>q\<in>set (merged ss). (\<exists>p\<in>set ss. fst q = fst p \<and> snd (snd q) = snd (snd p) \<and> stop_of p \<le> stop_of q)
         \<and> (\<exists>p\<in>set ss. stop_of q = stop_of p)
         \<and> (\<forall>x. fst q \<le> x \<and> x < stop_of q \<longrightarrow> (\<exists>p\<in>set ss. fst p \<le> x \<and> x < stop_of p)))"
  using assms
proof (induction ss rule: merged.induct)
  case (2 s e l ss)
  obtain e' rest where a: "absorb e ss = (e', rest)" by fastforce
  have srt: "sorted (map fst ss)" "\<forall>p\<in>set ss. s \<le> fst p" using 2(2) by auto
  from absorb_spec [OF a srt(1)] obtain gone where e: "e \<le> e'" and g: "ss = gone @ rest"
    and le: "\<forall>p\<in>set gone. stop_of p \<le> e'" and st: "e' = e \<or> (\<exists>p\<in>set gone. e' = stop_of p)"
    and cov: "\<forall>x. e \<le> x \<and> x < e' \<longrightarrow> (\<exists>p\<in>set gone. fst p \<le> x \<and> x < stop_of p)"
    and gt: "\<forall>p\<in>set rest. e' < fst p" by blast
  have "sorted (map fst rest)" using srt(1) g by (simp add: sorted_append)
  note IH = 2(1) [OF a [symmetric] refl this]
  have m: "merged ((s, e, l) # ss) = (s, e', l) # merged rest" by (simp add: a)
  have c1: "\<forall>p\<in>set ((s, e, l) # ss). \<exists>q\<in>set ((s, e', l) # merged rest). fst q \<le> fst p \<and> stop_of p \<le> stop_of q"
  proof
    fix p assume "p \<in> set ((s, e, l) # ss)"
    then consider "p = (s, e, l)" | "p \<in> set gone" | "p \<in> set rest" using g by auto
    then show "\<exists>q\<in>set ((s, e', l) # merged rest). fst q \<le> fst p \<and> stop_of p \<le> stop_of q"
    proof cases
      case 3
      with IH obtain q where "q \<in> set (merged rest)" "fst q \<le> fst p" "stop_of p \<le> stop_of q" by blast
      then show ?thesis by auto
    qed (use e le g srt(2) in auto)
  qed
  have c2: "sorted_wrt (\<lambda>p q. stop_of p < fst q) ((s, e', l) # merged rest)"
  proof -
    have "e' < fst q" if "q \<in> set (merged rest)" for q using IH gt that by metis
    with IH show ?thesis by simp
  qed
  have c3: "\<exists>p\<in>set ((s, e, l) # ss). e' = stop_of p" using st g by auto
  have c4: "\<exists>p\<in>set ((s, e, l) # ss). fst p \<le> x \<and> x < stop_of p" if "s \<le> x" "x < e'" for x
  proof (cases "x < e")
    case False
    with cov that obtain p where "p \<in> set gone" "fst p \<le> x" "x < stop_of p"
      by (meson not_le_imp_less)
    with g show ?thesis by auto
  qed (use that in auto)
  show ?case unfolding m
  proof (intro conjI [OF c1 conjI [OF c2]] ballI)
    fix q assume q: "q \<in> set ((s, e', l) # merged rest)"
    have sub: "set rest \<subseteq> set ((s, e, l) # ss)" using g by auto
    show "(\<exists>p\<in>set ((s, e, l) # ss). fst q = fst p \<and> snd (snd q) = snd (snd p) \<and> stop_of p \<le> stop_of q)
        \<and> (\<exists>p\<in>set ((s, e, l) # ss). stop_of q = stop_of p)
        \<and> (\<forall>x. fst q \<le> x \<and> x < stop_of q \<longrightarrow>
             (\<exists>p\<in>set ((s, e, l) # ss). fst p \<le> x \<and> x < stop_of p))"
    proof (cases "q = (s, e', l)")
      case True
      with c3 c4 e show ?thesis by auto
    next
      case False
      with q have "q \<in> set (merged rest)" by simp
      with IH sub show ?thesis by (meson subsetD)
    qed
  qed
qed simp

lemma sort_spans_sorted: "sorted (map fst (sort_spans ss))"
proof -
  have "sorted (map (\<lambda>(s, e, _). (s, - int e)) (sort_spans ss))"
    by (simp add: sort_spans_def)
  then show ?thesis
    unfolding sorted_map by (rule sorted_wrt_mono_rel [rotated]) (auto split: prod.splits)
qed

lemma set_sort_spans [simp]: "set (sort_spans ss) = set ss"
  by (simp add: sort_spans_def)

definition intervals :: "Redactor \<Rightarrow> string \<Rightarrow> span list" where
  "intervals r t = merged (sort_spans (collect_spans r t))"

lemma redact_render: "redact r t = render t 0 (intervals r t)"
  by (simp add: redact_def intervals_def Let_def splice_render sort_spans_def)

lemmas intervals_spec =
  merged_spec [OF sort_spans_sorted, of "collect_spans r t" for r t, folded intervals_def, simplified]

lemma intervals_sound:
  assumes "q \<in> set (intervals r t)"
  shows "fst q < stop_of q \<and> stop_of q \<le> length t
    \<and> (\<exists>v. secret r (snd (snd q)) v \<and> occurs_at v t (fst q) \<and> fst q + length v \<le> stop_of q)"
proof -
  obtain p p' where p: "p \<in> set (collect_spans r t)" "fst q = fst p" "snd (snd q) = snd (snd p)"
      "stop_of p \<le> stop_of q"
    and p': "p' \<in> set (collect_spans r t)" "stop_of q = stop_of p'"
    using intervals_spec [of r t] assms by blast
  obtain v where v: "secret r (snd (snd q)) v" "occurs_at v t (fst q)" "stop_of p = fst q + length v"
    using collect_span_of [OF p(1)] p(2,3) by auto
  have "0 < length v" using v(1) by (auto simp: secret_def)
  then have "fst q < stop_of q" using p(4) v(3) by linarith
  moreover have "stop_of q \<le> length t"
    using collect_span_of [OF p'(1)] p'(2) by (auto simp: occurs_at_def)
  ultimately show ?thesis using v p(4) by auto
qed

lemma span_in_interval:
  assumes "(s, e, l) \<in> set (collect_spans r t)"
  shows "\<exists>q\<in>set (intervals r t). fst q \<le> s \<and> e \<le> stop_of q"
  using intervals_spec [of r t, THEN conjunct1, rule_format, OF assms] by simp

lemma intervals_hit:
  assumes "secret r l v" "occurs_at v t i"
  shows "\<exists>q\<in>set (intervals r t). fst q \<le> i \<and> i < stop_of q \<and> (borderless v \<longrightarrow> i + length v \<le> stop_of q)"
proof (cases "borderless v")
  case True
  from span_in_interval [OF collect_spans_borderless [OF assms True]] obtain q
    where "q \<in> set (intervals r t)" "fst q \<le> i" "i + length v \<le> stop_of q" by blast
  moreover have "0 < length v" using assms(1) by (auto simp: secret_def)
  ultimately have "i < stop_of q" by linarith
  with \<open>q \<in> set (intervals r t)\<close> \<open>fst q \<le> i\<close> \<open>i + length v \<le> stop_of q\<close> show ?thesis by auto
next
  case False
  from collect_spans_hit [OF assms] obtain s e where "(s, e, l) \<in> set (collect_spans r t)" "s \<le> i" "i < e"
    by blast
  with span_in_interval obtain q where "q \<in> set (intervals r t)" "fst q \<le> s" "e \<le> stop_of q" by blast
  with \<open>s \<le> i\<close> \<open>i < e\<close> False show ?thesis by (meson le_trans less_le_trans)
qed

lemma intervals_exact:
  assumes "q \<in> set (intervals r t)" "fst q \<le> x" "x < stop_of q"
  shows "\<exists>l v i. secret r l v \<and> occurs_at v t i \<and> i \<le> x \<and> x < i + length v"
proof -
  obtain p where p: "p \<in> set (collect_spans r t)" "fst p \<le> x" "x < stop_of p"
    using intervals_spec [of r t] assms by blast
  with collect_span_of [OF p(1)] show ?thesis by fastforce
qed

lemma would_leak_iff: "would_leak r t \<longleftrightarrow> (\<exists>l v i. secret r l v \<and> occurs_at v t i)"
  by (fastforce simp: would_leak_def list_ex_iff secret_def str_contains_iff split: option.splits)

lemma redact_clean: "\<not> would_leak r t \<Longrightarrow> redact r t = t"
proof -
  assume "\<not> would_leak r t"
  then have "intervals r t = []"
    using intervals_sound would_leak_iff by (metis last_in_set)
  then show ?thesis by (simp add: redact_render)
qed

lemma redact_untouched: "(\<And>l v i. secret r l v \<Longrightarrow> \<not> occurs_at v t i) \<Longrightarrow> redact r t = t"
  by (rule redact_clean) (auto simp: would_leak_iff)

section \<open>Properties\<close>

text \<open>
  C20. Redaction removes every registered secret. The output is the input with disjoint intervals,
  separated by at least one kept character, each replaced by one marker that names a registered
  secret occurring at its start. The first character of every occurrence of every secret lies in an
  interval, so no kept stretch contains a secret; if the secret cannot overlap itself the whole
  occurrence lies in the interval; and nothing but characters of secret occurrences is replaced.
\<close>

theorem redaction_complete:
  "\<exists>ms. redact r t = render t 0 ms
    \<and> sorted_wrt (\<lambda>p q. stop_of p < fst q) ms
    \<and> (\<forall>q\<in>set ms. fst q < stop_of q \<and> stop_of q \<le> length t
         \<and> (\<exists>v. secret r (snd (snd q)) v \<and> occurs_at v t (fst q)))
    \<and> (\<forall>l v i. secret r l v \<and> occurs_at v t i \<longrightarrow>
         (\<exists>q\<in>set ms. fst q \<le> i \<and> i < stop_of q \<and> (borderless v \<longrightarrow> i + length v \<le> stop_of q)))
    \<and> (\<forall>q\<in>set ms. \<forall>x. fst q \<le> x \<and> x < stop_of q \<longrightarrow>
         (\<exists>l v i. secret r l v \<and> occurs_at v t i \<and> i \<le> x \<and> x < i + length v))"
  using redact_render intervals_spec intervals_sound intervals_hit intervals_exact
  by (intro exI [of _ "intervals r t"]) meson

definition demo_redactor :: Redactor where
  "demo_redactor = register (register Redactor_new ''a'' (as_bytes ''TOKENONE99'')) ''b'' (as_bytes ''99TOKENTWO'')"

theorem redaction_complete_witness:
  "redact demo_redactor ''creds=TOKENONE99TOKENTWO!'' = ''creds=[REDACTED:a]!''
   \<and> (\<exists>ms. redact demo_redactor ''creds=TOKENONE99TOKENTWO!'' = render ''creds=TOKENONE99TOKENTWO!'' 0 ms
        \<and> (\<exists>q\<in>set ms. fst q \<le> 14 \<and> 14 < stop_of q))"
proof
  show "redact demo_redactor ''creds=TOKENONE99TOKENTWO!'' = ''creds=[REDACTED:a]!''" by code_simp
  have "(''b'', as_bytes ''99TOKENTWO'') \<in> set (needles demo_redactor)" by code_simp
  moreover have "from_utf8 (as_bytes ''99TOKENTWO'') = Some ''99TOKENTWO''" by code_simp
  ultimately have "secret demo_redactor ''b'' ''99TOKENTWO''" unfolding secret_def by blast
  moreover have "occurs_at ''99TOKENTWO'' ''creds=TOKENONE99TOKENTWO!'' 14" by code_simp
  ultimately show "\<exists>ms. redact demo_redactor ''creds=TOKENONE99TOKENTWO!'' = render ''creds=TOKENONE99TOKENTWO!'' 0 ms
      \<and> (\<exists>q\<in>set ms. fst q \<le> 14 \<and> 14 < stop_of q)"
    using redaction_complete [of demo_redactor "''creds=TOKENONE99TOKENTWO!''"] by meson
qed

text \<open>
  The scan for one secret resumes after the match it found, so an occurrence that overlaps an
  earlier one of the same secret is not collected, and its tail stays in the output.
\<close>

lemma overlapping_tail_kept:
  "redact (register Redactor_new ''k'' (as_bytes ''aba'')) ''ababa'' = ''[REDACTED:k]ba''
   \<and> occurs_at ''aba'' ''ababa'' 2"
  by (rule conjI; code_simp)

end
