(* ===== verification/Ordered_Map.thy ===== *)
theory Ordered_Map
  imports Prelude
begin

text \<open>
  The standard library's \<^verbatim>\<open>BTreeMap\<close> as the code uses it: an association list kept in ascending
  key order, so that iteration, which the code relies on, goes by key.
\<close>

fun bt_insert :: "'k::linorder \<Rightarrow> 'v \<Rightarrow> ('k \<times> 'v) list \<Rightarrow> ('k \<times> 'v) list" where
  "bt_insert k v [] = [(k, v)]"
| "bt_insert k v ((k', v') # m) =
     (if k < k' then (k, v) # (k', v') # m
      else if k = k' then (k, v) # m
      else (k', v') # bt_insert k v m)"

definition bt_get :: "('k \<times> 'v) list \<Rightarrow> 'k \<Rightarrow> 'v option" where
  "bt_get = map_of"

definition bt_wf :: "('k::linorder \<times> 'v) list \<Rightarrow> bool" where
  "bt_wf m = sorted_wrt (<) (map fst m)"

text \<open>What a client of an ordered map relies on.\<close>

locale ordered_map =
  fixes get :: "'m \<Rightarrow> 'k::linorder \<Rightarrow> 'v option"
    and insert :: "'k \<Rightarrow> 'v \<Rightarrow> 'm \<Rightarrow> 'm"
    and entries :: "'m \<Rightarrow> ('k \<times> 'v) list"
    and wf :: "'m \<Rightarrow> bool"
  assumes get_insert: "get (insert k v m) j = (if j = k then Some v else get m j)"
    and wf_insert: "wf m \<Longrightarrow> wf (insert k v m)"
    and entries_sorted: "wf m \<Longrightarrow> sorted_wrt (<) (map fst (entries m))"
    and get_entries: "get m k = map_of (entries m) k"
begin

lemma entries_distinct: "wf m \<Longrightarrow> distinct (map fst (entries m))"
  using entries_sorted strict_sorted_iff by blast

lemma entry_iff: "wf m \<Longrightarrow> (k, v) \<in> set (entries m) \<longleftrightarrow> get m k = Some v"
  using entries_distinct by (simp add: get_entries)

lemma entries_insert:
  "wf m \<Longrightarrow> set (entries (insert k v m)) = {(k, v)} \<union> {(j, w). (j, w) \<in> set (entries m) \<and> j \<noteq> k}"
  using entry_iff wf_insert by (auto simp: get_insert split: if_splits)

end

lemma bt_get_insert [simp]: "bt_get (bt_insert k v m) = (bt_get m)(k \<mapsto> v)"
  unfolding bt_get_def by (induction m) (auto simp: fun_eq_iff)

lemma bt_insert_keys: "set (map fst (bt_insert k v m)) = Set.insert k (set (map fst m))"
proof (induction m)
  case (Cons p m)
  then show ?case by (cases p) (simp add: insert_commute)
qed simp

lemma bt_insert_wf: "bt_wf m \<Longrightarrow> bt_wf (bt_insert k v m)"
proof (induction m)
  case (Cons p m)
  have "sorted_wrt (<) (map fst (bt_insert k v m))" using Cons by (simp add: bt_wf_def)
  moreover have "\<forall>x\<in>set (map fst (bt_insert k v m)). fst p < x" if "fst p < k"
    unfolding bt_insert_keys using Cons.prems that by (simp add: bt_wf_def)
  ultimately show ?case
    using Cons.prems by (cases p) (auto simp: bt_wf_def)
qed (simp add: bt_wf_def)

interpretation btree: ordered_map bt_get bt_insert "\<lambda>m. m" bt_wf
proof
  fix k j :: 'a and v :: 'b and m
  show "bt_get (bt_insert k v m) j = (if j = k then Some v else bt_get m j)" by simp
qed (simp_all add: bt_insert_wf, simp_all add: bt_wf_def bt_get_def)

end
