(* ===== verification/Secrets.thy ===== *)
theory Secrets
  imports Redactor_Props Ordered_Map
begin

text \<open>
  The secret broker of \<^verbatim>\<open>crates/crustcore-secrets/src/lib.rs\<close>: stores, one-shot views and the
  credential proxy. A view's \<^verbatim>\<open>Cell<bool>\<close> is a field that \<^verbatim>\<open>expose\<close> returns updated.
\<close>

section \<open>Stores\<close>

record SecretHandle =
  sh_id :: SecretId
  sh_label :: BoundedText

datatype SecretAvailability = Available | Unavailable | Missing

datatype SecretMaterial = SecretMaterial (material_bytes: bytes)

definition SecretMaterial_new :: "bytes \<Rightarrow> SecretMaterial" where
  "SecretMaterial_new b = SecretMaterial b"

definition material_len :: "SecretMaterial \<Rightarrow> nat" where
  "material_len m = length (material_bytes m)"

definition material_is_empty :: "SecretMaterial \<Rightarrow> bool" where
  "material_is_empty m = (material_bytes m = [])"

record InMemoryStore =
  ims_entries :: "(u32 \<times> BoundedText \<times> SecretMaterial) list"

definition InMemoryStore_new :: InMemoryStore where
  "InMemoryStore_new = \<lparr>ims_entries = []\<rparr>"

fun secret_no :: "SecretId \<Rightarrow> u32" where
  "secret_no (SecretId n) = n"

definition store_insert :: "InMemoryStore \<Rightarrow> SecretId \<Rightarrow> string \<Rightarrow> bytes \<Rightarrow> InMemoryStore" where
  "store_insert s i label value =
     s\<lparr>ims_entries := bt_insert (secret_no i) (truncated label DEFAULT_MAX, SecretMaterial_new value)
         (ims_entries s)\<rparr>"

definition store_get :: "InMemoryStore \<Rightarrow> SecretId \<Rightarrow> SecretMaterial option" where
  "store_get s i = map_option snd (bt_get (ims_entries s) (secret_no i))"

definition store_handles :: "InMemoryStore \<Rightarrow> SecretHandle list" where
  "store_handles s = map (\<lambda>(i, label, _). \<lparr>sh_id = SecretId i, sh_label = label\<rparr>) (ims_entries s)"

text \<open>The trait's default method.\<close>

definition availability :: "('s \<Rightarrow> SecretId \<Rightarrow> SecretMaterial option) \<Rightarrow> 's \<Rightarrow> SecretId \<Rightarrow> SecretAvailability" where
  "availability get s i = (case get s i of Some _ \<Rightarrow> Available | None \<Rightarrow> Missing)"

section \<open>Views and the broker\<close>

datatype ViewError = AlreadyConsumed | Expired

datatype BrokerError = BrokerUnavailable SecretId

record 's SecretBroker =
  sb_store :: 's
  sb_redactor :: Redactor

definition SecretBroker_new ::
  "('s \<Rightarrow> SecretId \<Rightarrow> SecretMaterial option) \<Rightarrow> ('s \<Rightarrow> SecretHandle list) \<Rightarrow> 's \<Rightarrow> 's SecretBroker" where
  "SecretBroker_new get handles store =
     \<lparr>sb_store = store,
      sb_redactor =
        foldl (\<lambda>r h. case get store (sh_id h) of
                 Some m \<Rightarrow> register r (as_str (sh_label h)) (material_bytes m)
               | None \<Rightarrow> r) Redactor_new (handles store)\<rparr>"

record ApprovedSecretView =
  av_material :: SecretMaterial
  av_secret_id :: SecretId
  av_approval_id :: ApprovalId
  av_expires_at :: Timestamp
  av_consumed :: bool

definition authorize ::
  "('s \<Rightarrow> SecretId \<Rightarrow> SecretMaterial option) \<Rightarrow> 's SecretBroker \<Rightarrow> SecretId \<Rightarrow> ApprovalId \<Rightarrow> Timestamp \<Rightarrow> u64
     \<Rightarrow> BrokerError + ApprovedSecretView" where
  "authorize get b i approval now ttl =
     and_then (ok_or (get (sb_store b) i) (BrokerUnavailable i)) (\<lambda>material.
       Inr \<lparr>av_material = material, av_secret_id = i, av_approval_id = approval,
            av_expires_at = from_millis (saturating_add (as_millis now) ttl), av_consumed = False\<rparr>)"

definition expose :: "ApprovedSecretView \<Rightarrow> Timestamp \<Rightarrow> ApprovedSecretView \<times> (ViewError + bytes)" where
  "expose v now =
     (if av_consumed v then (v, Inl AlreadyConsumed)
      else if as_millis now \<ge> as_millis (av_expires_at v) then (v, Inl ViewError.Expired)
      else (v\<lparr>av_consumed := True\<rparr>, Inr (material_bytes (av_material v))))"

record HeaderInjection =
  hi_header_name :: string
  hi_value :: SecretMaterial
  hi_label :: string

definition reveal :: "HeaderInjection \<Rightarrow> bytes" where
  "reveal h = material_bytes (hi_value h)"

definition redacted :: "HeaderInjection \<Rightarrow> string" where
  "redacted h = hi_header_name h @ '': '' @ redaction_marker (hi_label h)"

definition bearer ::
  "ApprovedSecretView \<Rightarrow> Timestamp \<Rightarrow> string \<Rightarrow> ApprovedSecretView \<times> (ViewError + HeaderInjection)" where
  "bearer view now label =
     (let (view', res) = expose view now in
      (view', and_then res (\<lambda>token.
         Inr \<lparr>hi_header_name = ''Authorization'',
              hi_value = SecretMaterial_new (as_bytes ''Bearer '' @ token),
              hi_label = label\<rparr>)))"

section \<open>Registered secrets\<close>

lemma register_needles:
  "set (needles (register r l v)) = (if v = [] then {} else {(l, v)}) \<union> set (needles r)"
  by (auto simp: register_def)

lemma register_sorted:
  "sorted_wrt (\<lambda>p q. length (snd q) \<le> length (snd p)) (needles (register r l v))
     \<or> needles (register r l v) = needles r"
proof (cases "v = []")
  case False
  have "sorted (map (\<lambda>(_, v). - int (length v)) (needles (register r l v)))"
    using False by (simp add: register_def)
  then show ?thesis
    unfolding sorted_map by (intro disjI1, rule sorted_wrt_mono_rel [rotated]) (auto split: prod.splits)
qed (simp add: register_def)

text \<open>
  What the broker relies on in a store: the handles name exactly the secrets that can be fetched.
\<close>

locale secret_store =
  fixes get :: "'s \<Rightarrow> SecretId \<Rightarrow> SecretMaterial option"
    and handles :: "'s \<Rightarrow> SecretHandle list"
    and wf :: "'s \<Rightarrow> bool"
  assumes handle_present: "wf s \<Longrightarrow> h \<in> set (handles s) \<Longrightarrow> get s (sh_id h) \<noteq> None"
    and present_handle: "wf s \<Longrightarrow> get s i \<noteq> None \<Longrightarrow> \<exists>h\<in>set (handles s). sh_id h = i"
begin

lemma broker_needles:
  "set (needles (sb_redactor (SecretBroker_new get handles s))) =
     {(as_str (sh_label h), material_bytes m) |h m.
        h \<in> set (handles s) \<and> get s (sh_id h) = Some m \<and> material_bytes m \<noteq> []}"
proof -
  have "set (needles (foldl (\<lambda>r h. case get s (sh_id h) of
        Some m \<Rightarrow> register r (as_str (sh_label h)) (material_bytes m) | None \<Rightarrow> r) r hs)) =
      set (needles r) \<union> {(as_str (sh_label h), material_bytes m) |h m.
        h \<in> set hs \<and> get s (sh_id h) = Some m \<and> material_bytes m \<noteq> []}" for r hs
    by (induction hs arbitrary: r) (auto simp: register_needles split: option.splits)
  from this [of Redactor_new "handles s"] show ?thesis by (simp add: SecretBroker_new_def Redactor_new_def)
qed

lemma broker_secret:
  assumes "wf s" "get s i = Some m" "material_bytes m \<noteq> []" "from_utf8 (material_bytes m) = Some v"
  shows "\<exists>l. secret (sb_redactor (SecretBroker_new get handles s)) l v"
proof -
  obtain h where h: "h \<in> set (handles s)" "sh_id h = i" using present_handle [OF assms(1)] assms(2) by blast
  have "v \<noteq> []" using assms(3,4) by (auto simp: from_utf8_def of_bytes_def split: if_splits)
  with h assms(2-4) show ?thesis
    unfolding secret_def broker_needles by blast
qed

lemma broker_secret_stored:
  "secret (sb_redactor (SecretBroker_new get handles s)) l v \<Longrightarrow>
     \<exists>h m. h \<in> set (handles s) \<and> get s (sh_id h) = Some m \<and> from_utf8 (material_bytes m) = Some v"
  unfolding secret_def broker_needles by blast

lemma authorize_iff:
  "(\<exists>view. authorize get (SecretBroker_new get handles s) i a now ttl = Inr view)
     \<longleftrightarrow> availability get s i = Available"
  by (auto simp: authorize_def and_then_Inr_iff availability_def SecretBroker_new_def split: option.splits)

end

definition store_wf :: "InMemoryStore \<Rightarrow> bool" where
  "store_wf s = bt_wf (ims_entries s)"

lemma store_new_wf: "store_wf InMemoryStore_new"
  by (simp add: store_wf_def InMemoryStore_new_def bt_wf_def)

lemma store_insert_wf: "store_wf s \<Longrightarrow> store_wf (store_insert s i l v)"
  by (simp add: store_wf_def store_insert_def bt_insert_wf)

lemma store_get_insert:
  "store_get (store_insert s i l v) j =
     (if secret_no j = secret_no i then Some (SecretMaterial_new v) else store_get s j)"
  by (simp add: store_get_def store_insert_def)

interpretation memory: secret_store store_get store_handles store_wf
proof
  fix s h
  assume wf: "store_wf s" and "h \<in> set (store_handles s)"
  then obtain i l m where "(i, l, m) \<in> set (ims_entries s)" "h = \<lparr>sh_id = SecretId i, sh_label = l\<rparr>"
    by (auto simp: store_handles_def)
  with wf show "store_get s (sh_id h) \<noteq> None"
    using btree.entry_iff [of "ims_entries s" i "(l, m)"] by (simp add: store_get_def store_wf_def)
next
  fix s i
  assume wf: "store_wf s" and "store_get s i \<noteq> None"
  then obtain l m where "bt_get (ims_entries s) (secret_no i) = Some (l, m)"
    by (auto simp: store_get_def)
  then have "(secret_no i, l, m) \<in> set (ims_entries s)"
    using btree.entry_iff [of "ims_entries s" "secret_no i" "(l, m)"] wf by (simp add: store_wf_def)
  then show "\<exists>h\<in>set (store_handles s). sh_id h = i"
    by (cases i) (force simp: store_handles_def)
qed

section \<open>Properties\<close>

text \<open>
  A stored secret does not pass the broker's boundary. For a store built by insertions, a text
  that contains a stored secret (a non-empty one that is valid UTF-8 and cannot overlap itself) is
  rendered with every occurrence inside a redacted interval; texts with no stored secret pass
  unchanged.
\<close>

theorem stored_secret_redacted:
  assumes "store_wf s" and "store_get s i = Some m" and "from_utf8 (material_bytes m) = Some v"
    and "v \<noteq> []" and "borderless v"
  shows "(\<exists>ms. redact (sb_redactor (SecretBroker_new store_get store_handles s)) t = render t 0 ms
      \<and> sorted_wrt (\<lambda>p q. stop_of p < fst q) ms
      \<and> (\<forall>p. occurs_at v t p \<longrightarrow> (\<exists>q\<in>set ms. fst q \<le> p \<and> p + length v \<le> stop_of q)))
    \<and> ((\<forall>j m' w p. store_get s j = Some m' \<and> from_utf8 (material_bytes m') = Some w \<and> w \<noteq> [] \<longrightarrow>
           \<not> occurs_at w t p) \<longrightarrow>
         redact (sb_redactor (SecretBroker_new store_get store_handles s)) t = t)"
proof
  let ?r = "sb_redactor (SecretBroker_new store_get store_handles s)"
  have "material_bytes m \<noteq> []" using assms(3,4) by (auto simp: from_utf8_def of_bytes_def split: if_splits)
  then obtain l where "secret ?r l v" using memory.broker_secret [OF assms(1,2) _ assms(3)] by blast
  then show "\<exists>ms. redact ?r t = render t 0 ms \<and> sorted_wrt (\<lambda>p q. stop_of p < fst q) ms
      \<and> (\<forall>p. occurs_at v t p \<longrightarrow> (\<exists>q\<in>set ms. fst q \<le> p \<and> p + length v \<le> stop_of q))"
    using redact_render intervals_spec intervals_hit assms(5)
    by (intro exI [of _ "intervals ?r t"]) meson
  show "(\<forall>j m' w p. store_get s j = Some m' \<and> from_utf8 (material_bytes m') = Some w \<and> w \<noteq> [] \<longrightarrow>
      \<not> occurs_at w t p) \<longrightarrow> redact ?r t = t"
  proof (intro impI redact_clean notI)
    assume none: "\<forall>j m' w p. store_get s j = Some m' \<and> from_utf8 (material_bytes m') = Some w \<and> w \<noteq> [] \<longrightarrow>
      \<not> occurs_at w t p" and "would_leak ?r t"
    then obtain l w p where w: "secret ?r l w" "occurs_at w t p" by (auto simp: would_leak_iff)
    then have "w \<noteq> []" by (auto simp: secret_def)
    with memory.broker_secret_stored [OF w(1)] none w(2) show False by blast
  qed
qed

definition demo_store :: InMemoryStore where
  "demo_store = store_insert InMemoryStore_new (SecretId 7) ''model-key'' (as_bytes ''sk-SENTINELxyz'')"

lemma demo_broker_redactor:
  "sb_redactor (SecretBroker_new store_get store_handles demo_store) =
     register Redactor_new ''model-key'' (as_bytes ''sk-SENTINELxyz'')"
  by (simp add: SecretBroker_new_def store_handles_def demo_store_def store_insert_def store_get_def
      InMemoryStore_new_def SecretMaterial_new_def truncated_def DEFAULT_MAX_def
      bt_get_def)

theorem stored_secret_redacted_witness:
  "redact (sb_redactor (SecretBroker_new store_get store_handles demo_store)) ''key sk-SENTINELxyz used''
     = ''key [REDACTED:model-key] used''
   \<and> (\<exists>ms. redact (sb_redactor (SecretBroker_new store_get store_handles demo_store)) ''key sk-SENTINELxyz used''
          = render ''key sk-SENTINELxyz used'' 0 ms)"
proof
  show "redact (sb_redactor (SecretBroker_new store_get store_handles demo_store)) ''key sk-SENTINELxyz used''
     = ''key [REDACTED:model-key] used''" unfolding demo_broker_redactor by code_simp
  have wf: "store_wf demo_store" by (simp add: demo_store_def store_insert_wf store_new_wf)
  have get: "store_get demo_store (SecretId 7) = Some (SecretMaterial (as_bytes ''sk-SENTINELxyz''))"
    by (simp add: demo_store_def store_get_insert SecretMaterial_new_def)
  have utf: "from_utf8 (material_bytes (SecretMaterial (as_bytes ''sk-SENTINELxyz''))) = Some ''sk-SENTINELxyz''"
    by code_simp
  have "borderless ''sk-SENTINELxyz''" by code_simp
  from stored_secret_redacted [OF wf get utf _ this]
  show "\<exists>ms. redact (sb_redactor (SecretBroker_new store_get store_handles demo_store)) ''key sk-SENTINELxyz used''
      = render ''key sk-SENTINELxyz used'' 0 ms" by blast
qed

text \<open>A sequence of attempts to use one view.\<close>

fun expose_all :: "ApprovedSecretView \<Rightarrow> Timestamp list \<Rightarrow> (ViewError + bytes) list" where
  "expose_all v [] = []"
| "expose_all v (now # ts) = (let (v', res) = expose v now in res # expose_all v' ts)"

lemma expose_all_consumed: "av_consumed v \<Longrightarrow> expose_all v ts = replicate (length ts) (Inl AlreadyConsumed)"
  by (induction ts) (simp_all add: expose_def)

text \<open>
  A secret view is one-shot and expires. Whatever the times of the attempts to use a view that
  the broker has just authorized, they are refused as expired up to the first one strictly before
  the deadline; that one yields exactly the stored bytes, and every later one is refused as
  consumed. The deadline is the time of authorization plus the time to live, saturating.
\<close>

theorem view_one_shot:
  assumes "authorize get b i a now ttl = Inr view"
  shows "\<exists>m. get (sb_store b) i = Some m
    \<and> expose_all view ts =
        (let n = length (takeWhile (\<lambda>t. saturating_add (as_millis now) ttl \<le> as_millis t) ts)
         in replicate n (Inl ViewError.Expired)
            @ (if n = length ts then []
               else Inr (material_bytes m) # replicate (length ts - n - 1) (Inl AlreadyConsumed)))"
proof -
  obtain m where m: "get (sb_store b) i = Some m"
    and v: "av_material view = m" "av_consumed view = False"
      "av_expires_at view = from_millis (saturating_add (as_millis now) ttl)"
    using assms by (auto simp: authorize_def and_then_Inr_iff)
  have "expose_all view ts =
      (let n = length (takeWhile (\<lambda>t. as_millis (av_expires_at view) \<le> as_millis t) ts)
       in replicate n (Inl ViewError.Expired)
          @ (if n = length ts then []
             else Inr (material_bytes m) # replicate (length ts - n - 1) (Inl AlreadyConsumed)))"
    using v(2) by (induction ts) (simp_all add: expose_def Let_def expose_all_consumed v(1))
  with m v(3) show ?thesis by (intro exI [of _ m]) simp
qed

theorem view_one_shot_witness:
  "\<exists>view. authorize store_get (SecretBroker_new store_get store_handles demo_store) (SecretId 7)
       (ApprovalId 1) (Timestamp 1000) 5000 = Inr view
     \<and> expose_all view [Timestamp 7000, Timestamp 1001, Timestamp 1002]
         = [Inl ViewError.Expired, Inr (as_bytes ''sk-SENTINELxyz''), Inl AlreadyConsumed]"
proof -
  obtain view where view: "authorize store_get (SecretBroker_new store_get store_handles demo_store)
      (SecretId 7) (ApprovalId 1) (Timestamp 1000) 5000 = Inr view"
    by (simp add: authorize_def SecretBroker_new_def demo_store_def store_get_insert)
  have "saturating_add (1000 :: u64) 5000 = 6000" by code_simp
  then have "expose_all view [Timestamp 7000, Timestamp 1001, Timestamp 1002]
         = [Inl ViewError.Expired, Inr (as_bytes ''sk-SENTINELxyz''), Inl AlreadyConsumed]"
    using view_one_shot [OF view, of "[Timestamp 7000, Timestamp 1001, Timestamp 1002]"]
    by (simp add: SecretBroker_new_def demo_store_def store_get_insert SecretMaterial_new_def)
  with view show ?thesis by blast
qed

end
