(* ===== verification/Token_Stream.thy ===== *)
theory Token_Stream
  imports Secrets
begin

text \<open>
  Streaming redaction (\<^verbatim>\<open>crates/crustcore-secrets/src/token_stream.rs\<close>): tokens are buffered up to
  a newline, or up to a size limit, and only redacted chunks leave.
\<close>

section \<open>The stream\<close>

record TokenRedactor =
  tr_redactor :: Redactor
  tr_buffer :: string
  tr_max_buffer :: nat

definition TokenRedactor_new :: "Redactor \<Rightarrow> nat \<Rightarrow> TokenRedactor" where
  "TokenRedactor_new r mx = \<lparr>tr_redactor = r, tr_buffer = [], tr_max_buffer = max mx 1\<rparr>"

abbreviation newline :: char where
  "newline \<equiv> CHR 0x0A"

text \<open>\<^verbatim>\<open>str::rfind\<close> of one character: the index of its last occurrence.\<close>

definition rfind_char :: "char \<Rightarrow> string \<Rightarrow> nat option" where
  "rfind_char c s = map_option (\<lambda>i. length s - 1 - i) (position (\<lambda>x. x = c) (rev s))"

definition suffix_boundary :: "string \<Rightarrow> nat \<Rightarrow> nat" where
  "suffix_boundary buffer window = back_to_boundary buffer (length buffer - window)"

definition accept_token :: "TokenRedactor \<Rightarrow> string \<Rightarrow> TokenRedactor \<times> string option" where
  "accept_token tr token =
     (let buffer = tr_buffer tr @ token; r = tr_redactor tr in
      case rfind_char newline buffer of
        Some nl \<Rightarrow> (tr\<lparr>tr_buffer := drop (nl + 1) buffer\<rparr>, Some (redact r (take (nl + 1) buffer)))
      | None \<Rightarrow>
          if length buffer \<ge> tr_max_buffer tr
          then (let d = longest_dangling_prefix r buffer; cut = suffix_boundary buffer d in
                if cut = 0 then (tr\<lparr>tr_buffer := buffer\<rparr>, None)
                else (tr\<lparr>tr_buffer := drop cut buffer\<rparr>, Some (redact r (take cut buffer))))
          else (tr\<lparr>tr_buffer := buffer\<rparr>, None))"

definition flush :: "TokenRedactor \<Rightarrow> TokenRedactor \<times> string option" where
  "flush tr =
     (if tr_buffer tr = [] then (tr, None)
      else (tr\<lparr>tr_buffer := []\<rparr>, Some (redact (tr_redactor tr) (tr_buffer tr))))"

fun emit :: "string option \<Rightarrow> string list" where
  "emit None = []"
| "emit (Some chunk) = [chunk]"

fun stream_loop :: "TokenRedactor \<Rightarrow> string list \<Rightarrow> string list" where
  "stream_loop tr [] = emit (snd (flush tr))"
| "stream_loop tr (token # tokens) =
     (let (tr', chunk) = accept_token tr token in emit chunk @ stream_loop tr' tokens)"

definition redact_stream :: "Redactor \<Rightarrow> nat \<Rightarrow> string list \<Rightarrow> string list" where
  "redact_stream r mx tokens = stream_loop (TokenRedactor_new r mx) tokens"

section \<open>Where the buffer is cut\<close>

definition cut_of :: "Redactor \<Rightarrow> nat \<Rightarrow> string \<Rightarrow> nat" where
  "cut_of r mx b =
     (case rfind_char newline b of
        Some nl \<Rightarrow> nl + 1
      | None \<Rightarrow> if length b \<ge> mx then suffix_boundary b (longest_dangling_prefix r b) else 0)"

lemma accept_token_cut:
  "accept_token tr token =
     (let b = tr_buffer tr @ token; c = cut_of (tr_redactor tr) (tr_max_buffer tr) b in
      (tr\<lparr>tr_buffer := drop c b\<rparr>, if c = 0 then None else Some (redact (tr_redactor tr) (take c b))))"
  by (simp add: accept_token_def cut_of_def Let_def split: option.splits)

lemma rfind_char_Some:
  assumes "rfind_char c s = Some i"
  shows "i < length s \<and> s ! i = c \<and> c \<notin> set (drop (i + 1) s)"
proof -
  obtain j where j: "position (\<lambda>x. x = c) (rev s) = Some j" "i = length s - 1 - j"
    using assms by (auto simp: rfind_char_def)
  then have jl: "j < length s" "rev s ! j = c" "\<forall>k<j. rev s ! k \<noteq> c"
    using position_SomeD [OF j(1)] by auto
  then have s: "i < length s" "s ! i = c" using j(2) by (auto simp: rev_nth)
  have "s ! k \<noteq> c" if "i < k" "k < length s" for k
    using jl(3) [rule_format, of "length s - 1 - k"] that j(2) jl(1) by (auto simp: rev_nth)
  then have "c \<notin> set (drop (i + 1) s)" by (auto simp: in_set_conv_nth)
  with s show ?thesis by simp
qed

lemma rfind_char_None: "rfind_char c s = None \<longleftrightarrow> c \<notin> set s"
  by (auto simp: rfind_char_def position_None_iff)

lemma cut_of_le: "cut_of r mx b \<le> length b"
  using rfind_char_Some [of newline b] back_to_boundary_le [of b "length b - longest_dangling_prefix r b"]
  by (auto simp: cut_of_def suffix_boundary_def split: option.splits intro: le_trans)

text \<open>The dangling prefix is the longest suffix of the text that starts some secret.\<close>

definition dangles :: "bytes \<Rightarrow> bytes \<Rightarrow> nat \<Rightarrow> bool" where
  "dangles t u k = (k \<le> length t \<and> k < length u \<and> drop (length t - k) t = take k u)"

lemma dangling_loop_spec:
  assumes "k \<le> length t"
  shows "best \<le> dangling_loop t u best k
    \<and> (\<forall>j\<le>k. drop (length t - j) t = take j u \<longrightarrow> j \<le> dangling_loop t u best k)
    \<and> (dangling_loop t u best k = best
       \<or> dangling_loop t u best k \<le> k
         \<and> drop (length t - dangling_loop t u best k) t = take (dangling_loop t u best k) u)"
  using assms by (induction k) (auto simp: le_Suc_eq not_le)

definition best_of :: "bytes \<Rightarrow> (string \<times> bytes) list \<Rightarrow> nat \<Rightarrow> nat \<Rightarrow> bool" where
  "best_of t ns best res =
     (best \<le> res \<and> (\<forall>p\<in>set ns. \<forall>j. dangles t (snd p) j \<longrightarrow> j \<le> res)
      \<and> (res = best \<or> (\<exists>p\<in>set ns. dangles t (snd p) res)))"

lemma dangling_loop_best:
  "best_of t [(l, u)] best (dangling_loop t u best (min (length t) (length u - 1)))"
proof -
  let ?k = "min (length t) (length u - 1)"
  let ?b = "dangling_loop t u best ?k"
  note d = dangling_loop_spec [of ?k t best u]
  have "j \<le> ?b" if "dangles t u j" for j
    using d that by (auto simp: dangles_def)
  moreover have "dangles t u ?b" if "?b \<noteq> best"
  proof -
    have "?b \<le> ?k" "drop (length t - ?b) t = take ?b u" "0 < ?b" using d that by auto
    then show ?thesis by (auto simp: dangles_def)
  qed
  ultimately show ?thesis using d by (auto simp: best_of_def)
qed

lemma best_of_Cons: "best_of t [p] best mid \<Longrightarrow> best_of t ns mid res \<Longrightarrow> best_of t (p # ns) best res"
  unfolding best_of_def by (simp; metis le_trans)

lemma dangling_fold:
  "best_of t ns best
     (foldl (\<lambda>best (_, u). dangling_loop t u best (min (length t) (length u - 1))) best ns)"
proof (induction ns arbitrary: best)
  case (Cons p ns)
  obtain l u where p: "p = (l, u)" by fastforce
  show ?case
    using best_of_Cons [OF dangling_loop_best [of t l u best] Cons] by (simp add: p)
qed (simp add: best_of_def)

definition valid_needles :: "Redactor \<Rightarrow> bool" where
  "valid_needles r = (\<forall>(l, u)\<in>set (needles r). u \<noteq> [] \<and> utf8_valid u)"

lemma dangling_best: "best_of (as_bytes b) (needles r) 0 (longest_dangling_prefix r b)"
  using dangling_fold [where t = "as_bytes b" and best = 0 and ns = "needles r"]
  by (simp add: longest_dangling_prefix_def Let_def)

lemma dangling_longest:
  "(l, u) \<in> set (needles r) \<Longrightarrow> dangles (as_bytes b) u j \<Longrightarrow> j \<le> longest_dangling_prefix r b"
  using dangling_best [of b r] by (fastforce simp: best_of_def)

lemma dangling_witness:
  "longest_dangling_prefix r b = 0 \<or>
     (\<exists>l u. (l, u) \<in> set (needles r) \<and> dangles (as_bytes b) u (longest_dangling_prefix r b))"
  using dangling_best [of b r] by (fastforce simp: best_of_def)

text \<open>
  A dangling prefix of a valid secret starts at a character boundary, so the rounding of the cut
  never moves it.
\<close>

lemma utf8_first: "utf8_valid (a # s) \<Longrightarrow> \<not> (0x80 \<le> a \<and> a < 0xC0)"
  by (auto simp: word_le_nat_alt word_less_nat_alt split: if_splits)

lemma is_continuation_bytes: "is_continuation c \<longleftrightarrow> 0x80 \<le> (of_char c :: u8) \<and> (of_char c :: u8) < 0xC0"
proof -
  have "unat (of_char c :: u8) = of_char c"
  proof -
    have "unat (of_char c :: u8) = unat (of_nat (of_char c) :: u8)" by (simp only: of_nat_of_char)
    also have "\<dots> = of_char c" by (subst unat_of_nat) simp
    finally show ?thesis .
  qed
  then show ?thesis by (simp add: is_continuation_def word_le_nat_alt word_less_nat_alt)
qed

lemma back_to_boundary_at: "is_char_boundary s n \<Longrightarrow> back_to_boundary s n = n"
  by (cases n) simp_all

lemma forced_cut:
  assumes "valid_needles r"
  shows "suffix_boundary b (longest_dangling_prefix r b) = length b - longest_dangling_prefix r b"
proof (cases "longest_dangling_prefix r b = 0")
  case True
  then show ?thesis by (simp add: suffix_boundary_def back_to_boundary_at is_char_boundary_def)
next
  case False
  let ?d = "longest_dangling_prefix r b"
  obtain l u where u: "(l, u) \<in> set (needles r)" "dangles (as_bytes b) u ?d"
    using dangling_witness [of r b] False by auto
  obtain a v where av: "u = a # v" "utf8_valid (a # v)"
    using assms u(1) by (cases u) (auto simp: valid_needles_def)
  have le: "?d \<le> length b" using u(2) by (simp add: dangles_def)
  have "as_bytes b ! (length b - ?d) = hd (drop (length b - ?d) (as_bytes b))"
    using False le by (simp add: hd_drop_conv_nth)
  also have "\<dots> = hd (take ?d u)" using u(2) by (simp add: dangles_def)
  also have "\<dots> = a" using False av(1) by (cases ?d) simp_all
  finally have "of_char (b ! (length b - ?d)) = a" using False le by (simp add: as_bytes_def)
  then have "\<not> is_continuation (b ! (length b - ?d))"
    using utf8_first [OF av(2)] by (simp add: is_continuation_bytes)
  then have "is_char_boundary b (length b - ?d)"
    using False le by (auto simp: is_char_boundary_def)
  then show ?thesis by (simp add: suffix_boundary_def back_to_boundary_at)
qed

section \<open>No secret is split\<close>

definition secret_text :: "Redactor \<Rightarrow> string \<Rightarrow> bool" where
  "secret_text r v = (\<exists>l. secret r l v)"

definition newline_free :: "Redactor \<Rightarrow> bool" where
  "newline_free r = (\<forall>(l, u)\<in>set (needles r). newline \<notin> set (of_bytes u))"

text \<open>No secret ends the way a secret, the same or another, begins.\<close>

definition overlap_free :: "Redactor \<Rightarrow> bool" where
  "overlap_free r = (\<forall>(l, u)\<in>set (needles r). \<forall>(l', v)\<in>set (needles r). \<forall>k.
     0 < k \<and> k < length u \<and> k < length v \<longrightarrow> take k u \<noteq> drop (length v - k) v)"

lemma overlap_free_code [code]:
  "overlap_free r = list_all (\<lambda>(l, u). list_all (\<lambda>(l', v).
     list_all (\<lambda>k. take k u \<noteq> drop (length v - k) v) [1..<min (length u) (length v)]) (needles r)) (needles r)"
proof -
  have "(\<forall>k. 0 < k \<and> k < length u \<and> k < length v \<longrightarrow> take k u \<noteq> drop (length v - k) v) \<longleftrightarrow>
      list_all (\<lambda>k. take k u \<noteq> drop (length v - k) v) [1..<min (length u) (length v)]" for u v :: bytes
    by (auto simp: list_all_iff Suc_le_eq)
  then show ?thesis by (simp add: overlap_free_def list_all_iff)
qed

lemma overlap_freeD:
  "overlap_free r \<Longrightarrow> (l, u) \<in> set (needles r) \<Longrightarrow> (l', v) \<in> set (needles r) \<Longrightarrow>
     0 < k \<Longrightarrow> k < length u \<Longrightarrow> k < length v \<Longrightarrow> take k u \<noteq> drop (length v - k) v"
  unfolding overlap_free_def by blast

lemma secret_needle:
  "secret r l v \<Longrightarrow> (l, as_bytes v) \<in> set (needles r) \<and> v \<noteq> []"
  by (auto simp: secret_def from_utf8_def split: if_splits)

lemma cut_newline_safe:
  assumes "rfind_char newline b = Some nl" "newline \<notin> set v" "occurs_at v (b @ z) i" "i < nl + 1"
  shows "i + length v \<le> nl + 1"
proof (rule ccontr)
  assume "\<not> i + length v \<le> nl + 1"
  then have k: "nl - i < length v" "i + (nl - i) = nl" using assms(4) by auto
  have "(b @ z) ! (i + (nl - i)) = v ! (nl - i)" using assms(3) k(1) by (simp only: occurs_at_nth)
  moreover have "(b @ z) ! nl = newline" using rfind_char_Some [OF assms(1)] by (simp add: nth_append)
  ultimately have "v ! (nl - i) = newline" using k(2) by simp
  with assms(2) k(1) show False by (metis nth_mem)
qed

lemma cut_forced_safe:
  assumes "overlap_free r" "secret r l v" "occurs_at v (b @ z) i"
    and c: "c = length b - longest_dangling_prefix r b" and "i < c"
  shows "i + length v \<le> c"
proof (rule ccontr)
  assume "\<not> i + length v \<le> c"
  then have gt: "c < i + length v" by simp
  let ?d = "longest_dangling_prefix r b"
  have v: "(l, as_bytes v) \<in> set (needles r)" using secret_needle [OF assms(2)] by simp
  have nth: "(b @ z) ! (i + k) = v ! k" if "k < length v" for k
    using assms(3) that by (simp only: occurs_at_nth)
  show False
  proof (cases "i + length v \<le> length b")
    case False
    have "dangles (as_bytes b) (as_bytes v) (length b - i)"
    proof -
      have "drop i b = take (length b - i) v"
      proof (rule nth_equalityI)
        show "length (drop i b) = length (take (length b - i) v)" using False by simp
        fix k assume "k < length (drop i b)"
        then have "k < length b - i" "i + k < length b" "k < length v" using False by auto
        then show "drop i b ! k = take (length b - i) v ! k"
          using nth [of k] by (simp add: nth_append)
      qed
      moreover have "length b - (length b - i) = i" using assms(5) c by simp
      ultimately show ?thesis
        using False assms(5) c by (simp add: dangles_def as_bytes_def drop_map take_map)
    qed
    from dangling_longest [OF v this] assms(5) c show False by simp
  next
    case True
    then have d: "?d \<noteq> 0" using gt c by auto
    then obtain l' u where u: "(l', u) \<in> set (needles r)" "dangles (as_bytes b) u ?d"
      using dangling_witness [of r b] by auto
    let ?k = "i + length v - c"
    have k: "0 < ?k" "?k < length v" "?k \<le> ?d" "?k < length u"
      using gt assms(5) True c u(2) by (auto simp: dangles_def)
    have "take ?k u = take ?k (drop c (as_bytes b))"
      using u(2) k(3) c by (simp add: dangles_def)
    also have "\<dots> = drop (length v - ?k) (as_bytes v)"
    proof (rule nth_equalityI)
      show "length (take ?k (drop c (as_bytes b))) = length (drop (length v - ?k) (as_bytes v))"
        using k True by simp
      fix j assume "j < length (take ?k (drop c (as_bytes b)))"
      then have j: "j < ?k" by simp
      then have "c - i + j < length v" "i + (c - i + j) = c + j" "c + j < length b"
        using assms(5) True gt by auto
      then have "b ! (c + j) = v ! (c - i + j)"
        using nth [of "c - i + j"] by (simp only: nth_append if_True)
      then show "take ?k (drop c (as_bytes b)) ! j = drop (length v - ?k) (as_bytes v) ! j"
        using j assms(5) True gt by (simp add: as_bytes_def)
    qed
    finally show False
      using overlap_freeD [OF assms(1) u(1) v k(1,4)] k(2) by simp
  qed
qed

lemma cut_safe:
  assumes "valid_needles r" "newline_free r" "overlap_free r" "secret r l v" "occurs_at v (b @ z) i"
    and "i < cut_of r mx b"
  shows "i + length v \<le> cut_of r mx b"
proof (cases "rfind_char newline b")
  case (Some nl)
  have "newline \<notin> set v"
    using assms(2) secret_needle [OF assms(4)] by (fastforce simp: newline_free_def)
  with cut_newline_safe [OF Some this assms(5)] assms(6) Some show ?thesis by (simp add: cut_of_def)
next
  case None
  with assms(6) have c: "cut_of r mx b = length b - longest_dangling_prefix r b"
    by (auto simp: cut_of_def forced_cut [OF assms(1)] split: if_splits)
  from cut_forced_safe [OF assms(3-5) c assms(6)] show ?thesis .
qed

text \<open>The raw chunks of a stream, and what the loop makes of them.\<close>

fun raw_chunks :: "Redactor \<Rightarrow> nat \<Rightarrow> string \<Rightarrow> string list \<Rightarrow> string list" where
  "raw_chunks r mx b [] = (if b = [] then [] else [b])"
| "raw_chunks r mx b (token # tokens) =
     (let c = cut_of r mx (b @ token) in
      (if c = 0 then [] else [take c (b @ token)]) @ raw_chunks r mx (drop c (b @ token)) tokens)"

lemma stream_loop_chunks:
  "stream_loop tr tokens = map (redact (tr_redactor tr)) (raw_chunks (tr_redactor tr) (tr_max_buffer tr) (tr_buffer tr) tokens)"
proof (induction tokens arbitrary: tr)
  case Nil
  then show ?case by (simp add: flush_def)
next
  case (Cons token tokens)
  then show ?case by (simp add: accept_token_cut Let_def)
qed

lemma raw_chunks_concat: "concat (raw_chunks r mx b tokens) = b @ concat tokens"
proof (induction tokens arbitrary: b)
  case (Cons token tokens)
  define B c where "B = b @ token" and "c = cut_of r mx B"
  have "concat (raw_chunks r mx b (token # tokens)) = take c B @ drop c B @ concat tokens"
    using Cons [of "drop c B"] by (simp add: Let_def B_def [symmetric] c_def [symmetric])
  also have "\<dots> = b @ concat (token # tokens)"
    by (simp only: append_assoc [symmetric] append_take_drop_id) (simp add: B_def)
  finally show ?case .
qed simp

definition inside_one :: "string list \<Rightarrow> nat \<Rightarrow> nat \<Rightarrow> bool" where
  "inside_one chunks i n =
     (\<exists>pre c post. chunks = pre @ c # post \<and> length (concat pre) \<le> i \<and> i + n \<le> length (concat pre) + length c)"

lemma inside_one_Cons:
  "inside_one (c # cs) i n \<longleftrightarrow> i + n \<le> length c \<or> (length c \<le> i \<and> inside_one cs (i - length c) n)"
proof
  assume "inside_one (c # cs) i n"
  then obtain pre c' post where s: "c # cs = pre @ c' # post" "length (concat pre) \<le> i"
    "i + n \<le> length (concat pre) + length c'" by (auto simp: inside_one_def)
  show "i + n \<le> length c \<or> (length c \<le> i \<and> inside_one cs (i - length c) n)"
  proof (cases pre)
    case (Cons p pre')
    with s show ?thesis
      unfolding inside_one_def by (intro disjI2 conjI exI [of _ pre'] exI [of _ c'] exI [of _ post]) auto
  qed (use s in auto)
next
  assume "i + n \<le> length c \<or> (length c \<le> i \<and> inside_one cs (i - length c) n)"
  then show "inside_one (c # cs) i n"
  proof
    assume "i + n \<le> length c"
    then show ?thesis unfolding inside_one_def by (intro exI [of _ "[]"] exI [of _ c] exI [of _ cs]) simp
  next
    assume a: "length c \<le> i \<and> inside_one cs (i - length c) n"
    then obtain pre c' post where "cs = pre @ c' # post" "length (concat pre) \<le> i - length c"
      "i - length c + n \<le> length (concat pre) + length c'" by (auto simp: inside_one_def)
    with a show ?thesis
      unfolding inside_one_def by (intro exI [of _ "c # pre"] exI [of _ c'] exI [of _ post]) auto
  qed
qed

lemma raw_chunks_inside:
  assumes "valid_needles r" "newline_free r" "overlap_free r" "secret r l v"
  shows "occurs_at v (b @ concat tokens) i \<Longrightarrow> inside_one (raw_chunks r mx b tokens) i (length v)"
proof (induction tokens arbitrary: b i)
  case Nil
  have "v \<noteq> []" using assms(4) by (auto simp: secret_def)
  with Nil have "b \<noteq> []" "i + length v \<le> length b" by (auto simp: occurs_at_def)
  then show ?case by (simp add: inside_one_Cons)
next
  case (Cons token tokens)
  define B c where "B = b @ token" and "c = cut_of r mx B"
  have o: "occurs_at v (B @ concat tokens) i" using Cons.prems by (simp add: B_def)
  have rc: "raw_chunks r mx b (token # tokens) =
      (if c = 0 then [] else [take c B]) @ raw_chunks r mx (drop c B) tokens"
    by (simp add: Let_def B_def [symmetric] c_def [symmetric])
  have le: "c \<le> length B" using cut_of_le by (simp add: c_def)
  show ?case
  proof (cases "i < c")
    case True
    with cut_safe [OF assms o, of mx] have "i + length v \<le> c" by (simp add: c_def)
    with True le show ?thesis unfolding rc by (simp add: inside_one_Cons)
  next
    case False
    have "B @ concat tokens = take c B @ (drop c B @ concat tokens)"
      by (simp only: append_assoc [symmetric] append_take_drop_id)
    then have "occurs_at v (drop c B @ concat tokens) (i - c)"
      using o False le by (auto simp: occurs_at_def)
    from Cons.IH [OF this] False le show ?thesis unfolding rc by (auto simp: inside_one_Cons)
  qed
qed

section \<open>Properties\<close>

text \<open>
  C21. Streaming never splits a secret. However the stream is cut into tokens, the emitted chunks
  are the redactions of consecutive pieces of the stream that together make up all of it; if the
  registered secrets are valid UTF-8, contain no newline and none ends the way another (or itself)
  begins, every occurrence of a secret in the stream lies inside one piece, and every such piece is
  redacted as a whole text is.
\<close>

theorem stream_no_split:
  "\<exists>chunks. redact_stream r mx tokens = map (redact r) chunks \<and> concat chunks = concat tokens
    \<and> (valid_needles r \<and> newline_free r \<and> overlap_free r \<longrightarrow>
        (\<forall>l v i. secret r l v \<and> occurs_at v (concat tokens) i \<longrightarrow>
           (\<exists>pre c post j. chunks = pre @ c # post \<and> i = length (concat pre) + j \<and> occurs_at v c j)))"
proof (rule exI [of _ "raw_chunks r (max mx 1) [] tokens"], intro conjI allI impI)
  let ?chunks = "raw_chunks r (max mx 1) [] tokens"
  show "redact_stream r mx tokens = map (redact r) ?chunks"
    by (simp add: redact_stream_def stream_loop_chunks TokenRedactor_new_def)
  show c: "concat ?chunks = concat tokens" by (simp add: raw_chunks_concat)
  fix l v i assume r: "valid_needles r \<and> newline_free r \<and> overlap_free r" and v: "secret r l v \<and> occurs_at v (concat tokens) i"
  with raw_chunks_inside [of r l v "[]" tokens i "max mx 1"]
  obtain pre c post where s: "?chunks = pre @ c # post" "length (concat pre) \<le> i"
    "i + length v \<le> length (concat pre) + length c" by (auto simp: inside_one_def)
  have "concat tokens = concat pre @ c @ concat post" using c s(1) by simp
  then have "occurs_at v c (i - length (concat pre))"
    using v s(2,3) by (auto simp: occurs_at_def)
  with s show "\<exists>pre c post j. ?chunks = pre @ c # post \<and> i = length (concat pre) + j \<and> occurs_at v c j"
    by (metis le_add_diff_inverse)
qed

definition demo_stream_redactor :: Redactor where
  "demo_stream_redactor = register Redactor_new ''secret'' (as_bytes ''ghp_TOKEN'')"

lemma demo_needles: "needles demo_stream_redactor = [(''secret'', as_bytes ''ghp_TOKEN'')]"
  by (simp add: demo_stream_redactor_def register_def Redactor_new_def as_bytes_def)

theorem stream_no_split_witness:
  "redact_stream demo_stream_redactor 8 [''aaaaaa ghp_'', ''TOK'', ''EN bbbb'']
     = [''aaaaaa '', ''[REDACTED:secret] bbbb'']
   \<and> (\<exists>chunks. redact_stream demo_stream_redactor 8 [''aaaaaa ghp_'', ''TOK'', ''EN bbbb'']
          = map (redact demo_stream_redactor) chunks
        \<and> concat chunks = ''aaaaaa ghp_TOKEN bbbb''
        \<and> (\<exists>c\<in>set chunks. \<exists>j. occurs_at ''ghp_TOKEN'' c j))"
proof
  show "redact_stream demo_stream_redactor 8 [''aaaaaa ghp_'', ''TOK'', ''EN bbbb'']
     = [''aaaaaa '', ''[REDACTED:secret] bbbb'']" by code_simp
  have "utf8_valid (as_bytes ''ghp_TOKEN'')" by code_simp
  then have v: "valid_needles demo_stream_redactor"
    by (simp add: valid_needles_def demo_needles as_bytes_def)
  have n: "newline_free demo_stream_redactor" by (simp add: newline_free_def demo_needles)
  have o: "overlap_free demo_stream_redactor" by code_simp
  have "from_utf8 (as_bytes ''ghp_TOKEN'') = Some ''ghp_TOKEN''" by code_simp
  then have "secret demo_stream_redactor ''secret'' ''ghp_TOKEN''"
    by (simp add: secret_def demo_needles)
  moreover have "occurs_at ''ghp_TOKEN'' ''aaaaaa ghp_TOKEN bbbb'' 7" by (simp add: occurs_at_def)
  ultimately have at: "secret demo_stream_redactor ''secret'' ''ghp_TOKEN''
    \<and> occurs_at ''ghp_TOKEN'' ''aaaaaa ghp_TOKEN bbbb'' 7" ..
  from at stream_no_split [of demo_stream_redactor 8 "[''aaaaaa ghp_'', ''TOK'', ''EN bbbb'']"] v n o
  show "\<exists>chunks. redact_stream demo_stream_redactor 8 [''aaaaaa ghp_'', ''TOK'', ''EN bbbb'']
          = map (redact demo_stream_redactor) chunks
        \<and> concat chunks = ''aaaaaa ghp_TOKEN bbbb''
        \<and> (\<exists>c\<in>set chunks. \<exists>j. occurs_at ''ghp_TOKEN'' c j)" by fastforce
qed

text \<open>
  The stream's buffer is bounded: after a token was accepted, what stays buffered is shorter
  than the size limit, shorter than the longest secret, or shorter than the token itself.
\<close>

theorem stream_buffer_bounded:
  assumes "valid_needles (tr_redactor tr)" and "newline \<notin> set (tr_buffer tr)"
    and "accept_token tr token = (tr', chunk)"
  shows "newline \<notin> set (tr_buffer tr')
    \<and> (length (tr_buffer tr') < tr_max_buffer tr
       \<or> length (tr_buffer tr') < max_needle_len (tr_redactor tr)
       \<or> length (tr_buffer tr') < length token
       \<or> tr_buffer tr' = [])"
proof -
  define b where "b = tr_buffer tr @ token"
  define c where "c = cut_of (tr_redactor tr) (tr_max_buffer tr) b"
  have b': "tr_buffer tr' = drop c b"
    using assms(3) by (auto simp: accept_token_cut Let_def b_def [symmetric] c_def [symmetric])
  show ?thesis
  proof (cases "rfind_char newline b")
    case (Some nl)
    note nl = rfind_char_Some [OF Some]
    have "length (tr_buffer tr) \<le> nl"
    proof (rule ccontr)
      assume "\<not> length (tr_buffer tr) \<le> nl"
      then have "tr_buffer tr ! nl = newline" "nl < length (tr_buffer tr)"
        using nl by (auto simp: b_def nth_append)
      with assms(2) show False by (metis nth_mem)
    qed
    moreover have "c = nl + 1" using Some by (simp add: c_def cut_of_def)
    moreover have "length b = length (tr_buffer tr) + length token" by (simp add: b_def)
    ultimately have "length (drop c b) < length token"
      using nl [THEN conjunct1] by (simp only: length_drop)
    with nl \<open>c = nl + 1\<close> show ?thesis by (simp add: b')
  next
    case None
    then have nn: "newline \<notin> set (drop c b)" by (auto simp: rfind_char_None dest: in_set_dropD)
    let ?d = "longest_dangling_prefix (tr_redactor tr) b"
    show ?thesis
    proof (cases "tr_max_buffer tr \<le> length b")
      case True
      then have c: "c = length b - ?d" using None by (simp add: c_def cut_of_def forced_cut [OF assms(1)])
      show ?thesis
      proof (cases "?d = 0")
        case False
        then obtain l u where u: "(l, u) \<in> set (needles (tr_redactor tr))" "dangles (as_bytes b) u ?d"
          using dangling_witness [of "tr_redactor tr" b] by auto
        then have "length u \<le> max_needle_len (tr_redactor tr)"
          by (force simp: max_needle_len_def intro!: Max_ge)
        with u(2) have "length (drop c b) < max_needle_len (tr_redactor tr)" by (simp add: c dangles_def)
        with nn show ?thesis by (simp add: b')
      qed (use c nn b' in simp)
    next
      case False
      then have "length (drop c b) < tr_max_buffer tr" by (simp only: length_drop)
      then show ?thesis using nn b' by simp
    qed
  qed
qed

theorem stream_buffer_bounded_witness:
  "length (tr_buffer (fst (accept_token (TokenRedactor_new demo_stream_redactor 8) ''aaaaaa ghp_''))) < 9"
proof -
  have "utf8_valid (as_bytes ''ghp_TOKEN'')" by code_simp
  then have v: "valid_needles (tr_redactor (TokenRedactor_new demo_stream_redactor 8))"
    by (simp add: valid_needles_def demo_needles as_bytes_def TokenRedactor_new_def)
  have "newline \<notin> set (tr_buffer (TokenRedactor_new demo_stream_redactor 8))"
    by (simp add: TokenRedactor_new_def)
  from stream_buffer_bounded [OF v this prod.collapse [symmetric], of "''aaaaaa ghp_''"]
  have "length (tr_buffer (fst (accept_token (TokenRedactor_new demo_stream_redactor 8) ''aaaaaa ghp_''))) < 11"
    by (auto simp: TokenRedactor_new_def max_needle_len_def demo_needles)
  moreover have "length (tr_buffer (fst (accept_token (TokenRedactor_new demo_stream_redactor 8) ''aaaaaa ghp_''))) = 4"
    by code_simp
  ultimately show ?thesis by simp
qed

text \<open>
  Without the last condition the stream leaks: a secret that ends the way it begins is complete in
  the buffer when the size limit forces a cut, its tail is held back as the start of another secret,
  and both halves leave unredacted.
\<close>

lemma stream_leaks_bordered_secret:
  "redact_stream (register Redactor_new ''k'' (as_bytes ''abcab'')) 5 [''abcab'', [newline]]
     = [''abc'', ''ab'' @ [newline]]"
  by code_simp

end
