(* ===== verification/Sandbox.thy ===== *)
theory Sandbox
  imports Policy Redactor Ordered_Map Format
    "HOL-Library.List_Lexorder" "HOL-Library.Char_ord"
begin

text \<open>
  Commands (\<^verbatim>\<open>crates/crustcore-runner/src/lib.rs\<close>) and the sandbox that runs them
  (\<^verbatim>\<open>crates/crustcore-sandbox/src/lib.rs\<close>): execution tiers, environment sanitation, the choice of
  a backend and \<^verbatim>\<open>run_command\<close>, the one way a command is launched. The host is a parameter: which
  files exist, and what running a process answers. The model is the build for a target other than
  macOS; the two optional features and the Windows target are flags.
\<close>

section \<open>Commands (crustcore-runner)\<close>

record CommandSpec =
  cs_program :: string
  cs_args :: "string list"
  cs_cwd :: "string option"
  cs_env :: "(string \<times> string) list"
  cs_stdin :: bytes
  cs_timeout_secs :: u64
  cs_max_output_bytes :: nat

definition CommandSpec_new :: "string \<Rightarrow> CommandSpec" where
  "CommandSpec_new program =
     \<lparr>cs_program = program, cs_args = [], cs_cwd = None, cs_env = [], cs_stdin = [],
      cs_timeout_secs = 300, cs_max_output_bytes = 8 * 1024 * 1024\<rparr>"

datatype ExitStatus = Code "32 word" | Signal "32 word" | TimedOut

record CommandResult =
  cr_status :: ExitStatus
  cr_stdout :: bytes
  cr_stderr :: bytes
  cr_truncated :: bool

definition is_success :: "CommandResult \<Rightarrow> bool" where
  "is_success r = (cr_status r = Code 0)"

datatype RunError = Spawn string | RunIo string

fun run_error_message :: "RunError \<Rightarrow> string" where
  "run_error_message (Spawn e) = ''failed to spawn command: '' @ e"
| "run_error_message (RunIo e) = ''command io error: '' @ e"

section \<open>Profiles (crustcore-sandbox)\<close>

datatype ExecutionTier = TierNone | StructuredHost | Sandboxed | Hostile

text \<open>The derived order is the order of the variants.\<close>

fun tier_rank :: "ExecutionTier \<Rightarrow> nat" where
  "tier_rank TierNone = 0"
| "tier_rank StructuredHost = 1"
| "tier_rank Sandboxed = 2"
| "tier_rank Hostile = 3"

lemma tier_rank_inj: "tier_rank a = tier_rank b \<Longrightarrow> a = b"
  by (cases a; cases b) simp_all

instantiation ExecutionTier :: linorder
begin

definition less_eq_ExecutionTier :: "ExecutionTier \<Rightarrow> ExecutionTier \<Rightarrow> bool" where
  "less_eq_ExecutionTier a b = (tier_rank a \<le> tier_rank b)"

definition less_ExecutionTier :: "ExecutionTier \<Rightarrow> ExecutionTier \<Rightarrow> bool" where
  "less_ExecutionTier a b = (tier_rank a < tier_rank b)"

instance
  by standard (auto simp: less_eq_ExecutionTier_def less_ExecutionTier_def intro: tier_rank_inj)

end

datatype NetworkPosture = DenyAll | Allowlist

record SandboxProfile =
  sp_id :: ScopeId
  sp_tier :: ExecutionTier
  sp_network :: NetworkPosture
  sp_stripped_env :: "string list"

definition default_stripped_env :: "string list" where
  "default_stripped_env =
     [''LD_PRELOAD'', ''LD_LIBRARY_PATH'', ''DYLD_INSERT_LIBRARIES'', ''DYLD_LIBRARY_PATH'',
      ''GIT_CONFIG'', ''GIT_CONFIG_GLOBAL'',
      ''SSH_AUTH_SOCK'', ''SSH_ASKPASS'', ''AWS_ACCESS_KEY_ID'', ''AWS_SECRET_ACCESS_KEY'',
      ''GCP_CREDENTIALS'', ''AZURE_CLIENT_SECRET'', ''NPM_TOKEN'',
      ''BASH_ENV'', ''ENV'', ''SHELLOPTS'', ''BASHOPTS'', ''PROMPT_COMMAND'', ''PS4'',
      ''PERL5OPT'', ''PERL5DB'', ''RUBYOPT'', ''PYTHONSTARTUP'', ''PYTHONINSPECT'',
      ''NODE_OPTIONS'', ''GEM_HOME'', ''RUBYLIB'', ''PERLLIB'', ''PYTHONHOME'',
      ''JAVA_TOOL_OPTIONS'', ''_JAVA_OPTIONS'', ''JDK_JAVA_OPTIONS'', ''GOFLAGS'', ''GOENV'',
      ''ZDOTDIR'', ''LESSOPEN'', ''LESSCLOSE'']"

definition default_sandboxed :: SandboxProfile where
  "default_sandboxed =
     \<lparr>sp_id = ScopeId 1, sp_tier = Sandboxed, sp_network = DenyAll,
      sp_stripped_env = default_stripped_env\<rparr>"

datatype SandboxError = NoBackend | Setup string

fun sandbox_error_message :: "SandboxError \<Rightarrow> string" where
  "sandbox_error_message NoBackend = ''no sandbox backend available on this host''"
| "sandbox_error_message (Setup e) = ''sandbox setup failed: '' @ e"

section \<open>Environment sanitation\<close>

definition PATH_LIST_VARS :: "string list" where
  "PATH_LIST_VARS =
     [''PATH'', ''LD_LIBRARY_PATH'', ''DYLD_LIBRARY_PATH'', ''DYLD_FRAMEWORK_PATH'', ''PYTHONPATH'',
      ''NODE_PATH'', ''GEM_PATH'', ''PERL5LIB'', ''CLASSPATH'']"

definition STRIPPED_PREFIXES :: "string list" where
  "STRIPPED_PREFIXES =
     [''LD_'', ''DYLD_'', ''GIT_'', ''AWS_'', ''GCP_'', ''GOOGLE_'', ''AZURE_'', ''NPM_'', ''DOCKER_'']"

definition HOME_DIR_VARS :: "string list" where
  "HOME_DIR_VARS = [''HOME'', ''XDG_CONFIG_HOME'']"

definition credential_words :: "string list" where
  "credential_words =
     [''TOKEN'', ''SECRET'', ''PASSWORD'', ''PASSWD'', ''APIKEY'', ''API_KEY'', ''PRIVATE_KEY'', ''CREDENTIAL'']"

definition is_stripped :: "string \<Rightarrow> SandboxProfile \<Rightarrow> bool" where
  "is_stripped name profile =
     (let upper = to_ascii_uppercase name in
      list_ex (\<lambda>s. eq_ignore_ascii_case s name) (sp_stripped_env profile)
      \<or> list_ex (\<lambda>p. prefix p upper) STRIPPED_PREFIXES
      \<or> list_ex (\<lambda>needle. str_contains upper needle) credential_words)"

text \<open>\<^verbatim>\<open>Path::is_absolute\<close> on Unix.\<close>

definition is_absolute :: "string \<Rightarrow> bool" where
  "is_absolute s = prefix ''/'' s"

abbreviation nul :: char where
  "nul \<equiv> CHR 0x00"

definition check_component :: "string \<Rightarrow> string + unit" where
  "check_component entry =
     (if entry = [] then Inl ''empty component (an empty entry means the current directory)''
      else if nul \<in> set entry then Inl ''component contains a NUL byte''
      else if \<not> is_absolute entry then Inl (''relative component '' @ [CHR 0x27] @ entry @ [CHR 0x27] @ '' (must be absolute)'')
      else if list_ex (\<lambda>c. c = ParentDir \<or> c = CurDir) (components entry)
      then Inl (''component '' @ [CHR 0x27] @ entry @ [CHR 0x27] @ '' contains '' @ [CHR 0x27] @ ''.'' @ [CHR 0x27]
                  @ '' or '' @ [CHR 0x27] @ ''..'' @ [CHR 0x27])
      else Inr ())"

fun first_error :: "('a \<Rightarrow> 'e + unit) \<Rightarrow> 'a list \<Rightarrow> 'e + unit" where
  "first_error f [] = Inr ()"
| "first_error f (x # xs) = and_then (f x) (\<lambda>_. first_error f xs)"

definition validate_path_list :: "string \<Rightarrow> string + unit" where
  "validate_path_list value = first_error check_component (split_on (CHR '':'') value)"

definition env_message :: "string \<Rightarrow> string \<Rightarrow> SandboxError" where
  "env_message name e = Setup (''env '' @ name @ '': '' @ e)"

definition inside_message :: "string \<Rightarrow> string" where
  "inside_message what = [CHR 0x27] @ what @ [CHR 0x27] @ '' is inside the (writable) worktree''"

definition check_path_list :: "string \<Rightarrow> string \<Rightarrow> path option \<Rightarrow> SandboxError + unit" where
  "check_path_list name value worktree =
     and_then (case validate_path_list value of Inl e \<Rightarrow> Inl (env_message name e) | Inr u \<Rightarrow> Inr u) (\<lambda>_.
       (case worktree of
          None \<Rightarrow> Inr ()
        | Some root \<Rightarrow>
            first_error (\<lambda>entry.
              if starts_with (components entry) root
              then Inl (env_message name (''component '' @ inside_message entry)) else Inr ())
              (split_on (CHR '':'') value)))"

definition check_home :: "string \<Rightarrow> string \<Rightarrow> path option \<Rightarrow> SandboxError + unit" where
  "check_home name value worktree =
     (if \<not> is_absolute value
      then Inl (env_message name ([CHR 0x27] @ value @ [CHR 0x27] @ '' must be an absolute path''))
      else (case worktree of
              None \<Rightarrow> Inr ()
            | Some root \<Rightarrow>
                if starts_with (components value) root
                then Inl (env_message name (inside_message value)) else Inr ()))"

definition check_variable :: "string \<Rightarrow> string \<Rightarrow> path option \<Rightarrow> SandboxError + unit" where
  "check_variable name value worktree =
     (if nul \<in> set value then Inl (env_message name ''value contains a NUL byte'')
      else and_then (if name \<in> set PATH_LIST_VARS then check_path_list name value worktree else Inr ()) (\<lambda>_.
           if name \<in> set HOME_DIR_VARS then check_home name value worktree else Inr ()))"

fun sanitize_loop ::
  "SandboxProfile \<Rightarrow> path option \<Rightarrow> (string \<times> string) list \<Rightarrow> (string \<times> string) list
     \<Rightarrow> SandboxError + (string \<times> string) list" where
  "sanitize_loop profile worktree [] out = Inr out"
| "sanitize_loop profile worktree ((name, value) # rest) out =
     (if is_stripped name profile then sanitize_loop profile worktree rest out
      else and_then (check_variable name value worktree) (\<lambda>_.
        sanitize_loop profile worktree rest (bt_insert name value out)))"

definition sanitize_env ::
  "(string \<times> string) list \<Rightarrow> SandboxProfile \<Rightarrow> path option \<Rightarrow> SandboxError + (string \<times> string) list" where
  "sanitize_env requested profile worktree = sanitize_loop profile worktree requested []"

section \<open>Backends\<close>

record host =
  h_is_file :: "string \<Rightarrow> bool"
  h_exists :: "string \<Rightarrow> bool"
  h_run :: "CommandSpec \<Rightarrow> RunError + CommandResult"

record build =
  b_firecracker :: bool
  b_windows_native :: bool
  b_target_windows :: bool

datatype backend = Bubblewrap string | Firecracker string | WindowsNative

fun provided_tier :: "backend \<Rightarrow> ExecutionTier" where
  "provided_tier (Bubblewrap _) = Sandboxed"
| "provided_tier (Firecracker _) = Hostile"
| "provided_tier WindowsNative = Sandboxed"

text \<open>\<^verbatim>\<open>Iterator::min_by_key\<close>: the first element with the least key.\<close>

fun min_by_key :: "('a \<Rightarrow> 'k::linorder) \<Rightarrow> 'a list \<Rightarrow> 'a option" where
  "min_by_key f [] = None"
| "min_by_key f (x # xs) =
     (case min_by_key f xs of None \<Rightarrow> Some x | Some y \<Rightarrow> if f x \<le> f y then Some x else Some y)"

definition select_backend :: "ExecutionTier \<Rightarrow> backend list \<Rightarrow> SandboxError + backend" where
  "select_backend required backends =
     ok_or (min_by_key provided_tier (filter (\<lambda>b. provided_tier b \<ge> required) backends)) NoBackend"

definition find_executable :: "host \<Rightarrow> string \<Rightarrow> string option" where
  "find_executable h name =
     find (h_is_file h) (map (\<lambda>dir. dir @ ''/'' @ name) [''/usr/bin'', ''/bin'', ''/usr/local/bin'', ''/opt/homebrew/bin''])"

definition read_only_dirs :: "string list" where
  "read_only_dirs = [''/usr'', ''/bin'', ''/sbin'', ''/lib'', ''/lib64'', ''/etc'', ''/opt'']"

definition bwrap_wrap :: "host \<Rightarrow> string \<Rightarrow> CommandSpec \<Rightarrow> CommandSpec" where
  "bwrap_wrap h bwrap spec =
     (let args =
            [''--die-with-parent'', ''--unshare-all'', ''--new-session'']
            @ concat (map (\<lambda>ro. if h_exists h ro then [''--ro-bind'', ro, ro] else []) read_only_dirs)
            @ [''--proc'', ''/proc'', ''--dev'', ''/dev'', ''--tmpfs'', ''/tmp'']
            @ (case cs_cwd spec of
                 Some cwd \<Rightarrow> [''--bind'', cwd, cwd, ''--chdir'', cwd]
               | None \<Rightarrow> [])
            @ [''--'', cs_program spec] @ cs_args spec
      in \<lparr>cs_program = bwrap, cs_args = args, cs_cwd = None, cs_env = cs_env spec, cs_stdin = cs_stdin spec,
          cs_timeout_secs = cs_timeout_secs spec, cs_max_output_bytes = cs_max_output_bytes spec\<rparr>)"

definition bwrap_run :: "host \<Rightarrow> string \<Rightarrow> SandboxProfile \<Rightarrow> CommandSpec \<Rightarrow> SandboxError + CommandResult" where
  "bwrap_run h bwrap profile spec =
     and_then (sanitize_env (cs_env spec) profile (map_option components (cs_cwd spec))) (\<lambda>env.
       (case h_run h (bwrap_wrap h bwrap (spec\<lparr>cs_env := env\<rparr>)) of
          Inl e \<Rightarrow> Inl (Setup (run_error_message e))
        | Inr r \<Rightarrow> Inr r))"

definition firecracker_wrap :: "string \<Rightarrow> CommandSpec \<Rightarrow> string \<Rightarrow> CommandSpec" where
  "firecracker_wrap firecracker spec vm_config =
     spec\<lparr>cs_program := firecracker,
          cs_args := [''--no-api'', ''--config-file'', vm_config, ''--'', cs_program spec] @ cs_args spec\<rparr>"

definition worktree_needed :: SandboxError where
  "worktree_needed = Setup ''firecracker backend requires a worktree cwd to mount into the guest''"

definition firecracker_wrapped_spec :: "string \<Rightarrow> CommandSpec \<Rightarrow> string \<Rightarrow> SandboxError + CommandSpec" where
  "firecracker_wrapped_spec firecracker spec vm_config =
     (if cs_cwd spec = None then Inl worktree_needed else Inr (firecracker_wrap firecracker spec vm_config))"

definition firecracker_run :: "SandboxProfile \<Rightarrow> CommandSpec \<Rightarrow> SandboxError + CommandResult" where
  "firecracker_run profile spec =
     and_then (sanitize_env (cs_env spec) profile (map_option components (cs_cwd spec))) (\<lambda>_.
       and_then (ok_or (cs_cwd spec) worktree_needed) (\<lambda>_.
         Inl (Setup (''firecracker microVM boot is not yet wired up (TODO(B4-firecracker-live)); ''
                      @ ''refusing rather than running unconfined''))))"

definition windows_run :: "SandboxProfile \<Rightarrow> CommandSpec \<Rightarrow> SandboxError + CommandResult" where
  "windows_run profile spec =
     and_then (sanitize_env (cs_env spec) profile (map_option components (cs_cwd spec))) (\<lambda>_.
       Inl (Setup (''windows-native confinement is not yet implemented (TODO(B4-windows-live)); ''
                    @ ''refusing rather than running unconfined'')))"

fun backend_run :: "host \<Rightarrow> backend \<Rightarrow> SandboxProfile \<Rightarrow> CommandSpec \<Rightarrow> SandboxError + CommandResult" where
  "backend_run h (Bubblewrap bwrap) profile spec = bwrap_run h bwrap profile spec"
| "backend_run h (Firecracker fc) profile spec = firecracker_run profile spec"
| "backend_run h WindowsNative profile spec = windows_run profile spec"

definition bwrap_detect :: "host \<Rightarrow> backend option" where
  "bwrap_detect h = map_option Bubblewrap (find_executable h ''bwrap'')"

definition firecracker_detect :: "host \<Rightarrow> backend option" where
  "firecracker_detect h = map_option Firecracker (find_executable h ''firecracker'')"

definition windows_detect :: "build \<Rightarrow> backend option" where
  "windows_detect b = (if b_target_windows b then Some WindowsNative else None)"

definition available_backends :: "build \<Rightarrow> host \<Rightarrow> backend list" where
  "available_backends b h =
     List.map_filter id
       ([bwrap_detect h]
        @ (if b_firecracker b then [firecracker_detect h] else [])
        @ (if b_windows_native b then [windows_detect b] else []))"

definition debug_scope :: "ScopeId \<Rightarrow> string" where
  "debug_scope s = (case s of ScopeId n \<Rightarrow> ''ScopeId('' @ show_nat (unat n) @ '')'')"

definition run_command ::
  "build \<Rightarrow> host \<Rightarrow> SandboxExecCap \<Rightarrow> SandboxProfile \<Rightarrow> CommandSpec \<Rightarrow> SandboxError + CommandResult" where
  "run_command b h cap profile spec =
     (if sec_profile cap \<noteq> sp_id profile
      then Inl (Setup (''sandbox capability profile '' @ debug_scope (sec_profile cap)
                        @ '' does not authorize profile '' @ debug_scope (sp_id profile)))
      else if sp_tier profile = TierNone \<or> sp_tier profile = StructuredHost
      then Inl (Setup ''this tier does not execute arbitrary commands (use the structured tools)'')
      else if sp_network profile = Allowlist
      then Inl (Setup ''network allowlist requires the egress proxy (not yet implemented)'')
      else and_then (select_backend (sp_tier profile) (available_backends b h)) (\<lambda>backend.
        backend_run h backend profile spec))"

end
