(* ===== verification/Sandbox_Props.thy ===== *)
theory Sandbox_Props
  imports Sandbox
begin

text \<open>
  What crosses into a sandbox: the exact result of sanitizing an environment, the argument list
  handed to \<^verbatim>\<open>bwrap\<close>, and that \<^verbatim>\<open>run_command\<close> launches a confined command or nothing.
\<close>

section \<open>Sanitation\<close>

definition outside :: "path option \<Rightarrow> string \<Rightarrow> bool" where
  "outside worktree p = (case worktree of None \<Rightarrow> True | Some root \<Rightarrow> \<not> prefix root (components p))"

definition safe_entry :: "path option \<Rightarrow> string \<Rightarrow> bool" where
  "safe_entry worktree e =
     (prefix ''/'' e \<and> nul \<notin> set e \<and> ParentDir \<notin> set (components e) \<and> outside worktree e)"

definition safe_variable :: "path option \<Rightarrow> string \<times> string \<Rightarrow> bool" where
  "safe_variable worktree nv =
     (case nv of (name, value) \<Rightarrow>
        nul \<notin> set value
        \<and> (if name \<in> set PATH_LIST_VARS then list_all (safe_entry worktree) (split_on (CHR '':'') value) else True)
        \<and> (if name \<in> set HOME_DIR_VARS then prefix ''/'' value \<and> outside worktree value else True))"

lemma first_error_iff: "first_error f xs = Inr () \<longleftrightarrow> list_all (\<lambda>x. f x = Inr ()) xs"
  by (induction xs) (auto simp: and_then_Inr_iff)

lemma body_components_no_dot: "CurDir \<notin> set (body_components ps) \<and> RootDir \<notin> set (body_components ps)"
  by (auto simp: body_components_def piece_component_def split: if_splits)

lemma absolute_components: "is_absolute s \<Longrightarrow> \<exists>ps. components s = RootDir # body_components ps"
  by (cases s) (auto simp: is_absolute_def components_def)

lemma check_component_iff:
  "check_component e = Inr () \<longleftrightarrow> prefix ''/'' e \<and> nul \<notin> set e \<and> ParentDir \<notin> set (components e)"
proof (cases "is_absolute e")
  case True
  then have "e \<noteq> []" "CurDir \<notin> set (components e)"
    using absolute_components [of e] body_components_no_dot by (auto simp: is_absolute_def)
  with True show ?thesis by (auto simp: check_component_def is_absolute_def list_ex_iff)
qed (auto simp: check_component_def is_absolute_def)

lemma outside_iff: "outside worktree p \<longleftrightarrow> (\<forall>root. worktree = Some root \<longrightarrow> \<not> starts_with (components p) root)"
  by (cases worktree) (simp_all add: outside_def starts_with_def)

lemma check_path_list_iff:
  "check_path_list name value worktree = Inr () \<longleftrightarrow> list_all (safe_entry worktree) (split_on (CHR '':'') value)"
proof -
  have "validate_path_list value = Inr () \<longleftrightarrow> list_all (\<lambda>e. check_component e = Inr ()) (split_on (CHR '':'') value)"
    by (simp add: validate_path_list_def first_error_iff)
  then show ?thesis
    by (cases "validate_path_list value"; cases worktree)
      (auto simp: check_path_list_def and_then_def first_error_iff list_all_iff check_component_iff
        safe_entry_def outside_def starts_with_def split: if_splits)
qed

lemma check_home_iff: "check_home name value worktree = Inr () \<longleftrightarrow> prefix ''/'' value \<and> outside worktree value"
  by (cases worktree) (simp_all add: check_home_def is_absolute_def outside_def starts_with_def)

lemma check_variable_iff: "check_variable name value worktree = Inr () \<longleftrightarrow> safe_variable worktree (name, value)"
  by (simp add: check_variable_def safe_variable_def and_then_Inr_iff check_path_list_iff check_home_iff)

lemma bt_insert_snoc: "\<forall>x\<in>set (map fst m). x < k \<Longrightarrow> bt_insert k v m = m @ [(k, v)]"
  by (induction m) (auto simp: not_less_iff_gr_or_eq)

abbreviation kept :: "SandboxProfile \<Rightarrow> (string \<times> string) list \<Rightarrow> (string \<times> string) list" where
  "kept profile \<equiv> filter (\<lambda>(name, _). \<not> is_stripped name profile)"

lemma sanitize_loop_iff:
  assumes "sorted_wrt (<) (map fst (out @ rest))"
  shows "sanitize_loop profile worktree rest out = Inr env \<longleftrightarrow>
    env = out @ kept profile rest \<and> list_all (safe_variable worktree) (kept profile rest)"
  using assms
proof (induction profile worktree rest out rule: sanitize_loop.induct)
  case (2 profile worktree name val rest out)
  have s: "sorted_wrt (<) (map fst (out @ rest))" "\<forall>x\<in>set (map fst out). x < name"
    "sorted_wrt (<) (map fst ((out @ [(name, val)]) @ rest))"
    using "2.prems" by (auto simp: sorted_wrt_append)
  show ?case
  proof (cases "is_stripped name profile")
    case False
    then show ?thesis
      using "2.IH"(2) [OF False] s
      by (cases "check_variable name val worktree")
        (auto simp: bt_insert_snoc check_variable_iff [symmetric])
  qed (use "2.IH"(1) s in simp)
qed auto

text \<open>
  The environment of a sandboxed command is exactly the requested one without the stripped
  names, and the launch is refused unless every variable that remains is safe: no NUL byte; in a
  path-list variable every entry absolute, without a parent step and outside the worktree; a home
  directory absolute and lexically outside the worktree.
\<close>

theorem sanitize_env_exact:
  assumes "bt_wf requested"
  shows "sanitize_env requested profile worktree = Inr env \<longleftrightarrow>
    env = filter (\<lambda>(name, _). \<not> is_stripped name profile) requested \<and> list_all (safe_variable worktree) env"
  using sanitize_loop_iff [of "[]" requested] assms
  by (auto simp: sanitize_env_def bt_wf_def)

definition demo_profile :: SandboxProfile where
  "demo_profile = \<lparr>sp_id = ScopeId 1, sp_tier = Sandboxed, sp_network = DenyAll, sp_stripped_env = [''ENV'']\<rparr>"

theorem sanitize_env_exact_witness:
  "sanitize_env [(''GITHUB_TOKEN'', ''ghp''), (''LANG'', ''C''), (''PATH'', ''/usr/bin:/bin'')] demo_profile
     (Some (components ''/work'')) = Inr [(''LANG'', ''C''), (''PATH'', ''/usr/bin:/bin'')]"
proof -
  have "bt_wf [(''GITHUB_TOKEN'', ''ghp''), (''LANG'', ''C''), (''PATH'', ''/usr/bin:/bin'')]" by code_simp
  from sanitize_env_exact [OF this, of demo_profile "Some (components ''/work'')"]
  show ?thesis by simp code_simp
qed

text \<open>
  A home directory is compared with the worktree component by component and may contain parent
  steps, so one that resolves into the worktree passes.
\<close>

lemma home_parent_step_accepted:
  "sanitize_env [(''HOME'', ''/tmp/../work'')] demo_profile (Some (components ''/work'')) =
     Inr [(''HOME'', ''/tmp/../work'')]"
  by code_simp

section \<open>The command line of bwrap\<close>

text \<open>The options of \<^verbatim>\<open>bwrap\<close> the backend uses, with the number of their arguments.\<close>

definition bwrap_arity :: "string \<Rightarrow> nat option" where
  "bwrap_arity opt =
     (if opt \<in> {''--die-with-parent'', ''--unshare-all'', ''--share-net'', ''--new-session''} then Some 0
      else if opt \<in> {''--proc'', ''--dev'', ''--tmpfs'', ''--chdir''} then Some 1
      else if opt \<in> {''--ro-bind'', ''--bind''} then Some 2
      else None)"

text \<open>Options up to \<^verbatim>\<open>--\<close>, each with its arguments, then the command.\<close>

fun bwrap_parse :: "nat \<Rightarrow> string list \<Rightarrow> (string list list \<times> string list) option" where
  "bwrap_parse fuel [] = None"
| "bwrap_parse 0 (opt # rest) = None"
| "bwrap_parse (Suc fuel) (opt # rest) =
     (if opt = ''--'' then Some ([], rest)
      else case bwrap_arity opt of
             None \<Rightarrow> None
           | Some n \<Rightarrow> if length rest < n then None
                       else map_option (\<lambda>(opts, cmd). ((opt # take n rest) # opts, cmd)) (bwrap_parse fuel (drop n rest)))"

lemma bwrap_parse_step:
  assumes "bwrap_arity opt = Some (length as)" "opt \<noteq> ''--''"
    and "bwrap_parse fuel rest = Some (opts, cmd)"
  shows "bwrap_parse (Suc fuel) (opt # as @ rest) = Some ((opt # as) # opts, cmd)"
  using assms by simp

definition grouped :: "string list list \<Rightarrow> bool" where
  "grouped gs = list_all (\<lambda>g. g \<noteq> [] \<and> hd g \<noteq> ''--'' \<and> bwrap_arity (hd g) = Some (length (tl g))) gs"

lemma bwrap_parse_groups:
  "grouped gs \<Longrightarrow> length gs < fuel \<Longrightarrow> bwrap_parse fuel (concat gs @ ''--'' # cmd) = Some (gs, cmd)"
proof (induction gs arbitrary: fuel)
  case Nil
  then show ?case by (cases fuel) simp_all
next
  case (Cons g gs)
  then obtain opt as where g: "g = opt # as" by (cases g) (simp_all add: grouped_def)
  obtain f where f: "fuel = Suc f" using Cons.prems(2) by (cases fuel) simp_all
  have "bwrap_parse f (concat gs @ ''--'' # cmd) = Some (gs, cmd)"
    using Cons f by (simp add: grouped_def)
  moreover have "bwrap_arity opt = Some (length as)" "opt \<noteq> ''--''"
    using Cons.prems(1) g by (simp_all add: grouped_def)
  ultimately show ?case using f g by simp
qed

definition bwrap_groups :: "host \<Rightarrow> string option \<Rightarrow> string list list" where
  "bwrap_groups h cwd =
     [[''--die-with-parent''], [''--unshare-all''], [''--new-session'']]
     @ map (\<lambda>ro. [''--ro-bind'', ro, ro]) (filter (h_exists h) read_only_dirs)
     @ [[''--proc'', ''/proc''], [''--dev'', ''/dev''], [''--tmpfs'', ''/tmp'']]
     @ (case cwd of Some d \<Rightarrow> [[''--bind'', d, d], [''--chdir'', d]] | None \<Rightarrow> [])"

lemma concat_if: "concat (map (\<lambda>x. if P x then f x else []) xs) = concat (map f (filter P xs))"
  by (induction xs) simp_all

lemma bwrap_wrap_args:
  "cs_args (bwrap_wrap h bwrap spec) =
     concat (bwrap_groups h (cs_cwd spec)) @ ''--'' # cs_program spec # cs_args spec"
  by (simp add: bwrap_wrap_def bwrap_groups_def concat_if Let_def split: option.splits)

lemma bwrap_groups_grouped: "grouped (bwrap_groups h cwd)"
  by (cases cwd) (auto simp: grouped_def bwrap_groups_def bwrap_arity_def list_all_iff)

lemma bwrap_groups_binds:
  "filter (\<lambda>g. hd g = ''--bind'') (bwrap_groups h cwd) = (case cwd of None \<Rightarrow> [] | Some d \<Rightarrow> [[''--bind'', d, d]])"
  by (cases cwd) (simp_all add: bwrap_groups_def filter_map comp_def)

lemma bwrap_groups_length: "length (bwrap_groups h cwd) < 16"
proof -
  have "length (filter (h_exists h) read_only_dirs) \<le> 7"
    using length_filter_le [of "h_exists h" read_only_dirs] by (simp add: read_only_dirs_def)
  then show ?thesis by (cases cwd) (simp_all add: bwrap_groups_def)
qed

text \<open>
  What a confined launch of \<open>spec\<close> is: the sandbox program runs it after its own options, every
  namespace is unshared, networking is not shared back, the working directory is the only writable
  mount, the environment is the sanitized one, and input, time and output limits are forwarded.
\<close>

definition confined_launch :: "host \<Rightarrow> SandboxProfile \<Rightarrow> CommandSpec \<Rightarrow> CommandSpec \<Rightarrow> bool" where
  "confined_launch h profile spec launched =
     (find_executable h ''bwrap'' = Some (cs_program launched)
      \<and> sanitize_env (cs_env spec) profile (map_option components (cs_cwd spec)) = Inr (cs_env launched)
      \<and> (\<exists>opts. bwrap_parse 16 (cs_args launched) = Some (opts, cs_program spec # cs_args spec)
           \<and> [''--unshare-all''] \<in> set opts \<and> [''--share-net''] \<notin> set opts
           \<and> {g \<in> set opts. hd g = ''--bind''} = (case cs_cwd spec of None \<Rightarrow> {} | Some d \<Rightarrow> {[''--bind'', d, d]}))
      \<and> cs_stdin launched = cs_stdin spec \<and> cs_timeout_secs launched = cs_timeout_secs spec
      \<and> cs_max_output_bytes launched = cs_max_output_bytes spec)"

lemma bwrap_wrap_confined:
  assumes "find_executable h ''bwrap'' = Some bwrap"
    and "sanitize_env (cs_env spec) profile (map_option components (cs_cwd spec)) = Inr env"
  shows "confined_launch h profile spec (bwrap_wrap h bwrap (spec\<lparr>cs_env := env\<rparr>))"
proof -
  let ?w = "bwrap_wrap h bwrap (spec\<lparr>cs_env := env\<rparr>)"
  let ?gs = "bwrap_groups h (cs_cwd spec)"
  have p: "bwrap_parse 16 (cs_args ?w) = Some (?gs, cs_program spec # cs_args spec)"
    using bwrap_parse_groups [OF bwrap_groups_grouped bwrap_groups_length] by (simp add: bwrap_wrap_args)
  have u: "[''--unshare-all''] \<in> set ?gs" by (simp add: bwrap_groups_def)
  have n: "[''--share-net''] \<notin> set ?gs"
    by (cases "cs_cwd spec") (simp_all add: bwrap_groups_def image_iff)
  have d: "{g \<in> set ?gs. hd g = ''--bind''} =
      (case cs_cwd spec of None \<Rightarrow> {} | Some d \<Rightarrow> {[''--bind'', d, d]})"
    unfolding set_filter [symmetric] bwrap_groups_binds by (simp split: option.splits)
  have f: "cs_program ?w = bwrap" "cs_env ?w = env" "cs_stdin ?w = cs_stdin spec"
    "cs_timeout_secs ?w = cs_timeout_secs spec" "cs_max_output_bytes ?w = cs_max_output_bytes spec"
    by (simp_all add: bwrap_wrap_def Let_def)
  show ?thesis
    unfolding confined_launch_def f
    by (intro conjI exI [of _ ?gs] p u n d assms refl)
qed

section \<open>Choosing a backend\<close>

lemma min_by_key_Some:
  "min_by_key f xs = Some x \<Longrightarrow> x \<in> set xs \<and> (\<forall>y\<in>set xs. f x \<le> f y)"
proof (induction xs arbitrary: x)
  case (Cons a xs)
  show ?case
  proof (cases "min_by_key f xs")
    case None
    then have "xs = []" by (cases xs) (simp_all split: option.splits if_splits)
    with Cons.prems show ?thesis by simp
  next
    case (Some y)
    with Cons.IH [OF Some] Cons.prems show ?thesis by (auto split: if_splits)
  qed
qed simp

lemma min_by_key_None: "min_by_key f xs = None \<longleftrightarrow> xs = []"
  by (cases xs) (simp_all split: option.splits)

lemma select_backend_Inr:
  "select_backend required bs = Inr b \<Longrightarrow>
     b \<in> set bs \<and> required \<le> provided_tier b
     \<and> (\<forall>c\<in>set bs. required \<le> provided_tier c \<longrightarrow> provided_tier b \<le> provided_tier c)"
  using min_by_key_Some [of provided_tier "filter (\<lambda>b. required \<le> provided_tier b) bs" b]
  by (auto simp: select_backend_def ok_or_def split: option.splits)

lemma select_backend_Inl:
  "select_backend required bs = Inl e \<longleftrightarrow> e = NoBackend \<and> (\<forall>b\<in>set bs. \<not> required \<le> provided_tier b)"
  using min_by_key_None [of provided_tier "filter (\<lambda>b. required \<le> provided_tier b) bs"]
  by (auto simp: select_backend_def ok_or_def filter_empty_conv split: option.splits)

lemma available_bubblewrap: "Bubblewrap p \<in> set (available_backends b h) \<Longrightarrow> find_executable h ''bwrap'' = Some p"
  by (auto simp: available_backends_def bwrap_detect_def firecracker_detect_def windows_detect_def
      List.map_filter_def split: if_splits)

lemma tier_cases:
  assumes "\<not> (t = TierNone \<or> t = StructuredHost)" "t \<le> provided_tier c"
  shows "t = Sandboxed \<or> (t = Hostile \<and> (\<exists>p. c = Firecracker p))"
  using assms by (cases t; cases c) (simp_all add: less_eq_ExecutionTier_def)

text \<open>
  Running a command reduces to one call of the process runner on a confined launch, or to none: the
  result of a refusal does not depend on the runner.
\<close>

lemma run_command_cases:
  obtains (refused) e where "\<And>r. run_command b (h\<lparr>h_run := r\<rparr>) cap profile spec = Inl e"
  | (launched) launched where "confined_launch h profile spec launched"
      "sec_profile cap = sp_id profile" "sp_tier profile = Sandboxed" "sp_network profile = DenyAll"
      "\<And>r. run_command b (h\<lparr>h_run := r\<rparr>) cap profile spec =
             (case r launched of Inl e \<Rightarrow> Inl (Setup (run_error_message e)) | Inr res \<Rightarrow> Inr res)"
proof (cases "sec_profile cap = sp_id profile \<and> \<not> (sp_tier profile = TierNone \<or> sp_tier profile = StructuredHost)
    \<and> sp_network profile = DenyAll")
  case False
  then consider "sec_profile cap \<noteq> sp_id profile"
    | "sec_profile cap = sp_id profile" "sp_tier profile = TierNone \<or> sp_tier profile = StructuredHost"
    | "sec_profile cap = sp_id profile" "\<not> (sp_tier profile = TierNone \<or> sp_tier profile = StructuredHost)"
      "sp_network profile = Allowlist"
    by (cases "sp_network profile") auto
  then show ?thesis by cases (intro refused, simp add: run_command_def)+
next
  case True
  have av: "available_backends b (h\<lparr>h_run := r\<rparr>) = available_backends b h" for r
    by (simp add: available_backends_def bwrap_detect_def firecracker_detect_def find_executable_def)
  have run: "run_command b (h\<lparr>h_run := r\<rparr>) cap profile spec =
      and_then (select_backend (sp_tier profile) (available_backends b h)) (\<lambda>c.
        backend_run (h\<lparr>h_run := r\<rparr>) c profile spec)" for r
    using True by (simp add: run_command_def av)
  show ?thesis
  proof (cases "select_backend (sp_tier profile) (available_backends b h)")
    case (Inl e)
    then show ?thesis by (intro refused) (simp add: run)
  next
    case (Inr c)
    note c = select_backend_Inr [OF Inr]
    let ?env = "sanitize_env (cs_env spec) profile (map_option components (cs_cwd spec))"
    show ?thesis
    proof (cases c)
      case (Bubblewrap p)
      then have p: "find_executable h ''bwrap'' = Some p" using c available_bubblewrap by blast
      have t: "sp_tier profile = Sandboxed" using tier_cases [of "sp_tier profile" c] c True Bubblewrap by blast
      show ?thesis
      proof (cases ?env)
        case (Inl e)
        then show ?thesis by (intro refused) (simp add: run Inr Bubblewrap bwrap_run_def)
      next
        case env: (Inr env)
        have w: "bwrap_wrap (h\<lparr>h_run := r\<rparr>) p s = bwrap_wrap h p s" for r s
          by (simp add: bwrap_wrap_def)
        show ?thesis
          by (rule launched [OF bwrap_wrap_confined [OF p env] _ t])
            (use True in \<open>simp_all add: run Inr Bubblewrap bwrap_run_def env w\<close>)
      qed
    next
      case (Firecracker p)
      then show ?thesis
        by (cases ?env; cases "cs_cwd spec"; intro refused)
          (simp_all add: run Inr firecracker_run_def ok_or_def)
    next
      case WindowsNative
      then show ?thesis by (cases ?env; intro refused) (simp_all add: run Inr windows_run_def)
    qed
  qed
qed

text \<open>
  C15. No command runs outside the sandbox. Whatever the capability, profile, host and command,
  \<^verbatim>\<open>run_command\<close> either refuses without starting any process, or starts exactly one: a confined
  launch of that command under \<^verbatim>\<open>bwrap\<close>, for a capability of this very profile, at the sandboxed
  tier, with all egress denied. Hostile and non-executing tiers and network allowlists never run.
\<close>

theorem sandboxed_or_refused:
  "(\<exists>e. \<forall>r. run_command b (h\<lparr>h_run := r\<rparr>) cap profile spec = Inl e)
   \<or> (\<exists>launched. confined_launch h profile spec launched
        \<and> sec_profile cap = sp_id profile \<and> sp_tier profile = Sandboxed \<and> sp_network profile = DenyAll
        \<and> (\<forall>r. run_command b (h\<lparr>h_run := r\<rparr>) cap profile spec =
               (case r launched of Inl e \<Rightarrow> Inl (Setup (run_error_message e)) | Inr res \<Rightarrow> Inr res)))"
  by (rule run_command_cases [of b h cap profile spec]) blast+

section \<open>The executor contract\<close>

text \<open>
  The verify loop and the worker supervisor are written over an executor. What they may assume of
  it: a result is the result of a confined run of the command they built.
\<close>

locale executor =
  fixes exec :: "CommandSpec \<Rightarrow> SandboxError + CommandResult"
    and ran :: "CommandSpec \<Rightarrow> CommandResult \<Rightarrow> bool"
  assumes exec_ran: "exec c = Inr r \<Longrightarrow> ran c r"

definition ran_confined ::
  "host \<Rightarrow> SandboxExecCap \<Rightarrow> SandboxProfile \<Rightarrow> CommandSpec \<Rightarrow> CommandResult \<Rightarrow> bool" where
  "ran_confined h cap profile spec res =
     (sec_profile cap = sp_id profile \<and> sp_tier profile = Sandboxed \<and> sp_network profile = DenyAll
      \<and> (\<exists>launched. confined_launch h profile spec launched \<and> h_run h launched = Inr res))"

lemma run_command_ran: "run_command b h cap profile spec = Inr res \<Longrightarrow> ran_confined h cap profile spec res"
proof (cases rule: run_command_cases [of b h cap profile spec])
  case (refused e)
  assume "run_command b h cap profile spec = Inr res"
  with refused [of "h_run h"] show ?thesis by simp
next
  case (launched l)
  assume "run_command b h cap profile spec = Inr res"
  with launched(5) [of "h_run h"] have "h_run h l = Inr res" by (simp split: sum.splits)
  with launched(1-4) show ?thesis unfolding ran_confined_def by blast
qed

interpretation sandboxed: executor "run_command b h cap profile" "ran_confined h cap profile"
  for b h cap profile
  by unfold_locales (rule run_command_ran)

end
