(* ===== verification/Backend.thy ===== *)
theory Backend
  imports Sandbox_Props Receipts_Props Confine_Props
begin

text \<open>
  The backend contract (\<^verbatim>\<open>crates/crustcore-backend\<close>): unverified and verified patches
  (\<^verbatim>\<open>lib.rs\<close>), the verify loop, which is the only place a verified patch is minted (\<^verbatim>\<open>verify.rs\<close>),
  and the gate that turns a verified patch and an approval into a draft pull request
  (\<^verbatim>\<open>integrate.rs\<close>).
\<close>

section \<open>The contract (lib.rs)\<close>

datatype BackendKind = Native | Codex | ClaudeCode | ExternalCommand

record PatchRef =
  diff_hash :: bytes

record Risk =
  risk_summary :: BoundedText

record CommandRecord =
  record_command :: BoundedText

record BackendResult =
  br_backend :: BackendKind
  br_summary :: BoundedText
  br_patch :: "PatchRef option"
  br_self_claimed_done :: bool
  br_commands_run :: "CommandRecord list"
  br_risks :: "Risk list"

datatype UnverifiedPatch = UnverifiedPatch PatchRef

record CommandEvidence =
  ce_command :: BoundedText
  ce_passed :: bool

datatype VerifierName = VerifierName (verifier_text: BoundedText)

definition VerifierName_new :: "string \<Rightarrow> VerifierName" where
  "VerifierName_new name = VerifierName (truncated name DEFAULT_MAX)"

record VerifiedPatch =
  vp_patch :: PatchRef
  vp_verifier :: VerifierName
  vp_commands :: "CommandEvidence list"
  vp_passed_at :: Timestamp
  vp_receipt :: ToolReceipt

definition from_verifier ::
  "PatchRef \<Rightarrow> VerifierName \<Rightarrow> CommandEvidence list \<Rightarrow> Timestamp \<Rightarrow> ToolReceipt \<Rightarrow> VerifiedPatch" where
  "from_verifier patch verifier commands passed_at receipt =
     \<lparr>vp_patch = patch, vp_verifier = verifier, vp_commands = commands, vp_passed_at = passed_at,
      vp_receipt = receipt\<rparr>"

record Completion =
  completion_patch :: VerifiedPatch

definition complete_task :: "VerifiedPatch \<Rightarrow> Completion" where
  "complete_task patch = \<lparr>completion_patch = patch\<rparr>"

section \<open>Paths as text\<close>

text \<open>\<^verbatim>\<open>Path::to_string_lossy\<close> of a path given by its components.\<close>

fun component_str :: "Component \<Rightarrow> string" where
  "component_str RootDir = ''/''"
| "component_str CurDir = ''.''"
| "component_str ParentDir = ''..''"
| "component_str (Normal s) = s"

definition path_string :: "path \<Rightarrow> string" where
  "path_string p =
     (case p of
        RootDir # rest \<Rightarrow> ''/'' @ join_with ''/'' (map component_str rest)
      | _ \<Rightarrow> join_with ''/'' (map component_str p))"

definition to_string_lossy :: "path \<Rightarrow> string" where
  "to_string_lossy p = utf8_lossy (as_bytes (path_string p))"

section \<open>The verify loop (verify.rs)\<close>

definition MAX_VERIFY_OUTPUT :: nat where
  "MAX_VERIFY_OUTPUT = 256 * 1024"

record VerifySpec =
  vs_program :: string
  vs_args :: "string list"

definition VerifySpec_new :: "string \<Rightarrow> string list \<Rightarrow> VerifySpec" where
  "VerifySpec_new program args = \<lparr>vs_program = program, vs_args = args\<rparr>"

definition detect :: "(path \<Rightarrow> bool) \<Rightarrow> path \<Rightarrow> VerifySpec option" where
  "detect is_file repo =
     (if is_file (repo @ [Normal ''Cargo.toml'']) then Some (VerifySpec_new ''cargo'' [''test''])
      else if is_file (repo @ [Normal ''package.json'']) then Some (VerifySpec_new ''npm'' [''test'', ''--silent''])
      else if is_file (repo @ [Normal ''Makefile'']) then Some (VerifySpec_new ''make'' [''test''])
      else None)"

definition display :: "VerifySpec \<Rightarrow> string" where
  "display spec =
     (if vs_args spec = [] then vs_program spec
      else vs_program spec @ '' '' @ join_with '' '' (vs_args spec))"

record VerifyIds =
  vi_task_id :: TaskId
  vi_job_id :: JobId
  vi_tool_call_id :: ToolCallId
  vi_event_seq :: EventSeq
  vi_now :: Timestamp

datatype VerifyOutcome = Verified VerifiedPatch | Failed ExitStatus BoundedText | Refused string

fun completed :: "VerifyOutcome \<Rightarrow> bool" where
  "completed (Verified _) = True"
| "completed (Failed _ _) = False"
| "completed (Refused _) = False"

definition verify_command :: "WorktreeRoot \<Rightarrow> VerifySpec \<Rightarrow> CommandSpec" where
  "verify_command worktree spec =
     (CommandSpec_new (vs_program spec))
       \<lparr>cs_args := vs_args spec, cs_cwd := Some (to_string_lossy (as_path worktree)), cs_env := [],
        cs_max_output_bytes := MAX_VERIFY_OUTPUT\<rparr>"

definition shown_output :: "CommandResult \<Rightarrow> bytes" where
  "shown_output r = take MAX_VERIFY_OUTPUT (cr_stdout r @ cr_stderr r)"

definition verify_params :: "VerifySpec \<Rightarrow> VerifyIds \<Rightarrow> bytes \<Rightarrow> ReceiptParams" where
  "verify_params spec ids output =
     \<lparr>rp_task_id = vi_task_id ids, rp_job_id = vi_job_id ids, rp_tool_call_id = vi_tool_call_id ids,
      rp_tool_name = as_bytes ''verify'', rp_args = as_bytes (display spec), rp_result = output,
      rp_artifacts = [], rp_event_seq = vi_event_seq ids\<rparr>"

definition run_verify_with ::
  "WorktreeRoot \<Rightarrow> VerifySpec \<Rightarrow> PatchRef \<Rightarrow> ReceiptChain \<Rightarrow> VerifyIds
     \<Rightarrow> (CommandSpec \<Rightarrow> SandboxError + CommandResult) \<Rightarrow> ReceiptChain \<times> VerifyOutcome" where
  "run_verify_with worktree spec patch receipts ids exec =
     (case exec (verify_command worktree spec) of
        Inl e \<Rightarrow> (receipts, Refused (sandbox_error_message e))
      | Inr result \<Rightarrow>
          let output = shown_output result in
          if \<not> is_success result
          then (receipts, Failed (cr_status result) (truncated (utf8_lossy output) MAX_VERIFY_OUTPUT))
          else
            let (receipts', receipt) = mint receipts (verify_params spec ids output);
                verifier = VerifierName_new (display spec);
                evidence = [\<lparr>ce_command = verifier_text verifier, ce_passed = True\<rparr>]
            in (receipts', Verified (from_verifier patch verifier evidence (vi_now ids) receipt)))"

definition run_verify ::
  "build \<Rightarrow> host \<Rightarrow> SandboxExecCap \<Rightarrow> SandboxProfile \<Rightarrow> WorktreeRoot \<Rightarrow> VerifySpec \<Rightarrow> PatchRef
     \<Rightarrow> ReceiptChain \<Rightarrow> VerifyIds \<Rightarrow> ReceiptChain \<times> VerifyOutcome" where
  "run_verify b h cap profile worktree spec patch receipts ids =
     run_verify_with worktree spec patch receipts ids (run_command b h cap profile)"

section \<open>The integration gate (integrate.rs)\<close>

record PrIntent =
  pr_repo :: RepoRef
  pr_head_branch :: string
  pr_base_branch :: string
  pr_draft :: bool
  pr_title :: string
  pr_body :: string
  pr_approval_id :: ApprovalId

datatype IntegrateError = ApprovalExpired | BranchNotUnderPrefix string

fun integrate_message :: "IntegrateError \<Rightarrow> string" where
  "integrate_message ApprovalExpired = ''approval expired''"
| "integrate_message (BranchNotUnderPrefix b) =
     ''branch '' @ [CHR 0x27] @ b @ [CHR 0x27] @ '' is not under the capability'' @ [CHR 0x27] @ ''s prefix''"

text \<open>\<^verbatim>\<open>str::trim_end_matches\<close> of one character.\<close>

definition trim_end_matches :: "char \<Rightarrow> string \<Rightarrow> string" where
  "trim_end_matches c s = rev (dropWhile (\<lambda>x. x = c) (rev s))"

definition branch_under_prefix :: "string \<Rightarrow> string \<Rightarrow> bool" where
  "branch_under_prefix branch pre =
     (if list_ex (\<lambda>seg. seg = ''..'' \<or> seg = ''.'') (split_on (CHR ''/'') branch) then False
      else let pre = trim_end_matches (CHR ''/'') pre in
           if pre = [] then False
           else branch = pre \<or> prefix (pre @ ''/'') branch)"

definition hex32 :: "bytes \<Rightarrow> string" where
  "hex32 bytes = concat (map hex_byte bytes)"

abbreviation line_feed :: string where
  "line_feed \<equiv> [CHR 0x0A]"

definition dash :: string where
  "dash = of_bytes [0xE2, 0x80, 0x94]"

definition code_span :: "string \<Rightarrow> string" where
  "code_span s = [CHR 0x60] @ s @ [CHR 0x60]"

definition evidence_line :: "CommandEvidence \<Rightarrow> string" where
  "evidence_line c =
     ''- '' @ code_span (as_str (ce_command c)) @ '' '' @ dash @ '' ''
     @ (if ce_passed c then ''passed'' else ''FAILED'') @ line_feed"

definition receipt_line :: "ToolReceipt \<Rightarrow> string" where
  "receipt_line r =
     ''- Receipt event seq: '' @ code_span (show_nat (unat (seq_no (tr_event_seq r))))
     @ '' (task '' @ code_span (show_nat (unat (task_no (tr_task_id r))))
     @ '', job '' @ code_span (show_nat (unat (job_no (tr_job_id r))))
     @ '', tool call '' @ code_span (show_nat (unat (call_no (tr_tool_call_id r)))) @ '')'' @ line_feed"

definition format_pr_body :: "VerifiedPatch \<Rightarrow> string" where
  "format_pr_body patch =
     ''## CrustCore evidence-backed draft PR'' @ line_feed @ line_feed
     @ ''**Human review required before merge.** CrustCore verified this patch; it did not ''
     @ ''approve deployment, release, or merge.'' @ line_feed @ line_feed
     @ ''### Verification'' @ line_feed @ line_feed
     @ ''**Verifier:** '' @ code_span (as_str (verifier_text (vp_verifier patch))) @ line_feed @ line_feed
     @ ''**Command evidence:**'' @ line_feed
     @ (if vp_commands patch = [] then ''- (none recorded)'' @ line_feed
        else concat (map evidence_line (vp_commands patch)))
     @ line_feed @ ''### Patch and receipt references'' @ line_feed @ line_feed
     @ ''- Patch hash: '' @ code_span (hex32 (diff_hash (vp_patch patch))) @ line_feed
     @ receipt_line (vp_receipt patch)
     @ ''- Receipt result hash: '' @ code_span (hex32 (tr_result_hash (vp_receipt patch))) @ line_feed
     @ line_feed @ ''### Risk notes'' @ line_feed @ line_feed
     @ ''- No unresolved risk was attached to this verified integration gate.'' @ line_feed
     @ ''- Review changed files, tests, and CI before merging.'' @ line_feed
     @ line_feed @ ''Verification passed at t='' @ show_nat (unat (as_millis (vp_passed_at patch)))
     @ '' ms (receipt-backed). A model'' @ [CHR 0x27]
     @ ''s self-claim is **not** evidence; only the verifier'' @ [CHR 0x27] @ ''s run is.'' @ line_feed"

definition open_pr ::
  "GitHubWriteCap Approved \<Rightarrow> VerifiedPatch \<Rightarrow> string \<Rightarrow> string \<Rightarrow> Timestamp \<Rightarrow> IntegrateError + PrIntent" where
  "open_pr approval patch head_branch base_branch now =
     (if \<not> is_valid_at approval now then Inl ApprovalExpired
      else let cap = ap_value approval in
        if \<not> branch_under_prefix head_branch (as_str (prefix_text (gwc_branch_prefix cap)))
        then Inl (BranchNotUnderPrefix head_branch)
        else Inr \<lparr>pr_repo = RepoRef (repo_text (gwc_repo cap)), pr_head_branch = head_branch,
                  pr_base_branch = base_branch, pr_draft = True,
                  pr_title = ''[crustcore] verified patch on '' @ head_branch,
                  pr_body = format_pr_body patch, pr_approval_id = ap_approval_id approval\<rparr>)"

end
