(* ===== verification/Worker.thy ===== *)
theory Worker
  imports Backend "HOL-Library.Product_Lexorder"
begin

text \<open>
  External workers (\<^verbatim>\<open>crates/crustcore-backend/src/worker.rs\<close>): the input contract handed to a
  worker, the supervisor that runs it in the sandbox, the guard manifest over the space next to the
  worktree, and the change that is re-derived from the worktree. What the supervisor reads of the
  outside is a parameter, the \<^verbatim>\<open>world\<close>: directory listings and metadata, path resolution, and the
  output of the two git commands; one world before the worker ran and one after.
\<close>

definition MAX_WORKER_OUTPUT :: nat where "MAX_WORKER_OUTPUT = 4 * 1024 * 1024"
definition MAX_SUMMARY :: nat where "MAX_SUMMARY = 4 * 1024"
definition MAX_DIFF_BYTES :: nat where "MAX_DIFF_BYTES = 1024 * 1024"
definition MAX_GUARD_ENTRIES :: nat where "MAX_GUARD_ENTRIES = 50000"
definition MAX_GUARD_DEPTH :: nat where "MAX_GUARD_DEPTH = 32"

definition SAFE_PATH :: string where
  "SAFE_PATH = ''/usr/bin:/bin:/usr/local/bin:/opt/homebrew/bin''"

definition DONE_MARKER :: string where
  "DONE_MARKER = ''[[CRUSTCORE_DONE]]''"

section \<open>The input contract\<close>

datatype WorkerNetwork = NetworkDeny

fun network_str :: "WorkerNetwork \<Rightarrow> string" where
  "network_str NetworkDeny = ''deny''"

datatype WorkerSecrets = SecretsNone

fun secrets_str :: "WorkerSecrets \<Rightarrow> string" where
  "secrets_str SecretsNone = ''none''"

record WorkerInput =
  wi_task_id :: TaskId
  wi_goal :: BoundedText
  wi_repo_root :: string
  wi_allowed_roots :: "string list"
  wi_forbidden_paths :: "string list"
  wi_network :: WorkerNetwork
  wi_secrets :: WorkerSecrets
  wi_max_seconds :: u64
  wi_max_output_mb :: u64

definition default_forbidden_paths :: "string list" where
  "default_forbidden_paths = [''~/.ssh'', ''~/.config'', ''/etc'', ''/var'']"

definition for_task :: "TaskId \<Rightarrow> string \<Rightarrow> WorktreeRoot \<Rightarrow> WorkerInput" where
  "for_task task goal worktree =
     (let root = to_string_lossy (as_path worktree) in
      \<lparr>wi_task_id = task, wi_goal = truncated goal DEFAULT_MAX, wi_repo_root = root,
       wi_allowed_roots = [root, ''/tmp''], wi_forbidden_paths = default_forbidden_paths,
       wi_network = NetworkDeny, wi_secrets = SecretsNone, wi_max_seconds = 1800, wi_max_output_mb = 50\<rparr>)"

text \<open>\<^verbatim>\<open>{:0wx}\<close>: hexadecimal, padded to a width that holds the number.\<close>

fun hex_width :: "nat \<Rightarrow> nat \<Rightarrow> string" where
  "hex_width 0 n = []"
| "hex_width (Suc w) n = hex_width w (n div 16) @ [digit (n mod 16)]"

definition quote_mark :: string where
  "quote_mark = [CHR 0x22]"

definition json_char :: "scalar \<Rightarrow> string" where
  "json_char c =
     (if c = 0x22 then [CHR 0x5C, CHR 0x22]
      else if c = 0x5C then [CHR 0x5C, CHR 0x5C]
      else if c = 0x0A then [CHR 0x5C] @ ''n''
      else if c = 0x0D then [CHR 0x5C] @ ''r''
      else if c = 0x09 then [CHR 0x5C] @ ''t''
      else if c < 0x20 then [CHR 0x5C] @ ''u'' @ hex_width 4 c
      else utf8_char c)"

definition json_str :: "string \<Rightarrow> string" where
  "json_str v = quote_mark @ concat (map json_char (chars v)) @ quote_mark"

definition json_kv_str :: "string \<Rightarrow> string \<Rightarrow> string" where
  "json_kv_str k v = quote_mark @ k @ quote_mark @ '':'' @ json_str v"

definition json_kv_arr :: "string \<Rightarrow> string list \<Rightarrow> string" where
  "json_kv_arr k vs = quote_mark @ k @ quote_mark @ '':['' @ join_with '','' (map json_str vs) @ '']''"

definition json_kv_num :: "string \<Rightarrow> u64 \<Rightarrow> string" where
  "json_kv_num k n = quote_mark @ k @ quote_mark @ '':'' @ show_nat (unat n)"

definition to_json :: "WorkerInput \<Rightarrow> string" where
  "to_json i =
     ''{'' @ json_kv_str ''task_id'' (hex_width 32 (unat (task_no (wi_task_id i))))
     @ '','' @ json_kv_str ''goal'' (as_str (wi_goal i))
     @ '','' @ json_kv_str ''repo_root'' (wi_repo_root i)
     @ '','' @ json_kv_arr ''allowed_roots'' (wi_allowed_roots i)
     @ '','' @ json_kv_arr ''forbidden_paths'' (wi_forbidden_paths i)
     @ '','' @ json_kv_str ''network'' (network_str (wi_network i))
     @ '','' @ json_kv_str ''secrets'' (secrets_str (wi_secrets i))
     @ '','' @ json_kv_num ''max_seconds'' (wi_max_seconds i)
     @ '','' @ json_kv_num ''max_output_mb'' (wi_max_output_mb i)
     @ '','' @ json_kv_arr ''must_return''
         [''summary'', ''diff'', ''tests_run'', ''commands_run'', ''risks'', ''files_changed'']
     @ ''}''"

section \<open>Backends and their claims\<close>

record WorkerCommand =
  wc_program :: string
  wc_args :: "string list"
  wc_stdin :: bytes

record WorkerClaims =
  cl_self_claimed_done :: bool
  cl_commands_run :: "CommandRecord list"
  cl_risks :: "Risk list"

datatype CodingBackend =
  ExternalCommandBackend string "string list" BackendKind
| CodexBackend string "string list"
| ClaudeCodeBackend string "string list"

fun backend_kind :: "CodingBackend \<Rightarrow> BackendKind" where
  "backend_kind (ExternalCommandBackend _ _ k) = k"
| "backend_kind (CodexBackend _ _) = Codex"
| "backend_kind (ClaudeCodeBackend _ _) = ClaudeCode"

definition ExternalCommandBackend_new :: "string \<Rightarrow> string list \<Rightarrow> CodingBackend" where
  "ExternalCommandBackend_new program args = ExternalCommandBackend program args ExternalCommand"

definition CodexBackend_default :: CodingBackend where
  "CodexBackend_default = CodexBackend ''codex'' []"

definition ClaudeCodeBackend_default :: CodingBackend where
  "ClaudeCodeBackend_default = ClaudeCodeBackend ''claude'' []"

fun build_command :: "CodingBackend \<Rightarrow> WorkerInput \<Rightarrow> WorkerCommand" where
  "build_command (ExternalCommandBackend p a _) i = \<lparr>wc_program = p, wc_args = a, wc_stdin = as_bytes (to_json i)\<rparr>"
| "build_command (CodexBackend p a) i = \<lparr>wc_program = p, wc_args = a, wc_stdin = as_bytes (to_json i)\<rparr>"
| "build_command (ClaudeCodeBackend p a) i = \<lparr>wc_program = p, wc_args = a, wc_stdin = as_bytes (to_json i)\<rparr>"

definition windows :: "nat \<Rightarrow> 'a list \<Rightarrow> 'a list list" where
  "windows n xs = map (\<lambda>i. take n (drop i xs)) [0..<Suc (length xs) - n]"

definition find_subslice :: "bytes \<Rightarrow> bytes \<Rightarrow> bool" where
  "find_subslice haystack needle =
     (if needle = [] then True
      else if length haystack < length needle then False
      else list_ex (\<lambda>w. w = needle) (windows (length needle) haystack))"

definition parse_transcript :: "bytes \<Rightarrow> WorkerClaims" where
  "parse_transcript transcript =
     \<lparr>cl_self_claimed_done = find_subslice transcript (as_bytes DONE_MARKER),
      cl_commands_run = [], cl_risks = []\<rparr>"

datatype Sensitivity = NormalFile | Sensitive string

record ChangedFile =
  cf_path :: string
  cf_sensitivity :: Sensitivity

datatype WorkerError =
  NoChanges | OutOfRootWrite string | EscapingChange string | SandboxFailure string | Git string

fun worker_error_message :: "WorkerError \<Rightarrow> string" where
  "worker_error_message NoChanges = ''worker produced no worktree changes''"
| "worker_error_message (OutOfRootWrite p) = ''worker wrote outside the worktree: '' @ p"
| "worker_error_message (EscapingChange p) = ''worker change escapes the worktree root: '' @ p"
| "worker_error_message (SandboxFailure e) = ''worker sandbox error: '' @ e"
| "worker_error_message (Git e) = ''worktree diff extraction failed: '' @ e"

record WorkerProduct =
  wp_result :: BackendResult
  wp_patch :: UnverifiedPatch
  wp_diff :: bytes
  wp_changed_files :: "ChangedFile list"
  wp_transcript :: BoundedText
  wp_claims :: WorkerClaims

section \<open>The guard manifest\<close>

text \<open>Paths are ordered by their components, and those by kind and name.\<close>

fun component_key :: "Component \<Rightarrow> nat \<times> string" where
  "component_key RootDir = (0, [])"
| "component_key CurDir = (1, [])"
| "component_key ParentDir = (2, [])"
| "component_key (Normal s) = (3, s)"

lemma component_key_inj: "component_key a = component_key b \<Longrightarrow> a = b"
  by (cases a; cases b) simp_all

instantiation Component :: linorder
begin

definition less_eq_Component :: "Component \<Rightarrow> Component \<Rightarrow> bool" where
  "less_eq_Component a b = (component_key a \<le> component_key b)"

definition less_Component :: "Component \<Rightarrow> Component \<Rightarrow> bool" where
  "less_Component a b = (component_key a < component_key b)"

instance
proof
  fix x y z :: Component
  show "(x < y) = (x \<le> y \<and> \<not> y \<le> x)" by (auto simp: less_eq_Component_def less_Component_def)
  show "x \<le> x" by (simp add: less_eq_Component_def)
  show "x \<le> y \<Longrightarrow> y \<le> z \<Longrightarrow> x \<le> z" unfolding less_eq_Component_def by (rule order_trans)
  show "x \<le> y \<Longrightarrow> y \<le> x \<Longrightarrow> x = y"
    unfolding less_eq_Component_def using component_key_inj order_antisym by blast
  show "x \<le> y \<or> y \<le> x" unfolding less_eq_Component_def by (rule linear)
qed

end

text \<open>Metadata that does not follow links: a directory, a link, its length, the modification time
  since the epoch if it can be had.\<close>

record metadata =
  md_is_dir :: bool
  md_is_symlink :: bool
  md_len :: u64
  md_mtime :: "nat option"

record world =
  read_dir :: "path \<Rightarrow> path list option"
  symlink_metadata :: "path \<Rightarrow> metadata option"
  resolver :: fs
  git_status_all :: "string + string"
  git_worktree_diff :: "string + string"

record GuardEntry =
  ge_is_dir :: bool
  ge_len :: u64
  ge_mtime :: "nat option"

type_synonym guard_entries = "(path \<times> GuardEntry) list"

record GuardManifest =
  gm_entries :: guard_entries
  gm_roots :: "path list"
  gm_excluded :: "path list"
  gm_truncated :: bool

definition guard_entry :: "metadata \<Rightarrow> GuardEntry" where
  "guard_entry m = \<lparr>ge_is_dir = md_is_dir m, ge_len = md_len m, ge_mtime = md_mtime m\<rparr>"

definition excluded :: "path list \<Rightarrow> path \<Rightarrow> bool" where
  "excluded ex p = list_ex (\<lambda>e. p = e \<or> starts_with p e) ex"

function walk_guard :: "world \<Rightarrow> path list \<Rightarrow> path \<Rightarrow> nat \<Rightarrow> guard_entries \<times> bool \<Rightarrow> guard_entries \<times> bool"
  and walk_entries :: "world \<Rightarrow> path list \<Rightarrow> path list \<Rightarrow> nat \<Rightarrow> guard_entries \<times> bool \<Rightarrow> guard_entries \<times> bool"
where
  "walk_guard w ex dir depth (entries, trunc) =
     (if depth > MAX_GUARD_DEPTH then (entries, True)
      else case read_dir w dir of
             None \<Rightarrow> (entries, trunc)
           | Some paths \<Rightarrow> walk_entries w ex paths depth (entries, trunc))"
| "walk_entries w ex [] depth (entries, trunc) = (entries, trunc)"
| "walk_entries w ex (p # paths) depth (entries, trunc) =
     (if length entries \<ge> MAX_GUARD_ENTRIES then (entries, True)
      else if excluded ex p then walk_entries w ex paths depth (entries, trunc)
      else case symlink_metadata w p of
             None \<Rightarrow> walk_entries w ex paths depth (entries, trunc)
           | Some m \<Rightarrow>
               let entries' = bt_insert p (guard_entry m) entries in
               walk_entries w ex paths depth
                 (if md_is_dir m \<and> \<not> md_is_symlink m
                  then walk_guard w ex p (depth + 1) (entries', trunc) else (entries', trunc)))"
  by pat_completeness auto
termination
  by (relation "measures
        [\<lambda>x. case x of Inl (_, _, _, d, _) \<Rightarrow> if d > MAX_GUARD_DEPTH then 0 else 2 * (MAX_GUARD_DEPTH + 1 - d) + 2
                     | Inr (_, _, _, d, _) \<Rightarrow> 2 * (MAX_GUARD_DEPTH + 1 - d) + 1,
         \<lambda>x. case x of Inl _ \<Rightarrow> 0 | Inr (_, _, ps, _, _) \<Rightarrow> length ps]") auto

definition snapshot :: "world \<Rightarrow> path list \<Rightarrow> path list \<Rightarrow> GuardManifest" where
  "snapshot w roots exclude =
     (let (entries, trunc) = foldl (\<lambda>st root. walk_guard w exclude root 0 st) ([], False) roots in
      \<lparr>gm_entries = entries, gm_roots = roots, gm_excluded = exclude, gm_truncated = trunc\<rparr>)"

definition snapshot_parent :: "world \<Rightarrow> WorktreeRoot \<Rightarrow> GuardManifest" where
  "snapshot_parent w worktree =
     (let wt = as_path worktree in
      case parent wt of
        Some p \<Rightarrow> snapshot w [p] [wt]
      | None \<Rightarrow> \<lparr>gm_entries = [], gm_roots = [], gm_excluded = [], gm_truncated = False\<rparr>)"

definition check_guard :: "world \<Rightarrow> GuardManifest \<Rightarrow> WorkerError + unit" where
  "check_guard w g =
     (let now = snapshot w (gm_roots g) (gm_excluded g) in
      and_then (first_error (\<lambda>(path, before).
                  if bt_get (gm_entries now) path = Some before then Inr ()
                  else Inl (OutOfRootWrite (to_string_lossy path))) (gm_entries g)) (\<lambda>_.
        first_error (\<lambda>path. if bt_get (gm_entries g) path = None
                  then Inl (OutOfRootWrite (to_string_lossy path)) else Inr ()) (map fst (gm_entries now))))"

section \<open>Re-deriving the change\<close>

definition porcelain_records :: "string \<Rightarrow> string list" where
  "porcelain_records porcelain = filter (\<lambda>r. r \<noteq> []) (split_on nul porcelain)"

definition porcelain_path :: "string \<Rightarrow> string option" where
  "porcelain_path record =
     (if length record < 4 then None
      else let path = trim_end_matches (CHR 0x0A) (drop 3 record) in
           if path = [] then None else Some path)"

definition DEP_MANIFESTS :: "string list" where
  "DEP_MANIFESTS =
     [''cargo.toml'', ''cargo.lock'', ''package.json'', ''package-lock.json'', ''yarn.lock'', ''pnpm-lock.yaml'',
      ''go.mod'', ''go.sum'', ''requirements.txt'', ''pyproject.toml'', ''poetry.lock'', ''gemfile'', ''gemfile.lock'']"

definition CRED_NEEDLES :: "string list" where
  "CRED_NEEDLES =
     [''secret'', ''credential'', ''id_rsa'', ''id_ed25519'', ''.env'', ''.npmrc'', ''.pypirc'', ''.netrc'']"

definition classify_path :: "string \<Rightarrow> Sensitivity" where
  "classify_path path =
     (let lower = to_ascii_lowercase path; base = last (split_on (CHR ''/'') lower) in
      if prefix ''.github/workflows/'' lower \<or> str_contains lower ''/.github/workflows/''
      then Sensitive ''ci-workflow''
      else if lower = ''.git'' \<or> prefix ''.git/'' lower \<or> str_contains lower ''/.git/''
      then Sensitive ''git-metadata''
      else if base \<in> set DEP_MANIFESTS then Sensitive ''dependency-manifest''
      else if list_ex (\<lambda>n. str_contains base n) CRED_NEEDLES \<or> suffix ''.pem'' base \<or> suffix ''.key'' base
      then Sensitive ''possible-credential''
      else NormalFile)"

fun confine_records ::
  "fs \<Rightarrow> WorktreeRoot \<Rightarrow> string list \<Rightarrow> WorkerError + ChangedFile list" where
  "confine_records f worktree [] = Inr []"
| "confine_records f worktree (record # records) =
     (case porcelain_path record of
        None \<Rightarrow> confine_records f worktree records
      | Some path \<Rightarrow>
          (case confine_read f worktree path of
             Inl _ \<Rightarrow> Inl (EscapingChange path)
           | Inr _ \<Rightarrow> and_then (confine_records f worktree records) (\<lambda>out.
               Inr (\<lparr>cf_path = path, cf_sensitivity = classify_path path\<rparr> # out))))"

definition map_git :: "string + 'a \<Rightarrow> WorkerError + 'a" where
  "map_git r = (case r of Inl e \<Rightarrow> Inl (Git e) | Inr v \<Rightarrow> Inr v)"

definition confine_worktree_changes :: "world \<Rightarrow> WorktreeRoot \<Rightarrow> WorkerError + ChangedFile list" where
  "confine_worktree_changes w worktree =
     and_then (map_git (git_status_all w)) (\<lambda>porcelain.
       confine_records (resolver w) worktree (porcelain_records porcelain))"

definition extract_change :: "world \<Rightarrow> WorkerError + bytes \<times> bytes" where
  "extract_change w =
     and_then (map_git (git_status_all w)) (\<lambda>status.
       and_then (map_git (git_worktree_diff w)) (\<lambda>diff.
         Inr (as_bytes status, take MAX_DIFF_BYTES (as_bytes diff))))"

section \<open>The supervisor\<close>

text \<open>\<^verbatim>\<open>str::lines\<close>.\<close>

definition strip_cr :: "string \<Rightarrow> string" where
  "strip_cr s = (if s \<noteq> [] \<and> last s = CHR 0x0D then butlast s else s)"

definition str_lines :: "string \<Rightarrow> string list" where
  "str_lines s =
     (let ps = split_on (CHR 0x0A) s in
      map strip_cr (butlast ps) @ (if last ps = [] then [] else [last ps]))"

fun summarize_loop :: "string list \<Rightarrow> string \<Rightarrow> string" where
  "summarize_loop [] out = out"
| "summarize_loop (line # rest) out =
     (let line = str_trim line in
      if line = [] then summarize_loop rest out
      else let out = (if out \<noteq> [] then out @ [CHR 0x0A] else out) @ line in
           if length out \<ge> MAX_SUMMARY then out else summarize_loop rest out)"

definition summarize :: "string \<Rightarrow> string" where
  "summarize transcript =
     (let out = summarize_loop (str_lines transcript) [] in
      if out = [] then ''(worker produced no transcript output)'' else out)"

definition build_command_spec :: "CodingBackend \<Rightarrow> WorkerInput \<Rightarrow> WorktreeRoot \<Rightarrow> CommandSpec" where
  "build_command_spec backend input worktree =
     (let wc = build_command backend input in
      (CommandSpec_new (wc_program wc))
        \<lparr>cs_args := wc_args wc, cs_cwd := Some (to_string_lossy (as_path worktree)),
         cs_env := bt_insert ''PATH'' SAFE_PATH [], cs_stdin := wc_stdin wc,
         cs_timeout_secs := wi_max_seconds input, cs_max_output_bytes := MAX_WORKER_OUTPUT\<rparr>)"

definition sensitive_risks :: "ChangedFile list \<Rightarrow> Risk list" where
  "sensitive_risks files =
     concat (map (\<lambda>cf. case cf_sensitivity cf of
         Sensitive reason \<Rightarrow>
           [\<lparr>risk_summary = truncated (''sensitive file changed ('' @ reason @ ''): '' @ cf_path cf) DEFAULT_MAX\<rparr>]
       | NormalFile \<Rightarrow> []) files)"

definition run_external_worker_with ::
  "CodingBackend \<Rightarrow> WorkerInput \<Rightarrow> WorktreeRoot \<Rightarrow> world \<Rightarrow> world
     \<Rightarrow> (CommandSpec \<Rightarrow> SandboxError + CommandResult) \<Rightarrow> WorkerError + WorkerProduct" where
  "run_external_worker_with backend input worktree before after exec =
     (let spec = build_command_spec backend input worktree;
          guard = snapshot_parent before worktree in
      and_then (case exec spec of Inl e \<Rightarrow> Inl (SandboxFailure (sandbox_error_message e)) | Inr r \<Rightarrow> Inr r) (\<lambda>result.
      and_then (check_guard after guard) (\<lambda>_.
      let bytes = take MAX_WORKER_OUTPUT (cr_stdout result @ cr_stderr result);
          transcript = truncated (utf8_lossy bytes) MAX_WORKER_OUTPUT;
          claims = parse_transcript bytes in
      and_then (confine_worktree_changes after worktree) (\<lambda>changed_files.
      and_then (extract_change after) (\<lambda>(status_bytes, diff).
      if changed_files = [] then Inl NoChanges
      else
        let patch = \<lparr>diff_hash = sha256 (status_bytes @ diff)\<rparr>;
            risks = cl_risks claims @ sensitive_risks changed_files;
            summary = truncated (summarize (as_str transcript)) MAX_SUMMARY in
        Inr \<lparr>wp_result =
               \<lparr>br_backend = backend_kind backend, br_summary = summary, br_patch = Some patch,
                br_self_claimed_done = cl_self_claimed_done claims, br_commands_run = cl_commands_run claims,
                br_risks = risks\<rparr>,
             wp_patch = UnverifiedPatch patch, wp_diff = diff, wp_changed_files = changed_files,
             wp_transcript = transcript, wp_claims = claims\<rparr>)))))"

definition run_external_worker ::
  "build \<Rightarrow> host \<Rightarrow> CodingBackend \<Rightarrow> WorkerInput \<Rightarrow> WorktreeRoot \<Rightarrow> world \<Rightarrow> world
     \<Rightarrow> SandboxExecCap \<Rightarrow> SandboxProfile \<Rightarrow> WorkerError + WorkerProduct" where
  "run_external_worker b h backend input worktree before after cap profile =
     run_external_worker_with backend input worktree before after (run_command b h cap profile)"

end
