(* ===== verification/Text_Split.thy ===== *)
theory Text_Split
  imports Confine_Props Format
begin

text \<open>
  Splitting text at a separator (\<^verbatim>\<open>str::split\<close>) and joining it back are inverse, as long as no piece
  contains the separator. Branch names, delimited lists on the wire and path strings rest on it.
\<close>

lemma join_split_on: "join_with [c] (split_on c s) = s"
proof (induction s)
  case (Cons x s)
  then show ?case
    using split_on_not_Nil [of c s]
    by (cases "split_on c s"; cases "tl (split_on c s)") (auto simp: join_with_Cons)
qed simp

lemma split_on_append: "split_on c (a @ c # b) = split_on c a @ split_on c b"
  using split_on_not_Nil by (induction a) (auto split: list.splits simp: append_eq_Cons_conv)

lemma join_with_append:
  "xs \<noteq> [] \<Longrightarrow> ys \<noteq> [] \<Longrightarrow> join_with sep (xs @ ys) = join_with sep xs @ sep @ join_with sep ys"
proof (induction xs)
  case (Cons x xs)
  then show ?case by (cases xs) (simp_all add: join_with_Cons)
qed simp

lemma split_on_none: "c \<notin> set s \<Longrightarrow> split_on c s = [s]"
  by (induction s) auto

lemma split_on_join:
  "list_all (\<lambda>s. c \<notin> set s) ss \<Longrightarrow> ss \<noteq> [] \<Longrightarrow> split_on c (join_with [c] ss) = ss"
proof (induction ss)
  case (Cons s ss)
  then show ?case
    by (cases "ss = []") (simp_all add: join_with_Cons split_on_none split_on_append)
qed simp

lemma join_with_Nil_iff: "join_with [c] ss = [] \<longleftrightarrow> ss = [] \<or> ss = [[]]"
  by (cases ss; cases "tl ss") (auto simp: join_with_Cons)

end
