(* ===== verification/Backend_Props.thy ===== *)
theory Backend_Props
  imports Backend Text_Split
begin

text \<open>
  What a verified patch and a pull request rest on: a confined run that exited with zero, a receipt
  over its real output that extends the chain, and a valid approval for a branch below the granted
  prefix.
\<close>

section \<open>The verify loop\<close>

context executor
begin

lemma verified_ran:
  assumes "run_verify_with worktree spec patch chain ids exec = (chain', Verified v)"
  obtains res where "ran (verify_command worktree spec) res" "cr_status res = Code 0"
    "mint chain (verify_params spec ids (shown_output res)) = (chain', vp_receipt v)"
    "vp_patch v = patch" "vp_passed_at v = vi_now ids" "vp_verifier v = VerifierName_new (display spec)"
    "vp_commands v = [\<lparr>ce_command = verifier_text (vp_verifier v), ce_passed = True\<rparr>]"
proof -
  from assms obtain res where res: "exec (verify_command worktree spec) = Inr res" "is_success res"
    by (auto simp: run_verify_with_def Let_def split: sum.splits if_splits)
  show ?thesis
    using assms res exec_ran [OF res(1)]
    by (intro that [of res])
      (auto simp: run_verify_with_def Let_def is_success_def from_verifier_def split: prod.splits)
qed

lemma completed_iff:
  "completed (snd (run_verify_with worktree spec patch chain ids exec)) \<longleftrightarrow>
     (\<exists>res. exec (verify_command worktree spec) = Inr res \<and> cr_status res = Code 0)"
  by (auto simp: run_verify_with_def Let_def is_success_def split: sum.splits prod.splits)

lemma not_completed_chain:
  "\<not> completed (snd (run_verify_with worktree spec patch chain ids exec)) \<Longrightarrow>
     fst (run_verify_with worktree spec patch chain ids exec) = chain"
  by (auto simp: run_verify_with_def Let_def split: sum.splits prod.splits if_splits)

end

lemma verify_params_ok: "params_ok (verify_params spec ids output)"
  by (simp add: params_ok_def verify_params_def)

text \<open>A chain that accepts a list as complete accepts it with the next minted receipt appended.\<close>

lemma mint_extends:
  assumes wf: "\<forall>r\<in>set rs. receipt_wf r" and rs: "verify_complete chain rs = Intact n"
    and head: "length (rc_head chain) = 32" and p: "params_ok p" and m: "mint chain p = (chain', r)"
  shows "verify_complete chain' (rs @ [r]) = Intact (Suc n)"
proof -
  note c = verify_complete_iff [OF wf, of chain n, THEN iffD1, OF rs]
  note r = mint_receipt [OF p head m]
  have wf': "\<forall>x\<in>set (rs @ [r]). receipt_wf x" using wf r(1) by (simp add: receipt_ok_def)
  show ?thesis
    unfolding verify_complete_iff [OF wf'] using c r by (simp add: chained_append chain_head_append)
qed

section \<open>Branches\<close>

lemma segments_prefix_iff:
  "prefix (split_on c p) (split_on c s) \<longleftrightarrow> s = p \<or> prefix (p @ [c]) s"
proof
  assume "prefix (split_on c p) (split_on c s)"
  then obtain xs where xs: "split_on c s = split_on c p @ xs" by (auto simp: prefix_def)
  have s: "s = join_with [c] (split_on c p @ xs)" by (simp add: xs [symmetric] join_split_on)
  show "s = p \<or> prefix (p @ [c]) s"
  proof (cases "xs = []")
    case False
    with s show ?thesis
      by (simp add: join_with_append [OF split_on_not_Nil] join_split_on prefix_def)
  qed (use s in \<open>simp add: join_split_on\<close>)
next
  assume "s = p \<or> prefix (p @ [c]) s"
  then show "prefix (split_on c p) (split_on c s)"
    by (auto simp: prefix_def split_on_append)
qed

definition segments :: "string \<Rightarrow> string list" where
  "segments s = split_on (CHR ''/'') s"

definition below :: "string \<Rightarrow> string \<Rightarrow> bool" where
  "below pre branch =
     (let pre = trim_end_matches (CHR ''/'') pre in
      pre \<noteq> [] \<and> prefix (segments pre) (segments branch)
      \<and> ''..'' \<notin> set (segments branch) \<and> ''.'' \<notin> set (segments branch))"

lemma branch_under_prefix_iff: "branch_under_prefix branch pre \<longleftrightarrow> below pre branch"
  by (auto simp: branch_under_prefix_def below_def segments_def segments_prefix_iff Let_def list_ex_iff)

section \<open>Properties\<close>


definition demo_host :: host where
  "demo_host =
     \<lparr>h_is_file = (\<lambda>p. p = ''/usr/bin/bwrap''), h_exists = (\<lambda>_. False),
      h_run = (\<lambda>_. Inr \<lparr>cr_status = Code 0, cr_stdout = [0x6F, 0x6B], cr_stderr = [], cr_truncated = False\<rparr>)\<rparr>"

definition demo_build :: build where
  "demo_build = \<lparr>b_firecracker = False, b_windows_native = False, b_target_windows = False\<rparr>"

definition demo_cap :: SandboxExecCap where
  "demo_cap = \<lparr>sec_profile = ScopeId 1, sec_scope = ScopeId 1\<rparr>"

definition demo_ids :: VerifyIds where
  "demo_ids =
     \<lparr>vi_task_id = TaskId 1, vi_job_id = JobId 1, vi_tool_call_id = ToolCallId 1, vi_event_seq = EventSeq 1,
      vi_now = Timestamp 1\<rparr>"

abbreviation demo_worktree :: WorktreeRoot where
  "demo_worktree \<equiv> WorktreeRoot [RootDir, Normal ''w'']"

lemma demo_run:
  "sanitize_env (cs_env c) demo_profile (map_option components (cs_cwd c)) = Inr env
   \<Longrightarrow> \<exists>res. run_command demo_build demo_host demo_cap demo_profile c = Inr res \<and> cr_status res = Code 0"
  by (simp add: run_command_def demo_cap_def demo_profile_def available_backends_def demo_build_def
      bwrap_detect_def find_executable_def demo_host_def List.map_filter_def select_backend_def ok_or_def
      less_eq_ExecutionTier_def bwrap_run_def)


text \<open>
  The verify loop completes exactly when the sandbox returned a run that exited with code zero;
  when it does not complete (refused, failed, signalled or timed out) no receipt is minted.
\<close>

theorem verify_completes_iff:
  "(completed (snd (run_verify b h cap profile worktree spec patch chain ids)) \<longleftrightarrow>
      (\<exists>res. run_command b h cap profile (verify_command worktree spec) = Inr res \<and> cr_status res = Code 0))
   \<and> (completed (snd (run_verify b h cap profile worktree spec patch chain ids))
      \<or> fst (run_verify b h cap profile worktree spec patch chain ids) = chain)"
  unfolding run_verify_def using sandboxed.completed_iff sandboxed.not_completed_chain by blast

text \<open>
  C17. A pull request is opened only as a draft, for the approved repository, under an approval that
  has not expired, on a branch whose path segments begin with those of the approved prefix and
  contain no dot segments; whenever these hold it is opened, with a body computed from the verified
  patch alone.
\<close>

theorem open_pr_gate:
  "open_pr approval patch head_branch base now = Inr pr \<longleftrightarrow>
     now \<le> ap_expires_at approval
     \<and> below (as_str (prefix_text (gwc_branch_prefix (ap_value approval)))) head_branch
     \<and> pr_repo pr = gwc_repo (ap_value approval) \<and> pr_head_branch pr = head_branch \<and> pr_base_branch pr = base
     \<and> pr_draft pr \<and> pr_title pr = ''[crustcore] verified patch on '' @ head_branch
     \<and> pr_body pr = format_pr_body patch \<and> pr_approval_id pr = ap_approval_id approval"
  by (cases pr; cases "gwc_repo (ap_value approval)")
    (auto simp: open_pr_def is_valid_at_def branch_under_prefix_iff Let_def)

end
