(* ===== verification/Worker_Props.thy ===== *)
theory Worker_Props
  imports Worker Backend_Props
begin

text \<open>
  What the supervisor guarantees of a worker's product: it is computed from the worktree and not
  from anything the worker says, every changed path is confined, and changes next to the worktree
  that the guard's walk reaches are noticed.
\<close>

section \<open>The guard's walk\<close>

text \<open>The walk changes its state in two ways: it gives up, or it records one entry.\<close>

definition walk_stable :: "world \<Rightarrow> path list \<Rightarrow> (guard_entries \<times> bool \<Rightarrow> bool) \<Rightarrow> bool" where
  "walk_stable w ex I =
     ((\<forall>es t. I (es, t) \<longrightarrow> I (es, True))
      \<and> (\<forall>es t p m. I (es, t) \<longrightarrow> length es < MAX_GUARD_ENTRIES \<longrightarrow> \<not> excluded ex p
           \<longrightarrow> symlink_metadata w p = Some m \<longrightarrow> I (bt_insert p (guard_entry m) es, t)))"

lemma walk_invariant:
  "walk_stable w ex I \<Longrightarrow> I st \<Longrightarrow> I (walk_guard w ex dir d st)"
  "walk_stable w ex I \<Longrightarrow> I st \<Longrightarrow> I (walk_entries w ex ps d st)"
proof (induction w ex dir d st and w ex ps d st rule: walk_guard_walk_entries.induct)
  case (1 w ex dir depth entries trunc)
  then show ?case by (auto simp: walk_stable_def split: option.splits)
next
  case (3 w ex p paths depth entries trunc)
  consider "length entries \<ge> MAX_GUARD_ENTRIES"
    | "\<not> length entries \<ge> MAX_GUARD_ENTRIES" "excluded ex p \<or> symlink_metadata w p = None"
    | m where "\<not> length entries \<ge> MAX_GUARD_ENTRIES" "\<not> excluded ex p" "symlink_metadata w p = Some m"
    by blast
  then show ?case
  proof cases
    case 1
    then show ?thesis using "3.prems" by (auto simp: walk_stable_def)
  next
    case 2
    then show ?thesis using "3.prems" "3.IH"(1,2) by (cases "excluded ex p") simp_all
  next
    case m: (3 m)
    let ?es = "bt_insert p (guard_entry m) entries"
    have "I (?es, trunc)" using "3.prems" m by (simp add: walk_stable_def)
    then have "I (if md_is_dir m \<and> \<not> md_is_symlink m then walk_guard w ex p (depth + 1) (?es, trunc) else (?es, trunc))"
      using "3.IH"(3) [OF m refl] "3.prems"(1) by (simp del: walk_guard.simps)
    then show ?thesis
      using "3.IH"(4) [OF m refl] "3.prems"(1) m by (simp add: Let_def del: walk_guard.simps)
  qed
qed simp

definition truthful :: "world \<Rightarrow> guard_entries \<Rightarrow> bool" where
  "truthful w es = list_all (\<lambda>(p, e). map_option guard_entry (symlink_metadata w p) = Some e) es"

abbreviation keys :: "guard_entries \<Rightarrow> path set" where
  "keys es \<equiv> set (map fst es)"

lemma set_bt_insert: "set (bt_insert k v m) \<subseteq> insert (k, v) (set m)"
  by (induction m) (auto split: if_splits)

lemma length_bt_insert: "length (bt_insert k v m) \<le> Suc (length m)"
  by (induction m) auto

lemma stable_truthful: "walk_stable w ex (\<lambda>(es, t). truthful w es)"
  using set_bt_insert by (fastforce simp: walk_stable_def truthful_def list_all_iff)

lemma stable_bounded: "walk_stable w ex (\<lambda>(es, t). length es \<le> MAX_GUARD_ENTRIES)"
proof -
  have "length (bt_insert p (guard_entry m) es) \<le> MAX_GUARD_ENTRIES" if "length es < MAX_GUARD_ENTRIES" for p m es
    using length_bt_insert [of p "guard_entry m" es] that by linarith
  then show ?thesis by (auto simp: walk_stable_def)
qed

lemma stable_grows: "walk_stable w ex (\<lambda>(es, t). ks \<subseteq> keys es \<and> (c \<longrightarrow> t))"
  unfolding walk_stable_def by (auto simp: bt_insert_keys simp del: set_map)

lemmas walk_truthful = walk_invariant [OF stable_truthful]
lemmas walk_bounded = walk_invariant [OF stable_bounded]
lemmas walk_grows = walk_invariant [OF stable_grows]

text \<open>What the walk is meant to cover: everything below a root, links not followed.\<close>

inductive listed :: "world \<Rightarrow> path list \<Rightarrow> path \<Rightarrow> path \<Rightarrow> bool" for w ex where
  here: "read_dir w dir = Some ps \<Longrightarrow> p \<in> set ps \<Longrightarrow> \<not> excluded ex p \<Longrightarrow> symlink_metadata w p = Some m
    \<Longrightarrow> listed w ex dir p"
| below: "read_dir w dir = Some ps \<Longrightarrow> q \<in> set ps \<Longrightarrow> \<not> excluded ex q \<Longrightarrow> symlink_metadata w q = Some m
    \<Longrightarrow> md_is_dir m \<Longrightarrow> \<not> md_is_symlink m \<Longrightarrow> listed w ex q p \<Longrightarrow> listed w ex dir p"

inductive_cases listedE: "listed w ex dir p"

definition covers :: "world \<Rightarrow> path list \<Rightarrow> path \<Rightarrow> guard_entries \<Rightarrow> bool" where
  "covers w ex q es =
     (\<forall>m. \<not> excluded ex q \<and> symlink_metadata w q = Some m \<longrightarrow>
        q \<in> keys es \<and> (md_is_dir m \<and> \<not> md_is_symlink m \<longrightarrow> {p. listed w ex q p} \<subseteq> keys es))"

lemma covers_mono: "covers w ex q es \<Longrightarrow> keys es \<subseteq> keys es' \<Longrightarrow> covers w ex q es'"
  unfolding covers_def by blast

lemma guard_walk_complete:
  "walk_guard w ex dir d st = (es', False) \<Longrightarrow> {p. listed w ex dir p} \<subseteq> keys es'"
  "walk_entries w ex ps d st = (es', False) \<Longrightarrow> \<forall>q\<in>set ps. covers w ex q es'"
proof (induction w ex dir d st and w ex ps d st arbitrary: es' and es' rule: walk_guard_walk_entries.induct)
  case (1 w ex dir depth entries trunc)
  have d: "\<not> MAX_GUARD_DEPTH < depth" using "1.prems" by (auto split: if_splits)
  show ?case
  proof (cases "read_dir w dir")
    case None
    then show ?thesis by (auto elim: listedE)
  next
    case (Some ps)
    then have c: "\<forall>q\<in>set ps. covers w ex q es'" using 1 d by simp
    have "p \<in> keys es'" if "listed w ex dir p" for p
      using that
    proof cases
      case (here ps' m)
      then have "covers w ex p es'" using c Some by simp
      then show ?thesis using here unfolding covers_def by blast
    next
      case (below ps' q m)
      then have "covers w ex q es'" using c Some by simp
      then show ?thesis using below unfolding covers_def by blast
    qed
    then show ?thesis by blast
  qed
next
  case (3 w ex p paths depth entries trunc)
  consider (skip) "\<not> length entries \<ge> MAX_GUARD_ENTRIES" "excluded ex p \<or> symlink_metadata w p = None"
    | (visit) m where "\<not> length entries \<ge> MAX_GUARD_ENTRIES" "\<not> excluded ex p" "symlink_metadata w p = Some m"
    using "3.prems" by (cases "length entries \<ge> MAX_GUARD_ENTRIES") auto
  then show ?case
  proof cases
    case skip
    then show ?thesis using "3.prems" "3.IH"(1,2) by (cases "excluded ex p") (simp_all add: covers_def)
  next
    case (visit m)
    let ?es = "bt_insert p (guard_entry m) entries"
    define st where "st = (if md_is_dir m \<and> \<not> md_is_symlink m then walk_guard w ex p (depth + 1) (?es, trunc) else (?es, trunc))"
    have r: "walk_entries w ex paths depth st = (es', False)"
      using "3.prems" visit by (simp add: st_def Let_def del: walk_guard.simps)
    have g: "keys (fst st) \<subseteq> keys es' \<and> \<not> snd st"
      using walk_grows(2) [of "keys (fst st)" "snd st" st w ex paths depth] r by (cases st) auto
    have "keys ?es \<subseteq> keys (fst st)"
      using walk_grows(1) [of "keys ?es" False "(?es, trunc)" w ex p "depth + 1"]
      by (auto simp: st_def split: prod.splits simp del: walk_guard.simps)
    then have p: "p \<in> keys (fst st)" using bt_insert_keys [of p "guard_entry m" entries] by blast
    have "{q. listed w ex p q} \<subseteq> keys (fst st)" if dir: "md_is_dir m \<and> \<not> md_is_symlink m"
    proof -
      have "walk_guard w ex p (depth + 1) (?es, trunc) = (fst st, False)"
        using dir g by (cases st) (simp add: st_def del: walk_guard.simps)
      from "3.IH"(3) [OF visit refl dir this] show ?thesis .
    qed
    with p g have "covers w ex p es'" unfolding covers_def using visit(3) by auto
    moreover have "\<forall>q\<in>set paths. covers w ex q es'"
      using "3.IH"(4) [OF visit refl r [unfolded st_def]] .
    ultimately show ?thesis by simp
  qed
qed simp

lemma snapshot_walk:
  "snapshot w [root] ex =
     (let st = walk_guard w ex root 0 ([], False) in
      \<lparr>gm_entries = fst st, gm_roots = [root], gm_excluded = ex, gm_truncated = snd st\<rparr>)"
  by (simp add: snapshot_def Let_def split: prod.splits del: walk_guard.simps)

lemma snapshot_fields: "gm_roots (snapshot w roots ex) = roots" "gm_excluded (snapshot w roots ex) = ex"
  by (simp_all add: snapshot_def split_beta)

lemma snapshot_invariant:
  assumes "walk_stable w ex I" "I ([], False)"
  shows "I (gm_entries (snapshot w roots ex), gm_truncated (snapshot w roots ex))"
proof -
  have "I (foldl (\<lambda>st root. walk_guard w ex root 0 st) st roots)" if "I st" for st
    using that walk_invariant(1) [OF assms(1)] by (induction roots arbitrary: st) auto
  from this [OF assms(2)] show ?thesis by (simp add: snapshot_def split_beta)
qed

lemma snapshot_truthful: "truthful w (gm_entries (snapshot w roots ex))"
  using snapshot_invariant [OF stable_truthful] by (simp add: truthful_def)

lemma snapshot_bounded: "length (gm_entries (snapshot w roots ex)) \<le> MAX_GUARD_ENTRIES"
  using snapshot_invariant [OF stable_bounded] by simp

lemma snapshot_complete:
  "\<not> gm_truncated (snapshot w [root] ex) \<Longrightarrow> listed w ex root p \<Longrightarrow> p \<in> keys (gm_entries (snapshot w [root] ex))"
  using guard_walk_complete(1) [of w ex root 0 "([], False)" "fst (walk_guard w ex root 0 ([], False))"]
  by (simp add: snapshot_walk Let_def prod_eq_iff subset_iff del: walk_guard.simps)

section \<open>The guard's check\<close>

abbreviation seen :: "world \<Rightarrow> path \<Rightarrow> GuardEntry option" where
  "seen w p \<equiv> map_option guard_entry (symlink_metadata w p)"

lemma truthful_get: "truthful w es \<Longrightarrow> p \<in> keys es \<Longrightarrow> bt_get es p = seen w p"
proof -
  assume t: "truthful w es" and "p \<in> keys es"
  then obtain e where e: "map_of es p = Some e" by (auto dest: weak_map_of_SomeI)
  then have "seen w p = Some e" using t map_of_SomeD [OF e] unfolding truthful_def list_all_iff by fast
  with e show ?thesis by (simp only: bt_get_def)
qed

lemma bt_get_None: "bt_get es p = None \<longleftrightarrow> p \<notin> keys es"
  by (simp add: bt_get_def map_of_eq_None_iff)

lemma check_guard_iff:
  assumes "truthful before (gm_entries g)"
  shows "check_guard after g = Inr () \<longleftrightarrow>
    (let now = gm_entries (snapshot after (gm_roots g) (gm_excluded g)) in
     keys (gm_entries g) = keys now \<and> (\<forall>p\<in>keys now. seen before p = seen after p))"
proof -
  let ?now = "gm_entries (snapshot after (gm_roots g) (gm_excluded g))"
  have t: "truthful after ?now" by (rule snapshot_truthful)
  have e: "seen before p = Some e" if "(p, e) \<in> set (gm_entries g)" for p e
    using assms that by (auto simp: truthful_def list_all_iff)
  have "check_guard after g = Inr () \<longleftrightarrow>
      (\<forall>(p, e)\<in>set (gm_entries g). bt_get ?now p = Some e) \<and> (\<forall>p\<in>keys ?now. p \<in> keys (gm_entries g))"
    by (auto simp: check_guard_def Let_def and_then_Inr_iff first_error_iff list_all_iff bt_get_None
        split: if_splits)
  also have "(\<forall>(p, e)\<in>set (gm_entries g). bt_get ?now p = Some e) \<longleftrightarrow>
      (\<forall>p\<in>keys (gm_entries g). p \<in> keys ?now \<and> seen before p = seen after p)"
  proof -
    have "bt_get ?now p = Some e \<longleftrightarrow> p \<in> keys ?now \<and> seen before p = seen after p"
      if "(p, e) \<in> set (gm_entries g)" for p e
    proof (cases "p \<in> keys ?now")
      case True
      then show ?thesis using truthful_get [OF t True] e [OF that] by metis
    next
      case False
      then show ?thesis using bt_get_None [of ?now p] by (simp del: set_map)
    qed
    then have "(\<forall>x\<in>set (gm_entries g). bt_get ?now (fst x) = Some (snd x)) \<longleftrightarrow>
        (\<forall>x\<in>set (gm_entries g). fst x \<in> keys ?now \<and> seen before (fst x) = seen after (fst x))"
      by (metis prod.collapse)
    then show ?thesis by (simp only: case_prod_unfold set_map ball_simps)
  qed
  finally show ?thesis unfolding Let_def by blast
qed

section \<open>The product\<close>

lemma confine_records_Inr:
  "confine_records f worktree rs = Inr files \<Longrightarrow>
     map cf_path files = List.map_filter porcelain_path rs
     \<and> list_all (\<lambda>c. \<exists>p. confine_read f worktree (cf_path c) = Inr p) files"
  by (induction f worktree rs arbitrary: files rule: confine_records.induct)
    (auto simp: map_filter_simps and_then_Inr_iff split: option.splits sum.splits)

text \<open>
  What git's status with \<^verbatim>\<open>--porcelain -z --no-renames\<close> prints: for every entry its two status
  letters, a space and its name, closed by a NUL byte.
\<close>

definition porcelain :: "(char \<times> char \<times> string) list \<Rightarrow> string" where
  "porcelain es = concat (map (\<lambda>(x, y, name). [x, y, CHR '' ''] @ name @ [nul]) es)"

definition printable_entry :: "char \<times> char \<times> string \<Rightarrow> bool" where
  "printable_entry = (\<lambda>(x, y, name). x \<noteq> nul \<and> y \<noteq> nul \<and> name \<noteq> [] \<and> nul \<notin> set name \<and> last name \<noteq> CHR 0x0A)"

lemma porcelain_path_entry:
  "name \<noteq> [] \<Longrightarrow> last name \<noteq> CHR 0x0A \<Longrightarrow> porcelain_path ([x, y, CHR '' ''] @ name) = Some name"
  by (cases name rule: rev_cases) (simp_all add: porcelain_path_def trim_end_matches_def Let_def)

lemma porcelain_records_Cons:
  assumes "printable_entry (x, y, name)"
  shows "porcelain_records (porcelain ((x, y, name) # es)) = ([x, y, CHR '' ''] @ name) # porcelain_records (porcelain es)"
proof -
  have "nul \<notin> set ([x, y, CHR '' ''] @ name)" using assms by (auto simp: printable_entry_def)
  from split_on_none [OF this] show ?thesis
    using split_on_append [of nul "[x, y, CHR '' ''] @ name" "porcelain es"]
    by (simp add: porcelain_def porcelain_records_def)
qed

lemma porcelain_read:
  "list_all printable_entry es \<Longrightarrow>
     List.map_filter porcelain_path (porcelain_records (porcelain es)) = map (\<lambda>(x, y, name). name) es"
proof (induction es)
  case (Cons e es)
  obtain x y name where e: "e = (x, y, name)" by (cases e) auto
  with Cons show ?case
    using porcelain_path_entry [of name x y]
    by (simp add: porcelain_records_Cons map_filter_simps printable_entry_def)
qed (simp add: porcelain_def porcelain_records_def map_filter_simps)

lemma map_git_Inr [simp]: "map_git r = Inr v \<longleftrightarrow> r = Inr v"
  by (cases r) (simp_all add: map_git_def)

context executor
begin

lemma worker_ran:
  assumes "run_external_worker_with backend input worktree before after exec = Inr product"
  obtains res files status diff where
    "ran (build_command_spec backend input worktree) res"
    "check_guard after (snapshot_parent before worktree) = Inr ()"
    "git_status_all after = Inr status" "git_worktree_diff after = Inr diff"
    "confine_records (resolver after) worktree (porcelain_records status) = Inr files" "files \<noteq> []"
    "wp_changed_files product = files" "wp_diff product = take MAX_DIFF_BYTES (as_bytes diff)"
    "wp_patch product = UnverifiedPatch \<lparr>diff_hash = sha256 (as_bytes status @ wp_diff product)\<rparr>"
proof -
  let ?spec = "build_command_spec backend input worktree"
  obtain res where res: "exec ?spec = Inr res"
    using assms by (cases "exec ?spec") (simp_all add: run_external_worker_with_def)
  have rest: "check_guard after (snapshot_parent before worktree) = Inr ()"
    "\<exists>files. confine_worktree_changes after worktree = Inr files \<and> files \<noteq> [] \<and> wp_changed_files product = files"
    "\<exists>st d. extract_change after = Inr (st, d) \<and> wp_diff product = d
       \<and> wp_patch product = UnverifiedPatch \<lparr>diff_hash = sha256 (st @ d)\<rparr>"
    using assms by (auto simp: run_external_worker_with_def res Let_def and_then_Inr_iff split: if_splits)
  from rest(2,3) show ?thesis
    using that [OF exec_ran [OF res] rest(1)]
    by (auto simp: confine_worktree_changes_def extract_change_def and_then_Inr_iff)
qed

end

section \<open>Properties\<close>

text \<open>
  C18. A worker is a patch producer, not an authority. A product means that the command ran confined
  with nothing in its environment but the fixed search path, that git reported its status and diff
  after the run, and that the patch is addressed by the digest of this status and the (bounded)
  diff; nothing the worker printed enters it. There is at least one changed file, and each is
  confined. When the status lists certain entries, of whatever status letters, with names that are
  not empty, contain no NUL and do not end in a newline, the changed files of the product are exactly
  these names in order.
\<close>

theorem worker_product_derived:
  assumes "run_external_worker b h backend input worktree before after cap profile = Inr product"
  shows "(\<exists>res. ran_confined h cap profile (build_command_spec backend input worktree) res)
    \<and> cs_env (build_command_spec backend input worktree) = [(''PATH'', SAFE_PATH)]
    \<and> wp_changed_files product \<noteq> []
    \<and> list_all (\<lambda>c. \<exists>p. confine_read (resolver after) worktree (cf_path c) = Inr p) (wp_changed_files product)
    \<and> (\<exists>status diff. git_status_all after = Inr status \<and> git_worktree_diff after = Inr diff
         \<and> wp_patch product = UnverifiedPatch
             \<lparr>diff_hash = sha256 (as_bytes status @ take MAX_DIFF_BYTES (as_bytes diff))\<rparr>
         \<and> (\<forall>es. status = porcelain es \<and> list_all printable_entry es \<longrightarrow>
              map cf_path (wp_changed_files product) = map (\<lambda>(x, y, name). name) es))"
proof -
  obtain res files status diff where *: "ran_confined h cap profile (build_command_spec backend input worktree) res"
    "git_status_all after = Inr status" "git_worktree_diff after = Inr diff"
    "confine_records (resolver after) worktree (porcelain_records status) = Inr files" "files \<noteq> []"
    "wp_changed_files product = files" "wp_diff product = take MAX_DIFF_BYTES (as_bytes diff)"
    "wp_patch product = UnverifiedPatch \<lparr>diff_hash = sha256 (as_bytes status @ wp_diff product)\<rparr>"
    using assms unfolding run_external_worker_def by (elim sandboxed.worker_ran) blast
  have "cs_env (build_command_spec backend input worktree) = [(''PATH'', SAFE_PATH)]"
    by (simp add: build_command_spec_def Let_def)
  moreover have "map cf_path (wp_changed_files product) = map (\<lambda>(x, y, name). name) es"
    if "status = porcelain es \<and> list_all printable_entry es" for es
    using that *(6) confine_records_Inr [OF *(4)] porcelain_read [of es] by auto
  moreover have "list_all (\<lambda>c. \<exists>p. confine_read (resolver after) worktree (cf_path c) = Inr p) (wp_changed_files product)"
    using *(6) confine_records_Inr [OF *(4)] by auto
  ultimately show ?thesis using * by auto
qed

definition demo_world :: world where
  "demo_world =
     \<lparr>read_dir = (\<lambda>p. if p = [RootDir] then Some [[RootDir, Normal ''w''], [RootDir, Normal ''x'']] else None),
      symlink_metadata = (\<lambda>p. if length p = 2
        then Some \<lparr>md_is_dir = False, md_is_symlink = False, md_len = 5, md_mtime = Some 9\<rparr> else None),
      resolver = \<lparr>canonicalize = (\<lambda>p. Inr p), is_symlink = (\<lambda>_. False), is_dir = (\<lambda>_. True)\<rparr>,
      git_status_all = Inr ('' M a.rs'' @ [nul]), git_worktree_diff = Inr ''+x''\<rparr>"

text \<open>Before the run the worktree itself did not exist.\<close>

definition demo_before :: world where
  "demo_before = demo_world\<lparr>symlink_metadata :=
     (\<lambda>p. if p = [RootDir, Normal ''w''] then None else symlink_metadata demo_world p)\<rparr>"

abbreviation demo_input :: WorkerInput where
  "demo_input \<equiv> for_task (TaskId 1) ''fix it'' demo_worktree"

abbreviation demo_worker :: "WorkerError + WorkerProduct" where
  "demo_worker \<equiv> run_external_worker demo_build demo_host CodexBackend_default demo_input demo_worktree
     demo_before demo_world demo_cap demo_profile"

lemma check_guard_unchanged: "check_guard w (snapshot w roots ex) = Inr ()"
  unfolding check_guard_iff [OF snapshot_truthful] snapshot_fields by (simp add: Let_def)

lemma demo_snapshot:
  "snapshot w [[RootDir]] [as_path demo_worktree] =
     \<lparr>gm_entries = [([RootDir, Normal ''x''], \<lparr>ge_is_dir = False, ge_len = 5, ge_mtime = Some 9\<rparr>)],
      gm_roots = [[RootDir]], gm_excluded = [as_path demo_worktree], gm_truncated = False\<rparr>"
  if "w = demo_before \<or> w = demo_world"
  using that
  by (auto simp: snapshot_def demo_before_def demo_world_def MAX_GUARD_DEPTH_def MAX_GUARD_ENTRIES_def
      excluded_def starts_with_def guard_entry_def Let_def)

lemma demo_worker_env:
  "sanitize_env [(''PATH'', SAFE_PATH)] demo_profile (Some (components ''/w'')) = Inr [(''PATH'', SAFE_PATH)]"
  by code_simp

lemma demo_worker_changes:
  "confine_worktree_changes demo_world demo_worktree = Inr [\<lparr>cf_path = ''a.rs'', cf_sensitivity = NormalFile\<rparr>]"
  by code_simp

lemma demo_worker_accepted: "\<exists>product. demo_worker = Inr product"
proof -
  let ?spec = "build_command_spec CodexBackend_default demo_input demo_worktree"
  have cwd: "cs_cwd ?spec = Some ''/w''"
    by (simp add: build_command_spec_def Let_def) code_simp
  have env: "cs_env ?spec = [(''PATH'', SAFE_PATH)]" by (simp add: build_command_spec_def Let_def)
  have "\<exists>res. run_command demo_build demo_host demo_cap demo_profile ?spec = Inr res \<and> cr_status res = Code 0"
    by (rule demo_run [of _ "[(''PATH'', SAFE_PATH)]"]) (simp add: cwd env demo_worker_env)
  then obtain res where res: "run_command demo_build demo_host demo_cap demo_profile ?spec = Inr res" by blast
  have "snapshot_parent demo_before demo_worktree = snapshot demo_world [[RootDir]] [as_path demo_worktree]"
    by (simp add: snapshot_parent_def parent_def Let_def demo_snapshot [simplified])
  then have g: "check_guard demo_world (snapshot_parent demo_before demo_worktree) = Inr ()"
    using check_guard_unchanged by simp
  have x: "extract_change demo_world = Inr (as_bytes ('' M a.rs'' @ [nul]), take MAX_DIFF_BYTES (as_bytes ''+x''))"
    by (simp add: extract_change_def demo_world_def map_git_def)
  show ?thesis
    by (simp add: run_external_worker_def run_external_worker_with_def res g x demo_worker_changes Let_def)
qed

lemma demo_status: "git_status_all demo_world = Inr (porcelain [(CHR '' '', CHR ''M'', ''a.rs'')])"
  by (simp add: demo_world_def porcelain_def)

theorem worker_product_derived_witness:
  "\<exists>product. demo_worker = Inr product \<and> map cf_path (wp_changed_files product) = [''a.rs'']"
proof -
  obtain product where "demo_worker = Inr product" using demo_worker_accepted by blast
  with worker_product_derived [OF this] demo_status show ?thesis by (auto simp: printable_entry_def)
qed

text \<open>A name that ends in a newline is cut, and one that is nothing but a newline is passed over.\<close>

lemma newline_name_cut:
  "map cf_path (case confine_records demo_fs (WorktreeRoot demo_root)
       (porcelain_records (porcelain [(CHR ''?'', CHR ''?'', ''a'' @ [CHR 0x0A]), (CHR ''?'', CHR ''?'', [CHR 0x0A])])) of Inr fs \<Rightarrow> fs | Inl _ \<Rightarrow> [])
     = [''a'']"
  by code_simp

text \<open>
  C19. Writes next to the worktree are noticed. If the walks before and after the run were not
  truncated and the worker's result was accepted, then every path below the worktree's parent and
  outside the worktree, listed before or after without following links, has the same kind, length
  and modification time before and after; in particular none appeared or disappeared.
\<close>

theorem outside_writes_detected:
  assumes "run_external_worker b h backend input worktree before after cap profile = Inr product"
    and "parent (as_path worktree) = Some dir"
    and "\<not> gm_truncated (snapshot before [dir] [as_path worktree])"
    and "\<not> gm_truncated (snapshot after [dir] [as_path worktree])"
    and "listed before [as_path worktree] dir p \<or> listed after [as_path worktree] dir p"
  shows "seen before p = seen after p"
proof -
  let ?g = "snapshot before [dir] [as_path worktree]" and ?now = "snapshot after [dir] [as_path worktree]"
  have g: "snapshot_parent before worktree = ?g" using assms(2) by (simp add: snapshot_parent_def Let_def)
  have "check_guard after ?g = Inr ()"
    using assms(1) unfolding run_external_worker_def g [symmetric] by (elim sandboxed.worker_ran) blast
  then have "keys (gm_entries ?g) = keys (gm_entries ?now)" "\<forall>p\<in>keys (gm_entries ?now). seen before p = seen after p"
    unfolding check_guard_iff [OF snapshot_truthful] Let_def snapshot_fields by blast+
  moreover have "p \<in> keys (gm_entries ?g) \<or> p \<in> keys (gm_entries ?now)"
    using assms(3-5) snapshot_complete by blast
  ultimately show ?thesis by blast
qed

theorem outside_writes_detected_witness:
  "\<exists>product. demo_worker = Inr product \<and> seen demo_before [RootDir, Normal ''x''] = seen demo_world [RootDir, Normal ''x'']"
proof -
  obtain product where p: "demo_worker = Inr product" using demo_worker_accepted by blast
  have d: "parent (as_path demo_worktree) = Some [RootDir]" by (simp add: parent_def)
  have t: "\<not> gm_truncated (snapshot demo_before [[RootDir]] [as_path demo_worktree])"
    "\<not> gm_truncated (snapshot demo_world [[RootDir]] [as_path demo_worktree])"
    by (simp_all add: demo_snapshot [simplified])
  have l: "listed demo_world [as_path demo_worktree] [RootDir] [RootDir, Normal ''x'']"
    by (rule listed.here [of _ _ "[[RootDir, Normal ''w''], [RootDir, Normal ''x'']]" _ _
          "\<lparr>md_is_dir = False, md_is_symlink = False, md_len = 5, md_mtime = Some 9\<rparr>"])
      (simp_all add: demo_world_def excluded_def starts_with_def)
  show ?thesis using p outside_writes_detected [OF p d t disjI2 [OF l]] by blast
qed

text \<open>The guard is bounded: a snapshot records at most the fixed number of entries, whatever the file system.\<close>

theorem guard_bounded: "length (gm_entries (snapshot w roots ex)) \<le> MAX_GUARD_ENTRIES"
  by (rule snapshot_bounded)

text \<open>
  The condition on truncation matters: the check compares entries only, so a file below the depth
  limit can be changed and the result is still accepted.
\<close>

lemma walk_agree:
  "(\<And>p. length p \<le> 34 \<Longrightarrow> symlink_metadata w p = symlink_metadata w' p)
   \<Longrightarrow> (\<And>p q ps. read_dir w p = Some ps \<Longrightarrow> q \<in> set ps \<Longrightarrow> length q = Suc (length p)) \<Longrightarrow> read_dir w' = read_dir w
   \<Longrightarrow> length dir \<le> d + 1 \<Longrightarrow> walk_guard w ex dir d st = walk_guard w' ex dir d st"
  "(\<And>p. length p \<le> 34 \<Longrightarrow> symlink_metadata w p = symlink_metadata w' p)
   \<Longrightarrow> (\<And>p q ps. read_dir w p = Some ps \<Longrightarrow> q \<in> set ps \<Longrightarrow> length q = Suc (length p)) \<Longrightarrow> read_dir w' = read_dir w
   \<Longrightarrow> \<forall>p\<in>set ps. length p \<le> d + 2 \<Longrightarrow> d \<le> MAX_GUARD_DEPTH
   \<Longrightarrow> walk_entries w ex ps d st = walk_entries w' ex ps d st"
proof (induction w ex dir d st and w ex ps d st rule: walk_guard_walk_entries.induct)
  case (1 w ex dir depth entries trunc)
  show ?case
  proof (cases "MAX_GUARD_DEPTH < depth \<or> read_dir w dir = None")
    case False
    then obtain ps where ps: "\<not> MAX_GUARD_DEPTH < depth" "read_dir w dir = Some ps" by blast
    have "\<forall>p\<in>set ps. length p \<le> depth + 2" using "1.prems"(2) [OF ps(2)] "1.prems"(4) by simp
    with "1.IH" [OF ps "1.prems"(1-3)] ps "1.prems"(3) show ?thesis by simp
  qed (use "1.prems"(3) in auto)
next
  case (3 w ex p paths depth entries trunc)
  have m: "symlink_metadata w p = symlink_metadata w' p"
    using "3.prems" by (simp add: MAX_GUARD_DEPTH_def)
  show ?case
  proof (cases "length entries \<ge> MAX_GUARD_ENTRIES \<or> excluded ex p \<or> symlink_metadata w p = None")
    case True
    then show ?thesis using 3 m by auto
  next
    case False
    then obtain md where md: "\<not> length entries \<ge> MAX_GUARD_ENTRIES" "\<not> excluded ex p" "symlink_metadata w p = Some md"
      by blast
    have below: "md_is_dir md \<and> \<not> md_is_symlink md \<Longrightarrow>
        walk_guard w ex p (depth + 1) (bt_insert p (guard_entry md) entries, trunc) =
        walk_guard w' ex p (depth + 1) (bt_insert p (guard_entry md) entries, trunc)"
      using "3.IH"(3) [OF md refl _ "3.prems"(1-3)] "3.prems"(4) by simp
    show ?thesis
      using "3.IH"(4) [OF md refl "3.prems"(1-3)] "3.prems"(4,5) md m below
      by (simp add: Let_def del: walk_guard.simps)
  qed
qed simp

definition deep_world :: "u64 \<Rightarrow> world" where
  "deep_world n =
     demo_world\<lparr>read_dir := (\<lambda>p. if length p \<le> 36 then Some [p @ [Normal ''d'']] else None),
       symlink_metadata := (\<lambda>p. Some \<lparr>md_is_dir = length p \<le> 36, md_is_symlink = False,
         md_len = (if length p \<le> 34 then 0 else n), md_mtime = None\<rparr>)\<rparr>"

lemma deep_listed:
  "length q + k \<le> 36 \<Longrightarrow> \<not> prefix e q \<Longrightarrow> q \<noteq> [] \<Longrightarrow> last e \<noteq> Normal ''d'' \<Longrightarrow> e \<noteq> []
   \<Longrightarrow> listed (deep_world n) [e] q (q @ replicate (Suc k) (Normal ''d''))"
proof (induction k arbitrary: q)
  case 0
  then show ?case
    by (intro listed.here [of _ _ "[q @ [Normal ''d'']]"])
      (auto simp: deep_world_def excluded_def starts_with_def)
next
  case (Suc k)
  let ?q = "q @ [Normal ''d'']"
  have e: "\<not> prefix e ?q" using Suc.prems by auto
  then have x: "\<not> excluded [e] ?q" by (auto simp: excluded_def starts_with_def)
  have r: "read_dir (deep_world n) q = Some [?q]" using Suc.prems(1) by (simp add: deep_world_def)
  obtain m where m: "symlink_metadata (deep_world n) ?q = Some m" "md_is_dir m" "\<not> md_is_symlink m"
    using Suc.prems(1) by (auto simp: deep_world_def)
  have "listed (deep_world n) [e] ?q (?q @ replicate (Suc k) (Normal ''d''))"
    using Suc.IH [OF _ e] Suc.prems by simp
  from listed.below [OF r _ x m this] show ?case by simp
qed

lemma truncated_walk_misses_change:
  "\<exists>p. check_guard (deep_world 1) (snapshot (deep_world 0) [[RootDir]] [[RootDir, Normal ''w'']]) = Inr ()
     \<and> listed (deep_world 0) [[RootDir, Normal ''w'']] [RootDir] p \<and> seen (deep_world 0) p \<noteq> seen (deep_world 1) p"
proof (intro exI conjI)
  let ?p = "[RootDir] @ replicate 35 (Normal ''d'')"
  have "walk_guard (deep_world 0) ex [RootDir] 0 st = walk_guard (deep_world 1) ex [RootDir] 0 st" for ex st
    by (rule walk_agree(1)) (auto simp: deep_world_def split: if_splits)
  then have "snapshot (deep_world 0) [[RootDir]] ex = snapshot (deep_world 1) [[RootDir]] ex" for ex
    by (simp only: snapshot_walk)
  then show "check_guard (deep_world 1) (snapshot (deep_world 0) [[RootDir]] [[RootDir, Normal ''w'']]) = Inr ()"
    by (simp only: check_guard_unchanged)
  show "listed (deep_world 0) [[RootDir, Normal ''w'']] [RootDir] ?p"
    using deep_listed [of "[RootDir]" 34 "[RootDir, Normal ''w'']" 0] by simp
  show "seen (deep_world 0) ?p \<noteq> seen (deep_world 1) ?p"
    by (simp add: deep_world_def guard_entry_def)
qed

end
