(* ===== verification/Json.thy ===== *)
theory Json
  imports Utf8 Format Ordered_Map "HOL-Library.List_Lexorder" "HOL-Library.Char_ord"
begin

text \<open>
  The flat JSON codec of the helper protocol (\<^verbatim>\<open>crates/crustcore-netproto/src/json.rs\<close>): one object,
  scalar values only. The parser walks the characters of the line; its position is modelled by the
  characters that remain. An error keeps its reason as data in place of the rendered sentence.
\<close>

section \<open>Values\<close>

datatype JsonError =
  Expected scalar "scalar option"
| ExpectedCommaOrBrace "scalar option"
| TrailingCharacters
| NestedValue
| UnexpectedStart "scalar option"
| UnterminatedString
| DanglingEscape
| InvalidEscape scalar
| ShortUnicodeEscape
| BadHexDigit scalar
| ExpectedDigits
| NonInteger
| IntegerOutOfRange
| InvalidBool
| InvalidNull

datatype Scalar = Str string | IntV int | Bool bool | Null

datatype Fields = Fields (field_map: "(string \<times> Scalar) list")

definition fields_str :: "Fields \<Rightarrow> string \<Rightarrow> string option" where
  "fields_str f k = (case bt_get (field_map f) k of Some (Str s) \<Rightarrow> Some s | _ \<Rightarrow> None)"

definition fields_int :: "Fields \<Rightarrow> string \<Rightarrow> int option" where
  "fields_int f k = (case bt_get (field_map f) k of Some (IntV i) \<Rightarrow> Some i | _ \<Rightarrow> None)"

definition fields_uint :: "Fields \<Rightarrow> string \<Rightarrow> u64 option" where
  "fields_uint f k =
     (case bt_get (field_map f) k of Some (IntV i) \<Rightarrow> if i \<ge> 0 then Some (of_int i) else None | _ \<Rightarrow> None)"

definition fields_bool :: "Fields \<Rightarrow> string \<Rightarrow> bool option" where
  "fields_bool f k = (case bt_get (field_map f) k of Some (Bool b) \<Rightarrow> Some b | _ \<Rightarrow> None)"

section \<open>The parser\<close>

type_synonym input = "scalar list"

definition peek :: "input \<Rightarrow> scalar option" where
  "peek cs = (case cs of [] \<Rightarrow> None | c # _ \<Rightarrow> Some c)"

definition skip_ws :: "input \<Rightarrow> input" where
  "skip_ws cs = dropWhile (\<lambda>c. c = 32 \<or> c = 9 \<or> c = 13 \<or> c = 10) cs"

definition expect :: "scalar \<Rightarrow> input \<Rightarrow> JsonError + input" where
  "expect ch cs = (if peek cs = Some ch then Inr (tl cs) else Inl (Expected ch (peek cs)))"

definition eof :: "input \<Rightarrow> JsonError + unit" where
  "eof cs = (if cs = [] then Inr () else Inl TrailingCharacters)"

text \<open>\<^verbatim>\<open>char::to_digit(16)\<close>.\<close>

definition to_digit16 :: "scalar \<Rightarrow> nat option" where
  "to_digit16 c =
     (if 48 \<le> c \<and> c \<le> 57 then Some (c - 48)
      else if 97 \<le> c \<and> c \<le> 102 then Some (c - 87)
      else if 65 \<le> c \<and> c \<le> 70 then Some (c - 55)
      else None)"

fun read_hex :: "nat \<Rightarrow> nat \<Rightarrow> input \<Rightarrow> JsonError + nat \<times> input" where
  "read_hex 0 v cs = Inr (v, cs)"
| "read_hex (Suc n) v [] = Inl ShortUnicodeEscape"
| "read_hex (Suc n) v (c # cs) =
     (case to_digit16 c of None \<Rightarrow> Inl (BadHexDigit c) | Some d \<Rightarrow> read_hex n (v * 16 + d) cs)"

definition read_hex4 :: "input \<Rightarrow> JsonError + nat \<times> input" where
  "read_hex4 cs = read_hex 4 0 cs"

definition replacement_char :: scalar where
  "replacement_char = 0xFFFD"

definition from_u32 :: "nat \<Rightarrow> scalar" where
  "from_u32 v = (if valid_scalar v then v else replacement_char)"

definition parse_unicode_escape :: "input \<Rightarrow> JsonError + scalar \<times> input" where
  "parse_unicode_escape cs =
     and_then (read_hex4 cs) (\<lambda>(hi, cs).
       if 0xD800 \<le> hi \<and> hi \<le> 0xDBFF then
         (if peek cs = Some 0x5C \<and> peek (tl cs) = Some 0x75 then
            and_then (read_hex4 (drop 2 cs)) (\<lambda>(lo, cs).
              if 0xDC00 \<le> lo \<and> lo \<le> 0xDFFF
              then Inr (from_u32 (0x10000 + (hi - 0xD800) * 1024 + (lo - 0xDC00)), cs)
              else Inr (replacement_char, cs))
          else Inr (replacement_char, cs))
       else Inr (from_u32 hi, cs))"

definition simple_escape :: "scalar \<Rightarrow> scalar option" where
  "simple_escape e =
     (if e = 0x22 then Some 0x22
      else if e = 0x5C then Some 0x5C
      else if e = 0x2F then Some 0x2F
      else if e = 0x6E then Some 0x0A
      else if e = 0x72 then Some 0x0D
      else if e = 0x74 then Some 0x09
      else if e = 0x62 then Some 0x08
      else if e = 0x66 then Some 0x0C
      else None)"

lemma read_hex_shorter: "read_hex n v cs = Inr (w, cs') \<Longrightarrow> length cs' + n = length cs"
  by (induction n v cs rule: read_hex.induct) (auto split: option.splits)

lemma unicode_escape_shorter: "parse_unicode_escape cs = Inr (c, cs') \<Longrightarrow> length cs' < length cs"
  by (auto simp: parse_unicode_escape_def read_hex4_def and_then_Inr_iff split: if_splits dest!: read_hex_shorter)

function string_loop :: "input \<Rightarrow> scalar list \<Rightarrow> JsonError + scalar list \<times> input" where
  "string_loop [] out = Inl UnterminatedString"
| "string_loop (ch # cs) out =
     (if ch = 0x22 then Inr (out, cs)
      else if ch = 0x5C then
        (case cs of
           [] \<Rightarrow> Inl DanglingEscape
         | esc # cs \<Rightarrow>
             if esc = 0x75 then
               (case parse_unicode_escape cs of
                  Inl e \<Rightarrow> Inl e
                | Inr (c, cs) \<Rightarrow> string_loop cs (out @ [c]))
             else (case simple_escape esc of
                     None \<Rightarrow> Inl (InvalidEscape esc)
                   | Some c \<Rightarrow> string_loop cs (out @ [c])))
      else string_loop cs (out @ [ch]))"
  by pat_completeness auto
termination
  by (relation "measure (\<lambda>(cs, out). length cs)") (auto dest!: unicode_escape_shorter)

definition parse_string :: "input \<Rightarrow> JsonError + string \<times> input" where
  "parse_string cs =
     and_then (expect 0x22 cs) (\<lambda>cs. and_then (string_loop cs []) (\<lambda>(out, cs). Inr (utf8 out, cs)))"

definition is_ascii_digit :: "scalar \<Rightarrow> bool" where
  "is_ascii_digit c = (48 \<le> c \<and> c \<le> 57)"

definition I64_MIN :: int where "I64_MIN = - (2 ^ 63)"
definition I64_MAX :: int where "I64_MAX = 2 ^ 63 - 1"

definition digits_value :: "scalar list \<Rightarrow> nat" where
  "digits_value ds = foldl (\<lambda>v c. v * 10 + (c - 48)) 0 ds"

definition parse_int :: "input \<Rightarrow> JsonError + Scalar \<times> input" where
  "parse_int cs =
     (let neg = (peek cs = Some 45);
          cs1 = (if neg then tl cs else cs);
          ds = takeWhile is_ascii_digit cs1;
          rest = dropWhile is_ascii_digit cs1;
          v = (if neg then - int (digits_value ds) else int (digits_value ds)) in
      if ds = [] then Inl ExpectedDigits
      else if peek rest = Some 46 \<or> peek rest = Some 101 \<or> peek rest = Some 69 then Inl NonInteger
      else if I64_MIN \<le> v \<and> v \<le> I64_MAX then Inr (IntV v, rest)
      else Inl IntegerOutOfRange)"

definition matches_keyword :: "string \<Rightarrow> input \<Rightarrow> input option" where
  "matches_keyword kw cs =
     (if take (length kw) cs = map of_char kw then Some (drop (length kw) cs) else None)"

definition parse_bool :: "input \<Rightarrow> JsonError + Scalar \<times> input" where
  "parse_bool cs =
     (case matches_keyword ''true'' cs of
        Some cs' \<Rightarrow> Inr (Bool True, cs')
      | None \<Rightarrow> (case matches_keyword ''false'' cs of Some cs' \<Rightarrow> Inr (Bool False, cs') | None \<Rightarrow> Inl InvalidBool))"

definition parse_null :: "input \<Rightarrow> JsonError + Scalar \<times> input" where
  "parse_null cs = (case matches_keyword ''null'' cs of Some cs' \<Rightarrow> Inr (Null, cs') | None \<Rightarrow> Inl InvalidNull)"

definition parse_scalar :: "input \<Rightarrow> JsonError + Scalar \<times> input" where
  "parse_scalar cs =
     (case peek cs of
        None \<Rightarrow> Inl (UnexpectedStart None)
      | Some c \<Rightarrow>
          if c = 0x22 then and_then (parse_string cs) (\<lambda>(s, cs). Inr (Str s, cs))
          else if c = 116 \<or> c = 102 then parse_bool cs
          else if c = 110 then parse_null cs
          else if c = 45 \<or> is_ascii_digit c then parse_int cs
          else if c = 123 \<or> c = 91 then Inl NestedValue
          else Inl (UnexpectedStart (Some c)))"

text \<open>Every part of the grammar consumes input.\<close>

lemma skip_ws_shorter: "length (skip_ws cs) \<le> length cs"
  by (simp add: skip_ws_def length_dropWhile_le)

lemma expect_shorter: "expect ch cs = Inr cs' \<Longrightarrow> length cs' < length cs"
  by (cases cs) (auto simp: expect_def peek_def split: if_splits)

lemma string_loop_shorter: "string_loop cs out = Inr (s, cs') \<Longrightarrow> length cs' < length cs"
proof (induction cs out rule: string_loop.induct)
  case (2 ch cs out)
  show ?case
  proof (cases "ch = 34 \<or> ch \<noteq> 92")
    case True
    then show ?thesis using 2 by (auto split: if_splits)
  next
    case False
    then have ch: "ch \<noteq> 34" "ch = 92" by simp_all
    then obtain esc cs1 where cs: "cs = esc # cs1" using "2.prems" by (cases cs) auto
    show ?thesis
    proof (cases "esc = 117")
      case True
      then obtain c cs2 where u: "parse_unicode_escape cs1 = Inr (c, cs2)"
        using "2.prems" ch cs by (cases "parse_unicode_escape cs1") auto
      have "length cs' < length cs2"
        using "2.IH"(1) [OF ch cs True u refl] "2.prems" ch cs True u by simp
      with unicode_escape_shorter [OF u] cs show ?thesis by simp
    next
      case esc: False
      then obtain c where c: "simple_escape esc = Some c"
        using "2.prems" ch cs by (cases "simple_escape esc") auto
      have "length cs' < length cs1"
        using "2.IH"(2) [OF ch cs esc c] "2.prems" ch cs esc c by simp
      with cs show ?thesis by simp
    qed
  qed
qed simp

lemma parse_string_shorter: "parse_string cs = Inr (s, cs') \<Longrightarrow> length cs' < length cs"
  by (auto simp: parse_string_def and_then_Inr_iff dest!: expect_shorter string_loop_shorter)


lemma keyword_shorter: "matches_keyword kw cs = Some cs' \<Longrightarrow> kw \<noteq> [] \<Longrightarrow> length cs' < length cs"
proof -
  assume k: "matches_keyword kw cs = Some cs'" "kw \<noteq> []"
  then have "take (length kw) cs = map of_char kw" "cs' = drop (length kw) cs"
    by (auto simp: matches_keyword_def split: if_splits)
  moreover from this(1) have "length (take (length kw) cs) = length kw" by (metis length_map)
  then have "length kw \<le> length cs" by (simp add: min_def split: if_splits)
  moreover have "0 < length kw" using k(2) by blast
  ultimately show ?thesis by (simp only: length_drop)
qed

lemma parse_int_shorter: "parse_int cs = Inr (v, cs') \<Longrightarrow> length cs' < length cs"
proof -
  assume p: "parse_int cs = Inr (v, cs')"
  let ?cs = "if peek cs = Some 45 then tl cs else cs"
  have "takeWhile is_ascii_digit ?cs \<noteq> []" "cs' = dropWhile is_ascii_digit ?cs"
    using p by (auto simp: parse_int_def Let_def split: if_splits)
  moreover have "length ?cs \<le> length cs" by simp
  moreover have "length (takeWhile is_ascii_digit ?cs) + length (dropWhile is_ascii_digit ?cs) = length ?cs"
    by (metis length_append takeWhile_dropWhile_id)
  moreover have "0 < length (takeWhile is_ascii_digit ?cs)"
    using calculation(1) by blast
  ultimately have "length (dropWhile is_ascii_digit ?cs) < length cs" by linarith
  then show ?thesis using \<open>cs' = dropWhile is_ascii_digit ?cs\<close> by blast
qed

lemma parse_scalar_shorter: "parse_scalar cs = Inr (v, cs') \<Longrightarrow> length cs' < length cs"
  by (auto simp: parse_scalar_def parse_bool_def parse_null_def and_then_Inr_iff
      split: option.splits if_splits dest: parse_string_shorter keyword_shorter parse_int_shorter)

definition parse_member :: "input \<Rightarrow> JsonError + (string \<times> Scalar) \<times> input" where
  "parse_member cs =
     and_then (parse_string (skip_ws cs)) (\<lambda>(key, cs).
     and_then (expect 0x3A (skip_ws cs)) (\<lambda>cs.
     and_then (parse_scalar (skip_ws cs)) (\<lambda>(val, cs).
       Inr ((key, val), skip_ws cs))))"

lemma parse_member_shorter: "parse_member cs = Inr (kv, cs') \<Longrightarrow> length cs' < length cs"
proof -
  assume "parse_member cs = Inr (kv, cs')"
  then obtain key c1 c2 val c3 where "parse_string (skip_ws cs) = Inr (key, c1)" "expect 0x3A (skip_ws c1) = Inr c2"
    "parse_scalar (skip_ws c2) = Inr (val, c3)" "cs' = skip_ws c3"
    by (auto simp: parse_member_def and_then_Inr_iff)
  then show ?thesis
    using skip_ws_shorter [of cs] skip_ws_shorter [of c1] skip_ws_shorter [of c2] skip_ws_shorter [of c3]
    by (fastforce dest: parse_string_shorter expect_shorter parse_scalar_shorter)
qed

function parse_members :: "input \<Rightarrow> (string \<times> Scalar) list \<Rightarrow> JsonError + (string \<times> Scalar) list \<times> input" where
  "parse_members cs m =
     (case parse_member cs of
        Inl e \<Rightarrow> Inl e
      | Inr ((key, val), cs) \<Rightarrow>
          let m = bt_insert key val m in
          if peek cs = Some 0x2C then parse_members (tl cs) m
          else if peek cs = Some 0x7D then Inr (m, tl cs)
          else Inl (ExpectedCommaOrBrace (peek cs)))"
  by pat_completeness auto
termination
  by (relation "measure (\<lambda>(cs, m). length cs)") (auto dest!: parse_member_shorter)

declare parse_members.simps [simp del]

definition parse_flat_object :: "string \<Rightarrow> JsonError + Fields" where
  "parse_flat_object s =
     and_then (expect 0x7B (skip_ws (chars s))) (\<lambda>cs.
       let cs = skip_ws cs in
       if peek cs = Some 0x7D
       then and_then (eof (skip_ws (tl cs))) (\<lambda>_. Inr (Fields []))
       else and_then (parse_members cs []) (\<lambda>(m, cs).
              and_then (eof (skip_ws cs)) (\<lambda>_. Inr (Fields m))))"

section \<open>The encoder\<close>

record Obj =
  ob_buf :: string
  ob_first :: bool

definition Obj_new :: Obj where
  "Obj_new = \<lparr>ob_buf = ''{'', ob_first = True\<rparr>"

definition obj_sep :: "Obj \<Rightarrow> Obj" where
  "obj_sep o' = (if ob_first o' then o'\<lparr>ob_first := False\<rparr> else o'\<lparr>ob_buf := ob_buf o' @ '',''\<rparr>)"

fun hex4 :: "nat \<Rightarrow> string" where
  "hex4 n = [digit (n div 4096), digit (n div 256), digit (n div 16), digit n]"

definition encode_char :: "scalar \<Rightarrow> string" where
  "encode_char c =
     (if c = 0x22 then [CHR 0x5C, CHR 0x22]
      else if c = 0x5C then [CHR 0x5C, CHR 0x5C]
      else if c = 0x0A then [CHR 0x5C, CHR ''n'']
      else if c = 0x0D then [CHR 0x5C, CHR ''r'']
      else if c = 0x09 then [CHR 0x5C, CHR ''t'']
      else if c < 0x20 then [CHR 0x5C, CHR ''u''] @ hex4 c
      else utf8_char c)"

definition encode_str :: "string \<Rightarrow> string \<Rightarrow> string" where
  "encode_str buf s = buf @ [CHR 0x22] @ concat (map encode_char (chars s)) @ [CHR 0x22]"

definition obj_key :: "Obj \<Rightarrow> string \<Rightarrow> Obj" where
  "obj_key o' k = (let o' = obj_sep o' in o'\<lparr>ob_buf := encode_str (ob_buf o') k @ '':''\<rparr>)"

text \<open>\<^verbatim>\<open>i64::to_string\<close>.\<close>

definition show_int :: "int \<Rightarrow> string" where
  "show_int i = (if i < 0 then ''-'' @ show_nat (nat (- i)) else show_nat (nat i))"

definition obj_str :: "Obj \<Rightarrow> string \<Rightarrow> string \<Rightarrow> Obj" where
  "obj_str o' k v = (let o' = obj_key o' k in o'\<lparr>ob_buf := encode_str (ob_buf o') v\<rparr>)"

definition obj_int :: "Obj \<Rightarrow> string \<Rightarrow> int \<Rightarrow> Obj" where
  "obj_int o' k v = (let o' = obj_key o' k in o'\<lparr>ob_buf := ob_buf o' @ show_int v\<rparr>)"

definition obj_uint :: "Obj \<Rightarrow> string \<Rightarrow> u64 \<Rightarrow> Obj" where
  "obj_uint o' k v = (let o' = obj_key o' k in o'\<lparr>ob_buf := ob_buf o' @ show_nat (unat v)\<rparr>)"

definition obj_bool :: "Obj \<Rightarrow> string \<Rightarrow> bool \<Rightarrow> Obj" where
  "obj_bool o' k v = (let o' = obj_key o' k in o'\<lparr>ob_buf := ob_buf o' @ (if v then ''true'' else ''false'')\<rparr>)"

definition obj_finish :: "Obj \<Rightarrow> string" where
  "obj_finish o' = ob_buf o' @ ''}''"

text \<open>A sequence of builder calls, as data.\<close>

datatype field = FStr string | FInt int | FUint u64 | FBool bool

fun put :: "Obj \<Rightarrow> string \<times> field \<Rightarrow> Obj" where
  "put ob (k, FStr v) = obj_str ob k v"
| "put ob (k, FInt v) = obj_int ob k v"
| "put ob (k, FUint v) = obj_uint ob k v"
| "put ob (k, FBool v) = obj_bool ob k v"

definition encode_fields :: "(string \<times> field) list \<Rightarrow> string" where
  "encode_fields kvs = obj_finish (foldl put Obj_new kvs)"

end
