(* ===== verification/Netproto.thy ===== *)
theory Netproto
  imports Json Types Confine
begin

text \<open>
  The helper protocol (\<^verbatim>\<open>crates/crustcore-netproto/src/lib.rs\<close>): requests and responses as flat JSON
  lines, the bounded line reader, and the caller's client. A reader is the list of blocks that
  \<^verbatim>\<open>fill_buf\<close> will still deliver, each a block of bytes or an I/O error; a writer is what was sent
  and whether sending fails. Floating-point numbers are their bit patterns; their decimal rendering
  and parsing by the standard library are parameters. Errors that carry rendered debug text
  (\<^verbatim>\<open>ProtoError::Decode(format!(...))\<close>) keep the data instead: the JSON error, the unknown kind, the
  unexpected response. A writer that fails sends nothing.
\<close>

section \<open>Messages\<close>

definition PROTOCOL_VERSION :: u16 where "PROTOCOL_VERSION = 1"
definition MAX_LINE_BYTES :: nat where "MAX_LINE_BYTES = 1024 * 1024"
definition MAX_TEXT_BYTES :: nat where "MAX_TEXT_BYTES = 256 * 1024"
definition MAX_REGISTRY_MODELS :: nat where "MAX_REGISTRY_MODELS = 4096"
definition MAX_STREAM_BYTES :: nat where "MAX_STREAM_BYTES = 8 * 1024 * 1024"
definition MAX_BATCH :: nat where "MAX_BATCH = 256"
definition MAX_DOCS :: nat where "MAX_DOCS = 1024"
definition MAX_EMBEDDING_DIMS :: nat where "MAX_EMBEDDING_DIMS = 16384"

datatype Role = Advisor | Implementation | Review | Research | LocalFallback

fun role_str :: "Role \<Rightarrow> string" where
  "role_str Advisor = ''advisor''"
| "role_str Implementation = ''implementation''"
| "role_str Review = ''review''"
| "role_str Research = ''research''"
| "role_str LocalFallback = ''local_fallback''"

definition role_from_token :: "string \<Rightarrow> Role" where
  "role_from_token s =
     (if s = ''advisor'' then Advisor
      else if s = ''review'' then Review
      else if s = ''research'' then Research
      else if s = ''local_fallback'' then LocalFallback
      else Implementation)"

record Require =
  rq_tools :: bool
  rq_min_context :: u32
  rq_local_only :: bool

record CompleteRequest =
  cq_role :: Role
  cq_system :: BoundedText
  cq_prompt :: BoundedText
  cq_max_tokens :: u32
  cq_stream :: bool
  cq_max_cost_micros :: u64
  cq_require :: Require

record EmbedRequest =
  eq_role :: Role
  eq_inputs :: "string list"
  eq_max_cost_micros :: u64

record RerankRequest =
  kq_role :: Role
  kq_query :: string
  kq_documents :: "string list"
  kq_max_cost_micros :: u64

datatype Request = Probe | Complete CompleteRequest | Embed EmbedRequest | Rerank RerankRequest

record ModelInfo =
  mi_provider :: string
  mi_model :: string
  mi_healthy :: bool
  mi_context :: u32
  mi_tools :: bool
  mi_structured :: bool
  mi_streaming :: bool
  mi_cost_per_1k_micros :: u64
  mi_embeddings :: bool
  mi_rerank :: bool
  mi_embedding_dims :: u32

record Usage =
  us_input_tokens :: u32
  us_output_tokens :: u32
  us_cost_micros :: u64

record FinalResult =
  fi_text :: BoundedText
  fi_provider :: string
  fi_model :: string
  fi_usage :: Usage
  fi_fallbacks :: "string list"

type_synonym f32 = "32 word"

record EmbeddingResult =
  er_vectors :: "f32 list list"
  er_usage :: Usage
  er_provider :: string
  er_model :: string
  er_fallbacks :: "string list"

record RankingResult =
  rr_ranking :: "(u32 \<times> f32) list"
  rr_usage :: Usage
  rr_provider :: string
  rr_model :: string
  rr_fallbacks :: "string list"

datatype Response =
  RModel ModelInfo
| RegistryEnd
| Chunk BoundedText
| RFinal FinalResult
| Embedding EmbeddingResult
| Ranking RankingResult
| RError string

datatype ProtoError =
  ProtoIo string
| MalformedJson JsonError
| UnknownKind "string option"
| Decode string
| UnexpectedResponse Response
| UnexpectedEof

section \<open>Lists as delimited text\<close>

definition clamp_count :: "nat \<Rightarrow> nat \<Rightarrow> int" where
  "clamp_count len mx = int (min len mx)"

text \<open>A number is finite unless its exponent bits are all set.\<close>

definition is_finite :: "f32 \<Rightarrow> bool" where
  "is_finite x = (unat x div 2 ^ 23 mod 2 ^ 8 \<noteq> 255)"

record float_text =
  f32_to_string :: "f32 \<Rightarrow> string"
  f32_from_str :: "string \<Rightarrow> f32 option"

definition fmt_f32 :: "float_text \<Rightarrow> f32 \<Rightarrow> string" where
  "fmt_f32 ft x = (if is_finite x then f32_to_string ft x else ''0'')"

definition parse_f32 :: "float_text \<Rightarrow> string \<Rightarrow> f32" where
  "parse_f32 ft s = (case f32_from_str ft s of Some x \<Rightarrow> if is_finite x then x else 0 | None \<Rightarrow> 0)"

definition escape_delim :: "string \<Rightarrow> string" where
  "escape_delim s =
     utf8 (concat (map (\<lambda>c. if c = 0x5C then [0x5C, 0x5C] else if c = 0x0A then [0x5C, 0x6E] else [c]) (chars s)))"

fun unescape_loop :: "scalar list \<Rightarrow> scalar list" where
  "unescape_loop [] = []"
| "unescape_loop (c # cs) =
     (if c = 0x5C then
        (case cs of
           [] \<Rightarrow> [0x5C]
         | d # cs \<Rightarrow>
             (if d = 0x6E then [0x0A] else if d = 0x5C then [0x5C] else [0x5C, d]) @ unescape_loop cs)
      else c # unescape_loop cs)"

definition unescape_delim :: "string \<Rightarrow> string" where
  "unescape_delim s = utf8 (unescape_loop (chars s))"

definition bound_text :: "string \<Rightarrow> string" where
  "bound_text s =
     (if length s \<le> MAX_TEXT_BYTES then s else take (back_to_boundary s MAX_TEXT_BYTES) s)"

definition encode_texts :: "string list \<Rightarrow> nat \<Rightarrow> string" where
  "encode_texts texts mx = join_with [CHR 0x0A] (map escape_delim (take mx texts))"

definition decode_texts :: "string \<Rightarrow> nat \<Rightarrow> string list" where
  "decode_texts s mx =
     (if s = [] then []
      else map (\<lambda>t. bound_text (unescape_delim t)) (take mx (split_on (CHR 0x0A) s)))"

definition encode_vectors :: "float_text \<Rightarrow> f32 list list \<Rightarrow> string" where
  "encode_vectors ft vectors =
     join_with '';'' (map (\<lambda>v. join_with '','' (map (fmt_f32 ft) (take MAX_EMBEDDING_DIMS v))) (take MAX_BATCH vectors))"

definition decode_vectors :: "float_text \<Rightarrow> string \<Rightarrow> f32 list list" where
  "decode_vectors ft s =
     (if s = [] then []
      else map (\<lambda>v. if v = [] then []
                    else map (parse_f32 ft) (take MAX_EMBEDDING_DIMS (split_on (CHR '','') v)))
             (take MAX_BATCH (split_on (CHR '';'') s)))"

definition encode_ranking :: "float_text \<Rightarrow> (u32 \<times> f32) list \<Rightarrow> string" where
  "encode_ranking ft ranking =
     join_with '';'' (map (\<lambda>(idx, score). show_nat (unat idx) @ '','' @ fmt_f32 ft score) (take MAX_DOCS ranking))"

text \<open>\<^verbatim>\<open>str::split_once\<close> and \<^verbatim>\<open>str::parse::<u32>\<close>.\<close>

definition split_once :: "char \<Rightarrow> string \<Rightarrow> (string \<times> string) option" where
  "split_once c s = map_option (\<lambda>i. (take i s, drop (Suc i) s)) (position (\<lambda>x. x = c) s)"

definition parse_u32 :: "string \<Rightarrow> u32 option" where
  "parse_u32 s =
     (let ds = (if prefix ''+'' s then tl s else s); v = digits_value (map of_char ds) in
      if ds \<noteq> [] \<and> list_all (\<lambda>c. is_ascii_digit (of_char c)) ds \<and> v < 2 ^ 32 then Some (of_nat v) else None)"

definition decode_pair :: "float_text \<Rightarrow> string \<Rightarrow> (u32 \<times> f32) option" where
  "decode_pair ft pair =
     (case split_once (CHR '','') pair of
        None \<Rightarrow> None
      | Some (idx_s, score_s) \<Rightarrow>
          map_option (\<lambda>idx. (idx, parse_f32 ft (str_trim score_s))) (parse_u32 (str_trim idx_s)))"

definition decode_ranking :: "float_text \<Rightarrow> string \<Rightarrow> (u32 \<times> f32) list" where
  "decode_ranking ft s =
     (if s = [] then [] else List.map_filter (decode_pair ft) (take MAX_DOCS (split_on (CHR '';'') s)))"

definition split_csv :: "string \<Rightarrow> string list" where
  "split_csv s = (if s = [] then [] else split_on (CHR '','') s)"

section \<open>Encoding\<close>

fun request_fields :: "Request \<Rightarrow> (string \<times> field) list" where
  "request_fields Probe = [(''kind'', FStr ''probe'')]"
| "request_fields (Complete c) =
     [(''kind'', FStr ''complete''), (''role'', FStr (role_str (cq_role c))),
      (''system'', FStr (as_str (cq_system c))), (''prompt'', FStr (as_str (cq_prompt c))),
      (''max_tokens'', FInt (uint (cq_max_tokens c))), (''stream'', FBool (cq_stream c)),
      (''max_cost_micros'', FUint (cq_max_cost_micros c)), (''req_tools'', FBool (rq_tools (cq_require c))),
      (''req_min_context'', FInt (uint (rq_min_context (cq_require c)))),
      (''req_local_only'', FBool (rq_local_only (cq_require c)))]"
| "request_fields (Embed e) =
     [(''kind'', FStr ''embed''), (''role'', FStr (role_str (eq_role e))),
      (''count'', FInt (clamp_count (length (eq_inputs e)) MAX_BATCH)),
      (''inputs'', FStr (encode_texts (eq_inputs e) MAX_BATCH)),
      (''max_cost_micros'', FUint (eq_max_cost_micros e))]"
| "request_fields (Rerank r) =
     [(''kind'', FStr ''rerank''), (''role'', FStr (role_str (kq_role r))), (''query'', FStr (kq_query r)),
      (''count'', FInt (clamp_count (length (kq_documents r)) MAX_DOCS)),
      (''documents'', FStr (encode_texts (kq_documents r) MAX_DOCS)),
      (''max_cost_micros'', FUint (kq_max_cost_micros r))]"

definition encode_request :: "Request \<Rightarrow> string" where
  "encode_request req = encode_fields ((''v'', FInt (uint PROTOCOL_VERSION)) # request_fields req)"

definition usage_fields :: "Usage \<Rightarrow> string list \<Rightarrow> (string \<times> field) list" where
  "usage_fields u fallbacks =
     [(''input_tokens'', FInt (uint (us_input_tokens u))), (''output_tokens'', FInt (uint (us_output_tokens u))),
      (''cost_micros'', FUint (us_cost_micros u)), (''fallbacks'', FStr (join_with '','' fallbacks))]"

fun response_fields :: "float_text \<Rightarrow> Response \<Rightarrow> (string \<times> field) list" where
  "response_fields ft (RModel m) =
     [(''kind'', FStr ''model''), (''provider'', FStr (mi_provider m)), (''model'', FStr (mi_model m)),
      (''healthy'', FBool (mi_healthy m)), (''context'', FInt (uint (mi_context m))), (''tools'', FBool (mi_tools m)),
      (''structured'', FBool (mi_structured m)), (''streaming'', FBool (mi_streaming m)),
      (''cost_per_1k_micros'', FUint (mi_cost_per_1k_micros m)), (''embeddings'', FBool (mi_embeddings m)),
      (''rerank'', FBool (mi_rerank m)), (''embedding_dims'', FInt (uint (mi_embedding_dims m)))]"
| "response_fields ft RegistryEnd = [(''kind'', FStr ''registry_end'')]"
| "response_fields ft (Chunk t) = [(''kind'', FStr ''chunk''), (''text'', FStr (as_str t))]"
| "response_fields ft (RFinal f) =
     [(''kind'', FStr ''final''), (''text'', FStr (as_str (fi_text f))), (''provider'', FStr (fi_provider f)),
      (''model'', FStr (fi_model f))] @ usage_fields (fi_usage f) (fi_fallbacks f)"
| "response_fields ft (Embedding e) =
     [(''kind'', FStr ''embedding''), (''count'', FInt (clamp_count (length (er_vectors e)) MAX_BATCH)),
      (''vectors'', FStr (encode_vectors ft (er_vectors e))), (''provider'', FStr (er_provider e)),
      (''model'', FStr (er_model e))] @ usage_fields (er_usage e) (er_fallbacks e)"
| "response_fields ft (Ranking r) =
     [(''kind'', FStr ''ranking''), (''count'', FInt (clamp_count (length (rr_ranking r)) MAX_DOCS)),
      (''ranking'', FStr (encode_ranking ft (rr_ranking r))), (''provider'', FStr (rr_provider r)),
      (''model'', FStr (rr_model r))] @ usage_fields (rr_usage r) (rr_fallbacks r)"
| "response_fields ft (RError reason) = [(''kind'', FStr ''error''), (''reason'', FStr reason)]"

definition encode_response :: "float_text \<Rightarrow> Response \<Rightarrow> string" where
  "encode_response ft resp = encode_fields (response_fields ft resp)"

section \<open>Decoding\<close>

definition str_or :: "Fields \<Rightarrow> string \<Rightarrow> string \<Rightarrow> string" where
  "str_or f k d = (case fields_str f k of Some s \<Rightarrow> s | None \<Rightarrow> d)"

definition u32_or_0 :: "Fields \<Rightarrow> string \<Rightarrow> u32" where
  "u32_or_0 f k = (case fields_uint f k of Some v \<Rightarrow> ucast v | None \<Rightarrow> 0)"

definition u64_or_0 :: "Fields \<Rightarrow> string \<Rightarrow> u64" where
  "u64_or_0 f k = (case fields_uint f k of Some v \<Rightarrow> v | None \<Rightarrow> 0)"

definition bool_or_false :: "Fields \<Rightarrow> string \<Rightarrow> bool" where
  "bool_or_false f k = (case fields_bool f k of Some b \<Rightarrow> b | None \<Rightarrow> False)"

definition decode_complete :: "Fields \<Rightarrow> CompleteRequest" where
  "decode_complete f =
     \<lparr>cq_role = role_from_token (str_or f ''role'' ''implementation''),
      cq_system = truncated (str_or f ''system'' []) MAX_TEXT_BYTES,
      cq_prompt = truncated (str_or f ''prompt'' []) MAX_TEXT_BYTES,
      cq_max_tokens = u32_or_0 f ''max_tokens'', cq_stream = bool_or_false f ''stream'',
      cq_max_cost_micros = u64_or_0 f ''max_cost_micros'',
      cq_require = \<lparr>rq_tools = bool_or_false f ''req_tools'', rq_min_context = u32_or_0 f ''req_min_context'',
                    rq_local_only = bool_or_false f ''req_local_only''\<rparr>\<rparr>"

definition decode_embed :: "Fields \<Rightarrow> EmbedRequest" where
  "decode_embed f =
     \<lparr>eq_role = role_from_token (str_or f ''role'' ''implementation''),
      eq_inputs = decode_texts (str_or f ''inputs'' []) MAX_BATCH,
      eq_max_cost_micros = u64_or_0 f ''max_cost_micros''\<rparr>"

definition decode_rerank :: "Fields \<Rightarrow> RerankRequest" where
  "decode_rerank f =
     \<lparr>kq_role = role_from_token (str_or f ''role'' ''implementation''), kq_query = bound_text (str_or f ''query'' []),
      kq_documents = decode_texts (str_or f ''documents'' []) MAX_DOCS,
      kq_max_cost_micros = u64_or_0 f ''max_cost_micros''\<rparr>"

definition request_from_fields :: "Fields \<Rightarrow> ProtoError + Request" where
  "request_from_fields f =
     (let kind = fields_str f ''kind'' in
      if kind = Some ''probe'' then Inr Probe
      else if kind = Some ''complete'' then Inr (Complete (decode_complete f))
      else if kind = Some ''embed'' then Inr (Embed (decode_embed f))
      else if kind = Some ''rerank'' then Inr (Rerank (decode_rerank f))
      else Inl (UnknownKind kind))"

definition decode_usage :: "Fields \<Rightarrow> Usage" where
  "decode_usage f =
     \<lparr>us_input_tokens = u32_or_0 f ''input_tokens'', us_output_tokens = u32_or_0 f ''output_tokens'',
      us_cost_micros = u64_or_0 f ''cost_micros''\<rparr>"

definition decode_model :: "Fields \<Rightarrow> ModelInfo" where
  "decode_model f =
     \<lparr>mi_provider = str_or f ''provider'' [], mi_model = str_or f ''model'' [],
      mi_healthy = bool_or_false f ''healthy'', mi_context = u32_or_0 f ''context'',
      mi_tools = bool_or_false f ''tools'', mi_structured = bool_or_false f ''structured'',
      mi_streaming = bool_or_false f ''streaming'', mi_cost_per_1k_micros = u64_or_0 f ''cost_per_1k_micros'',
      mi_embeddings = bool_or_false f ''embeddings'', mi_rerank = bool_or_false f ''rerank'',
      mi_embedding_dims = u32_or_0 f ''embedding_dims''\<rparr>"

definition decode_final :: "Fields \<Rightarrow> FinalResult" where
  "decode_final f =
     \<lparr>fi_text = truncated (str_or f ''text'' []) MAX_TEXT_BYTES, fi_provider = str_or f ''provider'' [],
      fi_model = str_or f ''model'' [], fi_usage = decode_usage f, fi_fallbacks = split_csv (str_or f ''fallbacks'' [])\<rparr>"

definition decode_embedding :: "float_text \<Rightarrow> Fields \<Rightarrow> EmbeddingResult" where
  "decode_embedding ft f =
     \<lparr>er_vectors = decode_vectors ft (str_or f ''vectors'' []), er_usage = decode_usage f,
      er_provider = str_or f ''provider'' [], er_model = str_or f ''model'' [],
      er_fallbacks = split_csv (str_or f ''fallbacks'' [])\<rparr>"

definition decode_ranking_result :: "float_text \<Rightarrow> Fields \<Rightarrow> RankingResult" where
  "decode_ranking_result ft f =
     \<lparr>rr_ranking = decode_ranking ft (str_or f ''ranking'' []), rr_usage = decode_usage f,
      rr_provider = str_or f ''provider'' [], rr_model = str_or f ''model'' [],
      rr_fallbacks = split_csv (str_or f ''fallbacks'' [])\<rparr>"

definition response_from_fields :: "float_text \<Rightarrow> Fields \<Rightarrow> ProtoError + Response" where
  "response_from_fields ft f =
     (let kind = fields_str f ''kind'' in
      if kind = Some ''model'' then Inr (RModel (decode_model f))
      else if kind = Some ''registry_end'' then Inr RegistryEnd
      else if kind = Some ''chunk'' then Inr (Chunk (truncated (str_or f ''text'' []) MAX_TEXT_BYTES))
      else if kind = Some ''final'' then Inr (RFinal (decode_final f))
      else if kind = Some ''embedding'' then Inr (Embedding (decode_embedding ft f))
      else if kind = Some ''ranking'' then Inr (Ranking (decode_ranking_result ft f))
      else if kind = Some ''error'' then Inr (RError (str_or f ''reason'' []))
      else Inl (UnknownKind kind))"

section \<open>Lines\<close>

type_synonym reader = "(string + bytes) list"

definition line_too_long :: ProtoError where
  "line_too_long = Decode ''protocol line exceeds the byte cap''"

abbreviation LF :: u8 where
  "LF \<equiv> 10"

fun read_line_bounded :: "reader \<Rightarrow> bytes \<Rightarrow> nat \<Rightarrow> nat \<Rightarrow> reader \<times> (ProtoError + nat \<times> bytes)" where
  "read_line_bounded [] buf len mx = ([], Inr (len, buf))"
| "read_line_bounded (Inl e # r) buf len mx = (r, Inl (ProtoIo e))"
| "read_line_bounded (Inr available # r) buf len mx =
     (if available = [] then (Inr available # r, Inr (len, buf))
      else case position (\<lambda>b. b = LF) available of
             Some pos \<Rightarrow>
               if len + pos > mx then (Inr available # r, Inl line_too_long)
               else ((if drop (pos + 1) available = [] then r else Inr (drop (pos + 1) available) # r),
                     Inr (len + pos, buf @ take pos available))
           | None \<Rightarrow>
               if len + length available > mx then (Inr available # r, Inl line_too_long)
               else read_line_bounded r (buf @ available) (len + length available) mx)"

definition read_fields :: "reader \<Rightarrow> reader \<times> (ProtoError + Fields option)" where
  "read_fields r =
     (let (r', res) = read_line_bounded r [] 0 MAX_LINE_BYTES in
      (r', and_then res (\<lambda>(n, line).
         if n = 0 then Inr None
         else let trimmed = str_trim (utf8_lossy line) in
              if trimmed = [] then Inr None
              else (case parse_flat_object trimmed of
                      Inl e \<Rightarrow> Inl (MalformedJson e)
                    | Inr f \<Rightarrow> Inr (Some f)))))"

definition read_message :: "(Fields \<Rightarrow> ProtoError + 'a) \<Rightarrow> reader \<Rightarrow> reader \<times> (ProtoError + 'a option)" where
  "read_message from_fields r =
     (let (r', res) = read_fields r in
      (r', and_then res (\<lambda>f. case f of Some f \<Rightarrow> and_then (from_fields f) (\<lambda>m. Inr (Some m)) | None \<Rightarrow> Inr None)))"

definition read_request :: "reader \<Rightarrow> reader \<times> (ProtoError + Request option)" where
  "read_request r = read_message request_from_fields r"

definition read_response :: "float_text \<Rightarrow> reader \<Rightarrow> reader \<times> (ProtoError + Response option)" where
  "read_response ft r = read_message (response_from_fields ft) r"

record writer =
  w_sent :: bytes
  w_broken :: "string option"

definition write_line :: "writer \<Rightarrow> string \<Rightarrow> ProtoError + writer" where
  "write_line w line =
     (case w_broken w of
        Some e \<Rightarrow> Inl (ProtoIo e)
      | None \<Rightarrow> Inr (w\<lparr>w_sent := w_sent w @ as_bytes line @ [LF]\<rparr>))"

definition write_request :: "writer \<Rightarrow> Request \<Rightarrow> ProtoError + writer" where
  "write_request w req = write_line w (encode_request req)"

definition write_response :: "float_text \<Rightarrow> writer \<Rightarrow> Response \<Rightarrow> ProtoError + writer" where
  "write_response ft w resp = write_line w (encode_response ft resp)"

text \<open>Reading a message consumes at least the bytes of a line.\<close>

definition unread :: "reader \<Rightarrow> nat" where
  "unread r = sum_list (map (\<lambda>c. case c of Inl _ \<Rightarrow> 1 | Inr b \<Rightarrow> Suc (length b)) r)"

lemma read_line_unread:
  "read_line_bounded r buf len mx = (r', Inr (n, b)) \<Longrightarrow> unread r' + (n - len) \<le> unread r \<and> len \<le> n"
proof (induction r buf len mx rule: read_line_bounded.induct)
  case (3 available r buf len mx)
  show ?case
  proof (cases "position (\<lambda>b. b = LF) available")
    case None
    then show ?thesis
      using 3 by (auto simp: unread_def split: if_splits)
  next
    case (Some pos)
    then have "pos < length available" using position_SomeD by fastforce
    with Some "3.prems" show ?thesis by (auto simp: unread_def split: if_splits)
  qed
qed (auto simp: unread_def)

lemma read_message_unread: "read_message ff r = (r', Inr (Some m)) \<Longrightarrow> unread r' < unread r"
  by (auto simp: read_message_def read_fields_def Let_def and_then_Inr_iff split: prod.splits if_splits sum.splits
      dest!: read_line_unread)

lemma read_response_unread: "(r', Inr (Some m)) = read_response ft r \<Longrightarrow> unread r' < unread r"
  by (metis read_message_unread read_response_def)

section \<open>The client\<close>

function probe_loop :: "float_text \<Rightarrow> reader \<Rightarrow> ModelInfo list \<Rightarrow> reader \<times> (ProtoError + ModelInfo list)" where
  "probe_loop ft r models =
     (case read_response ft r of
        (r', Inl e) \<Rightarrow> (r', Inl e)
      | (r', Inr None) \<Rightarrow> (r', Inl UnexpectedEof)
      | (r', Inr (Some (RModel m))) \<Rightarrow>
          if length models \<ge> MAX_REGISTRY_MODELS
          then (r', Inl (Decode ''registry exceeded the model cap before RegistryEnd''))
          else probe_loop ft r' (models @ [m])
      | (r', Inr (Some RegistryEnd)) \<Rightarrow> (r', Inr models)
      | (r', Inr (Some (RError e))) \<Rightarrow> (r', Inl (Decode e))
      | (r', Inr (Some other)) \<Rightarrow> (r', Inl (UnexpectedResponse other)))"
  by pat_completeness auto
termination
  by (relation "measure (\<lambda>(ft, r, models). unread r)") (auto dest: read_response_unread)

declare probe_loop.simps [simp del]

function complete_loop ::
  "float_text \<Rightarrow> reader \<Rightarrow> nat \<Rightarrow> string list \<Rightarrow> reader \<times> string list \<times> (ProtoError + FinalResult)" where
  "complete_loop ft r streamed chunks =
     (case read_response ft r of
        (r', Inl e) \<Rightarrow> (r', chunks, Inl e)
      | (r', Inr None) \<Rightarrow> (r', chunks, Inl UnexpectedEof)
      | (r', Inr (Some (Chunk t))) \<Rightarrow>
          let streamed = min (streamed + BoundedText_len t) usize_max in
          if streamed > MAX_STREAM_BYTES
          then (r', chunks, Inl (Decode ''completion stream exceeded the byte cap before Final''))
          else complete_loop ft r' streamed (chunks @ [as_str t])
      | (r', Inr (Some (RFinal f))) \<Rightarrow> (r', chunks, Inr f)
      | (r', Inr (Some (RError e))) \<Rightarrow> (r', chunks, Inl (Decode e))
      | (r', Inr (Some other)) \<Rightarrow> (r', chunks, Inl (UnexpectedResponse other)))"
  by pat_completeness auto
termination
  by (relation "measure (\<lambda>(ft, r, streamed, chunks). unread r)") (auto dest: read_response_unread)

declare complete_loop.simps [simp del]

record NetHelper =
  nh_w :: writer
  nh_r :: reader

definition probe :: "float_text \<Rightarrow> NetHelper \<Rightarrow> NetHelper \<times> (ProtoError + ModelInfo list)" where
  "probe ft h =
     (case write_request (nh_w h) Probe of
        Inl e \<Rightarrow> (h, Inl e)
      | Inr w \<Rightarrow> let (r, res) = probe_loop ft (nh_r h) [] in (\<lparr>nh_w = w, nh_r = r\<rparr>, res))"

definition complete ::
  "float_text \<Rightarrow> NetHelper \<Rightarrow> CompleteRequest \<Rightarrow> NetHelper \<times> string list \<times> (ProtoError + FinalResult)" where
  "complete ft h req =
     (case write_request (nh_w h) (Complete req) of
        Inl e \<Rightarrow> (h, [], Inl e)
      | Inr w \<Rightarrow> let (r, chunks, res) = complete_loop ft (nh_r h) 0 [] in (\<lparr>nh_w = w, nh_r = r\<rparr>, chunks, res))"

definition embed :: "float_text \<Rightarrow> NetHelper \<Rightarrow> EmbedRequest \<Rightarrow> NetHelper \<times> (ProtoError + EmbeddingResult)" where
  "embed ft h req =
     (case write_request (nh_w h) (Embed req) of
        Inl e \<Rightarrow> (h, Inl e)
      | Inr w \<Rightarrow>
          let (r, res) = read_response ft (nh_r h) in
          (\<lparr>nh_w = w, nh_r = r\<rparr>,
           and_then res (\<lambda>m. case m of
               Some (Embedding e) \<Rightarrow> Inr e
             | Some (RError e) \<Rightarrow> Inl (Decode e)
             | Some other \<Rightarrow> Inl (UnexpectedResponse other)
             | None \<Rightarrow> Inl UnexpectedEof)))"

definition rerank :: "float_text \<Rightarrow> NetHelper \<Rightarrow> RerankRequest \<Rightarrow> NetHelper \<times> (ProtoError + RankingResult)" where
  "rerank ft h req =
     (case write_request (nh_w h) (Rerank req) of
        Inl e \<Rightarrow> (h, Inl e)
      | Inr w \<Rightarrow>
          let (r, res) = read_response ft (nh_r h) in
          (\<lparr>nh_w = w, nh_r = r\<rparr>,
           and_then res (\<lambda>m. case m of
               Some (Ranking e) \<Rightarrow> Inr e
             | Some (RError e) \<Rightarrow> Inl (Decode e)
             | Some other \<Rightarrow> Inl (UnexpectedResponse other)
             | None \<Rightarrow> Inl UnexpectedEof)))"

end
