(* ===== verification/Json_Props.thy ===== *)
theory Json_Props
  imports Json
begin

text \<open>
  The codec is exact: what the builder writes, the parser reads back; and a line carries no control
  character, so that one line is one message.
\<close>

section \<open>Characters\<close>

definition valid_text :: "string \<Rightarrow> bool" where
  "valid_text s = (list_all valid_scalar (chars s) \<and> utf8 (chars s) = s)"

lemma valid_textE:
  assumes "valid_text s"
  obtains cs where "list_all valid_scalar cs" "s = utf8 cs" "chars s = cs"
  using assms by (metis valid_text_def)

lemma valid_scalar_le: "valid_scalar c \<Longrightarrow> c \<le> 0x10FFFF"
  by (auto simp: valid_scalar_def)

lemma chars_utf8_valid: "list_all valid_scalar cs \<Longrightarrow> chars (utf8 cs @ t) = cs @ chars t"
  by (rule chars_utf8) (auto simp: list_all_iff dest: valid_scalar_le)

lemma valid_text_utf8: "list_all valid_scalar cs \<Longrightarrow> valid_text (utf8 cs)"
  using chars_utf8_valid [of cs "[]"] by (simp add: valid_text_def)

definition ascii :: "string \<Rightarrow> bool" where
  "ascii s = list_all (\<lambda>c. of_char c < (128 :: nat)) s"

lemma chars_ascii: "ascii s \<Longrightarrow> chars (s @ t) = map of_char s @ chars t"
  by (induction s) (simp_all add: ascii_def Let_def)

lemma valid_text_ascii: "ascii s \<Longrightarrow> valid_text s"
proof -
  assume a: "ascii s"
  have "chars s = map of_char s" using chars_ascii [OF a, of "[]"] by simp
  moreover have "utf8 (map of_char s) = s"
    using a by (induction s) (simp_all add: ascii_def utf8_def utf8_char_def)
  ultimately show ?thesis
    using a by (simp add: valid_text_def ascii_def list_all_iff valid_scalar_def) fastforce
qed

section \<open>Strings\<close>

lemma to_digit16_digit: "to_digit16 (of_char (digit n)) = Some (n mod 16)"
proof -
  have "list_all (\<lambda>n. to_digit16 (of_char (digit n)) = Some n) [0..<16]" by code_simp
  then have "to_digit16 (of_char (digit (n mod 16))) = Some (n mod 16)" by (simp add: list_all_iff)
  then show ?thesis by (simp add: digit_def)
qed

lemma digit_ascii: "of_char (digit n) < (128 :: nat)"
proof -
  have "list_all (\<lambda>n. of_char (digit n) < (128 :: nat)) [0..<16]" by code_simp
  then have "of_char (digit (n mod 16)) < (128 :: nat)" by (simp add: list_all_iff)
  then show ?thesis by (simp add: digit_def)
qed

lemma read_hex4_digits:
  "read_hex4 (of_char (digit a) # of_char (digit b) # of_char (digit c) # of_char (digit d) # rest) =
     Inr (((a mod 16 * 16 + b mod 16) * 16 + c mod 16) * 16 + d mod 16, rest)"
proof -
  have four: "(4 :: nat) = Suc (Suc (Suc (Suc 0)))" by simp
  show ?thesis unfolding read_hex4_def four by (simp add: to_digit16_digit)
qed

lemma unicode_escape_hex4:
  assumes "c < 0x20"
  shows "parse_unicode_escape (chars (hex4 c @ t)) = Inr (c, chars t)"
proof -
  have "chars (hex4 c @ t) = map of_char (hex4 c) @ chars t"
    by (rule chars_ascii) (simp add: ascii_def digit_ascii)
  then have "read_hex4 (chars (hex4 c @ t)) = Inr (c, chars t)"
    using assms by (simp add: read_hex4_digits)
  then show ?thesis
    using assms by (simp add: parse_unicode_escape_def from_u32_def valid_scalar_def)
qed

lemma encode_char_read:
  assumes "valid_scalar c"
  shows "string_loop (chars (encode_char c @ t)) out = string_loop (chars t) (out @ [c])"
proof -
  consider "c \<in> {0x22, 0x5C, 0x0A, 0x0D, 0x09}" | "c \<notin> {0x22, 0x5C, 0x0A, 0x0D, 0x09}" "c < 0x20"
    | "c \<notin> {0x22, 0x5C, 0x0A, 0x0D, 0x09}" "\<not> c < 0x20" by blast
  then show ?thesis
  proof cases
    case 1
    then show ?thesis by (auto simp: encode_char_def Let_def simple_escape_def)
  next
    case 2
    then have "chars (encode_char c @ t) = 0x5C # 0x75 # chars (hex4 c @ t)"
      by (simp add: encode_char_def Let_def del: hex4.simps)
    then show ?thesis using unicode_escape_hex4 [OF 2(2), of t] by (simp del: hex4.simps)
  next
    case 3
    then have "chars (encode_char c @ t) = c # chars t"
      using chars_utf8_char [OF valid_scalar_le [OF assms]] by (simp add: encode_char_def)
    with 3 show ?thesis by simp
  qed
qed

lemma encode_chars_read:
  "list_all valid_scalar cs \<Longrightarrow>
     string_loop (chars (concat (map encode_char cs) @ CHR 0x22 # t)) out = Inr (out @ cs, chars t)"
proof (induction cs arbitrary: out)
  case (Cons c cs)
  then show ?case using encode_char_read [of c "concat (map encode_char cs) @ CHR 0x22 # t" out] by simp
qed (simp add: Let_def)

lemma encode_str_buf: "encode_str buf s = buf @ encode_str [] s"
  by (simp add: encode_str_def)

lemma parse_encoded_string:
  assumes "valid_text s"
  shows "parse_string (chars (encode_str [] s @ t)) = Inr (s, chars t)"
proof -
  obtain cs where cs: "list_all valid_scalar cs" "s = utf8 cs" "chars s = cs" using assms by (rule valid_textE)
  have "chars (encode_str [] s @ t) = 0x22 # chars (concat (map encode_char cs) @ CHR 0x22 # t)"
    by (simp add: encode_str_def cs(3) Let_def)
  then show ?thesis
    using encode_chars_read [OF cs(1), of t "[]"] cs(2) by (simp add: parse_string_def expect_def peek_def)
qed

section \<open>Numbers\<close>

lemma digits_value_snoc: "digits_value (ds @ [d]) = digits_value ds * 10 + (d - 48)"
  by (simp add: digits_value_def)

lemma decimal_digit: "n < 10 \<Longrightarrow> of_char (digit n) = (n + 48 :: nat)"
proof -
  have "list_all (\<lambda>n. of_char (digit n) = (n + 48 :: nat)) [0..<10]" by code_simp
  then show "n < 10 \<Longrightarrow> of_char (digit n) = (n + 48 :: nat)" by (simp add: list_all_iff)
qed

lemma show_nat_digits:
  "list_all is_ascii_digit (map of_char (show_nat n)) \<and> digits_value (map of_char (show_nat n)) = n"
proof (induction n rule: show_nat.induct)
  case (1 n)
  show ?case
  proof (cases "n < 10")
    case True
    then show ?thesis
      by (subst (1 2) show_nat.simps) (simp add: decimal_digit is_ascii_digit_def digits_value_def)
  next
    case False
    have lt: "n mod 10 < 10" by simp
    have e: "show_nat n = show_nat (n div 10) @ [digit (n mod 10)]" using False by (subst show_nat.simps) simp
    have d: "is_ascii_digit (of_char (digit (n mod 10)))"
      unfolding is_ascii_digit_def decimal_digit [OF lt] using lt by linarith
    have "digits_value (map of_char (show_nat n)) = n div 10 * 10 + n mod 10"
      using 1 [OF False] decimal_digit [OF lt] by (simp add: e digits_value_snoc)
    then show ?thesis using 1 [OF False] d by (simp add: e)
  qed
qed

lemma show_nat_ascii: "ascii (show_nat n)"
  using show_nat_digits [of n] by (auto simp: ascii_def list_all_iff is_ascii_digit_def)

definition stops :: "input \<Rightarrow> bool" where
  "stops cs = (peek cs = Some 0x2C \<or> peek cs = Some 0x7D)"

lemma digits_split:
  assumes "list_all is_ascii_digit ds" "stops cs"
  shows "takeWhile is_ascii_digit (ds @ cs) = ds" "dropWhile is_ascii_digit (ds @ cs) = cs"
proof -
  have "\<not> is_ascii_digit c" if "cs = c # cs'" for c cs'
    using assms(2) that by (auto simp: stops_def peek_def is_ascii_digit_def)
  with assms(1) show "takeWhile is_ascii_digit (ds @ cs) = ds" "dropWhile is_ascii_digit (ds @ cs) = cs"
    by (cases cs; induction ds; simp)+
qed

lemma parse_digits:
  assumes "list_all is_ascii_digit ds" "ds \<noteq> []" "stops cs"
  shows "parse_scalar (ds @ cs) =
      (if int (digits_value ds) \<le> I64_MAX then Inr (IntV (int (digits_value ds)), cs) else Inl IntegerOutOfRange)"
    and "parse_scalar (45 # ds @ cs) =
      (if I64_MIN \<le> - int (digits_value ds) then Inr (IntV (- int (digits_value ds)), cs) else Inl IntegerOutOfRange)"
proof -
  obtain d ds' where d: "ds = d # ds'" "is_ascii_digit d" using assms(1,2) by (cases ds) simp_all
  have p: "peek (ds @ cs) = Some d" "d \<noteq> 45" "d \<noteq> 0x22" "d \<noteq> 116" "d \<noteq> 102" "d \<noteq> 110"
    using d by (auto simp: peek_def is_ascii_digit_def)
  have r: "peek cs \<noteq> Some 46" "peek cs \<noteq> Some 101" "peek cs \<noteq> Some 69" using assms(3) by (auto simp: stops_def)
  note s = digits_split [OF assms(1,3)]
  have "parse_int (ds @ cs) =
      (if int (digits_value ds) \<le> I64_MAX then Inr (IntV (int (digits_value ds)), cs) else Inl IntegerOutOfRange)"
    using p(1,2) r assms(2) by (simp add: parse_int_def Let_def s I64_MIN_def)
  then show "parse_scalar (ds @ cs) =
      (if int (digits_value ds) \<le> I64_MAX then Inr (IntV (int (digits_value ds)), cs) else Inl IntegerOutOfRange)"
    using p d(2) by (simp add: parse_scalar_def)
  have "parse_int (45 # ds @ cs) =
      (if I64_MIN \<le> - int (digits_value ds) then Inr (IntV (- int (digits_value ds)), cs) else Inl IntegerOutOfRange)"
    using r assms(2) by (simp add: parse_int_def Let_def s peek_def [of "45 # _"] I64_MAX_def)
  then show "parse_scalar (45 # ds @ cs) =
      (if I64_MIN \<le> - int (digits_value ds) then Inr (IntV (- int (digits_value ds)), cs) else Inl IntegerOutOfRange)"
    by (simp add: parse_scalar_def peek_def)
qed

lemma parse_shown_nat:
  assumes "stops (chars t)"
  shows "parse_scalar (chars (show_nat n @ t)) =
    (if int n \<le> I64_MAX then Inr (IntV (int n), chars t) else Inl IntegerOutOfRange)"
  using parse_digits(1) [of "map of_char (show_nat n)", OF _ _ assms] show_nat_digits [of n]
    chars_ascii [OF show_nat_ascii, of n t] by simp

lemma parse_shown_int:
  assumes "stops (chars t)" "I64_MIN \<le> v" "v \<le> I64_MAX"
  shows "parse_scalar (chars (show_int v @ t)) = Inr (IntV v, chars t)"
proof (cases "v < 0")
  case True
  have "chars (show_int v @ t) = 45 # map of_char (show_nat (nat (- v))) @ chars t"
    using True chars_ascii [OF show_nat_ascii, of "nat (- v)" t] by (simp add: show_int_def Let_def)
  then show ?thesis
    using parse_digits(2) [of "map of_char (show_nat (nat (- v)))", OF _ _ assms(1)]
      show_nat_digits [of "nat (- v)"] True assms(2) by simp
next
  case False
  then show ?thesis using parse_shown_nat [OF assms(1), of "nat v"] assms(3) by (simp add: show_int_def)
qed

lemma parse_shown_bool:
  "parse_scalar (chars ((if b then ''true'' else ''false'') @ t)) = Inr (Bool b, chars t)"
proof -
  have "chars ((if b then ''true'' else ''false'') @ t) = map of_char (if b then ''true'' else ''false'') @ chars t"
    by (rule chars_ascii) (simp add: ascii_def)
  then show ?thesis
    by (cases b) (simp_all add: parse_scalar_def peek_def parse_bool_def matches_keyword_def)
qed

section \<open>Objects\<close>

fun scalar_of :: "field \<Rightarrow> Scalar" where
  "scalar_of (FStr v) = Str v"
| "scalar_of (FInt v) = IntV v"
| "scalar_of (FUint v) = IntV (int (unat v))"
| "scalar_of (FBool v) = Bool v"

fun value_text :: "field \<Rightarrow> string" where
  "value_text (FStr v) = encode_str [] v"
| "value_text (FInt v) = show_int v"
| "value_text (FUint v) = show_nat (unat v)"
| "value_text (FBool v) = (if v then ''true'' else ''false'')"

fun field_ok :: "field \<Rightarrow> bool" where
  "field_ok (FStr v) = valid_text v"
| "field_ok (FInt v) = (I64_MIN \<le> v \<and> v \<le> I64_MAX)"
| "field_ok (FUint v) = (int (unat v) \<le> I64_MAX)"
| "field_ok (FBool v) = True"

definition member_text :: "string \<times> field \<Rightarrow> string" where
  "member_text kf = encode_str [] (fst kf) @ '':'' @ value_text (snd kf)"

lemma put_buf:
  "ob_buf (put ob kf) = ob_buf ob @ (if ob_first ob then [] else '','') @ member_text kf \<and> \<not> ob_first (put ob kf)"
  by (cases kf; cases "snd kf")
    (auto simp: obj_str_def obj_int_def obj_uint_def obj_bool_def obj_key_def obj_sep_def Let_def member_text_def
      encode_str_buf [of "_ @ _"] encode_str_buf [of "ob_buf _"])

lemma foldl_put_buf:
  "\<not> ob_first ob \<Longrightarrow> ob_buf (foldl put ob kvs) = ob_buf ob @ concat (map (\<lambda>kf. '','' @ member_text kf) kvs)"
  using put_buf by (induction kvs arbitrary: ob) simp_all

lemma encode_fields_Cons:
  "encode_fields (kf # kvs) = ''{'' @ member_text kf @ concat (map (\<lambda>kf. '','' @ member_text kf) kvs) @ ''}''"
  using put_buf [of Obj_new kf] foldl_put_buf [of "put Obj_new kf" kvs]
  by (simp add: encode_fields_def obj_finish_def Obj_new_def)

lemma skip_ws_peek: "peek cs = Some c \<Longrightarrow> c \<notin> {32, 9, 13, 10} \<Longrightarrow> skip_ws cs = cs"
  by (cases cs) (simp_all add: peek_def skip_ws_def)

lemma stops_skip: "stops cs \<Longrightarrow> skip_ws cs = cs"
  by (auto simp: stops_def intro: skip_ws_peek)

lemma shown_nat_start: "skip_ws (chars (show_nat n @ t)) = chars (show_nat n @ t)"
proof -
  obtain d ds where d: "map of_char (show_nat n) = d # ds" "is_ascii_digit d"
    using show_nat_digits [of n] by (cases "map of_char (show_nat n) :: scalar list") auto
  then show ?thesis
    using chars_ascii [OF show_nat_ascii, of n t] by (auto simp: skip_ws_def is_ascii_digit_def)
qed

lemma value_start: "skip_ws (chars (value_text f @ t)) = chars (value_text f @ t)"
proof (cases f)
  case (FInt v)
  then show ?thesis
    using shown_nat_start by (cases "v < 0") (simp_all add: show_int_def Let_def skip_ws_def)
next
  case (FBool b)
  then show ?thesis by (cases b) (simp_all add: Let_def skip_ws_def)
qed (simp_all add: encode_str_def Let_def skip_ws_def shown_nat_start [unfolded skip_ws_def])

lemma parse_value:
  assumes "field_ok f" "stops (chars t)"
  shows "parse_scalar (skip_ws (chars (value_text f @ t))) = Inr (scalar_of f, chars t)"
  unfolding value_start
proof (cases f)
  case (FStr v)
  then have "peek (chars (value_text f @ t)) = Some 0x22" by (simp add: encode_str_def Let_def peek_def)
  with FStr show "parse_scalar (chars (value_text f @ t)) = Inr (scalar_of f, chars t)"
    using assms(1) parse_encoded_string [of v t] by (simp add: parse_scalar_def)
qed (use assms parse_shown_int parse_shown_nat parse_shown_bool in simp_all)

lemma parse_one_member:
  assumes "valid_text (fst kf)" "field_ok (snd kf)" "stops (chars t)"
  shows "parse_member (chars (member_text kf @ t)) = Inr ((fst kf, scalar_of (snd kf)), chars t)"
proof -
  let ?rest = "'':'' @ value_text (snd kf) @ t"
  have "skip_ws (chars (member_text kf @ t)) = chars (encode_str [] (fst kf) @ ?rest)"
    by (simp add: member_text_def encode_str_def Let_def skip_ws_def)
  moreover have "expect 0x3A (skip_ws (chars ?rest)) = Inr (chars (value_text (snd kf) @ t))"
    by (simp add: Let_def skip_ws_def expect_def peek_def)
  ultimately show ?thesis
    using parse_encoded_string [OF assms(1), of ?rest] parse_value [OF assms(2,3)] stops_skip [OF assms(3)]
    by (simp add: parse_member_def del: append.simps)
qed

definition insert_field :: "(string \<times> Scalar) list \<Rightarrow> string \<times> field \<Rightarrow> (string \<times> Scalar) list" where
  "insert_field m kf = bt_insert (fst kf) (scalar_of (snd kf)) m"

definition fields_ok :: "(string \<times> field) list \<Rightarrow> bool" where
  "fields_ok kvs = list_all (\<lambda>kf. valid_text (fst kf) \<and> field_ok (snd kf)) kvs"

lemma parse_all_members:
  assumes "fields_ok (kf # kvs)"
  shows "parse_members (chars (member_text kf @ concat (map (\<lambda>kf. '','' @ member_text kf) kvs) @ ''}'')) m =
    Inr (foldl insert_field m (kf # kvs), [])"
  using assms
proof (induction kvs arbitrary: kf m)
  case Nil
  have "parse_member (chars (member_text kf @ ''}'')) = Inr ((fst kf, scalar_of (snd kf)), chars ''}'')"
    using Nil by (intro parse_one_member) (simp_all add: fields_ok_def stops_def peek_def Let_def)
  then show ?case by (subst parse_members.simps) (simp add: Let_def peek_def insert_field_def)
next
  case (Cons kf' kvs)
  let ?t = "member_text kf' @ concat (map (\<lambda>kf. '','' @ member_text kf) kvs) @ ''}''"
  have "parse_member (chars (member_text kf @ '','' @ ?t)) = Inr ((fst kf, scalar_of (snd kf)), chars ('','' @ ?t))"
    using Cons.prems by (intro parse_one_member) (simp_all add: fields_ok_def stops_def peek_def Let_def)
  moreover have "chars ('','' @ ?t) = 0x2C # chars ?t" by (simp add: Let_def)
  moreover have "parse_members (chars ?t) (insert_field m kf) = Inr (foldl insert_field (insert_field m kf) (kf' # kvs), [])"
    using Cons.prems by (intro Cons.IH) (simp add: fields_ok_def)
  ultimately show ?case by (subst parse_members.simps) (simp add: Let_def peek_def insert_field_def)
qed

lemma parse_encoded_fields:
  assumes "fields_ok kvs"
  shows "parse_flat_object (encode_fields kvs) = Inr (Fields (foldl insert_field [] kvs))"
proof (cases kvs)
  case Nil
  then show ?thesis
    by (simp add: encode_fields_def obj_finish_def Obj_new_def parse_flat_object_def Let_def skip_ws_def expect_def
        peek_def eof_def)
next
  case (Cons kf rest)
  let ?t = "member_text kf @ concat (map (\<lambda>kf. '','' @ member_text kf) rest) @ ''}''"
  have "chars (encode_fields kvs) = 0x7B # chars ?t" by (simp add: Cons encode_fields_Cons Let_def)
  moreover have "\<exists>cs. chars ?t = 0x22 # cs" by (simp add: member_text_def encode_str_def Let_def)
  then obtain cs where "chars ?t = 0x22 # cs" by blast
  then have "skip_ws (chars ?t) = chars ?t" "peek (chars ?t) = Some 0x22" by (simp_all add: skip_ws_def peek_def)
  ultimately show ?thesis
    using parse_all_members [OF assms [unfolded Cons], of "[]"]
    by (simp add: Cons parse_flat_object_def Let_def skip_ws_def [of "0x7B # _"] expect_def peek_def [of "0x7B # _"]
        eof_def skip_ws_def [of "[]"])
qed

lemma get_inserted:
  "bt_get (foldl insert_field m kvs) k = (bt_get m ++ map_of (rev (map (\<lambda>(k, f). (k, scalar_of f)) kvs))) k"
proof (induction kvs arbitrary: m)
  case (Cons kf kvs)
  then show ?case
    by (cases kf) (simp add: insert_field_def map_add_def split: option.splits)
qed simp

section \<open>Lines\<close>

definition printable :: "string \<Rightarrow> bool" where
  "printable s = list_all (\<lambda>x. 0x20 \<le> (of_char x :: nat)) s"

lemma printable_append [simp]: "printable (a @ b) \<longleftrightarrow> printable a \<and> printable b"
  by (simp add: printable_def)

lemma utf8_char_printable: "c \<le> 0x10FFFF \<Longrightarrow> \<not> c < 0x20 \<Longrightarrow> printable (utf8_char c)"
  by (simp add: printable_def utf8_char_def)

lemma digit_printable: "0x20 \<le> (of_char (digit n) :: nat)"
proof -
  have "list_all (\<lambda>n. 0x20 \<le> (of_char (digit n) :: nat)) [0..<16]" by code_simp
  then have "0x20 \<le> (of_char (digit (n mod 16)) :: nat)" by (simp add: list_all_iff)
  then show ?thesis by (simp add: digit_def)
qed

lemma encode_char_printable: "valid_scalar c \<Longrightarrow> printable (encode_char c)"
  using utf8_char_printable [OF valid_scalar_le, of c] digit_printable
  by (simp add: encode_char_def printable_def)

lemma encode_str_printable: "valid_text s \<Longrightarrow> printable (encode_str [] s)"
  using encode_char_printable
  by (auto simp: encode_str_def valid_text_def list_all_iff printable_def)

lemma show_nat_printable: "printable (show_nat n)"
  using show_nat_digits [of n] by (auto simp: printable_def list_all_iff is_ascii_digit_def)

lemma member_printable: "valid_text (fst kf) \<Longrightarrow> field_ok (snd kf) \<Longrightarrow> printable (member_text kf)"
  using encode_str_printable show_nat_printable
  by (cases "snd kf") (auto simp: member_text_def show_int_def, simp_all add: printable_def)

lemma encode_fields_printable: "fields_ok kvs \<Longrightarrow> printable (encode_fields kvs)"
proof (cases kvs)
  case Nil
  then show ?thesis by (simp add: encode_fields_def obj_finish_def Obj_new_def printable_def)
next
  case (Cons kf rest)
  assume "fields_ok kvs"
  then have "printable (member_text kf)" "\<forall>kf\<in>set rest. printable (member_text kf)"
    using Cons member_printable by (auto simp: fields_ok_def list_all_iff)
  then show ?thesis unfolding Cons encode_fields_Cons by (auto simp: printable_def list_all_iff)
qed

section \<open>Properties\<close>

text \<open>
  C27. The flat JSON codec is exact. An object written with the builder, from text fields that are
  valid UTF-8, integers of the signed 64-bit range and booleans, is one line without control
  characters, whatever the text contains; and the parser reads exactly the written fields back, the
  last one of a repeated key.
\<close>

theorem json_roundtrip:
  assumes "fields_ok kvs"
  shows "printable (encode_fields kvs)
    \<and> (\<exists>m. parse_flat_object (encode_fields kvs) = Inr (Fields m)
         \<and> bt_get m = map_of (rev (map (\<lambda>(k, f). (k, scalar_of f)) kvs)))"
  using encode_fields_printable [OF assms] parse_encoded_fields [OF assms] get_inserted [of "[]" kvs]
  by (auto simp: bt_get_def fun_eq_iff)

theorem json_roundtrip_witness:
  "\<exists>m. parse_flat_object (encode_fields [(''k'', FStr (CHR 0x22 # CHR 0x0A # ''x'')), (''n'', FInt (-7))]) = Inr (Fields m)
     \<and> bt_get m ''k'' = Some (Str (CHR 0x22 # CHR 0x0A # ''x'')) \<and> bt_get m ''n'' = Some (IntV (-7))"
proof -
  have "fields_ok [(''k'', FStr (CHR 0x22 # CHR 0x0A # ''x'')), (''n'', FInt (-7))]"
    by (simp add: fields_ok_def valid_text_ascii ascii_def I64_MIN_def I64_MAX_def)
  from json_roundtrip [OF this] show ?thesis by auto
qed

text \<open>
  An unsigned field above the signed 64-bit range is written but not read: the whole line is
  refused.
\<close>

lemma large_unsigned_refused:
  assumes "I64_MAX < int (unat v)" "valid_text k"
  shows "parse_flat_object (encode_fields [(k, FUint v)]) = Inl IntegerOutOfRange"
proof -
  let ?t = "'':'' @ show_nat (unat v) @ ''}''"
  have "parse_scalar (chars (show_nat (unat v) @ ''}'')) = Inl IntegerOutOfRange"
    using parse_shown_nat [of "''}''" "unat v"] assms(1) by (simp add: stops_def peek_def Let_def)
  moreover have "expect 0x3A (skip_ws (chars ?t)) = Inr (chars (show_nat (unat v) @ ''}''))"
    by (simp add: Let_def skip_ws_def expect_def peek_def)
  moreover have w: "skip_ws (chars (encode_str [] k @ ?t)) = chars (encode_str [] k @ ?t)"
    "peek (chars (encode_str [] k @ ?t)) = Some 0x22"
    by (simp_all add: encode_str_def Let_def skip_ws_def peek_def)
  ultimately have "parse_member (chars (encode_str [] k @ ?t)) = Inl IntegerOutOfRange"
    using parse_encoded_string [OF assms(2), of ?t] shown_nat_start [of "unat v" "''}''"]
    by (simp add: parse_member_def del: append.simps)
  then have "parse_members (chars (encode_str [] k @ ?t)) [] = Inl IntegerOutOfRange"
    by (subst parse_members.simps) simp
  moreover have "chars (encode_fields [(k, FUint v)]) = 0x7B # chars (encode_str [] k @ ?t)"
    by (simp add: encode_fields_Cons member_text_def Let_def)
  ultimately show ?thesis
    using w by (simp add: parse_flat_object_def Let_def skip_ws_def [of "0x7B # _"] expect_def peek_def [of "0x7B # _"]
        del: append.simps)
qed

end
