(* ===== verification/Netproto_Wire.thy ===== *)
theory Netproto_Wire
  imports Netproto Json_Props Text_Split
begin

text \<open>
  What crosses the wire is what was written: the bounded line reader against a reading of the whole
  stream, the delimited lists, and one request or many, whatever blocks the bytes arrive in.
\<close>

section \<open>Lines\<close>

definition blocks :: "reader \<Rightarrow> bool" where
  "blocks r = list_all (\<lambda>c. case c of Inl _ \<Rightarrow> False | Inr b \<Rightarrow> b \<noteq> []) r"

definition stream :: "reader \<Rightarrow> bytes" where
  "stream r = concat (map (\<lambda>c. case c of Inl _ \<Rightarrow> [] | Inr b \<Rightarrow> b) r)"

lemma stream_simps [simp]:
  "stream [] = []" "stream (Inr b # r) = b @ stream r" "stream (Inl e # r) = stream r"
  by (simp_all add: stream_def)

lemma blocks_simps [simp]:
  "blocks []" "blocks (Inr b # r) \<longleftrightarrow> b \<noteq> [] \<and> blocks r" "\<not> blocks (Inl e # r)"
  by (simp_all add: blocks_def)

definition first_line :: "bytes \<Rightarrow> bytes" where
  "first_line s = takeWhile (\<lambda>b. b \<noteq> LF) s"

lemma read_line_stream:
  assumes "blocks r" "len \<le> mx"
  shows "\<exists>r'. read_line_bounded r buf len mx =
      (r', if len + length (first_line (stream r)) > mx then Inl line_too_long
           else Inr (len + length (first_line (stream r)), buf @ first_line (stream r)))
    \<and> blocks r'
    \<and> (len + length (first_line (stream r)) \<le> mx \<longrightarrow> stream r' = drop (Suc (length (first_line (stream r)))) (stream r))"
  using assms
proof (induction r buf len mx rule: read_line_bounded.induct)
  case (3 available r buf len mx)
  show ?case
  proof (cases "\<exists>x\<in>set available. x = LF")
    case True
    then have f: "first_line (available @ stream r) = first_line available" "length (first_line available) < length available"
      using position_takeWhile [of "\<lambda>b. b = LF" available] position_SomeD [of "\<lambda>b. b = LF" available]
      by (auto simp: first_line_def takeWhile_append1)
    have t: "take (length (first_line available)) available = first_line available"
      unfolding first_line_def by (metis takeWhile_eq_take)
    show ?thesis
      using 3 True f t by (auto simp: position_takeWhile first_line_def [symmetric])
  next
    case False
    then have "first_line (available @ stream r) = available @ first_line (stream r)"
      unfolding first_line_def by (metis (mono_tags, lifting) takeWhile_append2)
    then show ?thesis
      using 3 False by (auto simp: position_takeWhile add.assoc)
  qed
qed (auto simp: first_line_def)

section \<open>Texts\<close>

lemma unescape_escape:
  "unescape_loop (concat (map (\<lambda>c. if c = 0x5C then [0x5C, 0x5C] else if c = 0x0A then [0x5C, 0x6E] else [c]) cs)) = cs"
  by (induction cs) simp_all

lemma utf8_char_high: "c \<le> 0x10FFFF \<Longrightarrow> \<not> c < 0x80 \<Longrightarrow> list_all (\<lambda>x. 0x80 \<le> (of_char x :: nat)) (utf8_char c)"
  by (simp add: utf8_char_def)

lemma utf8_char_ascii:
  assumes "valid_scalar c" "x \<in> set (utf8_char c)" "of_char x < (128 :: nat)"
  shows "c = of_char x"
proof (cases "c < 0x80")
  case True
  with assms(2) show ?thesis by (simp add: utf8_char_def)
next
  case False
  then show ?thesis
    using utf8_char_high [OF valid_scalar_le [OF assms(1)]] assms(2,3) by (fastforce simp: list_all_iff)
qed

lemma escape_valid:
  assumes "valid_text s"
  shows "valid_text (escape_delim s)" "unescape_delim (escape_delim s) = s" "CHR 0x0A \<notin> set (escape_delim s)"
proof -
  obtain cs where cs: "list_all valid_scalar cs" "s = utf8 cs" "chars s = cs" using assms by (rule valid_textE)
  define es where "es = concat (map (\<lambda>c. if c = 0x5C then [0x5C, 0x5C] else if c = 0x0A then [0x5C, 0x6E] else [c]) cs)"
  have e: "escape_delim s = utf8 es" by (simp add: escape_delim_def cs(3) es_def)
  have v: "list_all valid_scalar es" "\<forall>c\<in>set es. c \<noteq> 0x0A"
    using cs(1) by (auto simp: es_def list_all_iff valid_scalar_def split: if_splits)
  show "valid_text (escape_delim s)" unfolding e by (rule valid_text_utf8 [OF v(1)])
  have "chars (utf8 es) = es" using chars_utf8_valid [OF v(1), of "[]"] by simp
  then show "unescape_delim (escape_delim s) = s"
    unfolding unescape_delim_def e by (simp add: cs(2)) (simp add: es_def unescape_escape)
  have "CHR 0x0A \<notin> set (utf8_char c)" if "c \<in> set es" for c
    using that v utf8_char_ascii [of c "CHR 0x0A"] by (auto simp: list_all_iff)
  then show "CHR 0x0A \<notin> set (escape_delim s)" by (auto simp: e utf8_def)
qed

definition text_ok :: "string \<Rightarrow> bool" where
  "text_ok s = (valid_text s \<and> length s \<le> MAX_TEXT_BYTES)"

definition texts_ok :: "string list \<Rightarrow> nat \<Rightarrow> bool" where
  "texts_ok ss mx = (list_all text_ok ss \<and> length ss \<le> mx)"

text \<open>A batch as it is read back: one empty text is lost, since its encoding is that of the empty batch.\<close>

definition read_texts :: "string list \<Rightarrow> string list" where
  "read_texts ss = (if ss = [[]] then [] else ss)"

lemma escape_Nil: "escape_delim s = [] \<longleftrightarrow> s = []" if "valid_text s"
proof
  assume "escape_delim s = []"
  with escape_valid(2) [OF that] show "s = []" by (simp add: unescape_delim_def utf8_def)
qed (simp add: escape_delim_def utf8_def)

lemma texts_roundtrip:
  assumes "texts_ok ss mx"
  shows "decode_texts (encode_texts ss mx) mx = read_texts ss"
proof (cases "ss = [] \<or> ss = [[]]")
  case False
  let ?es = "map escape_delim ss"
  have v: "list_all text_ok ss" "take mx ss = ss" "ss \<noteq> [[]]" using assms False by (auto simp: texts_ok_def)
  have e: "encode_texts ss mx = join_with [CHR 0x0A] ?es" by (simp add: encode_texts_def v)
  have n: "?es \<noteq> [[]]"
    using v escape_Nil by (cases ss) (auto simp: text_ok_def)
  have s: "split_on (CHR 0x0A) (join_with [CHR 0x0A] ?es) = ?es"
    using v(1) False escape_valid(3) by (intro split_on_join) (auto simp: list_all_iff text_ok_def)
  have "map (\<lambda>t. bound_text (unescape_delim t)) ?es = ss"
    using v(1) escape_valid(2) by (auto simp: list_all_iff text_ok_def bound_text_def intro!: map_idI)
  moreover have "take mx ?es = ?es" using v(2) by (simp add: take_map)
  ultimately show ?thesis
    using n False by (simp add: decode_texts_def e join_with_Nil_iff s read_texts_def)
qed (use assms in \<open>auto simp: texts_ok_def encode_texts_def decode_texts_def read_texts_def escape_delim_def utf8_def\<close>)

lemma single_empty_text_lost: "decode_texts (encode_texts [[]] (Suc n)) m = []"
  by (simp add: encode_texts_def decode_texts_def escape_delim_def utf8_def)

section \<open>One message\<close>

lemma ascii_chars: "char_of (123 :: nat) = CHR ''{''" "char_of (125 :: nat) = CHR ''}''" "char_of (10 :: nat) = CHR 0x0A"
  by code_simp+

lemma valid_text_append: "valid_text a \<Longrightarrow> valid_text b \<Longrightarrow> valid_text (a @ b)"
proof -
  assume "valid_text a" "valid_text b"
  then obtain as bs where ab: "list_all valid_scalar as" "a = utf8 as" "list_all valid_scalar bs" "b = utf8 bs"
    by (metis valid_textE)
  have "a @ b = utf8 (as @ bs)" by (simp add: ab utf8_def)
  then show ?thesis using valid_text_utf8 [of "as @ bs"] ab by simp
qed

lemma valid_text_concat: "list_all valid_text ss \<Longrightarrow> valid_text (concat ss)"
  by (induction ss) (simp_all add: valid_text_append valid_text_ascii ascii_def)

lemma valid_text_join: "list_all valid_text ss \<Longrightarrow> valid_text sep \<Longrightarrow> valid_text (join_with sep ss)"
proof (induction ss)
  case (Cons s ss)
  then show ?case by (cases "ss = []") (simp_all add: join_with_Cons valid_text_append)
qed (simp add: valid_text_ascii ascii_def)

lemma valid_encode_char: "valid_scalar c \<Longrightarrow> valid_text (encode_char c)"
  using valid_text_utf8 [of "[c]"] digit_ascii
  by (auto simp: encode_char_def utf8_def ascii_def intro!: valid_text_ascii)

lemma valid_encode_str: "valid_text s \<Longrightarrow> valid_text (encode_str [] s)"
proof -
  assume "valid_text s"
  then have "valid_text (concat (map encode_char (chars s)))"
    using valid_encode_char by (intro valid_text_concat) (auto simp: valid_text_def [of s] list_all_iff)
  then have "valid_text ([CHR 0x22] @ concat (map encode_char (chars s)) @ [CHR 0x22])"
    by (intro valid_text_append) (simp_all add: valid_text_ascii ascii_def)
  then show ?thesis by (simp add: encode_str_def)
qed

lemma valid_value_text: "field_ok f \<Longrightarrow> valid_text (value_text f)"
  using show_nat_ascii
  by (cases f) (auto simp: valid_encode_str show_int_def intro!: valid_text_ascii, simp_all add: ascii_def)

lemma encode_fields_braces:
  assumes "fields_ok kvs"
  obtains cs where "list_all valid_scalar cs" "encode_fields kvs = utf8 (0x7B # cs @ [0x7D])"
proof -
  have m: "valid_text (member_text kf)" if "kf \<in> set kvs" for kf
    using assms that unfolding member_text_def
    by (intro valid_text_append)
      (auto simp: fields_ok_def list_all_iff valid_encode_str valid_value_text valid_text_ascii ascii_def)
  have "\<exists>t. valid_text t \<and> encode_fields kvs = ''{'' @ t @ ''}''"
  proof (cases kvs)
    case Nil
    then show ?thesis
      by (auto simp: encode_fields_def obj_finish_def Obj_new_def valid_text_ascii ascii_def intro!: exI [of _ "[]"])
  next
    case (Cons kf rest)
    have "valid_text (member_text kf @ concat (map (\<lambda>kf. '','' @ member_text kf) rest))"
      using m Cons
      by (intro valid_text_append valid_text_concat)
        (auto simp: list_all_iff valid_text_ascii ascii_def simp del: append.simps intro!: valid_text_append)
    then show ?thesis unfolding Cons encode_fields_Cons by (metis append.assoc)
  qed
  then obtain cs where "list_all valid_scalar cs" "encode_fields kvs = ''{'' @ utf8 cs @ ''}''"
    by (metis valid_textE)
  then show ?thesis by (intro that [of cs]) (simp_all add: utf8_def utf8_char_def ascii_chars)
qed

lemma trim_line: "fields_ok kvs \<Longrightarrow> str_trim (encode_fields kvs) = encode_fields kvs"
proof -
  assume "fields_ok kvs"
  then obtain cs where cs: "list_all valid_scalar cs" "encode_fields kvs = utf8 (0x7B # cs @ [0x7D])"
    by (rule encode_fields_braces)
  then have "chars (encode_fields kvs) = 0x7B # cs @ [0x7D]"
    using chars_utf8_valid [of "0x7B # cs @ [0x7D]" "[]"] by (simp add: valid_scalar_def)
  then show ?thesis by (simp add: str_trim_def is_whitespace_def cs(2))
qed

lemma line_bytes:
  assumes "fields_ok kvs"
  shows "utf8_lossy (as_bytes (encode_fields kvs)) = encode_fields kvs" "LF \<notin> set (as_bytes (encode_fields kvs))"
    "encode_fields kvs \<noteq> []"
proof -
  obtain cs where cs: "list_all valid_scalar cs" "encode_fields kvs = utf8 (0x7B # cs @ [0x7D])"
    using assms by (rule encode_fields_braces)
  then show "utf8_lossy (as_bytes (encode_fields kvs)) = encode_fields kvs"
    using lossy_utf8 [of "0x7B # cs @ [0x7D]"] by (simp add: valid_scalar_def)
  show "encode_fields kvs \<noteq> []" by (simp add: cs(2) utf8_def utf8_char_def)
  show "LF \<notin> set (as_bytes (encode_fields kvs))"
  proof
    assume "LF \<in> set (as_bytes (encode_fields kvs))"
    then obtain x where x: "x \<in> set (encode_fields kvs)" "of_char x = LF" by (auto simp: as_bytes_def)
    have "x = CHR 0x0A" using of_bytes_as_bytes [of "[x]"] x(2) by (simp add: as_bytes_def of_bytes_def ascii_chars)
    then show False using x(1) encode_fields_printable [OF assms] by (auto simp: printable_def list_all_iff)
  qed
qed

lemma read_fields_written:
  assumes ok: "fields_ok kvs" and len: "length (encode_fields kvs) \<le> MAX_LINE_BYTES"
    and r: "blocks r" "stream r = as_bytes (encode_fields kvs) @ LF # rest"
  obtains r' where "read_fields r = (r', Inr (Some (Fields (foldl insert_field [] kvs))))" "blocks r'" "stream r' = rest"
proof -
  have f: "first_line (stream r) = as_bytes (encode_fields kvs)"
    unfolding first_line_def r(2) using line_bytes(2) [OF ok] by (subst takeWhile_append2) auto
  obtain r' where "read_line_bounded r [] 0 MAX_LINE_BYTES =
      (r', Inr (length (encode_fields kvs), as_bytes (encode_fields kvs)))" "blocks r'" "stream r' = rest"
    using read_line_stream [OF r(1), of 0 MAX_LINE_BYTES "[]"] len by (auto simp: f) (simp add: r(2))
  then show ?thesis
    using that line_bytes [OF ok] trim_line [OF ok] parse_encoded_fields [OF ok]
    by (simp add: read_fields_def)
qed

lemma read_message_written:
  assumes "fields_ok kvs" "length (encode_fields kvs) \<le> MAX_LINE_BYTES"
    and "blocks r" "stream r = as_bytes (encode_fields kvs) @ LF # rest"
    and "ff (Fields (foldl insert_field [] kvs)) = Inr m"
  obtains r' where "read_message ff r = (r', Inr (Some m))" "blocks r'" "stream r' = rest"
proof -
  obtain r' where "read_fields r = (r', Inr (Some (Fields (foldl insert_field [] kvs))))" "blocks r'" "stream r' = rest"
    using assms(1-4) by (rule read_fields_written)
  with assms(5) that show ?thesis by (simp add: read_message_def)
qed

section \<open>Requests\<close>

lemma u32_back: "(ucast (ucast x :: u64) :: u32) = x" for x :: u32
  by transfer (simp add: take_bit_take_bit)

lemma uint_range [simp]: "I64_MIN \<le> uint x" "uint x \<le> I64_MAX" for x :: u32
  using uint_lt2p [of x] by (auto simp: I64_MIN_def I64_MAX_def intro: order_trans [OF _ uint_ge_0])

definition cost_ok :: "u64 \<Rightarrow> bool" where
  "cost_ok v = (int (unat v) \<le> I64_MAX)"

fun request_ok :: "Request \<Rightarrow> bool" where
  "request_ok Probe = True"
| "request_ok (Complete c) =
     (text_ok (as_str (cq_system c)) \<and> text_ok (as_str (cq_prompt c)) \<and> cost_ok (cq_max_cost_micros c))"
| "request_ok (Embed e) = (texts_ok (eq_inputs e) MAX_BATCH \<and> cost_ok (eq_max_cost_micros e))"
| "request_ok (Rerank r) =
     (text_ok (kq_query r) \<and> texts_ok (kq_documents r) MAX_DOCS \<and> cost_ok (kq_max_cost_micros r))"

fun as_read :: "Request \<Rightarrow> Request" where
  "as_read (Embed e) = Embed (e\<lparr>eq_inputs := read_texts (eq_inputs e)\<rparr>)"
| "as_read (Rerank r) = Rerank (r\<lparr>kq_documents := read_texts (kq_documents r)\<rparr>)"
| "as_read q = q"

lemma role_back [simp]: "role_from_token (role_str r) = r"
  by (cases r) (simp_all add: role_from_token_def)

lemma role_ascii [simp]: "valid_text (role_str r)"
  by (cases r) (simp_all add: valid_text_ascii ascii_def)

lemma text_back [simp]: "text_ok (as_str t) \<Longrightarrow> truncated (as_str t) MAX_TEXT_BYTES = t"
  by (simp add: text_ok_def truncated_def)

lemma valid_encode_texts: "texts_ok ss mx \<Longrightarrow> valid_text (encode_texts ss mx)"
  unfolding encode_texts_def
  by (rule valid_text_join) (auto simp: texts_ok_def text_ok_def list_all_iff escape_valid valid_text_ascii ascii_def dest: in_set_takeD)

lemmas read_back =
  str_or_def u32_or_0_def u64_or_0_def bool_or_false_def fields_str_def fields_uint_def fields_bool_def get_inserted

lemma request_back:
  "request_from_fields (Fields (foldl insert_field [] ((''v'', FInt (uint PROTOCOL_VERSION)) # request_fields q))) = Inr (as_read q)"
  if "request_ok q"
  using that
  by (cases q)
    (simp_all add: request_from_fields_def decode_complete_def decode_embed_def decode_rerank_def read_back u32_back
      texts_roundtrip bound_text_def text_ok_def del: foldl.simps)

lemma count_range [simp]: "I64_MIN \<le> clamp_count n MAX_BATCH" "clamp_count n MAX_BATCH \<le> I64_MAX"
  "I64_MIN \<le> clamp_count n MAX_DOCS" "clamp_count n MAX_DOCS \<le> I64_MAX"
  by (auto simp: clamp_count_def MAX_BATCH_def MAX_DOCS_def I64_MIN_def I64_MAX_def min_def)

lemma version_range [simp]: "I64_MIN \<le> uint PROTOCOL_VERSION" "uint PROTOCOL_VERSION \<le> I64_MAX"
  by (simp_all add: PROTOCOL_VERSION_def I64_MIN_def I64_MAX_def)

lemma request_fields_ok:
  "request_ok q \<Longrightarrow> fields_ok ((''v'', FInt (uint PROTOCOL_VERSION)) # request_fields q)"
  by (cases q)
    (simp_all add: fields_ok_def valid_text_ascii ascii_def valid_encode_texts text_ok_def cost_ok_def)

lemma read_request_written:
  assumes "request_ok q" "length (encode_request q) \<le> MAX_LINE_BYTES"
    and "blocks r" "stream r = as_bytes (encode_request q) @ LF # rest"
  obtains r' where "read_request r = (r', Inr (Some (as_read q)))" "blocks r'" "stream r' = rest"
  using read_message_written [OF request_fields_ok [OF assms(1)] assms(2,3,4) [unfolded encode_request_def],
      where ff = request_from_fields, OF request_back [OF assms(1)]]
  unfolding read_request_def by blast

fun send_requests :: "writer \<Rightarrow> Request list \<Rightarrow> ProtoError + writer" where
  "send_requests w [] = Inr w"
| "send_requests w (q # qs) = and_then (write_request w q) (\<lambda>w. send_requests w qs)"

fun read_requests :: "nat \<Rightarrow> reader \<Rightarrow> (ProtoError + Request option) list" where
  "read_requests 0 r = []"
| "read_requests (Suc n) r = (let (r', m) = read_request r in m # read_requests n r')"

lemma read_message_end: "blocks r \<Longrightarrow> stream r = [] \<Longrightarrow> read_message ff r = (r, Inr None)"
  by (cases r rule: list.exhaust; cases "hd r") (auto simp: read_message_def read_fields_def)

lemma read_requests_written:
  assumes "\<forall>q\<in>set qs. request_ok q \<and> length (encode_request q) \<le> MAX_LINE_BYTES"
    and "blocks r" "stream r = concat (map (\<lambda>q. as_bytes (encode_request q) @ [LF]) qs)"
  shows "read_requests (Suc (length qs)) r = map (\<lambda>q. Inr (Some (as_read q))) qs @ [Inr None]"
  using assms
proof (induction qs arbitrary: r)
  case Nil
  then show ?case by (simp add: read_request_def read_message_end)
next
  case (Cons q qs)
  then obtain r' where "read_request r = (r', Inr (Some (as_read q)))" "blocks r'"
      "stream r' = concat (map (\<lambda>q. as_bytes (encode_request q) @ [LF]) qs)"
    using read_request_written [of q r] by auto
  with Cons show ?case by simp
qed

lemma send_requests_sent:
  "w_broken w = None \<Longrightarrow>
     send_requests w qs = Inr (w\<lparr>w_sent := w_sent w @ concat (map (\<lambda>q. as_bytes (encode_request q) @ [LF]) qs)\<rparr>)"
  by (induction qs arbitrary: w) (simp_all add: write_request_def write_line_def)

end
