(* ===== verification/Netproto_Props.thy ===== *)
theory Netproto_Props
  imports Netproto_Wire
begin

text \<open>
  Responses are exact too, and with them the two conversations of the client: a probe reads the
  registry the helper wrote, a completion delivers its chunks in order and its final answer. The
  bounds of both hold for every helper.
\<close>

section \<open>Responses\<close>

text \<open>
  What the standard library documents of \<^verbatim>\<open>f32\<close>: a finite number is displayed in decimal digits, with
  a sign and a point, and parsing what was displayed gives the number back.
\<close>

definition number_chars :: string where
  "number_chars = ''0123456789.-''"

definition numeric :: "string \<Rightarrow> bool" where
  "numeric s = (set s \<subseteq> set number_chars)"

lemma numeric_all: "list_all P number_chars \<Longrightarrow> numeric s \<Longrightarrow> c \<in> set s \<Longrightarrow> P c"
  unfolding numeric_def list_all_iff by blast

definition float_exact :: "float_text \<Rightarrow> bool" where
  "float_exact ft =
     (\<forall>x. is_finite x \<longrightarrow>
        f32_from_str ft (f32_to_string ft x) = Some x \<and> f32_to_string ft x \<noteq> []
        \<and> numeric (f32_to_string ft x))"

lemma float_back:
  assumes "float_exact ft" "is_finite x"
  shows "parse_f32 ft (fmt_f32 ft x) = x" "fmt_f32 ft x \<noteq> []" "numeric (fmt_f32 ft x)"
  using assms by (simp_all add: float_exact_def parse_f32_def fmt_f32_def)

lemma numeric_ascii: "numeric s \<Longrightarrow> ascii s"
  unfolding ascii_def list_all_iff by (intro ballI, rule numeric_all [of _ s]) (code_simp, simp_all)

lemma numeric_no: "numeric s \<Longrightarrow> CHR '','' \<notin> set s \<and> CHR '';'' \<notin> set s \<and> CHR ''+'' \<notin> set s"
proof -
  have "list_all (\<lambda>c. c \<noteq> CHR '','' \<and> c \<noteq> CHR '';'' \<and> c \<noteq> CHR ''+'') number_chars" by code_simp
  from numeric_all [OF this] show "numeric s \<Longrightarrow> CHR '','' \<notin> set s \<and> CHR '';'' \<notin> set s \<and> CHR ''+'' \<notin> set s"
    by blast
qed

definition vectors_ok :: "f32 list list \<Rightarrow> bool" where
  "vectors_ok vs =
     (length vs \<le> MAX_BATCH \<and> vs \<noteq> [[]] \<and> list_all (\<lambda>v. length v \<le> MAX_EMBEDDING_DIMS \<and> list_all is_finite v) vs)"

lemma semicolon_join: "CHR '';'' \<notin> set (join_with '','' ss)" if "list_all (\<lambda>s. CHR '';'' \<notin> set s) ss"
  using that
proof (induction ss)
  case (Cons s ss)
  then show ?case by (cases "ss = []") (simp_all add: join_with_Cons)
qed simp

lemma vector_back:
  assumes "float_exact ft" "length v \<le> MAX_EMBEDDING_DIMS" "list_all is_finite v" "v \<noteq> []"
  shows "join_with '','' (map (fmt_f32 ft) v) \<noteq> []"
    "map (parse_f32 ft) (take MAX_EMBEDDING_DIMS (split_on (CHR '','') (join_with '','' (map (fmt_f32 ft) v)))) = v"
proof -
  have n: "list_all (\<lambda>s. CHR '','' \<notin> set s) (map (fmt_f32 ft) v)"
    using assms(3) numeric_no [OF float_back(3) [OF assms(1)]] by (auto simp: list_all_iff)
  show "join_with '','' (map (fmt_f32 ft) v) \<noteq> []"
    using assms(3,4) float_back(2) [OF assms(1)] by (cases v) (auto simp: join_with_Nil_iff)
  show "map (parse_f32 ft) (take MAX_EMBEDDING_DIMS (split_on (CHR '','') (join_with '','' (map (fmt_f32 ft) v)))) = v"
    using assms(2-4) float_back(1) [OF assms(1)]
    by (simp add: split_on_join [OF n] list_all_iff map_idI)
qed

lemma vectors_roundtrip:
  assumes ft: "float_exact ft" and vs: "vectors_ok vs"
  shows "decode_vectors ft (encode_vectors ft vs) = vs"
proof (cases "vs = []")
  case False
  let ?enc = "\<lambda>v. join_with '','' (map (fmt_f32 ft) v)"
  have e: "encode_vectors ft vs = join_with '';'' (map ?enc vs)"
    using vs by (auto simp: encode_vectors_def vectors_ok_def list_all_iff intro!: arg_cong [where f = "join_with _"])
  have n: "list_all (\<lambda>s. CHR '';'' \<notin> set s) (map ?enc vs)"
  proof -
    have "CHR '';'' \<notin> set (?enc v)" if "v \<in> set vs" for v
      using that vs numeric_no [OF float_back(3) [OF ft]]
      by (intro semicolon_join) (auto simp: list_all_iff vectors_ok_def)
    then show ?thesis by (simp add: list_all_iff)
  qed
  have d: "(if ?enc v = [] then [] else map (parse_f32 ft) (take MAX_EMBEDDING_DIMS (split_on (CHR '','') (?enc v)))) = v"
    if "v \<in> set vs" for v
    using that vs vector_back [OF ft, of v] by (cases "v = []") (auto simp: vectors_ok_def list_all_iff)
  have "join_with '';'' (map ?enc vs) \<noteq> []"
    using vs False vector_back(1) [OF ft, of "hd vs"]
    by (cases vs; cases "hd vs") (auto simp: vectors_ok_def join_with_Nil_iff)
  moreover have "take MAX_BATCH (map ?enc vs) = map ?enc vs" using vs by (simp add: vectors_ok_def)
  ultimately show ?thesis
    using False d by (simp add: decode_vectors_def e split_on_join [OF n] map_idI del: map_map add: map_map [symmetric])
       (simp add: comp_def map_idI)
qed (simp add: encode_vectors_def decode_vectors_def)

definition ranking_ok :: "(u32 \<times> f32) list \<Rightarrow> bool" where
  "ranking_ok rs = (length rs \<le> MAX_DOCS \<and> list_all (\<lambda>(_, x). is_finite x) rs)"

lemma numeric_trim: "numeric s \<Longrightarrow> str_trim s = s"
proof -
  assume n: "numeric s"
  have c: "chars s = map of_char s" using chars_ascii [OF numeric_ascii [OF n], of "[]"] by simp
  have "list_all (\<lambda>c. \<not> is_whitespace (of_char c)) number_chars" by (simp add: number_chars_def is_whitespace_def)
  from numeric_all [OF this n] have "\<forall>c\<in>set (chars s). \<not> is_whitespace c" unfolding c by auto
  then have "dropWhile is_whitespace (chars s) = chars s" "dropWhile is_whitespace (rev (chars s)) = rev (chars s)"
    using hd_in_set [of "chars s"] last_in_set [of "chars s"] by (auto simp: dropWhile_eq_self_iff hd_rev)
  then show ?thesis
    using valid_text_ascii [OF numeric_ascii [OF n]] by (simp add: str_trim_def valid_text_def)
qed

lemma show_nat_numeric: "numeric (show_nat n)"
proof (induction n rule: show_nat.induct)
  case (1 n)
  have "list_all (\<lambda>n. digit n \<in> set number_chars) [0..<10]" by code_simp
  then have "digit m \<in> set number_chars" if "m < 10" for m using that unfolding list_all_iff by simp
  then show ?case using 1 by (subst show_nat.simps) (auto simp: numeric_def)
qed

lemma parse_shown_u32: "parse_u32 (show_nat (unat n)) = Some n"
proof -
  have "show_nat (unat n) \<noteq> []" by (subst show_nat.simps) simp
  moreover have "\<not> prefix ''+'' (show_nat (unat n))"
    using numeric_no [OF show_nat_numeric [of "unat n"]] by (auto simp: prefix_def)
  moreover have "unat n < 2 ^ 32" using unat_less_pow [of n] by simp
  ultimately show ?thesis
    using show_nat_digits [of "unat n"] by (simp add: parse_u32_def list_all_iff)
qed

lemma split_once_at: "c \<notin> set a \<Longrightarrow> split_once c (a @ c # b) = Some (a, b)"
proof -
  assume "c \<notin> set a"
  then have "takeWhile (\<lambda>x. x \<noteq> c) (a @ c # b) = a" by (subst takeWhile_append2) auto
  then show ?thesis by (simp add: split_once_def position_takeWhile)
qed

lemma pair_back:
  assumes "float_exact ft" "is_finite x"
  shows "decode_pair ft (show_nat (unat n) @ '','' @ fmt_f32 ft x) = Some (n, x)"
proof -
  note f = float_back [OF assms]
  show ?thesis
    using split_once_at [of "CHR '',''" "show_nat (unat n)" "fmt_f32 ft x"] numeric_no [OF show_nat_numeric] f
    by (simp add: decode_pair_def numeric_trim show_nat_numeric parse_shown_u32)
qed

lemma map_filter_Some: "\<forall>x\<in>set xs. f (g x) = Some x \<Longrightarrow> List.map_filter f (map g xs) = xs"
  by (induction xs) (simp_all add: List.map_filter_def)

lemma ranking_roundtrip:
  assumes ft: "float_exact ft" and rs: "ranking_ok rs"
  shows "decode_ranking ft (encode_ranking ft rs) = rs"
proof (cases "rs = []")
  case False
  let ?enc = "\<lambda>(idx, score). show_nat (unat idx) @ '','' @ fmt_f32 ft score"
  have f: "is_finite x" if "(n, x) \<in> set rs" for n x using that rs by (auto simp: ranking_ok_def list_all_iff)
  have e: "encode_ranking ft rs = join_with '';'' (map ?enc rs)" "take MAX_DOCS (map ?enc rs) = map ?enc rs"
    using rs by (simp_all add: encode_ranking_def ranking_ok_def)
  have n: "list_all (\<lambda>s. CHR '';'' \<notin> set s) (map ?enc rs)"
    using f numeric_no [OF show_nat_numeric] numeric_no [OF float_back(3) [OF ft]]
    by (fastforce simp: list_all_iff)
  have "\<forall>r\<in>set rs. decode_pair ft (?enc r) = Some r" using f pair_back [OF ft] by auto
  moreover have "join_with '';'' (map ?enc rs) \<noteq> []" using False by (auto simp: join_with_Nil_iff)
  ultimately show ?thesis
    using False map_filter_Some [of rs "decode_pair ft" ?enc] split_on_join [OF n] e(2)
    unfolding decode_ranking_def e(1) by simp
qed (simp add: encode_ranking_def decode_ranking_def)

definition fallbacks_ok :: "string list \<Rightarrow> bool" where
  "fallbacks_ok ss = (list_all (\<lambda>s. valid_text s \<and> CHR '','' \<notin> set s) ss \<and> ss \<noteq> [[]])"

lemma fallbacks_roundtrip: "fallbacks_ok ss \<Longrightarrow> split_csv (join_with '','' ss) = ss"
  using split_on_join [of "CHR '',''" ss]
  by (cases "ss = []") (auto simp: split_csv_def fallbacks_ok_def join_with_Nil_iff list_all_iff)

fun response_ok :: "Response \<Rightarrow> bool" where
  "response_ok (RModel m) = (valid_text (mi_provider m) \<and> valid_text (mi_model m) \<and> cost_ok (mi_cost_per_1k_micros m))"
| "response_ok RegistryEnd = True"
| "response_ok (Chunk t) = text_ok (as_str t)"
| "response_ok (RFinal f) =
     (text_ok (as_str (fi_text f)) \<and> valid_text (fi_provider f) \<and> valid_text (fi_model f)
      \<and> cost_ok (us_cost_micros (fi_usage f)) \<and> fallbacks_ok (fi_fallbacks f))"
| "response_ok (Embedding e) =
     (vectors_ok (er_vectors e) \<and> valid_text (er_provider e) \<and> valid_text (er_model e)
      \<and> cost_ok (us_cost_micros (er_usage e)) \<and> fallbacks_ok (er_fallbacks e))"
| "response_ok (Ranking k) =
     (ranking_ok (rr_ranking k) \<and> valid_text (rr_provider k) \<and> valid_text (rr_model k)
      \<and> cost_ok (us_cost_micros (rr_usage k)) \<and> fallbacks_ok (rr_fallbacks k))"
| "response_ok (RError reason) = valid_text reason"

lemma response_back:
  assumes "float_exact ft" "response_ok m"
  shows "response_from_fields ft (Fields (foldl insert_field [] (response_fields ft m))) = Inr m"
  using assms
  by (cases m)
    (simp_all add: response_from_fields_def decode_model_def decode_final_def decode_embedding_def
      decode_ranking_result_def decode_usage_def usage_fields_def read_back u32_back
      vectors_roundtrip ranking_roundtrip fallbacks_roundtrip del: foldl.simps)

lemma valid_comma: "valid_text '',''" and valid_semicolon: "valid_text '';''"
  by (simp_all add: valid_text_ascii ascii_def)

lemma valid_number: "float_exact ft \<Longrightarrow> is_finite x \<Longrightarrow> valid_text (fmt_f32 ft x)"
  using float_back(3) by (simp add: valid_text_ascii numeric_ascii)

lemma valid_encode_vectors: "float_exact ft \<Longrightarrow> vectors_ok vs \<Longrightarrow> valid_text (encode_vectors ft vs)"
proof -
  assume a: "float_exact ft" "vectors_ok vs"
  have "valid_text (join_with '','' (map (fmt_f32 ft) (take n v)))" if "v \<in> set vs" for v n
    using that a valid_number
    by (intro valid_text_join [OF _ valid_comma]) (fastforce simp: vectors_ok_def list_all_iff dest: in_set_takeD)
  then show ?thesis
    unfolding encode_vectors_def
    by (intro valid_text_join [OF _ valid_semicolon]) (auto simp: list_all_iff dest: in_set_takeD)
qed

lemma valid_encode_ranking: "float_exact ft \<Longrightarrow> ranking_ok rs \<Longrightarrow> valid_text (encode_ranking ft rs)"
proof -
  assume a: "float_exact ft" "ranking_ok rs"
  have "valid_text (show_nat (unat n) @ '','' @ fmt_f32 ft x)" if "(n, x) \<in> set rs" for n x
    using that a valid_number
    by (intro valid_text_append valid_comma) (auto simp: ranking_ok_def list_all_iff valid_text_ascii show_nat_ascii)
  then show ?thesis
    unfolding encode_ranking_def
    by (intro valid_text_join [OF _ valid_semicolon]) (auto simp: list_all_iff dest!: in_set_takeD)
qed

lemma valid_fallbacks: "fallbacks_ok ss \<Longrightarrow> valid_text (join_with '','' ss)"
  by (rule valid_text_join) (auto simp: fallbacks_ok_def list_all_iff valid_text_ascii ascii_def)

lemma response_fields_ok: "float_exact ft \<Longrightarrow> response_ok m \<Longrightarrow> fields_ok (response_fields ft m)"
  by (cases m)
    (simp_all add: fields_ok_def usage_fields_def valid_text_ascii ascii_def text_ok_def cost_ok_def valid_fallbacks
      valid_encode_vectors valid_encode_ranking)

definition response_fits :: "float_text \<Rightarrow> Response \<Rightarrow> bool" where
  "response_fits ft m = (response_ok m \<and> length (encode_response ft m) \<le> MAX_LINE_BYTES)"

lemma read_response_written:
  assumes "float_exact ft" "response_fits ft m"
    and "blocks r" "stream r = as_bytes (encode_response ft m) @ LF # rest"
  obtains r' where "read_response ft r = (r', Inr (Some m))" "blocks r'" "stream r' = rest"
proof -
  have ok: "response_ok m" "length (encode_response ft m) \<le> MAX_LINE_BYTES" using assms(2) by (simp_all add: response_fits_def)
  show ?thesis
    using read_message_written [OF response_fields_ok [OF assms(1) ok(1)] ok(2) [unfolded encode_response_def]
        assms(3,4) [unfolded encode_response_def], where ff = "response_from_fields ft", OF response_back [OF assms(1) ok(1)]]
      that unfolding read_response_def by blast
qed

section \<open>Conversations\<close>

definition wire :: "float_text \<Rightarrow> Response list \<Rightarrow> bytes" where
  "wire ft ms = concat (map (\<lambda>m. as_bytes (encode_response ft m) @ [LF]) ms)"

lemma wire_Cons: "wire ft (m # ms) = as_bytes (encode_response ft m) @ LF # wire ft ms"
  by (simp add: wire_def)

lemma probe_loop_model:
  assumes "float_exact ft" "list_all (response_fits ft) (map RModel ms)" "response_fits ft RegistryEnd"
    and "blocks r" "stream r = wire ft (map RModel ms @ RegistryEnd # rest)"
    and "length models \<le> MAX_REGISTRY_MODELS"
  shows "\<exists>r'. probe_loop ft r models =
      (r', if length models + length ms \<le> MAX_REGISTRY_MODELS then Inr (models @ ms)
           else Inl (Decode ''registry exceeded the model cap before RegistryEnd''))
    \<and> blocks r' \<and> (length models + length ms \<le> MAX_REGISTRY_MODELS \<longrightarrow> stream r' = wire ft rest)"
  using assms(2-)
proof (induction ms arbitrary: r models)
  case Nil
  then obtain r' where "read_response ft r = (r', Inr (Some RegistryEnd))" "blocks r'" "stream r' = wire ft rest"
    using read_response_written [OF assms(1), of RegistryEnd r "wire ft rest"] by (auto simp: wire_Cons)
  then show ?case using Nil.prems by (subst probe_loop.simps) simp
next
  case (Cons m ms)
  then obtain r' where r': "read_response ft r = (r', Inr (Some (RModel m)))" "blocks r'"
      "stream r' = wire ft (map RModel ms @ RegistryEnd # rest)"
    using read_response_written [OF assms(1), of "RModel m" r "wire ft (map RModel ms @ RegistryEnd # rest)"]
    by (auto simp: wire_Cons)
  show ?case
  proof (cases "length models < MAX_REGISTRY_MODELS")
    case True
    then show ?thesis
      using Cons.IH [of r' "models @ [m]"] Cons.prems r' by (subst probe_loop.simps) (auto split: if_splits)
  next
    case False
    then show ?thesis using r' Cons.prems by (subst probe_loop.simps) simp
  qed
qed

definition streamed_len :: "BoundedText list \<Rightarrow> nat" where
  "streamed_len ts = sum_list (map BoundedText_len ts)"

text \<open>The answers that end a completion, and what the client makes of them.\<close>

fun reply_result :: "Response \<Rightarrow> (ProtoError + FinalResult) option" where
  "reply_result (RFinal f) = Some (Inr f)"
| "reply_result (RError e) = Some (Inl (Decode e))"
| "reply_result _ = None"

lemma complete_loop_chunks:
  assumes "float_exact ft" "list_all (response_fits ft) (map Chunk ts)" "response_fits ft m" "reply_result m = Some res"
    and "blocks r" "stream r = wire ft (map Chunk ts @ m # rest)"
    and "streamed + streamed_len ts \<le> MAX_STREAM_BYTES"
  shows "\<exists>r'. complete_loop ft r streamed chunks = (r', chunks @ map as_str ts, res) \<and> blocks r' \<and> stream r' = wire ft rest"
  using assms(2-)
proof (induction ts arbitrary: r streamed chunks)
  case Nil
  then obtain r' where "read_response ft r = (r', Inr (Some m))" "blocks r'" "stream r' = wire ft rest"
    using read_response_written [OF assms(1), of m r "wire ft rest"] by (auto simp: wire_Cons)
  then show ?case using assms(4) by (cases m) (subst complete_loop.simps, simp)+
next
  case (Cons t ts)
  then have s: "stream r = as_bytes (encode_response ft (Chunk t)) @ LF # wire ft (map Chunk ts @ m # rest)"
    "response_fits ft (Chunk t)" by (simp_all add: wire_Cons)
  obtain r' where r': "read_response ft r = (r', Inr (Some (Chunk t)))" "blocks r'"
      "stream r' = wire ft (map Chunk ts @ m # rest)"
    using assms(1) s(2) Cons.prems(4) s(1) by (rule read_response_written)
  have "streamed + BoundedText_len t + streamed_len ts \<le> MAX_STREAM_BYTES"
    using Cons.prems(6) by (simp add: streamed_len_def)
  moreover from this have "min (streamed + BoundedText_len t) usize_max = streamed + BoundedText_len t"
    by (simp add: min_def usize_max_def MAX_STREAM_BYTES_def)
  ultimately show ?case
    using Cons.IH [of r' "streamed + BoundedText_len t" "chunks @ [as_str t]"] Cons.prems r'
    by (subst complete_loop.simps) (simp add: Let_def)
qed

lemma complete_loop_bounded:
  "complete_loop ft r streamed chunks = (r', out, res) \<Longrightarrow> sum_list (map length chunks) \<le> streamed \<Longrightarrow>
     streamed \<le> MAX_STREAM_BYTES \<Longrightarrow> sum_list (map length out) \<le> MAX_STREAM_BYTES"
proof (induction ft r streamed chunks arbitrary: r' out res rule: complete_loop.induct)
  case (1 ft r streamed chunks)
  show ?case
  proof (cases "\<exists>r' t. read_response ft r = (r', Inr (Some (Chunk t)))")
    case True
    then obtain r2 t where t: "read_response ft r = (r2, Inr (Some (Chunk t)))" by blast
    let ?s = "min (streamed + BoundedText_len t) usize_max"
    show ?thesis
    proof (cases "MAX_STREAM_BYTES < ?s")
      case True
      then have "out = chunks"
        using "1.prems"(1) by (subst (asm) complete_loop.simps) (simp add: t Let_def)
      then show ?thesis using "1.prems"(2,3) by simp
    next
      case False
      then have s: "?s = streamed + BoundedText_len t" by (simp add: min_def usize_max_def MAX_STREAM_BYTES_def split: if_splits)
      have loop: "complete_loop ft r2 ?s (chunks @ [as_str t]) = (r', out, res)"
        using "1.prems"(1) False by (subst (asm) complete_loop.simps) (simp add: t Let_def split: if_splits)
      show ?thesis
        using "1.IH" [OF t [symmetric] refl refl refl refl False loop] "1.prems"(2) False [unfolded s not_less]
        unfolding s unfolding BoundedText_len_def by simp
    qed
  next
    case False
    then have "out = chunks"
      using "1.prems"(1)
      by (subst (asm) complete_loop.simps) (auto split: prod.splits sum.splits option.splits Response.splits)
    then show ?thesis using "1.prems"(2,3) by simp
  qed
qed

lemma probe_loop_bounded:
  "probe_loop ft r models = (r', Inr out) \<Longrightarrow> length models \<le> MAX_REGISTRY_MODELS \<Longrightarrow> length out \<le> MAX_REGISTRY_MODELS"
proof (induction ft r models arbitrary: r' out rule: probe_loop.induct)
  case (1 ft r models)
  show ?case
  proof (cases "\<exists>r2 m. read_response ft r = (r2, Inr (Some (RModel m)))")
    case True
    then obtain r2 m where m: "read_response ft r = (r2, Inr (Some (RModel m)))" by blast
    then have "\<not> MAX_REGISTRY_MODELS \<le> length models" "probe_loop ft r2 (models @ [m]) = (r', Inr out)"
      using "1.prems"(1) by (subst (asm) probe_loop.simps, simp split: if_splits)+
    then show ?thesis using "1.IH" [OF m [symmetric] refl refl refl] by simp
  next
    case False
    then have "out = models"
      using "1.prems"(1)
      by (subst (asm) probe_loop.simps) (auto split: prod.splits sum.splits option.splits Response.splits)
    then show ?thesis using "1.prems"(2) by simp
  qed
qed

lemma registry_end_fits: "response_fits ft RegistryEnd"
  by (simp add: response_fits_def encode_response_def encode_fields_Cons member_text_def encode_str_def encode_char_def
      Let_def utf8_char_def MAX_LINE_BYTES_def)

text \<open>
  A stream of empty chunks is never cut: however many of them the helper sends, each is read and
  delivered.
\<close>

lemma empty_chunks_uncounted:
  assumes "float_exact ft" "response_fits ft (RFinal f)" "blocks r"
    and "stream r = wire ft (replicate n (Chunk (BoundedText [])) @ [RFinal f])"
  shows "\<exists>r'. complete_loop ft r 0 [] = (r', replicate n [], Inr f)"
proof -
  have "response_fits ft (Chunk (BoundedText []))"
    by (simp add: response_fits_def encode_response_def encode_fields_Cons member_text_def encode_str_def encode_char_def
        Let_def utf8_char_def MAX_LINE_BYTES_def text_ok_def MAX_TEXT_BYTES_def valid_text_ascii ascii_def)
  then show ?thesis
    using complete_loop_chunks [OF assms(1) _ assms(2) _ assms(3), of "replicate n (BoundedText [])" _ "[]" 0 "[]"] assms(4)
    by (auto simp: streamed_len_def BoundedText_len_def list_all_iff sum_list_replicate)
qed

section \<open>Properties\<close>

definition demo_float :: float_text where
  "demo_float = \<lparr>f32_to_string = (\<lambda>x. show_nat (unat x)),
     f32_from_str = (\<lambda>s. Some (of_nat (digits_value (map of_char s))))\<rparr>"

lemma demo_float_exact: "float_exact demo_float"
proof -
  have "show_nat n \<noteq> []" for n by (subst show_nat.simps) simp
  then show ?thesis
    using show_nat_digits show_nat_numeric by (simp add: float_exact_def demo_float_def)
qed

definition demo_final :: FinalResult where
  "demo_final = \<lparr>fi_text = BoundedText ''hi'', fi_provider = ''p'', fi_model = ''m'',
     fi_usage = \<lparr>us_input_tokens = 1, us_output_tokens = 1, us_cost_micros = 0\<rparr>, fi_fallbacks = []\<rparr>"

definition demo_request :: CompleteRequest where
  "demo_request = \<lparr>cq_role = Review, cq_system = BoundedText [], cq_prompt = BoundedText ''say hi'', cq_max_tokens = 8,
     cq_stream = True, cq_max_cost_micros = 0, cq_require = \<lparr>rq_tools = False, rq_min_context = 0, rq_local_only = True\<rparr>\<rparr>"

text \<open>
  The bounded line reader does not depend on how the bytes arrive. Over any sequence of non-empty
  blocks it returns the bytes before the first line feed of the whole stream (or all of them when
  there is none) and leaves what follows it; it refuses the line exactly when it is longer than the
  cap.
\<close>

theorem line_reader_exact:
  assumes "blocks r"
  shows "\<exists>r'. read_line_bounded r [] 0 mx =
      (r', if mx < length (first_line (stream r)) then Inl line_too_long
           else Inr (length (first_line (stream r)), first_line (stream r)))
    \<and> blocks r'
    \<and> (length (first_line (stream r)) \<le> mx \<longrightarrow> stream r' = drop (Suc (length (first_line (stream r)))) (stream r))"
  using read_line_stream [OF assms, of 0 mx "[]"] by (simp only: add_0 append_Nil zero_le)

theorem line_reader_exact_witness:
  "\<exists>r'. read_line_bounded [Inr [104], Inr [105, 10, 33]] [] 0 2 = (r', Inr (2, [104, 105])) \<and> stream r' = [33]"
  using line_reader_exact [of "[Inr [104], Inr [105, 10, 33]]" 2] by (auto simp: first_line_def)

text \<open>
  C28. Requests cross the wire unchanged. A sequence of requests whose texts are valid UTF-8 and within
  the caps on their length and their number, whose costs fit the signed 64-bit range and whose lines
  fit the line cap is written to a fresh, unbroken stream, and a reader that gets these bytes in any
  blocks reads exactly these requests, in order, and then the end of the stream; with one exception: a batch that is a single
  empty text is read as the empty batch.
\<close>

theorem requests_exact:
  assumes "\<forall>q\<in>set qs. request_ok q \<and> length (encode_request q) \<le> MAX_LINE_BYTES" "w_broken w = None" "w_sent w = []"
  shows "\<exists>w'. send_requests w qs = Inr w'
    \<and> (\<forall>r. blocks r \<longrightarrow> stream r = w_sent w' \<longrightarrow>
         read_requests (Suc (length qs)) r = map (\<lambda>q. Inr (Some (as_read q))) qs @ [Inr None])"
  using send_requests_sent [OF assms(2), of qs] read_requests_written [OF assms(1)] assms(3) by simp

definition demo_embed :: Request where
  "demo_embed = Embed \<lparr>eq_role = Review, eq_inputs = [''a'', [], [CHR 0x0A]], eq_max_cost_micros = 7\<rparr>"

lemma demo_request_ok: "request_ok (Complete demo_request)" "length (encode_request (Complete demo_request)) \<le> MAX_LINE_BYTES"
  by (simp_all add: demo_request_def encode_request_def encode_fields_Cons member_text_def encode_str_def encode_char_def
      Let_def utf8_char_def MAX_LINE_BYTES_def PROTOCOL_VERSION_def show_int_def show_nat.simps text_ok_def
      MAX_TEXT_BYTES_def valid_text_ascii ascii_def cost_ok_def I64_MAX_def)

lemma demo_embed_ok: "request_ok demo_embed" "length (encode_request demo_embed) \<le> MAX_LINE_BYTES"
proof -
  have "escape_delim ''a'' = ''a''" "escape_delim [] = []" "escape_delim [CHR 0x0A] = [CHR 0x5C, CHR ''n'']" by code_simp+
  then have "encode_texts [''a'', [], [CHR 0x0A]] MAX_BATCH = [CHR ''a'', CHR 0x0A, CHR 0x0A, CHR 0x5C, CHR ''n'']"
    by (simp add: encode_texts_def MAX_BATCH_def)
  then show "length (encode_request demo_embed) \<le> MAX_LINE_BYTES"
    by (simp add: demo_embed_def encode_request_def encode_fields_Cons member_text_def encode_str_def encode_char_def
        Let_def utf8_char_def MAX_LINE_BYTES_def PROTOCOL_VERSION_def show_int_def show_nat.simps clamp_count_def MAX_BATCH_def)
qed (simp add: demo_embed_def texts_ok_def text_ok_def valid_text_ascii ascii_def cost_ok_def MAX_TEXT_BYTES_def
    MAX_BATCH_def I64_MAX_def)

theorem requests_exact_witness:
  "\<exists>w'. send_requests \<lparr>w_sent = [], w_broken = None\<rparr> [demo_embed, Complete demo_request] = Inr w'
     \<and> read_requests 3 (map (\<lambda>b. Inr [b]) (w_sent w'))
         = [Inr (Some demo_embed), Inr (Some (Complete demo_request)), Inr None]"
proof -
  have "blocks (map (\<lambda>b. Inr [b]) s)" "stream (map (\<lambda>b. Inr [b]) s) = s" for s
    by (induction s) simp_all
  with requests_exact [of "[demo_embed, Complete demo_request]" "\<lparr>w_sent = [], w_broken = None\<rparr>"] demo_embed_ok demo_request_ok
  obtain w' where "send_requests \<lparr>w_sent = [], w_broken = None\<rparr> [demo_embed, Complete demo_request] = Inr w'"
    "read_requests (Suc (Suc (Suc 0))) (map (\<lambda>b. Inr [b]) (w_sent w'))
      = map (\<lambda>q. Inr (Some (as_read q))) [demo_embed, Complete demo_request] @ [Inr None]"
    by auto
  moreover have "as_read demo_embed = demo_embed" by (simp add: demo_embed_def read_texts_def)
  ultimately show ?thesis by (auto simp: numeral_3_eq_3)
qed

text \<open>
  A probe returns the registry the helper wrote. The client sends one probe line; when the helper
  answers with model records and the end of the registry, in any blocks, the client returns exactly
  these models in order, if there are at most 4096 of them, and an error otherwise; what follows
  the end of the registry stays unread.
\<close>

theorem probe_exact:
  assumes "float_exact ft" "w_broken (nh_w h) = None" "list_all (response_fits ft) (map RModel ms)"
    and "blocks (nh_r h)" "stream (nh_r h) = wire ft (map RModel ms @ RegistryEnd # rest)"
  shows "\<exists>h'. probe ft h =
      (h', if length ms \<le> MAX_REGISTRY_MODELS then Inr ms
           else Inl (Decode ''registry exceeded the model cap before RegistryEnd''))
    \<and> w_sent (nh_w h') = w_sent (nh_w h) @ as_bytes (encode_request Probe) @ [LF]
    \<and> (length ms \<le> MAX_REGISTRY_MODELS \<longrightarrow> stream (nh_r h') = wire ft rest)"
  using probe_loop_model [OF assms(1,3) registry_end_fits assms(4,5), of "[]"] assms(2)
  by (auto simp: probe_def write_request_def write_line_def)

theorem probe_exact_witness:
  "snd (probe demo_float \<lparr>nh_w = \<lparr>w_sent = [], w_broken = None\<rparr>, nh_r = [Inr (wire demo_float [RegistryEnd])]\<rparr>) = Inr []"
  using probe_exact [OF demo_float_exact,
      of "\<lparr>nh_w = \<lparr>w_sent = [], w_broken = None\<rparr>, nh_r = [Inr (wire demo_float [RegistryEnd])]\<rparr>" "[]" "[]"]
  by (auto simp: wire_def)

text \<open>
  A completion delivers what the helper streamed. The client sends the request line; when the helper
  answers with chunks of at most 8 MiB in all and a final result, in any blocks, the client hands
  over every chunk in order and returns exactly the final result, and leaves what follows unread.
\<close>

theorem complete_exact:
  assumes "float_exact ft" "w_broken (nh_w h) = None"
    and "list_all (response_fits ft) (map Chunk ts)" "response_fits ft (RFinal f)"
    and "blocks (nh_r h)" "stream (nh_r h) = wire ft (map Chunk ts @ RFinal f # rest)"
    and "sum_list (map BoundedText_len ts) \<le> MAX_STREAM_BYTES"
  shows "\<exists>h'. complete ft h q = (h', map as_str ts, Inr f)
    \<and> w_sent (nh_w h') = w_sent (nh_w h) @ as_bytes (encode_request (Complete q)) @ [LF]
    \<and> stream (nh_r h') = wire ft rest"
  using complete_loop_chunks [OF assms(1,3,4) _ assms(5,6), of "Inr f" 0 "[]"] assms(2,7)
  by (auto simp: complete_def write_request_def write_line_def streamed_len_def)

theorem complete_exact_witness:
  "fst (snd (complete demo_float
     \<lparr>nh_w = \<lparr>w_sent = [], w_broken = None\<rparr>,
      nh_r = [Inr (wire demo_float [Chunk (BoundedText ''hi''), RFinal demo_final])]\<rparr> demo_request)) = [''hi'']"
proof -
  have "response_fits demo_float (Chunk (BoundedText ''hi''))" "response_fits demo_float (RFinal demo_final)"
    by (simp_all add: response_fits_def encode_response_def usage_fields_def demo_final_def encode_fields_Cons member_text_def
        encode_str_def encode_char_def Let_def utf8_char_def MAX_LINE_BYTES_def text_ok_def MAX_TEXT_BYTES_def
        valid_text_ascii ascii_def fallbacks_ok_def cost_ok_def I64_MAX_def show_int_def show_nat.simps)
  then show ?thesis
    using complete_exact [OF demo_float_exact,
        of "\<lparr>nh_w = \<lparr>w_sent = [], w_broken = None\<rparr>,
             nh_r = [Inr (wire demo_float [Chunk (BoundedText ''hi''), RFinal demo_final])]\<rparr>"
          "[BoundedText ''hi'']" demo_final "[]" demo_request]
    by (auto simp: BoundedText_len_def MAX_STREAM_BYTES_def wire_def)
qed

text \<open>
  A helper cannot make the client keep more than its caps. Whatever bytes and errors arrive, a
  successful probe returns at most 4096 models, and the chunks a completion hands over have at most
  8 MiB in all, also when it fails.
\<close>

theorem replies_bounded:
  "(case snd (probe ft h) of Inr models \<Rightarrow> length models \<le> MAX_REGISTRY_MODELS | Inl _ \<Rightarrow> True)
   \<and> sum_list (map length (fst (snd (complete ft h q)))) \<le> MAX_STREAM_BYTES"
proof -
  have "length models \<le> MAX_REGISTRY_MODELS" if "probe ft h = (h', Inr models)" for h' models
    using that probe_loop_bounded [of ft "nh_r h" "[]"] by (auto simp: probe_def split: sum.splits prod.splits)
  moreover have "sum_list (map length out) \<le> MAX_STREAM_BYTES" if "complete ft h q = (h', out, res)" for h' out res
    using that complete_loop_bounded [of ft "nh_r h" 0 "[]"] by (auto simp: complete_def split: sum.splits prod.splits)
  ultimately show ?thesis by (cases "probe ft h"; cases "complete ft h q") (auto split: sum.splits)
qed

end
