(* ===== verification/Router.thy ===== *)
theory Router
  imports Netproto "HOL-Library.Product_Lexorder"
begin

text \<open>
  The provider sidecar (\<^verbatim>\<open>crates/crustcore-net/src/lib.rs\<close> and \<^verbatim>\<open>modality.rs\<close>): the registry, the router,
  the budget filter, the fallback loop, the fusion panel, the embedding and rerank engines, and the
  serving loop over the helper protocol. A provider is an argument: it probes and answers in a world
  that every call may change. An out-of-range provider index panics in the code; here the result is
  \<^const>\<open>None\<close>.
\<close>

section \<open>Models and providers\<close>

record ModelCard =
  mc_model :: string
  mc_healthy :: bool
  mc_context :: u32
  mc_tools :: bool
  mc_structured :: bool
  mc_streaming :: bool
  mc_cost_per_1k_micros :: u64
  mc_local :: bool
  mc_embeddings :: bool
  mc_rerank :: bool
  mc_embedding_dims :: u32

definition to_info :: "ModelCard \<Rightarrow> string \<Rightarrow> ModelInfo" where
  "to_info m provider =
     \<lparr>mi_provider = provider, mi_model = mc_model m, mi_healthy = mc_healthy m, mi_context = mc_context m,
      mi_tools = mc_tools m, mi_structured = mc_structured m, mi_streaming = mc_streaming m,
      mi_cost_per_1k_micros = mc_cost_per_1k_micros m, mi_embeddings = mc_embeddings m, mi_rerank = mc_rerank m,
      mi_embedding_dims = mc_embedding_dims m\<rparr>"

definition saturating_mul :: "u64 \<Rightarrow> u64 \<Rightarrow> u64" where
  "saturating_mul a b = (if unat a * unat b < 2 ^ 64 then a * b else - 1)"

definition est_cost_micros :: "ModelCard \<Rightarrow> u32 \<Rightarrow> u64" where
  "est_cost_micros m max_tokens = saturating_mul (mc_cost_per_1k_micros m) (ucast max_tokens) div 1000"

record ModelCompletion =
  co_text :: string
  co_usage :: Usage

datatype ProviderError = Unavailable string | Capability string | OtherError string

fun provider_error_message :: "ProviderError \<Rightarrow> string" where
  "provider_error_message (Unavailable e) = ''unavailable: '' @ e"
| "provider_error_message (Capability e) = ''capability: '' @ e"
| "provider_error_message (OtherError e) = e"

record 'w Provider =
  pv_id :: string
  pv_probe :: "'w \<Rightarrow> ModelCard list"
  pv_complete :: "'w \<Rightarrow> string \<Rightarrow> CompleteRequest \<Rightarrow> 'w \<times> string list \<times> (ProviderError + ModelCompletion)"

datatype RouteError = NoModelForConstraints string | OverBudget string | AllProvidersFailed string

fun route_reason :: "RouteError \<Rightarrow> string" where
  "route_reason (NoModelForConstraints s) = ''no model satisfies constraints: '' @ s"
| "route_reason (OverBudget s) = ''over budget: '' @ s"
| "route_reason (AllProvidersFailed s) = ''all providers failed: '' @ s"

record Candidate =
  cd_provider_idx :: nat
  cd_provider_id :: string
  cd_card :: ModelCard

record BudgetLedger =
  lg_requests :: u64
  lg_input_tokens :: u64
  lg_output_tokens :: u64
  lg_cost_micros :: u64
  lg_fallbacks :: u64

definition BudgetLedger_default :: BudgetLedger where
  "BudgetLedger_default =
     \<lparr>lg_requests = 0, lg_input_tokens = 0, lg_output_tokens = 0, lg_cost_micros = 0, lg_fallbacks = 0\<rparr>"

record 'w Engine =
  eg_providers :: "'w Provider list"
  eg_ledger :: BudgetLedger

definition Engine_new :: "'w Provider list \<Rightarrow> 'w Engine" where
  "Engine_new providers = \<lparr>eg_providers = providers, eg_ledger = BudgetLedger_default\<rparr>"

definition registry :: "'w Engine \<Rightarrow> 'w \<Rightarrow> (string \<times> ModelCard) list" where
  "registry en w = concat (map (\<lambda>p. map (\<lambda>card. (pv_id p, card)) (pv_probe p w)) (eg_providers en))"

definition registry_indexed :: "'w Engine \<Rightarrow> 'w \<Rightarrow> Candidate list" where
  "registry_indexed en w =
     concat (map (\<lambda>(idx, p). map (\<lambda>card. \<lparr>cd_provider_idx = idx, cd_provider_id = pv_id p, cd_card = card\<rparr>) (pv_probe p w))
       (List.enumerate 0 (eg_providers en)))"

section \<open>Routing\<close>

definition satisfies :: "CompleteRequest \<Rightarrow> ModelCard \<Rightarrow> bool" where
  "satisfies req m =
     (mc_healthy m \<and> (\<not> rq_tools (cq_require req) \<or> mc_tools m) \<and> mc_context m \<ge> rq_min_context (cq_require req)
      \<and> (\<not> rq_local_only (cq_require req) \<or> mc_local m))"

definition why_none :: "CompleteRequest \<Rightarrow> string" where
  "why_none req =
     (let why = (if rq_tools (cq_require req) then [''tools''] else [])
            @ (if rq_local_only (cq_require req) then [''local-only''] else [])
            @ (if rq_min_context (cq_require req) > 0 then [''min-context''] else []) in
      if why = [] then ''no healthy model'' else ''requires '' @ join_with ''+'' why)"

text \<open>The soft order of a role: stable sorts, as keys compared from left to right.\<close>

fun order_by_role :: "Role \<Rightarrow> Candidate list \<Rightarrow> Candidate list" where
  "order_by_role Research kept = sort_key (\<lambda>c. mc_cost_per_1k_micros (cd_card c)) kept"
| "order_by_role LocalFallback kept =
     sort_key (\<lambda>c. (\<not> mc_local (cd_card c), mc_cost_per_1k_micros (cd_card c))) kept"
| "order_by_role Implementation kept =
     sort_key (\<lambda>c. (mc_cost_per_1k_micros (cd_card c), - uint (mc_context (cd_card c)))) kept"
| "order_by_role _ kept =
     sort_key (\<lambda>c. (- uint (mc_context (cd_card c)), mc_cost_per_1k_micros (cd_card c))) kept"

definition select_candidates :: "Candidate list \<Rightarrow> CompleteRequest \<Rightarrow> RouteError + Candidate list" where
  "select_candidates reg req =
     (let kept = filter (\<lambda>c. satisfies req (cd_card c)) reg in
      if kept = [] then Inl (NoModelForConstraints (why_none req))
      else Inr (order_by_role (cq_role req) kept))"

definition apply_budget :: "Candidate list \<Rightarrow> CompleteRequest \<Rightarrow> RouteError + Candidate list" where
  "apply_budget candidates req =
     (if cq_max_cost_micros req = 0 then Inr candidates
      else let affordable = filter (\<lambda>c. est_cost_micros (cd_card c) (cq_max_tokens req) \<le> cq_max_cost_micros req) candidates in
           if affordable = []
           then Inl (OverBudget (''ceiling '' @ show_nat (unat (cq_max_cost_micros req)) @ '' micros too low for ''
                  @ show_nat (unat (cq_max_tokens req)) @ '' output tokens''))
           else Inr affordable)"

fun run_reliable_loop ::
  "'w Provider list \<Rightarrow> CompleteRequest \<Rightarrow> Candidate list \<Rightarrow> string list \<Rightarrow> string \<Rightarrow> 'w \<Rightarrow> string list
     \<Rightarrow> ('w \<times> string list \<times> (RouteError + FinalResult)) option" where
  "run_reliable_loop providers req [] fallbacks last_err w sunk = Some (w, sunk, Inl (AllProvidersFailed last_err))"
| "run_reliable_loop providers req (cand # cands) fallbacks last_err w sunk =
     (if cd_provider_idx cand < length providers
      then case pv_complete (providers ! cd_provider_idx cand) w (mc_model (cd_card cand)) req of
             (w', chunks, Inr c) \<Rightarrow>
               Some (w', sunk @ chunks,
                 Inr \<lparr>fi_text = truncated (co_text c) MAX_TEXT_BYTES, fi_provider = cd_provider_id cand,
                      fi_model = mc_model (cd_card cand), fi_usage = co_usage c, fi_fallbacks = fallbacks\<rparr>)
           | (w', chunks, Inl e) \<Rightarrow>
               run_reliable_loop providers req cands (fallbacks @ [cd_provider_id cand])
                 (cd_provider_id cand @ '': '' @ provider_error_message e) w' (sunk @ chunks)
      else None)"

definition run_reliable ::
  "'w Provider list \<Rightarrow> Candidate list \<Rightarrow> CompleteRequest \<Rightarrow> 'w \<Rightarrow> ('w \<times> string list \<times> (RouteError + FinalResult)) option" where
  "run_reliable providers candidates req w = run_reliable_loop providers req candidates [] ''no candidates'' w []"

definition account :: "BudgetLedger \<Rightarrow> Usage \<Rightarrow> nat \<Rightarrow> BudgetLedger" where
  "account lg us fallbacks =
     \<lparr>lg_requests = saturating_add (lg_requests lg) 1,
      lg_input_tokens = saturating_add (lg_input_tokens lg) (ucast (us_input_tokens us)),
      lg_output_tokens = saturating_add (lg_output_tokens lg) (ucast (us_output_tokens us)),
      lg_cost_micros = saturating_add (lg_cost_micros lg) (us_cost_micros us),
      lg_fallbacks = saturating_add (lg_fallbacks lg) (of_nat fallbacks)\<rparr>"

definition ensure_local_fallback :: "Candidate list \<Rightarrow> Candidate list" where
  "ensure_local_fallback candidates =
     filter (\<lambda>c. \<not> mc_local (cd_card c)) candidates @ filter (\<lambda>c. mc_local (cd_card c)) candidates"

definition complete_inner ::
  "'w Engine \<Rightarrow> CompleteRequest \<Rightarrow> bool \<Rightarrow> 'w \<Rightarrow> ('w Engine \<times> 'w \<times> string list \<times> (RouteError + FinalResult)) option" where
  "complete_inner en req local_fallback w =
     (case and_then (select_candidates (registry_indexed en w) req) (\<lambda>cands. apply_budget cands req) of
        Inl e \<Rightarrow> Some (en, w, [], Inl e)
      | Inr cands \<Rightarrow>
          (case run_reliable (eg_providers en) (if local_fallback then ensure_local_fallback cands else cands) req w of
             None \<Rightarrow> None
           | Some (w', sunk, Inl e) \<Rightarrow> Some (en, w', sunk, Inl e)
           | Some (w', sunk, Inr fin) \<Rightarrow>
               Some (en\<lparr>eg_ledger := account (eg_ledger en) (fi_usage fin) (length (fi_fallbacks fin))\<rparr>, w', sunk, Inr fin)))"

definition engine_complete ::
  "'w Engine \<Rightarrow> CompleteRequest \<Rightarrow> 'w \<Rightarrow> ('w Engine \<times> 'w \<times> string list \<times> (RouteError + FinalResult)) option" where
  "engine_complete en req w = complete_inner en req False w"

definition complete_with_local_fallback ::
  "'w Engine \<Rightarrow> CompleteRequest \<Rightarrow> 'w \<Rightarrow> ('w Engine \<times> 'w \<times> string list \<times> (RouteError + FinalResult)) option" where
  "complete_with_local_fallback en req w = complete_inner en req True w"

record PanelEntry =
  pe_provider :: string
  pe_model :: string
  pe_completion :: "ProviderError + ModelCompletion"

fun run_fusion_loop :: "'w Provider list \<Rightarrow> CompleteRequest \<Rightarrow> Candidate list \<Rightarrow> 'w \<Rightarrow> ('w \<times> PanelEntry list) option" where
  "run_fusion_loop providers req [] w = Some (w, [])"
| "run_fusion_loop providers req (cand # cands) w =
     (if cd_provider_idx cand < length providers
      then let (w', _, completion) = pv_complete (providers ! cd_provider_idx cand) w (mc_model (cd_card cand)) req in
           map_option (\<lambda>(w'', panel).
             (w'', \<lparr>pe_provider = cd_provider_id cand, pe_model = mc_model (cd_card cand), pe_completion = completion\<rparr> # panel))
             (run_fusion_loop providers req cands w')
      else None)"

definition run_fusion ::
  "'w Provider list \<Rightarrow> Candidate list \<Rightarrow> CompleteRequest \<Rightarrow> nat \<Rightarrow> 'w \<Rightarrow> ('w \<times> PanelEntry list) option" where
  "run_fusion providers candidates req n w =
     run_fusion_loop providers req (take (min n (length candidates)) candidates) w"

definition account_entry :: "BudgetLedger \<Rightarrow> PanelEntry \<Rightarrow> BudgetLedger" where
  "account_entry lg entry = (case pe_completion entry of Inr c \<Rightarrow> account lg (co_usage c) 0 | Inl _ \<Rightarrow> lg)"

definition fusion_panel ::
  "'w Engine \<Rightarrow> CompleteRequest \<Rightarrow> nat \<Rightarrow> 'w \<Rightarrow> ('w Engine \<times> 'w \<times> (RouteError + PanelEntry list)) option" where
  "fusion_panel en req n w =
     (case and_then (select_candidates (registry_indexed en w) req) (\<lambda>cands. apply_budget cands req) of
        Inl e \<Rightarrow> Some (en, w, Inl e)
      | Inr cands \<Rightarrow>
          map_option (\<lambda>(w', panel). (en\<lparr>eg_ledger := foldl account_entry (eg_ledger en) panel\<rparr>, w', Inr panel))
            (run_fusion (eg_providers en) cands req n w))"

section \<open>Embedding and rerank engines (modality.rs)\<close>

datatype Modality = MCompletion | MEmbedding | MRerank

record EmbeddingRequest =
  mq_role :: Role
  mq_inputs :: "string list"
  mq_max_cost_micros :: u64

definition EmbeddingRequest_new :: "Role \<Rightarrow> string list \<Rightarrow> u64 \<Rightarrow> EmbeddingRequest" where
  "EmbeddingRequest_new role inputs mx =
     \<lparr>mq_role = role, mq_inputs = map bound_text (take MAX_BATCH inputs), mq_max_cost_micros = mx\<rparr>"

record EmbeddingResponse =
  ms_vectors :: "f32 list list"
  ms_usage :: Usage

record ModalRerankRequest =
  mr_role :: Role
  mr_query :: string
  mr_documents :: "string list"
  mr_max_cost_micros :: u64

definition RerankRequest_new :: "Role \<Rightarrow> string \<Rightarrow> string list \<Rightarrow> u64 \<Rightarrow> ModalRerankRequest" where
  "RerankRequest_new role query documents mx =
     \<lparr>mr_role = role, mr_query = bound_text query, mr_documents = map bound_text (take MAX_DOCS documents),
      mr_max_cost_micros = mx\<rparr>"

definition doc_count :: "ModalRerankRequest \<Rightarrow> nat" where
  "doc_count req = length (mr_documents req)"

record RerankResponse =
  mk_ranking :: "(nat \<times> f32) list"
  mk_usage :: Usage

text \<open>The order of finite numbers: sign and magnitude, with one zero.\<close>

definition f32_key :: "f32 \<Rightarrow> int" where
  "f32_key x = (if unat x < 2 ^ 31 then int (unat x) else - (int (unat x) - 2 ^ 31))"

definition finite_or_zero :: "f32 \<Rightarrow> f32" where
  "finite_or_zero x = (if is_finite x then x else 0)"

fun sanitize_ranking_loop :: "nat \<Rightarrow> (int \<times> f32) list \<Rightarrow> bool list \<Rightarrow> (nat \<times> f32) list" where
  "sanitize_ranking_loop docs [] seen = []"
| "sanitize_ranking_loop docs ((idx, score) # rest) seen =
     (if idx < 0 then sanitize_ranking_loop docs rest seen
      else let i = nat idx in
           if i \<ge> docs then sanitize_ranking_loop docs rest seen
           else if seen ! i then sanitize_ranking_loop docs rest seen
           else (i, finite_or_zero score) # sanitize_ranking_loop docs rest (seen[i := True]))"

definition sanitize_ranking :: "(int \<times> f32) list \<Rightarrow> nat \<Rightarrow> (nat \<times> f32) list" where
  "sanitize_ranking given docs =
     sort_key (\<lambda>p. - f32_key (snd p)) (sanitize_ranking_loop docs (take MAX_DOCS given) (replicate docs False))"

definition sanitize_vectors :: "f32 list list \<Rightarrow> f32 list list" where
  "sanitize_vectors given = map (\<lambda>v. map finite_or_zero (take MAX_EMBEDDING_DIMS v)) (take MAX_BATCH given)"

record 'w EmbedProvider =
  ep_id :: string
  ep_probe :: "'w \<Rightarrow> ModelCard list"
  ep_embed :: "'w \<Rightarrow> string \<Rightarrow> EmbeddingRequest \<Rightarrow> 'w \<times> (ProviderError + EmbeddingResponse)"

record 'w RerankProvider =
  rp_id :: string
  rp_probe :: "'w \<Rightarrow> ModelCard list"
  rp_rerank :: "'w \<Rightarrow> string \<Rightarrow> ModalRerankRequest \<Rightarrow> 'w \<times> (ProviderError + RerankResponse)"

fun modal_ok :: "Modality \<Rightarrow> u32 \<Rightarrow> ModelCard \<Rightarrow> bool" where
  "modal_ok MCompletion require_dims m = mc_healthy m"
| "modal_ok MEmbedding require_dims m =
     (mc_healthy m \<and> mc_embeddings m \<and> (require_dims = 0 \<or> mc_embedding_dims m = require_dims))"
| "modal_ok MRerank require_dims m = (mc_healthy m \<and> mc_rerank m)"

fun why_no_modal :: "Modality \<Rightarrow> u32 \<Rightarrow> string" where
  "why_no_modal MCompletion require_dims = ''no healthy model''"
| "why_no_modal MEmbedding require_dims =
     (if require_dims > 0 then ''requires embeddings+'' @ show_nat (unat require_dims) @ ''-dims'' else ''requires embeddings'')"
| "why_no_modal MRerank require_dims = ''requires rerank''"

definition select_candidates_for :: "Modality \<Rightarrow> Candidate list \<Rightarrow> Role \<Rightarrow> u32 \<Rightarrow> RouteError + Candidate list" where
  "select_candidates_for modality reg role require_dims =
     (let kept = filter (\<lambda>c. modal_ok modality require_dims (cd_card c)) reg in
      if kept = [] then Inl (NoModelForConstraints (why_no_modal modality require_dims))
      else Inr (order_by_role role kept))"

definition apply_budget_for :: "Candidate list \<Rightarrow> u32 \<Rightarrow> u64 \<Rightarrow> RouteError + Candidate list" where
  "apply_budget_for candidates est_output_tokens max_cost_micros =
     (if max_cost_micros = 0 then Inr candidates
      else let affordable = filter (\<lambda>c. est_cost_micros (cd_card c) est_output_tokens \<le> max_cost_micros) candidates in
           if affordable = []
           then Inl (OverBudget (''ceiling '' @ show_nat (unat max_cost_micros) @ '' micros too low for ~''
                  @ show_nat (unat est_output_tokens) @ '' tokens''))
           else Inr affordable)"

definition est_batch_tokens :: "string list \<Rightarrow> u32" where
  "est_batch_tokens texts = of_nat (sum_list (map length texts) div 4 + 1)"

text \<open>
  The two engines run the same fallback loop over their providers; it is written once, over the call
  and the treatment of an answer.
\<close>

fun modal_loop ::
  "(nat \<Rightarrow> ('w \<Rightarrow> string \<Rightarrow> 'w \<times> (ProviderError + 'r)) option) \<Rightarrow> Candidate list \<Rightarrow> string list \<Rightarrow> string \<Rightarrow> 'w
     \<Rightarrow> ('w \<times> (RouteError + 'r \<times> string list \<times> string \<times> string)) option" where
  "modal_loop call [] fallbacks last_err w = Some (w, Inl (AllProvidersFailed last_err))"
| "modal_loop call (cand # cands) fallbacks last_err w =
     (case call (cd_provider_idx cand) of
        None \<Rightarrow> None
      | Some f \<Rightarrow>
          (case f w (mc_model (cd_card cand)) of
             (w', Inr resp) \<Rightarrow> Some (w', Inr (resp, fallbacks, cd_provider_id cand, mc_model (cd_card cand)))
           | (w', Inl e) \<Rightarrow>
               modal_loop call cands (fallbacks @ [cd_provider_id cand])
                 (cd_provider_id cand @ '': '' @ provider_error_message e) w'))"

definition embed_registry :: "'w EmbedProvider list \<Rightarrow> 'w \<Rightarrow> (string \<times> ModelCard) list" where
  "embed_registry ps w = concat (map (\<lambda>p. map (\<lambda>card. (ep_id p, card)) (ep_probe p w)) ps)"

definition embed_indexed :: "'w EmbedProvider list \<Rightarrow> 'w \<Rightarrow> Candidate list" where
  "embed_indexed ps w =
     concat (map (\<lambda>(idx, p). map (\<lambda>card. \<lparr>cd_provider_idx = idx, cd_provider_id = ep_id p, cd_card = card\<rparr>) (ep_probe p w))
       (List.enumerate 0 ps))"

definition engine_embed ::
  "'w EmbedProvider list \<Rightarrow> EmbeddingRequest \<Rightarrow> BudgetLedger \<Rightarrow> 'w
     \<Rightarrow> (BudgetLedger \<times> 'w \<times> (RouteError + EmbeddingResponse \<times> string list \<times> string \<times> string)) option" where
  "engine_embed ps req lg w =
     (case and_then (select_candidates_for MEmbedding (embed_indexed ps w) (mq_role req) 0)
             (\<lambda>cands. apply_budget_for cands (est_batch_tokens (mq_inputs req)) (mq_max_cost_micros req)) of
        Inl e \<Rightarrow> Some (lg, w, Inl e)
      | Inr cands \<Rightarrow>
          (case modal_loop (\<lambda>i. if i < length ps then Some (\<lambda>w model. ep_embed (ps ! i) w model req) else None)
                  cands [] ''no candidates'' w of
             None \<Rightarrow> None
           | Some (w', Inl e) \<Rightarrow> Some (lg, w', Inl e)
           | Some (w', Inr (resp, fallbacks, provider, model)) \<Rightarrow>
               let resp = \<lparr>ms_vectors = sanitize_vectors (ms_vectors resp), ms_usage = ms_usage resp\<rparr> in
               Some (account lg (ms_usage resp) (length fallbacks), w', Inr (resp, fallbacks, provider, model))))"

definition rerank_registry :: "'w RerankProvider list \<Rightarrow> 'w \<Rightarrow> (string \<times> ModelCard) list" where
  "rerank_registry ps w = concat (map (\<lambda>p. map (\<lambda>card. (rp_id p, card)) (rp_probe p w)) ps)"

definition rerank_indexed :: "'w RerankProvider list \<Rightarrow> 'w \<Rightarrow> Candidate list" where
  "rerank_indexed ps w =
     concat (map (\<lambda>(idx, p). map (\<lambda>card. \<lparr>cd_provider_idx = idx, cd_provider_id = rp_id p, cd_card = card\<rparr>) (rp_probe p w))
       (List.enumerate 0 ps))"

definition engine_rerank ::
  "'w RerankProvider list \<Rightarrow> ModalRerankRequest \<Rightarrow> BudgetLedger \<Rightarrow> 'w
     \<Rightarrow> (BudgetLedger \<times> 'w \<times> (RouteError + RerankResponse \<times> string list \<times> string \<times> string)) option" where
  "engine_rerank ps req lg w =
     (let est = saturating_add (est_batch_tokens (mr_documents req)) (of_nat (length (mr_query req) div 4 + 1)) in
      case and_then (select_candidates_for MRerank (rerank_indexed ps w) (mr_role req) 0)
             (\<lambda>cands. apply_budget_for cands est (mr_max_cost_micros req)) of
        Inl e \<Rightarrow> Some (lg, w, Inl e)
      | Inr cands \<Rightarrow>
          (case modal_loop (\<lambda>i. if i < length ps then Some (\<lambda>w model. rp_rerank (ps ! i) w model req) else None)
                  cands [] ''no candidates'' w of
             None \<Rightarrow> None
           | Some (w', Inl e) \<Rightarrow> Some (lg, w', Inl e)
           | Some (w', Inr (resp, fallbacks, provider, model)) \<Rightarrow>
               Some (account lg (mk_usage resp) (length fallbacks), w', Inr (resp, fallbacks, provider, model))))"

section \<open>Serving\<close>

record 'w MultiModalEngine =
  mm_completion :: "'w Engine"
  mm_embed :: "'w EmbedProvider list option"
  mm_rerank :: "'w RerankProvider list option"

definition completion_only :: "'w Engine \<Rightarrow> 'w MultiModalEngine" where
  "completion_only en = \<lparr>mm_completion = en, mm_embed = None, mm_rerank = None\<rparr>"

fun write_all_responses :: "float_text \<Rightarrow> writer \<Rightarrow> Response list \<Rightarrow> ProtoError + writer" where
  "write_all_responses ft out [] = Inr out"
| "write_all_responses ft out (m # ms) = and_then (write_response ft out m) (\<lambda>out. write_all_responses ft out ms)"

text \<open>The sink of a streamed completion ignores a failed write.\<close>

definition write_chunk :: "float_text \<Rightarrow> writer \<Rightarrow> string \<Rightarrow> writer" where
  "write_chunk ft out t = (case write_response ft out (Chunk (truncated t MAX_TEXT_BYTES)) of Inr out' \<Rightarrow> out' | Inl _ \<Rightarrow> out)"

definition probe_responses :: "'w MultiModalEngine \<Rightarrow> 'w \<Rightarrow> Response list" where
  "probe_responses mm w =
     map (\<lambda>(pid, card). RModel (to_info card pid))
       (registry (mm_completion mm) w
        @ (case mm_embed mm of Some ps \<Rightarrow> embed_registry ps w | None \<Rightarrow> [])
        @ (case mm_rerank mm of Some ps \<Rightarrow> rerank_registry ps w | None \<Rightarrow> []))
     @ [RegistryEnd]"

definition set_ledger :: "'w MultiModalEngine \<Rightarrow> BudgetLedger \<Rightarrow> 'w MultiModalEngine" where
  "set_ledger mm lg = mm\<lparr>mm_completion := (mm_completion mm)\<lparr>eg_ledger := lg\<rparr>\<rparr>"

fun serve_one ::
  "float_text \<Rightarrow> 'w MultiModalEngine \<Rightarrow> Request \<Rightarrow> 'w \<Rightarrow> writer
     \<Rightarrow> ('w MultiModalEngine \<times> 'w \<times> (ProtoError + writer)) option" where
  "serve_one ft mm Probe w out = Some (mm, w, write_all_responses ft out (probe_responses mm w))"
| "serve_one ft mm (Complete c) w out =
     (case engine_complete (mm_completion mm) c w of
        None \<Rightarrow> None
      | Some (en, w', sunk, result) \<Rightarrow>
          let out' = (if cq_stream c then foldl (write_chunk ft) out sunk else out) in
          Some (mm\<lparr>mm_completion := en\<rparr>, w',
            write_response ft out' (case result of Inr fin \<Rightarrow> RFinal fin | Inl e \<Rightarrow> RError (route_reason e))))"
| "serve_one ft mm (Embed e) w out =
     (case mm_embed mm of
        None \<Rightarrow> Some (mm, w, write_response ft out (RError (route_reason (NoModelForConstraints ''requires embeddings''))))
      | Some ps \<Rightarrow>
          (case engine_embed ps (EmbeddingRequest_new (eq_role e) (eq_inputs e) (eq_max_cost_micros e)) (eg_ledger (mm_completion mm)) w of
             None \<Rightarrow> None
           | Some (lg, w', Inl err) \<Rightarrow> Some (set_ledger mm lg, w', write_response ft out (RError (route_reason err)))
           | Some (lg, w', Inr (resp, fallbacks, provider, model)) \<Rightarrow>
               Some (set_ledger mm lg, w', write_response ft out (Embedding
                 \<lparr>er_vectors = ms_vectors resp, er_usage = ms_usage resp, er_provider = provider, er_model = model,
                  er_fallbacks = fallbacks\<rparr>))))"
| "serve_one ft mm (Rerank r) w out =
     (case mm_rerank mm of
        None \<Rightarrow> Some (mm, w, write_response ft out (RError (route_reason (NoModelForConstraints ''requires rerank''))))
      | Some ps \<Rightarrow>
          (case engine_rerank ps (RerankRequest_new (kq_role r) (kq_query r) (kq_documents r) (kq_max_cost_micros r))
                  (eg_ledger (mm_completion mm)) w of
             None \<Rightarrow> None
           | Some (lg, w', Inl err) \<Rightarrow> Some (set_ledger mm lg, w', write_response ft out (RError (route_reason err)))
           | Some (lg, w', Inr (resp, fallbacks, provider, model)) \<Rightarrow>
               Some (set_ledger mm lg, w', write_response ft out (Ranking
                 \<lparr>rr_ranking = map (\<lambda>(i, s). (of_nat i, s)) (mk_ranking resp), rr_usage = mk_usage resp,
                  rr_provider = provider, rr_model = model, rr_fallbacks = fallbacks\<rparr>))))"

lemma read_request_unread: "(r', Inr (Some m)) = read_request r \<Longrightarrow> unread r' < unread r"
  by (metis read_message_unread read_request_def)

function serve ::
  "float_text \<Rightarrow> 'w MultiModalEngine \<Rightarrow> reader \<Rightarrow> 'w \<Rightarrow> writer
     \<Rightarrow> ('w MultiModalEngine \<times> reader \<times> 'w \<times> writer \<times> (ProtoError + unit)) option" where
  "serve ft mm r w out =
     (case read_request r of
        (r', Inl e) \<Rightarrow> Some (mm, r', w, out, Inl e)
      | (r', Inr None) \<Rightarrow> Some (mm, r', w, out, Inr ())
      | (r', Inr (Some req)) \<Rightarrow>
          (case serve_one ft mm req w out of
             None \<Rightarrow> None
           | Some (mm', w', Inl e) \<Rightarrow> Some (mm', r', w', out, Inl e)
           | Some (mm', w', Inr out') \<Rightarrow> serve ft mm' r' w' out'))"
  by pat_completeness auto
termination
  by (relation "measure (\<lambda>(ft, mm, r, w, out). unread r)") (auto dest: read_request_unread)

declare serve.simps [simp del]

end
