(* ===== verification/Router_Props.thy ===== *)
theory Router_Props
  imports Router Netproto_Props "HOL-Library.Multiset"
begin

text \<open>
  Routing keeps to the hard constraints and the cost ceiling of a request, tries the candidates in
  the order of its role, and the sidecar and its client together deliver what the engine answered.
\<close>

section \<open>Candidates\<close>

lemma order_by_role_mset [simp]: "mset (order_by_role role cs) = mset cs"
  by (cases role) simp_all

lemma order_by_role_set [simp]: "set (order_by_role role cs) = set cs"
  by (metis order_by_role_mset set_mset_mset)

definition affordable :: "u64 \<Rightarrow> u32 \<Rightarrow> ModelCard \<Rightarrow> bool" where
  "affordable ceiling tokens m = (ceiling = 0 \<or> est_cost_micros m tokens \<le> ceiling)"

definition admissible :: "CompleteRequest \<Rightarrow> ModelCard \<Rightarrow> bool" where
  "admissible req m = (satisfies req m \<and> affordable (cq_max_cost_micros req) (cq_max_tokens req) m)"

definition offered :: "'w Engine \<Rightarrow> 'w \<Rightarrow> Candidate \<Rightarrow> bool" where
  "offered en w c = (cd_provider_idx c < length (eg_providers en)
     \<and> cd_provider_id c = pv_id (eg_providers en ! cd_provider_idx c)
     \<and> cd_card c \<in> set (pv_probe (eg_providers en ! cd_provider_idx c) w))"

lemma registry_offered: "c \<in> set (registry_indexed en w) \<longleftrightarrow> offered en w c"
proof
  assume "c \<in> set (registry_indexed en w)"
  then show "offered en w c" by (auto simp: registry_indexed_def offered_def in_set_enumerate_eq)
next
  assume o: "offered en w c"
  let ?i = "cd_provider_idx c" and ?p = "eg_providers en ! cd_provider_idx c"
  have "(?i, ?p) \<in> set (List.enumerate 0 (eg_providers en))"
    using o by (simp add: offered_def in_set_enumerate_eq)
  moreover have "c \<in> (\<lambda>card. \<lparr>cd_provider_idx = ?i, cd_provider_id = pv_id ?p, cd_card = card\<rparr>) ` set (pv_probe ?p w)"
    using o by (intro image_eqI [of _ _ "cd_card c"]) (simp_all add: offered_def)
  ultimately show "c \<in> set (registry_indexed en w)" by (force simp: registry_indexed_def)
qed

text \<open>The candidates a request is tried on: those that satisfy it, in the order of its role, within its ceiling.\<close>

definition ranked :: "'w Engine \<Rightarrow> CompleteRequest \<Rightarrow> 'w \<Rightarrow> Candidate list" where
  "ranked en req w =
     filter (\<lambda>c. affordable (cq_max_cost_micros req) (cq_max_tokens req) (cd_card c))
       (order_by_role (cq_role req) (filter (\<lambda>c. satisfies req (cd_card c)) (registry_indexed en w)))"

lemma routed_ranked:
  "and_then (select_candidates (registry_indexed en w) req) (\<lambda>cands. apply_budget cands req) = Inr cands \<longleftrightarrow>
     cands = ranked en req w \<and> cands \<noteq> []"
proof -
  let ?sel = "order_by_role (cq_role req) (filter (\<lambda>c. satisfies req (cd_card c)) (registry_indexed en w))"
  have "?sel = [] \<longleftrightarrow> filter (\<lambda>c. satisfies req (cd_card c)) (registry_indexed en w) = []"
    by (metis order_by_role_set set_empty)
  then show ?thesis
    by (auto simp: select_candidates_def apply_budget_def ranked_def affordable_def Let_def split: if_splits)
qed

lemma ranked_set: "set (ranked en req w) = {c. offered en w c \<and> admissible req (cd_card c)}"
  by (auto simp: ranked_def admissible_def registry_offered)

lemma local_fallback_set: "set (ensure_local_fallback cs) = set cs"
  by (auto simp: ensure_local_fallback_def)

definition tried :: "'w Engine \<Rightarrow> CompleteRequest \<Rightarrow> bool \<Rightarrow> 'w \<Rightarrow> Candidate list" where
  "tried en req local_fallback w =
     (if local_fallback then ensure_local_fallback (ranked en req w) else ranked en req w)"

lemma tried_set: "set (tried en req lf w) = {c. offered en w c \<and> admissible req (cd_card c)}"
  by (simp add: tried_def local_fallback_set ranked_set)

section \<open>Fallback\<close>

text \<open>One call after the other, until one succeeds.\<close>

definition call :: "'w Provider list \<Rightarrow> CompleteRequest \<Rightarrow> 'w \<Rightarrow> Candidate \<Rightarrow> 'w \<times> string list \<times> (ProviderError + ModelCompletion)" where
  "call ps req w c = pv_complete (ps ! cd_provider_idx c) w (mc_model (cd_card c)) req"

fun calls_fail :: "'w Provider list \<Rightarrow> CompleteRequest \<Rightarrow> 'w \<Rightarrow> Candidate list \<Rightarrow> 'w \<Rightarrow> bool" where
  "calls_fail ps req w [] w' = (w' = w)"
| "calls_fail ps req w (c # cs) w' =
     (case call ps req w c of (w1, chunks, Inl e) \<Rightarrow> calls_fail ps req w1 cs w' | _ \<Rightarrow> False)"

lemma reliable_success:
  assumes "run_reliable_loop ps req cands fallbacks err w sunk = Some (w', sunk', Inr fin)"
  obtains k w1 chunks c where "k < length cands" "calls_fail ps req w (take k cands) w1"
    "call ps req w1 (cands ! k) = (w', chunks, Inr c)"
    "fin = \<lparr>fi_text = truncated (co_text c) MAX_TEXT_BYTES, fi_provider = cd_provider_id (cands ! k),
            fi_model = mc_model (cd_card (cands ! k)), fi_usage = co_usage c,
            fi_fallbacks = fallbacks @ map cd_provider_id (take k cands)\<rparr>"
  using assms
proof (induction cands arbitrary: fallbacks err w sunk thesis)
  case (Cons cand cands)
  obtain w1 chunks res where c: "call ps req w cand = (w1, chunks, res)" by (metis prod_cases3)
  show ?case
  proof (cases res)
    case (Inr co)
    then show ?thesis
      using Cons.prems c by (intro Cons.prems(1) [of 0 w chunks co]) (auto simp: call_def split: if_splits)
  next
    case (Inl e)
    then obtain err' where l: "run_reliable_loop ps req cands (fallbacks @ [cd_provider_id cand]) err' w1 (sunk @ chunks)
        = Some (w', sunk', Inr fin)"
      using Cons.prems(2) c by (auto simp: call_def split: if_splits)
    obtain k w2 chunks' co where k: "k < length cands" "calls_fail ps req w1 (take k cands) w2"
      "call ps req w2 (cands ! k) = (w', chunks', Inr co)"
      "fin = \<lparr>fi_text = truncated (co_text co) MAX_TEXT_BYTES, fi_provider = cd_provider_id (cands ! k),
            fi_model = mc_model (cd_card (cands ! k)), fi_usage = co_usage co,
            fi_fallbacks = (fallbacks @ [cd_provider_id cand]) @ map cd_provider_id (take k cands)\<rparr>"
      using Cons.IH [OF _ l] by blast
    then show ?thesis using c Inl by (intro Cons.prems(1) [of "Suc k" w2 chunks' co]) simp_all
  qed
qed simp

lemma reliable_total:
  "\<forall>c\<in>set cands. cd_provider_idx c < length ps \<Longrightarrow> run_reliable_loop ps req cands fallbacks err w sunk \<noteq> None"
  by (induction cands arbitrary: fallbacks err w sunk) (auto split: prod.splits sum.splits)

lemma reliable_keeps:
  assumes "\<And>w c. c \<in> set cands \<Longrightarrow> I w \<Longrightarrow> I (fst (call ps req w c))"
  shows "run_reliable_loop ps req cands fallbacks err w sunk = Some (w', out) \<Longrightarrow> I w \<Longrightarrow> I w'"
  using assms
proof (induction cands arbitrary: fallbacks err w sunk)
  case (Cons cand cands)
  obtain w1 chunks res where c: "call ps req w cand = (w1, chunks, res)" by (metis prod_cases3)
  then have w1: "I w1" using Cons.prems(2) Cons.prems(3) [of cand w] by simp
  show ?case
  proof (cases res)
    case (Inl e)
    then show ?thesis
      using Cons.prems c w1
      by (intro Cons.IH [of "fallbacks @ [cd_provider_id cand]" "cd_provider_id cand @ '': '' @ provider_error_message e" w1 "sunk @ chunks"])
        (auto simp: call_def split: if_splits)
  next
    case (Inr co)
    then show ?thesis using Cons.prems(1) c w1 by (auto simp: call_def split: if_splits)
  qed
qed simp

lemma complete_inner_reliable:
  assumes "complete_inner en req lf w = Some (en', w', sunk, res)"
  obtains e where "res = Inl e" "w' = w" "en' = en" "ranked en req w = []"
  | "run_reliable (eg_providers en) (tried en req lf w) req w = Some (w', sunk, res)"
    "en' = (case res of Inl _ \<Rightarrow> en | Inr fin \<Rightarrow>
       en\<lparr>eg_ledger := account (eg_ledger en) (fi_usage fin) (length (fi_fallbacks fin))\<rparr>)"
proof (cases "and_then (select_candidates (registry_indexed en w) req) (\<lambda>cands. apply_budget cands req)")
  case (Inl e)
  then have "ranked en req w = []" using routed_ranked [of en w req "ranked en req w"] by auto
  then show ?thesis using assms Inl that(1) by (auto simp: complete_inner_def)
next
  case (Inr cands)
  then have "cands = ranked en req w" by (simp add: routed_ranked)
  then show ?thesis
    using assms Inr that(2) by (auto simp: complete_inner_def tried_def split: option.splits sum.splits)
qed


text \<open>The order of a role, as a relation on models.\<close>

fun prefers :: "Role \<Rightarrow> ModelCard \<Rightarrow> ModelCard \<Rightarrow> bool" where
  "prefers Research a b = (mc_cost_per_1k_micros a \<le> mc_cost_per_1k_micros b)"
| "prefers LocalFallback a b =
     (if mc_local a = mc_local b then mc_cost_per_1k_micros a \<le> mc_cost_per_1k_micros b else mc_local a)"
| "prefers Implementation a b =
     (mc_cost_per_1k_micros a < mc_cost_per_1k_micros b
      \<or> mc_cost_per_1k_micros a = mc_cost_per_1k_micros b \<and> mc_context b \<le> mc_context a)"
| "prefers _ a b =
     (mc_context b < mc_context a
      \<or> mc_context a = mc_context b \<and> mc_cost_per_1k_micros a \<le> mc_cost_per_1k_micros b)"

lemma sorted_by_key:
  "(\<And>a b. f a \<le> f b \<Longrightarrow> P a b) \<Longrightarrow> sorted_wrt P (sort_key f xs)" for f :: "'a \<Rightarrow> 'b :: linorder"
  by (rule sorted_wrt_mono_rel [of _ "\<lambda>a b. f a \<le> f b"]) (simp_all flip: sorted_wrt_map)

lemma order_by_role_sorted: "sorted_wrt (\<lambda>a b. prefers role (cd_card a) (cd_card b)) (order_by_role role cs)"
proof -
  have u: "- uint a < - uint b \<longleftrightarrow> b < a" "- uint a \<le> - uint b \<longleftrightarrow> b \<le> a" for a b :: u32
    by (simp_all add: word_less_def word_le_def)
  show ?thesis
  proof (cases role)
    case LocalFallback
    then show ?thesis by (simp only: order_by_role.simps) (rule sorted_by_key, auto)
  next
    case Research
    then show ?thesis by (simp only: order_by_role.simps) (rule sorted_by_key, simp)
  qed (simp only: order_by_role.simps, rule sorted_by_key, simp only: less_eq_prod_simp prefers.simps u, fastforce)+
qed

lemma ranked_sorted: "sorted_wrt (\<lambda>a b. prefers (cq_role req) (cd_card a) (cd_card b)) (ranked en req w)"
  unfolding ranked_def by (intro sorted_wrt_filter order_by_role_sorted)

lemma sorted_wrt_all: "(\<And>a b. a \<in> set xs \<Longrightarrow> b \<in> set xs \<Longrightarrow> P a b) \<Longrightarrow> sorted_wrt P xs"
  by (induction xs) simp_all

lemma local_last: "sorted_wrt (\<lambda>a b. mc_local (cd_card a) \<longrightarrow> mc_local (cd_card b)) (ensure_local_fallback cs)"
  unfolding ensure_local_fallback_def sorted_wrt_append
  by (intro conjI ballI sorted_wrt_all) simp_all

section \<open>No panic\<close>

lemma indexed_in_range:
  "c \<in> set (registry_indexed en w) \<Longrightarrow> cd_provider_idx c < length (eg_providers en)"
  "c \<in> set (embed_indexed eps w) \<Longrightarrow> cd_provider_idx c < length eps"
  "c \<in> set (rerank_indexed rps w) \<Longrightarrow> cd_provider_idx c < length rps"
  by (auto simp: registry_indexed_def embed_indexed_def rerank_indexed_def in_set_enumerate_eq)

lemma complete_inner_total: "complete_inner en req lf w \<noteq> None"
proof (cases "and_then (select_candidates (registry_indexed en w) req) (\<lambda>cands. apply_budget cands req)")
  case (Inr cands)
  then have "cands = ranked en req w" by (simp add: routed_ranked)
  then have "\<forall>c\<in>set (if lf then ensure_local_fallback cands else cands). cd_provider_idx c < length (eg_providers en)"
    using ranked_set [of en req w] by (auto simp: local_fallback_set offered_def)
  from reliable_total [OF this, of req "[]" "''no candidates''" w "[]"] obtain w' sunk res where
    "run_reliable (eg_providers en) (if lf then ensure_local_fallback cands else cands) req w = Some (w', sunk, res)"
    unfolding run_reliable_def by (metis not_None_eq prod_cases3)
  then show ?thesis using Inr by (cases res) (simp_all add: complete_inner_def)
qed (simp add: complete_inner_def)

lemma modal_total:
  "\<forall>c\<in>set cands. f (cd_provider_idx c) \<noteq> None \<Longrightarrow> modal_loop f cands fallbacks err w \<noteq> None"
  by (induction cands arbitrary: fallbacks err w) (auto split: prod.splits sum.splits option.splits)

lemma modal_candidates:
  assumes "and_then (select_candidates_for modality reg role dims) (\<lambda>cands. apply_budget_for cands est mx) = Inr cands"
  shows "set cands = {c \<in> set reg. modal_ok modality dims (cd_card c) \<and> affordable mx est (cd_card c)}"
  using assms
  by (auto simp: select_candidates_for_def apply_budget_for_def affordable_def Let_def and_then_Inr_iff split: if_splits)

lemma engine_embed_total: "engine_embed ps req lg w \<noteq> None"
proof (cases "and_then (select_candidates_for MEmbedding (embed_indexed ps w) (mq_role req) 0)
             (\<lambda>cands. apply_budget_for cands (est_batch_tokens (mq_inputs req)) (mq_max_cost_micros req))")
  case (Inr cands)
  then have "\<forall>c\<in>set cands. cd_provider_idx c < length ps"
    using modal_candidates [OF Inr] indexed_in_range(2) by auto
  with modal_total [of cands "\<lambda>i. if i < length ps then Some (\<lambda>w model. ep_embed (ps ! i) w model req) else None"] Inr
  show ?thesis by (auto simp: engine_embed_def Let_def split: option.splits sum.splits)
qed (simp add: engine_embed_def)

lemma engine_rerank_total: "engine_rerank ps req lg w \<noteq> None"
proof (cases "and_then (select_candidates_for MRerank (rerank_indexed ps w) (mr_role req) 0)
             (\<lambda>cands. apply_budget_for cands
                (saturating_add (est_batch_tokens (mr_documents req)) (of_nat (length (mr_query req) div 4 + 1)))
                (mr_max_cost_micros req))")
  case (Inr cands)
  then have "\<forall>c\<in>set cands. cd_provider_idx c < length ps"
    using modal_candidates [OF Inr] indexed_in_range(3) by auto
  with modal_total [of cands "\<lambda>i. if i < length ps then Some (\<lambda>w model. rp_rerank (ps ! i) w model req) else None"] Inr
  show ?thesis by (auto simp: engine_rerank_def Let_def split: option.splits sum.splits)
qed (simp add: engine_rerank_def)

lemma serve_one_total: "serve_one ft mm q w out \<noteq> None"
proof (cases q)
  case (Complete c)
  then show ?thesis
    using complete_inner_total [of "mm_completion mm" c False w]
    by (auto simp: engine_complete_def Let_def split: option.splits)
next
  case (Embed e)
  then show ?thesis by (auto split: option.splits sum.splits elim!: notE [OF engine_embed_total])
next
  case (Rerank r)
  then show ?thesis by (auto split: option.splits sum.splits elim!: notE [OF engine_rerank_total])
qed simp

section \<open>Serving\<close>

lemma write_response_whole:
  "w_broken out = None \<Longrightarrow> write_response ft out m = Inr (out\<lparr>w_sent := w_sent out @ wire ft [m]\<rparr>)"
  by (simp add: write_response_def write_line_def wire_def)

lemma wire_append [simp]: "wire ft (a @ b) = wire ft a @ wire ft b"
  by (simp add: wire_def)

lemma wire_Nil [simp]: "wire ft [] = []"
  by (simp add: wire_def)

lemma write_chunks_whole:
  "w_broken out = None \<Longrightarrow> foldl (write_chunk ft) out ts =
     out\<lparr>w_sent := w_sent out @ wire ft (map (\<lambda>t. Chunk (truncated t MAX_TEXT_BYTES)) ts)\<rparr>"
  by (induction ts arbitrary: out) (simp_all add: write_chunk_def write_response_whole wire_def)

lemma write_all_whole:
  "w_broken out = None \<Longrightarrow> write_all_responses ft out ms = Inr (out\<lparr>w_sent := w_sent out @ wire ft ms\<rparr>)"
  by (induction ms arbitrary: out) (simp_all add: write_response_whole wire_def)

lemma serve_single:
  assumes "request_ok q" "length (encode_request q) \<le> MAX_LINE_BYTES"
    and "blocks r" "stream r = as_bytes (encode_request q) @ [LF]"
    and "serve_one ft mm (as_read q) w out = Some (mm', w', Inr out')"
  shows "\<exists>r'. serve ft mm r w out = Some (mm', r', w', out', Inr ())"
proof -
  obtain r' where r': "read_request r = (r', Inr (Some (as_read q)))" "blocks r'" "stream r' = []"
    using read_request_written [OF assms(1-3), of "[]"] assms(4) by auto
  have "read_request r' = (r', Inr None)" using r'(2,3) by (simp add: read_request_def read_message_end)
  then have "serve ft mm' r' w' out' = Some (mm', r', w', out', Inr ())" by (subst serve.simps) simp
  then show ?thesis using r'(1) assms(5) by (subst serve.simps) simp
qed

section \<open>Untrusted rankings\<close>

lemma sanitize_loop_props:
  "length seen = docs \<Longrightarrow>
     (\<forall>(i, x)\<in>set (sanitize_ranking_loop docs given seen). i < docs \<and> \<not> seen ! i \<and> is_finite x)
     \<and> distinct (map fst (sanitize_ranking_loop docs given seen))
     \<and> (\<forall>i<docs. \<not> seen ! i \<longrightarrow> (i \<in> fst ` set (sanitize_ranking_loop docs given seen) \<longleftrightarrow> int i \<in> fst ` set given))"
proof (induction given arbitrary: seen)
  case (Cons p rest)
  obtain idx score where p: "p = (idx, score)" by (cases p)
  let ?i = "nat idx"
  show ?case
  proof (cases "idx < 0 \<or> ?i \<ge> docs \<or> seen ! ?i")
    case True
    then have "sanitize_ranking_loop docs ((idx, score) # rest) seen = sanitize_ranking_loop docs rest seen" by (auto simp: Let_def)
    then show ?thesis using Cons.IH [OF Cons.prems] True by (auto simp: p)
  next
    case False
    let ?l = "sanitize_ranking_loop docs rest (seen[?i := True])"
    have IH: "(\<forall>(i, x)\<in>set ?l. i < docs \<and> \<not> seen[?i := True] ! i \<and> is_finite x)" "distinct (map fst ?l)"
      "\<forall>i<docs. \<not> seen[?i := True] ! i \<longrightarrow> (i \<in> fst ` set ?l \<longleftrightarrow> int i \<in> fst ` set rest)"
      using Cons.IH [of "seen[?i := True]"] Cons.prems by auto
    have e: "sanitize_ranking_loop docs ((idx, score) # rest) seen = (?i, finite_or_zero score) # ?l" using False by (simp add: Let_def)
    have f: "is_finite (finite_or_zero score)" by (simp add: finite_or_zero_def is_finite_def)
    have n: "?i \<notin> fst ` set ?l" using IH(1) False Cons.prems by auto
    have sub: "\<not> seen ! i" if "\<not> seen[?i := True] ! i" for i
      using that False Cons.prems by (cases "i = ?i") simp_all
    have "i \<in> fst ` set ((?i, finite_or_zero score) # ?l) \<longleftrightarrow> int i \<in> fst ` set ((idx, score) # rest)"
      if "i < docs" "\<not> seen ! i" for i
      using that False IH(3) by (cases "i = ?i") auto
    moreover have "\<forall>(j, x)\<in>set ((?i, finite_or_zero score) # ?l). j < docs \<and> \<not> seen ! j \<and> is_finite x"
      using IH(1) sub f False by (auto dest!: bspec)
    ultimately show ?thesis unfolding p e using IH(2) n by simp
  qed
qed simp

section \<open>Properties\<close>

text \<open>
  Two providers for the examples: a remote one that is down and counts the calls it gets, and a local
  one that answers.
\<close>

definition demo_card :: "string \<Rightarrow> u32 \<Rightarrow> bool \<Rightarrow> ModelCard" where
  "demo_card model context is_local =
     \<lparr>mc_model = model, mc_healthy = True, mc_context = context, mc_tools = True, mc_structured = True, mc_streaming = True,
      mc_cost_per_1k_micros = 0, mc_local = is_local, mc_embeddings = False, mc_rerank = False, mc_embedding_dims = 0\<rparr>"

definition demo_engine :: "nat Engine" where
  "demo_engine = Engine_new
     [\<lparr>pv_id = ''cloud'', pv_probe = (\<lambda>_. [demo_card ''big'' 9000 False]),
       pv_complete = (\<lambda>n _ _. (Suc n, [], Inl (Unavailable ''down'')))\<rparr>,
      \<lparr>pv_id = ''desk'', pv_probe = (\<lambda>_. [demo_card ''small'' 4000 True]),
       pv_complete = (\<lambda>n _ _. (n, [''hi''], Inr \<lparr>co_text = ''hi'',
          co_usage = \<lparr>us_input_tokens = 1, us_output_tokens = 1, us_cost_micros = 0\<rparr>\<rparr>))\<rparr>]"

definition open_request :: CompleteRequest where
  "open_request = demo_request\<lparr>cq_require := \<lparr>rq_tools = True, rq_min_context = 100, rq_local_only = False\<rparr>\<rparr>"

definition demo_answer :: "string list \<Rightarrow> FinalResult" where
  "demo_answer fallbacks = \<lparr>fi_text = BoundedText ''hi'', fi_provider = ''desk'', fi_model = ''small'',
     fi_usage = \<lparr>us_input_tokens = 1, us_output_tokens = 1, us_cost_micros = 0\<rparr>, fi_fallbacks = fallbacks\<rparr>"

lemmas demo_routing =
  complete_inner_def registry_indexed_def demo_engine_def Engine_new_def demo_card_def open_request_def demo_request_def
  select_candidates_def satisfies_def apply_budget_def run_reliable_def demo_answer_def Let_def truncated_def
  MAX_TEXT_BYTES_def

lemma demo_local_run:
  "complete_inner demo_engine demo_request False n =
     Some (demo_engine\<lparr>eg_ledger := account BudgetLedger_default \<lparr>us_input_tokens = 1, us_output_tokens = 1, us_cost_micros = 0\<rparr> 0\<rparr>,
       n, [''hi''], Inr (demo_answer []))"
  by (simp add: demo_routing)

lemma demo_open_run:
  "complete_inner demo_engine open_request False n =
     Some (demo_engine\<lparr>eg_ledger := account BudgetLedger_default \<lparr>us_input_tokens = 1, us_output_tokens = 1, us_cost_micros = 0\<rparr> 1\<rparr>,
       Suc n, [''hi''], Inr (demo_answer [''cloud'']))"
  by (simp add: demo_routing)

text \<open>
  C36. Routing keeps to the request. A completion contacts no model but those that a provider offers,
  that are healthy and satisfy the hard constraints of the request (tools, context, local only),
  and whose estimated cost is within its ceiling: whatever holds of the world and is kept by calls to
  such models holds after the run, whether it succeeds or fails. A result names such a model. With
  and without the local fallback.
\<close>

theorem routing_confined:
  assumes run: "complete_inner en req lf w = Some (en', w', sunk, res)" and w: "I w"
    and keeps: "\<And>w0 c. offered en w c \<Longrightarrow> admissible req (cd_card c) \<Longrightarrow> I w0 \<Longrightarrow>
      I (fst (pv_complete (eg_providers en ! cd_provider_idx c) w0 (mc_model (cd_card c)) req))"
  shows "I w' \<and> (case res of Inl _ \<Rightarrow> True | Inr fin \<Rightarrow>
    (\<exists>c. offered en w c \<and> admissible req (cd_card c) \<and> fi_provider fin = cd_provider_id c \<and> fi_model fin = mc_model (cd_card c)))"
  using run
proof (cases rule: complete_inner_reliable)
  case 2
  then have loop: "run_reliable_loop (eg_providers en) req (tried en req lf w) [] ''no candidates'' w [] = Some (w', sunk, res)"
    by (simp add: run_reliable_def)
  have "I w'"
    by (rule reliable_keeps [where I = I, OF _ loop w]) (simp add: call_def tried_set keeps)
  moreover have "\<exists>c. offered en w c \<and> admissible req (cd_card c) \<and> fi_provider fin = cd_provider_id c \<and> fi_model fin = mc_model (cd_card c)"
    if "res = Inr fin" for fin
  proof -
    note loop' = loop [unfolded that]
    obtain k where "k < length (tried en req lf w)" "fi_provider fin = cd_provider_id (tried en req lf w ! k)"
      "fi_model fin = mc_model (cd_card (tried en req lf w ! k))"
      using loop' by (rule reliable_success) simp
    then show ?thesis using nth_mem [of k "tried en req lf w"] unfolding tried_set by blast
  qed
  ultimately show ?thesis by (simp split: sum.splits)
qed (use w in simp)

theorem routing_confined_witness:
  "\<exists>en' sunk res. complete_inner demo_engine demo_request False 0 = Some (en', 0, sunk, res)"
proof -
  obtain en' w' sunk res where run: "complete_inner demo_engine demo_request False (0 :: nat) = Some (en', w', sunk, res)"
    using demo_local_run by blast
  have keeps: "fst (pv_complete (eg_providers demo_engine ! cd_provider_idx c) w0 (mc_model (cd_card c)) demo_request) = 0"
    if "offered demo_engine 0 c" "admissible demo_request (cd_card c)" "w0 = 0" for w0 c
  proof -
    have "cd_provider_idx c = 1"
    proof (rule ccontr)
      assume "cd_provider_idx c \<noteq> 1"
      then have "cd_provider_idx c = 0"
        using that(1) by (auto simp: offered_def demo_engine_def Engine_new_def)
      then have "cd_card c = demo_card ''big'' 9000 False"
        using that(1) by (simp add: offered_def demo_engine_def Engine_new_def)
      then show False using that(2) by (simp add: admissible_def satisfies_def demo_request_def demo_card_def)
    qed
    then show ?thesis using that(3) by (simp add: demo_engine_def Engine_new_def)
  qed
  have "w' = 0"
    by (rule conjunct1 [OF routing_confined [where I = "\<lambda>n. n = 0", OF run refl]]) (rule keeps)
  with run show ?thesis by blast
qed

text \<open>
  Fallback follows the order of the role. When a completion succeeds, the models before the one that
  answered were all tried, in order, and failed; the result lists exactly their providers, has the
  answer's text cut to its cap, and the ledger counts the request, its usage and these fallbacks.
  The order puts the preferred model of the role first and, with the local fallback, no remote model
  behind a local one.
\<close>

theorem fallback_in_order:
  assumes "complete_inner en req lf w = Some (en', w', sunk, Inr fin)"
  shows "\<exists>k w1 chunks c. k < length (tried en req lf w)
      \<and> calls_fail (eg_providers en) req w (take k (tried en req lf w)) w1
      \<and> call (eg_providers en) req w1 (tried en req lf w ! k) = (w', chunks, Inr c)
      \<and> fin = \<lparr>fi_text = truncated (co_text c) MAX_TEXT_BYTES, fi_provider = cd_provider_id (tried en req lf w ! k),
              fi_model = mc_model (cd_card (tried en req lf w ! k)), fi_usage = co_usage c,
              fi_fallbacks = map cd_provider_id (take k (tried en req lf w))\<rparr>
      \<and> en' = en\<lparr>eg_ledger := account (eg_ledger en) (co_usage c) k\<rparr>
      \<and> sorted_wrt (\<lambda>a b. if lf then mc_local (cd_card b) \<or> \<not> mc_local (cd_card a)
           else prefers (cq_role req) (cd_card a) (cd_card b)) (tried en req lf w)"
proof -
  let ?t = "tried en req lf w"
  have s: "sorted_wrt (\<lambda>a b. if lf then mc_local (cd_card b) \<or> \<not> mc_local (cd_card a)
      else prefers (cq_role req) (cd_card a) (cd_card b)) ?t"
    using local_last [of "ranked en req w"] ranked_sorted [of req en w] by (simp add: tried_def disj_commute imp_conv_disj)
  have "\<exists>k w1 chunks c. k < length ?t \<and> calls_fail (eg_providers en) req w (take k ?t) w1
      \<and> call (eg_providers en) req w1 (?t ! k) = (w', chunks, Inr c)
      \<and> fin = \<lparr>fi_text = truncated (co_text c) MAX_TEXT_BYTES, fi_provider = cd_provider_id (?t ! k),
              fi_model = mc_model (cd_card (?t ! k)), fi_usage = co_usage c,
              fi_fallbacks = map cd_provider_id (take k ?t)\<rparr>
      \<and> en' = en\<lparr>eg_ledger := account (eg_ledger en) (co_usage c) k\<rparr>"
    using assms
  proof (cases rule: complete_inner_reliable)
    case 2
    then have "run_reliable_loop (eg_providers en) req ?t [] ''no candidates'' w [] = Some (w', sunk, Inr fin)"
      by (simp add: run_reliable_def)
    then obtain k w1 chunks c where k: "k < length ?t" "calls_fail (eg_providers en) req w (take k ?t) w1"
      "call (eg_providers en) req w1 (?t ! k) = (w', chunks, Inr c)"
      "fin = \<lparr>fi_text = truncated (co_text c) MAX_TEXT_BYTES, fi_provider = cd_provider_id (?t ! k),
              fi_model = mc_model (cd_card (?t ! k)), fi_usage = co_usage c,
              fi_fallbacks = [] @ map cd_provider_id (take k ?t)\<rparr>"
      by (rule reliable_success)
    then have "en' = en\<lparr>eg_ledger := account (eg_ledger en) (co_usage c) k\<rparr>" using 2(2) by (simp add: min_def)
    with k show ?thesis by (intro exI [of _ k] exI [of _ w1] exI [of _ chunks] exI [of _ c]) simp
  qed simp
  with s show ?thesis by blast
qed

theorem fallback_in_order_witness:
  "\<exists>k. [''cloud''] = map cd_provider_id (take k (tried demo_engine open_request False (0 :: nat)))
     \<and> k < length (tried demo_engine open_request False (0 :: nat))"
proof -
  let ?t = "tried demo_engine open_request False (0 :: nat)"
  obtain k u where "k < length ?t" "demo_answer [''cloud''] = \<lparr>fi_text = fst u, fi_provider = cd_provider_id (?t ! k),
      fi_model = mc_model (cd_card (?t ! k)), fi_usage = snd u, fi_fallbacks = map cd_provider_id (take k ?t)\<rparr>"
    using fallback_in_order [OF demo_open_run [of 0]] by (metis fst_conv snd_conv)
  then show ?thesis using arg_cong [of _ _ fi_fallbacks] by (fastforce simp: demo_answer_def)
qed

text \<open>
  The sidecar does not panic: on every input, every sequence of requests and every behaviour of the
  providers, serving ends with a result; no index of a candidate is out of range.
\<close>

theorem serve_never_panics: "serve ft mm r w out \<noteq> None"
proof (induction ft mm r w out rule: serve.induct)
  case (1 ft mm r w out)
  show ?case
  proof (cases "\<exists>r' q mm' w' out'. read_request r = (r', Inr (Some q)) \<and> serve_one ft mm q w out = Some (mm', w', Inr out')")
    case True
    then obtain r' q mm' w' out' where s: "read_request r = (r', Inr (Some q))" "serve_one ft mm q w out = Some (mm', w', Inr out')"
      by blast
    then have "serve ft mm r w out = serve ft mm' r' w' out'" by (subst serve.simps) simp
    then show ?thesis using "1.IH" [OF s(1) [symmetric] refl refl s(2) refl refl refl] by simp
  next
    case False
    then show ?thesis
      by (subst serve.simps) (auto split: prod.splits sum.splits option.splits elim!: notE [OF serve_one_total])
  qed
qed

text \<open>
  The sidecar and its client compose. The client writes a well-formed completion request; the sidecar
  reads it in any blocks, runs it on its engine and ends; and the client, reading what the sidecar
  wrote in any blocks, hands over exactly the chunks the providers streamed (each cut to its cap;
  none when the request is not streamed) and returns the result of the engine, or its error as a
  reason, if these fit the line cap and 8 MiB in all.
\<close>

theorem served_completion:
  assumes ft: "float_exact ft" and ok: "request_ok (Complete req)" "length (encode_request (Complete req)) \<le> MAX_LINE_BYTES"
    and en: "engine_complete (mm_completion mm) req w = Some (en', w', sunk, res)"
    and ts: "ts = (if cq_stream req then map (\<lambda>t. truncated t MAX_TEXT_BYTES) sunk else [])"
    and fits: "list_all (response_fits ft) (map Chunk ts)" "sum_list (map BoundedText_len ts) \<le> MAX_STREAM_BYTES"
      "response_fits ft (case res of Inr fin \<Rightarrow> RFinal fin | Inl e \<Rightarrow> RError (route_reason e))"
    and r: "blocks r" "stream r = as_bytes (encode_request (Complete req)) @ [LF]"
    and idle: "w_broken out = None" "w_sent out = []" "w_broken cw = None" "w_sent cw = []"
  shows "\<exists>r' out'. serve ft mm r w out = Some (mm\<lparr>mm_completion := en'\<rparr>, r', w', out', Inr ())
    \<and> (\<forall>cr. blocks cr \<and> stream cr = w_sent out' \<longrightarrow>
         (\<exists>h'. complete ft \<lparr>nh_w = cw, nh_r = cr\<rparr> req =
             (h', map as_str ts, (case res of Inr fin \<Rightarrow> Inr fin | Inl e \<Rightarrow> Inl (Decode (route_reason e))))
           \<and> w_sent (nh_w h') = stream r))"
proof -
  let ?m = "case res of Inr fin \<Rightarrow> RFinal fin | Inl e \<Rightarrow> RError (route_reason e)"
  let ?out = "out\<lparr>w_sent := wire ft (map Chunk ts @ [?m])\<rparr>"
  have "(if cq_stream req then foldl (write_chunk ft) out sunk else out) = out\<lparr>w_sent := wire ft (map Chunk ts)\<rparr>"
    using idle by (cases out) (simp add: ts write_chunks_whole comp_def)
  then have "serve_one ft mm (as_read (Complete req)) w out = Some (mm\<lparr>mm_completion := en'\<rparr>, w', Inr ?out)"
    using en idle by (simp add: write_response_whole Let_def del: map_map)
  from serve_single [OF ok r this]
  obtain r' where "serve ft mm r w out = Some (mm\<lparr>mm_completion := en'\<rparr>, r', w', ?out, Inr ())" by blast
  moreover have "\<exists>h'. complete ft \<lparr>nh_w = cw, nh_r = cr\<rparr> req =
      (h', map as_str ts, (case res of Inr fin \<Rightarrow> Inr fin | Inl e \<Rightarrow> Inl (Decode (route_reason e))))
      \<and> w_sent (nh_w h') = stream r" if "blocks cr" "stream cr = wire ft (map Chunk ts @ [?m])" for cr
  proof -
    have "reply_result ?m = Some (case res of Inr fin \<Rightarrow> Inr fin | Inl e \<Rightarrow> Inl (Decode (route_reason e)))"
      by (cases res) simp_all
    from complete_loop_chunks [OF ft fits(1,3) this that(1), of "[]" 0 "[]"] that(2) fits(2) idle r(2)
    show ?thesis by (auto simp: complete_def write_request_def write_line_def streamed_len_def)
  qed
  ultimately show ?thesis by (intro exI [of _ r'] exI [of _ ?out]) simp
qed

theorem served_completion_witness:
  "\<exists>mm' r' w' out'. serve demo_float (completion_only demo_engine) [Inr (as_bytes (encode_request (Complete demo_request)) @ [LF])] 0
       \<lparr>w_sent = [], w_broken = None\<rparr> = Some (mm', r', w', out', Inr ())
     \<and> fst (snd (complete demo_float \<lparr>nh_w = \<lparr>w_sent = [], w_broken = None\<rparr>, nh_r = map (\<lambda>b. Inr [b]) (w_sent out')\<rparr> demo_request)) = [''hi'']"
proof -
  have f: "response_fits demo_float (Chunk (BoundedText ''hi''))" "response_fits demo_float (RFinal (demo_answer []))"
    by (simp_all add: response_fits_def encode_response_def usage_fields_def demo_answer_def encode_fields_Cons member_text_def
        encode_str_def encode_char_def Let_def utf8_char_def MAX_LINE_BYTES_def text_ok_def MAX_TEXT_BYTES_def
        valid_text_ascii ascii_def fallbacks_ok_def cost_ok_def I64_MAX_def show_int_def show_nat.simps)
  have t: "[BoundedText ''hi''] = (if cq_stream demo_request then map (\<lambda>t. truncated t MAX_TEXT_BYTES) [''hi''] else [])"
    by (simp add: demo_request_def truncated_def MAX_TEXT_BYTES_def)
  note s = served_completion [where mm = "completion_only demo_engine" and w = "0 :: nat"
      and out = "\<lparr>w_sent = [], w_broken = None\<rparr>" and cw = "\<lparr>w_sent = [], w_broken = None\<rparr>"
      and r = "[Inr (as_bytes (encode_request (Complete demo_request)) @ [LF])]",
      OF demo_float_exact demo_request_ok _ t]
  obtain r' w' out' en' where o: "serve demo_float (completion_only demo_engine) [Inr (as_bytes (encode_request (Complete demo_request)) @ [LF])] 0
       \<lparr>w_sent = [], w_broken = None\<rparr> = Some ((completion_only demo_engine)\<lparr>mm_completion := en'\<rparr>, r', w', out', Inr ())"
    and c: "\<And>cr. blocks cr \<Longrightarrow> stream cr = w_sent out' \<Longrightarrow>
      fst (snd (complete demo_float \<lparr>nh_w = \<lparr>w_sent = [], w_broken = None\<rparr>, nh_r = cr\<rparr> demo_request)) = [''hi'']"
    using s [of _ _ "Inr (demo_answer [])"] f demo_local_run [of 0]
    by (fastforce simp: completion_only_def engine_complete_def BoundedText_len_def MAX_STREAM_BYTES_def)
  have "blocks (map (\<lambda>b. Inr [b]) bs)" "stream (map (\<lambda>b. Inr [b]) bs) = bs" for bs
    by (induction bs) simp_all
  then show ?thesis using o c by blast
qed

text \<open>
  A ranking from a provider is never trusted. Whatever pairs it sends, the sanitized ranking has each
  document at most once, only documents of the request, exactly those that are named by the first
  4096 pairs, with finite scores in descending order.
\<close>

theorem ranking_sanitized:
  "(\<forall>(i, x)\<in>set (sanitize_ranking given docs). i < docs \<and> is_finite x)
   \<and> distinct (map fst (sanitize_ranking given docs))
   \<and> fst ` set (sanitize_ranking given docs) = {i. i < docs \<and> int i \<in> fst ` set (take MAX_DOCS given)}
   \<and> sorted_wrt (\<lambda>p q. f32_key (snd q) \<le> f32_key (snd p)) (sanitize_ranking given docs)"
proof -
  let ?l = "sanitize_ranking_loop docs (take MAX_DOCS given) (replicate docs False)"
  have p: "\<forall>(i, x)\<in>set ?l. i < docs \<and> is_finite x" "distinct (map fst ?l)"
    "\<forall>i<docs. i \<in> fst ` set ?l \<longleftrightarrow> int i \<in> fst ` set (take MAX_DOCS given)"
    using sanitize_loop_props [of "replicate docs False" docs "take MAX_DOCS given"] by auto
  have d: "distinct (map fst (sanitize_ranking given docs))"
    using p(2) by (simp add: sanitize_ranking_def distinct_map distinct_sort)
  have "fst ` set ?l = {i. i < docs \<and> int i \<in> fst ` set (take MAX_DOCS given)}"
    using p(1,3) by (auto 4 4 dest: bspec)
  moreover have "sorted_wrt (\<lambda>p q. f32_key (snd q) \<le> f32_key (snd p)) (sanitize_ranking given docs)"
    unfolding sanitize_ranking_def by (rule sorted_by_key) simp
  ultimately show ?thesis using p(1) d by (simp add: sanitize_ranking_def)
qed

end
