(* ===== verification/Session.thy ===== *)
theory Session
  imports EventLog Receipts Worker
begin

text \<open>
  Sessions (\<^verbatim>\<open>crates/crustcore-session\<close>): views over the event log, redacted snapshots, resumption after
  verification, the lease status derived from the log, bounded artifact reads and the compaction of
  history. A view borrows the log and decodes it anew at every read: here it holds the log's value.
\<close>

section \<open>Identity and views (id.rs, view.rs)\<close>

datatype SessionId = SessionId (session_task: TaskId)

datatype ConversationId = ConversationId u128

definition for_session :: "SessionId \<Rightarrow> ConversationId" where
  "for_session s = ConversationId (task_no (session_task s))"

record SeqRange =
  sq_start :: "EventSeq option"
  sq_end :: "EventSeq option"

definition SeqRange_all :: SeqRange where
  "SeqRange_all = \<lparr>sq_start = None, sq_end = None\<rparr>"

definition up_to :: "EventSeq \<Rightarrow> SeqRange" where
  "up_to seq = \<lparr>sq_start = None, sq_end = Some seq\<rparr>"

definition range_contains :: "SeqRange \<Rightarrow> EventSeq \<Rightarrow> bool" where
  "range_contains r seq =
     ((case sq_start r of None \<Rightarrow> True | Some s \<Rightarrow> seq_no seq \<ge> seq_no s)
      \<and> (case sq_end r of None \<Rightarrow> True | Some e \<Rightarrow> seq_no seq \<le> seq_no e))"

record SessionView =
  sv_log :: EventLog
  sv_session :: SessionId
  sv_job :: "JobId option"
  sv_range :: SeqRange

definition SessionView_new :: "EventLog \<Rightarrow> SessionId \<Rightarrow> SessionView" where
  "SessionView_new log session = \<lparr>sv_log = log, sv_session = session, sv_job = None, sv_range = SeqRange_all\<rparr>"

definition view_with_job :: "SessionView \<Rightarrow> JobId \<Rightarrow> SessionView" where
  "view_with_job v job = v\<lparr>sv_job := Some job\<rparr>"

definition with_range :: "SessionView \<Rightarrow> SeqRange \<Rightarrow> SessionView" where
  "with_range v r = v\<lparr>sv_range := r\<rparr>"

definition selects :: "SessionView \<Rightarrow> EventFrame \<Rightarrow> bool" where
  "selects v f =
     (fm_task_id f = Some (session_task (sv_session v))
      \<and> (case sv_job v of None \<Rightarrow> True | Some j \<Rightarrow> fm_job_id f = Some j)
      \<and> range_contains (sv_range v) (fm_seq f))"

definition log_iter :: "EventLog \<Rightarrow> (EventFrame \<times> bytes) list" where
  "log_iter log = frame_iter (el_bytes log) 0"

definition view_frames :: "SessionView \<Rightarrow> (EventFrame \<times> bytes) list" where
  "view_frames v = filter (\<lambda>d. selects v (fst d)) (log_iter (sv_log v))"

definition frame_count :: "SessionView \<Rightarrow> u64" where
  "frame_count v = of_nat (length (view_frames v))"

text \<open>\<^verbatim>\<open>max_by_key\<close> keeps the later of two equal maxima; with equal keys they are the same number.\<close>

definition head_seq :: "SessionView \<Rightarrow> EventSeq option" where
  "head_seq v = foldl (\<lambda>m d. case m of None \<Rightarrow> Some (fm_seq (fst d))
       | Some s \<Rightarrow> Some (if seq_no s \<le> seq_no (fm_seq (fst d)) then fm_seq (fst d) else s)) None (view_frames v)"

definition frame_refs :: "EventLog \<Rightarrow> FrameRef list" where
  "frame_refs log =
     map (\<lambda>d. \<lparr>fr_seq = fm_seq (fst d), fr_tool_completed = (fm_kind (fst d) = ToolCallCompleted),
               fr_task_id = fm_task_id (fst d), fr_job_id = fm_job_id (fst d)\<rparr>) (log_iter log)"

definition is_turn_kind :: "EventKind \<Rightarrow> bool" where
  "is_turn_kind k = (k \<in> {UserMessageQueued, UserSteerReceived, ModelOutputReceived, ToolCallCompleted})"

definition conversation_turns :: "SessionView \<Rightarrow> (EventFrame \<times> bytes) list" where
  "conversation_turns v = filter (\<lambda>d. is_turn_kind (fm_kind (fst d))) (view_frames v)"

section \<open>Artifacts (artifact.rs)\<close>

definition MAX_ARTIFACT_BYTES :: nat where
  "MAX_ARTIFACT_BYTES = 64 * 1024"

datatype ArtifactHandle = ArtifactHandle (handle_id: ArtifactId)

definition handle_hex :: "ArtifactHandle \<Rightarrow> string" where
  "handle_hex h = concat (map hex_byte (artifact_bytes (handle_id h)))"

text \<open>The content-addressed store is the caller's: a parameter.\<close>

definition artifact_exists :: "(ArtifactHandle \<Rightarrow> bytes option) \<Rightarrow> ArtifactHandle \<Rightarrow> bool" where
  "artifact_exists resolve h = (resolve h \<noteq> None)"

definition read_bounded :: "(ArtifactHandle \<Rightarrow> bytes option) \<Rightarrow> ArtifactHandle \<Rightarrow> bytes option" where
  "read_bounded resolve h = map_option (take MAX_ARTIFACT_BYTES) (resolve h)"

section \<open>Leases (lease.rs)\<close>

datatype CancellationState = Live | Killed | Failed

datatype LeaseStatus = Unleased | Leased JobId LeaseOwner EventSeq

record LeaseView =
  lv_lease :: LeaseStatus
  lv_cancellation :: CancellationState
  lv_terminal_seq :: "EventSeq option"

definition frame_lease_owner :: "EventFrame \<times> bytes \<Rightarrow> LeaseOwner option" where
  "frame_lease_owner d =
     (if fm_kind (fst d) \<noteq> JobLeased then None
      else if length (snd d) < 8 then None
      else Some (LeaseOwner (from_le (take 8 (snd d)))))"

fun encode_lease_payload :: "LeaseOwner \<Rightarrow> bytes" where
  "encode_lease_payload (LeaseOwner w) = to_le 8 w"

definition note_lease :: "LeaseView \<Rightarrow> EventFrame \<times> bytes \<Rightarrow> LeaseView" where
  "note_lease lv d =
     (if fm_kind (fst d) = JobLeased
      then (case (fm_job_id (fst d), frame_lease_owner d) of
              (Some job, Some owner) \<Rightarrow> lv\<lparr>lv_lease := Leased job owner (fm_seq (fst d))\<rparr>
            | _ \<Rightarrow> lv)
      else if fm_kind (fst d) = TaskKilled \<and> lv_cancellation lv = Live
      then lv\<lparr>lv_cancellation := Killed, lv_terminal_seq := Some (fm_seq (fst d))\<rparr>
      else if fm_kind (fst d) = TaskFailed \<and> lv_cancellation lv = Live
      then lv\<lparr>lv_cancellation := Failed, lv_terminal_seq := Some (fm_seq (fst d))\<rparr>
      else lv)"

definition LeaseView_derive :: "SessionView \<Rightarrow> LeaseView" where
  "LeaseView_derive v =
     foldl note_lease \<lparr>lv_lease = Unleased, lv_cancellation = Live, lv_terminal_seq = None\<rparr> (view_frames v)"

definition lease_is_live :: "LeaseView \<Rightarrow> bool" where
  "lease_is_live lv = (lv_cancellation lv = Live)"

definition owned_by :: "LeaseView \<Rightarrow> LeaseOwner \<Rightarrow> bool" where
  "owned_by lv owner = (case lv_lease lv of Leased _ o' _ \<Rightarrow> o' = owner | Unleased \<Rightarrow> False)"

section \<open>Snapshots (snapshot.rs)\<close>

datatype TurnKind = UserTurn | ModelTurn | ToolTurn

fun turn_from_event :: "EventKind \<Rightarrow> TurnKind option" where
  "turn_from_event UserMessageQueued = Some UserTurn"
| "turn_from_event UserSteerReceived = Some UserTurn"
| "turn_from_event ModelOutputReceived = Some ModelTurn"
| "turn_from_event ToolCallCompleted = Some ToolTurn"
| "turn_from_event _ = None"

record Turn =
  tn_seq :: EventSeq
  tn_kind :: TurnKind
  tn_text :: string
  tn_artifacts :: "ArtifactHandle list"

datatype SnapshotError = NoFramesAtOrBelow EventSeq

record Snapshot =
  sn_session :: SessionId
  sn_at_seq :: EventSeq
  sn_head_hash :: bytes
  sn_turns :: "Turn list"

fun note_frame_turn :: "Redactor \<Rightarrow> Turn list \<times> EventSeq option \<Rightarrow> EventFrame \<times> bytes \<Rightarrow> Turn list \<times> EventSeq option" where
  "note_frame_turn redactor (turns, max_seq) (f, payload) =
     (let max_seq = Some (case max_seq of None \<Rightarrow> fm_seq f
                          | Some m \<Rightarrow> if seq_no (fm_seq f) > seq_no m then fm_seq f else m) in
      if fm_visibility f \<noteq> ModelVisible then (turns, max_seq)
      else case turn_from_event (fm_kind f) of
             None \<Rightarrow> (turns, max_seq)
           | Some kind \<Rightarrow>
               (turns @ [\<lparr>tn_seq = fm_seq f, tn_kind = kind, tn_text = redact redactor (utf8_lossy payload),
                          tn_artifacts = []\<rparr>], max_seq))"

definition Snapshot_derive :: "SessionView \<Rightarrow> EventSeq \<Rightarrow> Redactor \<Rightarrow> SnapshotError + Snapshot" where
  "Snapshot_derive v at_seq redactor =
     (case foldl (note_frame_turn redactor) ([], None) (view_frames (with_range v (up_to at_seq))) of
        (turns, None) \<Rightarrow> Inl (NoFramesAtOrBelow at_seq)
      | (turns, Some at) \<Rightarrow>
          Inr \<lparr>sn_session = sv_session v, sn_at_seq = at, sn_head_hash = el_head_hash (sv_log v), sn_turns = turns\<rparr>)"

definition verify_against :: "Snapshot \<Rightarrow> EventLog \<Rightarrow> bool" where
  "verify_against s log = is_intact (verify_to_head log (sn_head_hash s))"

section \<open>Compaction (compact.rs)\<close>

definition MAX_COMPACT_BYTES :: nat where
  "MAX_COMPACT_BYTES = 16 * 1024"

definition MAX_COMPACT_TURNS :: nat where
  "MAX_COMPACT_TURNS = 32"

definition MAX_TURN_BYTES :: nat where
  "MAX_TURN_BYTES = 2 * 1024"

datatype CompactionMode = KeepLastN nat | SummarizeOlder nat | DropBulkToHandles

datatype CompactionPolicy = CompactionPolicy (policy_mode: CompactionMode)

definition CompactionPolicy_default :: CompactionPolicy where
  "CompactionPolicy_default = CompactionPolicy DropBulkToHandles"

definition keep_last_n :: "nat \<Rightarrow> CompactionPolicy" where
  "keep_last_n n = CompactionPolicy (KeepLastN (min n MAX_COMPACT_TURNS))"

definition summarize_older :: "nat \<Rightarrow> CompactionPolicy" where
  "summarize_older n = CompactionPolicy (SummarizeOlder (min n MAX_COMPACT_TURNS))"

definition bound_str :: "string \<Rightarrow> nat \<Rightarrow> string" where
  "bound_str s mx = (if length s \<le> mx then s else take (back_to_boundary s mx) s)"

fun turn_prefix :: "TurnKind \<Rightarrow> string" where
  "turn_prefix UserTurn = ''user''"
| "turn_prefix ModelTurn = ''model''"
| "turn_prefix ToolTurn = ''tool''"

definition render_turn :: "Turn \<Rightarrow> Redactor \<Rightarrow> string" where
  "render_turn t redactor =
     turn_prefix (tn_kind t) @ '': '' @ bound_str (redact redactor (tn_text t)) MAX_TURN_BYTES"

definition count_lines :: "string \<Rightarrow> nat" where
  "count_lines s = (if s = [] then 0 else length (str_lines s))"

record CompactedHistory =
  ch_text :: ModelVisibleText
  ch_retained_turns :: nat
  ch_dropped_artifacts :: nat

definition artifact_total :: "Turn list \<Rightarrow> nat" where
  "artifact_total turns = sum_list (map (\<lambda>t. length (tn_artifacts t)) turns)"

definition keep_lines :: "bool \<Rightarrow> nat \<Rightarrow> Turn list \<Rightarrow> Redactor \<Rightarrow> string list" where
  "keep_lines summarized n turns redactor =
     (let keep_from = length turns - n;
          older = take keep_from turns;
          kept = drop keep_from turns in
      (if older \<noteq> [] \<and> summarized
       then [''[summary: '' @ show_nat (length older) @ '' earlier turn(s) omitted]''] else [])
      @ map (\<lambda>t. render_turn t redactor) kept)"

fun policy_lines :: "CompactionMode \<Rightarrow> Turn list \<Rightarrow> Redactor \<Rightarrow> string list" where
  "policy_lines DropBulkToHandles turns redactor =
     (if turns \<noteq> [] then [''[compacted: '' @ show_nat (length turns) @ '' turn(s) dropped to artifact handles]''] else [])"
| "policy_lines (KeepLastN n) turns redactor = keep_lines False n turns redactor"
| "policy_lines (SummarizeOlder n) turns redactor = keep_lines True n turns redactor"

definition cap_lines :: "string list \<Rightarrow> string list" where
  "cap_lines lines =
     (if length lines > MAX_COMPACT_TURNS
      then let overflow = length lines - MAX_COMPACT_TURNS in
           (take MAX_COMPACT_TURNS lines)[MAX_COMPACT_TURNS - 1 :=
              ''[compacted: '' @ show_nat overflow @ '' further line(s) omitted by turn cap]'']
      else lines)"

definition compact :: "CompactionPolicy \<Rightarrow> Turn list \<Rightarrow> Redactor \<Rightarrow> CompactedHistory" where
  "compact p turns redactor =
     (let joined = join_with [CHR 0x0A] (cap_lines (policy_lines (policy_mode p) turns redactor));
          joined = (if length joined > MAX_COMPACT_BYTES then bound_str joined MAX_COMPACT_BYTES else joined);
          text = to_model_visible redactor joined in
      \<lparr>ch_text = text, ch_retained_turns = count_lines (visible_str text), ch_dropped_artifacts = artifact_total turns\<rparr>)"

section \<open>Resumption (resume.rs)\<close>

datatype ResumeRefused = LogBroken nat BreakReason | ResumeHeadMismatch | ReceiptJoinBroken nat JoinBreak

definition check_join :: "EventLog \<Rightarrow> ToolReceipt list \<Rightarrow> ResumeRefused + unit" where
  "check_join log receipts =
     (case verify_against_log receipts (frame_refs log) of
        Joined _ \<Rightarrow> Inr ()
      | JoinBroken index reason \<Rightarrow> Inl (ReceiptJoinBroken index reason))"

definition log_break :: "nat \<Rightarrow> BreakReason \<Rightarrow> ResumeRefused" where
  "log_break index reason =
     (if reason = HeadMismatch then ResumeHeadMismatch else LogBroken index reason)"

definition resume :: "EventLog \<Rightarrow> SessionId \<Rightarrow> ToolReceipt list \<Rightarrow> ResumeRefused + SessionView" where
  "resume log session receipts =
     and_then (check_join log receipts) (\<lambda>_.
       case verify log of
         ChainStatus.Intact _ \<Rightarrow> Inr (SessionView_new log session)
       | ChainStatus.Broken index reason \<Rightarrow> Inl (log_break index reason))"

definition resume_to_head ::
  "EventLog \<Rightarrow> SessionId \<Rightarrow> ToolReceipt list \<Rightarrow> bytes \<Rightarrow> ResumeRefused + SessionView" where
  "resume_to_head log session receipts expected_head =
     and_then (check_join log receipts) (\<lambda>_.
       case verify_to_head log expected_head of
         ChainStatus.Intact _ \<Rightarrow> Inr (SessionView_new log session)
       | ChainStatus.Broken index reason \<Rightarrow> Inl (log_break index reason))"

section \<open>The facade (service.rs)\<close>

record SessionService =
  ss_log :: EventLog
  ss_redactor :: Redactor

definition service_open :: "SessionService \<Rightarrow> SessionId \<Rightarrow> SessionView" where
  "service_open svc session = SessionView_new (ss_log svc) session"

definition service_list :: "SessionService \<Rightarrow> SessionId list" where
  "service_list svc =
     foldl (\<lambda>seen d. case fm_task_id (fst d) of
              None \<Rightarrow> seen
            | Some tid \<Rightarrow> if SessionId tid \<in> set seen then seen else seen @ [SessionId tid]) [] (log_iter (ss_log svc))"

definition service_snapshot :: "SessionService \<Rightarrow> SessionId \<Rightarrow> EventSeq \<Rightarrow> SnapshotError + Snapshot" where
  "service_snapshot svc session at_seq = Snapshot_derive (service_open svc session) at_seq (ss_redactor svc)"

definition service_resume :: "SessionService \<Rightarrow> SessionId \<Rightarrow> ToolReceipt list \<Rightarrow> ResumeRefused + SessionView" where
  "service_resume svc session receipts = resume (ss_log svc) session receipts"

definition service_resume_to_head ::
  "SessionService \<Rightarrow> SessionId \<Rightarrow> ToolReceipt list \<Rightarrow> bytes \<Rightarrow> ResumeRefused + SessionView" where
  "service_resume_to_head svc session receipts expected_head = resume_to_head (ss_log svc) session receipts expected_head"

definition service_lease :: "SessionService \<Rightarrow> SessionId \<Rightarrow> LeaseView" where
  "service_lease svc session = LeaseView_derive (service_open svc session)"

definition service_compact :: "SessionService \<Rightarrow> SessionId \<Rightarrow> CompactionPolicy \<Rightarrow> CompactedHistory" where
  "service_compact svc session policy =
     (let view = service_open svc session in
      case head_seq view of
        Some head \<Rightarrow>
          (case Snapshot_derive view head (ss_redactor svc) of
             Inr snap \<Rightarrow> compact policy (sn_turns snap) (ss_redactor svc)
           | Inl _ \<Rightarrow> compact policy [] (ss_redactor svc))
      | None \<Rightarrow> compact policy [] (ss_redactor svc))"

end
