(* ===== verification/Session_Props.thy ===== *)
theory Session_Props
  imports Session EventLog_Props Receipts_Props Redactor_Props
begin

text \<open>
  A session sees the verified log: resumption succeeds exactly on a log that verifies to the stored head
  and backs every receipt, and then the view shows the frames of the chain; snapshots carry only
  visible turns; the lease status follows the log; compacted history is bounded.
\<close>

section \<open>Views of a verified log\<close>

lemma log_iter_walk:
  assumes "length (el_bytes log) \<le> usize_max" "walk log = (fs, ChainStatus.Intact n)"
  shows "log_iter log = fs"
proof -
  note i = walk_intact_iff [OF assms(1), THEN iffD1, OF assms(2)]
  have "\<forall>x\<in>set fs. frame_wf x" using i chained_ok by (fastforce simp: frame_ok_def)
  then show ?thesis
    unfolding log_iter_def using i assms(1) by (intro frame_iter_complete) auto
qed

lemma seqs_from_above: "seqs_from (Some s) fs \<Longrightarrow> d \<in> set fs \<Longrightarrow> s < seq_no (fm_seq (fst d))"
  by (induction fs arbitrary: s) (auto intro: less_trans)

lemma seqs_from_distinct: "seqs_from l fs \<Longrightarrow> distinct (map (\<lambda>d. fm_seq (fst d)) fs)"
proof (induction fs arbitrary: l)
  case (Cons d fs)
  have "fm_seq (fst d) \<notin> (\<lambda>d. fm_seq (fst d)) ` set fs"
    using Cons.prems seqs_from_above [of "seq_no (fm_seq (fst d))" fs] by fastforce
  then show ?case using Cons.prems Cons.IH by auto
qed simp

text \<open>In a chain with increasing sequence numbers, a receipt is backed when some frame matches it.\<close>

definition frame_backs :: "EventFrame \<times> bytes \<Rightarrow> ToolReceipt \<Rightarrow> bool" where
  "frame_backs d r = (fm_seq (fst d) = tr_event_seq r \<and> fm_kind (fst d) = ToolCallCompleted
     \<and> fm_task_id (fst d) = Some (tr_task_id r) \<and> fm_job_id (fst d) = Some (tr_job_id r))"

lemma find_distinct_key:
  "distinct (map g xs) \<Longrightarrow> find (\<lambda>x. g x = k) xs = Some x \<longleftrightarrow> x \<in> set xs \<and> g x = k"
  by (induction xs) auto

lemma find_map_key: "find (\<lambda>y. p y) (map f xs) = map_option f (find (\<lambda>x. p (f x)) xs)"
  by (induction xs) simp_all

lemma backed_frames:
  assumes "log_iter log = fs" "seqs_from None fs"
  shows "backed (frame_refs log) r \<longleftrightarrow> (\<exists>d\<in>set fs. frame_backs d r)"
proof -
  note f = find_distinct_key [OF seqs_from_distinct [OF assms(2)], of "tr_event_seq r"]
  have "backed (frame_refs log) r \<longleftrightarrow>
      (\<exists>d. find (\<lambda>d. fm_seq (fst d) = tr_event_seq r) fs = Some d \<and> frame_backs d r)"
  proof (cases "find (\<lambda>d. fm_seq (fst d) = tr_event_seq r) fs")
    case (Some d)
    then show ?thesis using f [of d] by (simp add: backed_def frame_refs_def assms(1) find_map_key frame_backs_def)
  qed (simp add: backed_def frame_refs_def assms(1) find_map_key)
  then show ?thesis unfolding f using frame_backs_def by blast
qed

lemma view_frames_all:
  "view_frames (SessionView_new log s) = filter (\<lambda>d. fm_task_id (fst d) = Some (session_task s)) (log_iter log)"
  by (simp add: view_frames_def selects_def SessionView_new_def SeqRange_all_def range_contains_def)

lemma check_join_ok: "check_join log rs = Inr () \<longleftrightarrow> list_all (backed (frame_refs log)) rs"
  using joined_backed [of rs "frame_refs log"] by (auto simp: check_join_def split: JoinStatus.splits)

section \<open>Appending\<close>

lemma log_iter_append:
  assumes "log_inv log" "length p < 2 ^ 32" "\<And>s. last_seq log = Some s \<Longrightarrow> s < seq_no (fm_seq m)"
    and "append_frame log m p = (log', h)" "length (el_bytes log') \<le> usize_max"
  shows "log_iter log' = log_iter log @ [framed (el_head_hash log) m p]"
proof -
  have "length (el_bytes log) \<le> usize_max"
    using assms(4,5) by (auto simp: append_frame_eq [OF assms(2)] Let_def)
  moreover obtain fs where fs: "walk log = (fs, ChainStatus.Intact (el_count log))"
    using assms(1) by (auto simp: log_inv_def)
  ultimately show ?thesis
    using log_iter_walk [OF assms(5) append_frame_walk(1) [OF assms]] log_iter_walk by fastforce
qed

lemma framed_meta [simp]:
  "fm_task_id (fst (framed prev m p)) = fm_task_id m" "fm_job_id (fst (framed prev m p)) = fm_job_id m"
  "fm_kind (fst (framed prev m p)) = fm_kind m" "fm_visibility (fst (framed prev m p)) = fm_visibility m"
  by (simp_all add: framed_def FrameMeta.defs)

section \<open>Snapshots\<close>

definition visible_turn :: "EventFrame \<times> bytes \<Rightarrow> bool" where
  "visible_turn d = (fm_visibility (fst d) = ModelVisible \<and> is_turn_kind (fm_kind (fst d)))"

definition turn_of :: "Redactor \<Rightarrow> EventFrame \<times> bytes \<Rightarrow> Turn" where
  "turn_of redactor d = \<lparr>tn_seq = fm_seq (fst d), tn_kind = the (turn_from_event (fm_kind (fst d))),
     tn_text = redact redactor (utf8_lossy (snd d)), tn_artifacts = []\<rparr>"

lemma turn_from_event_iff: "turn_from_event k \<noteq> None \<longleftrightarrow> is_turn_kind k"
  by (cases k) (simp_all add: is_turn_kind_def)

lemma note_turns:
  "fst (foldl (note_frame_turn red) (ts, mx) ds) = ts @ map (turn_of red) (filter visible_turn ds)"
proof (induction ds arbitrary: ts mx)
  case (Cons d ds)
  obtain f p where d: "d = (f, p)" by (cases d)
  show ?case
    using Cons turn_from_event_iff [of "fm_kind f"]
    by (auto simp: d Let_def visible_turn_def turn_of_def split: option.splits)
qed simp

lemma note_max:
  "snd (foldl (note_frame_turn red) (ts, mx) ds) =
     (if mx = None \<and> ds = [] then None
      else Some (EventSeq (Max ((case mx of None \<Rightarrow> {} | Some m \<Rightarrow> {seq_no m}) \<union> (\<lambda>d. seq_no (fm_seq (fst d))) ` set ds))))"
proof (induction ds arbitrary: ts mx)
  case Nil
  then show ?case by (cases mx) simp_all
next
  case (Cons d ds)
  obtain f p where d: "d = (f, p)" by (cases d)
  let ?m = "case mx of None \<Rightarrow> fm_seq f | Some m \<Rightarrow> if seq_no (fm_seq f) > seq_no m then fm_seq f else m"
  let ?S = "(\<lambda>d. seq_no (fm_seq (fst d))) ` set ds"
  obtain ts' where "note_frame_turn red (ts, mx) d = (ts', Some ?m)"
    by (cases "fm_visibility f = ModelVisible"; cases "turn_from_event (fm_kind f)") (simp_all add: d Let_def)
  moreover have "Max ({seq_no ?m} \<union> ?S) = Max ((case mx of None \<Rightarrow> {} | Some m \<Rightarrow> {seq_no m}) \<union> insert (seq_no (fm_seq f)) ?S)"
  proof (cases mx)
    case (Some m)
    have "seq_no ?m = max (seq_no (fm_seq f)) (seq_no m)" by (auto simp: Some max_def)
    then show ?thesis by (cases "?S = {}") (simp_all add: Some Max_insert max.left_commute max.commute max.assoc)
  qed simp
  ultimately show ?case using Cons [of ts' "Some ?m"] by (simp add: d)
qed

section \<open>Compaction\<close>

lemma bound_str_length: "length (bound_str s mx) \<le> mx"
  using back_to_boundary_le [of s mx] by (simp add: bound_str_def min_le_iff_disj)

lemma render_turn_length: "length (render_turn t red) \<le> MAX_TURN_BYTES + 7"
proof -
  have "length (turn_prefix k) \<le> 5" for k by (cases k) simp_all
  from this [of "tn_kind t"] bound_str_length [of "redact red (tn_text t)" MAX_TURN_BYTES]
  show ?thesis by (simp add: render_turn_def)
qed

lemma cap_lines_length: "length (cap_lines ls) \<le> MAX_COMPACT_TURNS"
  by (simp add: cap_lines_def Let_def)

text \<open>
  The cap of \<^verbatim>\<open>summarize_older\<close>: with more than 32 turns the summary line takes the place of a turn, so
  the last two turns, the newest of all, are cut, and the marker counts one line.
\<close>

lemma summary_cuts_newest:
  assumes "length turns = Suc n" "32 \<le> n"
  shows "cap_lines (policy_lines (policy_mode (summarize_older 32)) turns red) =
    [''[summary: '' @ show_nat (n - 31) @ '' earlier turn(s) omitted]'']
    @ map (\<lambda>t. render_turn t red) (take 30 (drop (n - 31) turns))
    @ [''[compacted: 1 further line(s) omitted by turn cap]'']"
proof -
  define kept where "kept = drop (n - 31) turns"
  have l: "length kept = 32" using assms by (simp add: kept_def)
  let ?s = "''[summary: '' @ show_nat (n - 31) @ '' earlier turn(s) omitted]''"
  let ?r = "\<lambda>t. render_turn t red"
  have p: "policy_lines (policy_mode (summarize_older 32)) turns red = ?s # map ?r kept"
    using assms by (auto simp: summarize_older_def MAX_COMPACT_TURNS_def keep_lines_def Let_def kept_def)
  have "take 31 kept = take 30 kept @ [kept ! 30]" using take_Suc_conv_app_nth [of 30 kept] l by simp
  then have "(take 32 (?s # map ?r kept))[31 := x] = (?s # map ?r (take 30 kept)) @ [x]" for x
    using l by (simp add: take_Cons' take_map list_update_append)
  then show ?thesis
    using l by (simp add: p cap_lines_def MAX_COMPACT_TURNS_def Let_def kept_def [symmetric] show_nat.simps [of "Suc 0"] digit_def)
qed

text \<open>
  The redaction after the byte cap may lengthen the text: a secret that occurs in what the compaction
  itself writes is replaced by a marker with a label of any length.
\<close>

lemma redact_role: "redact (register Redactor_new l (as_bytes ''user'')) ''user: hi'' = (''[REDACTED:'' @ (l @ '']'')) @ '': hi''"
  by code_simp

lemma compaction_over_cap:
  "MAX_COMPACT_BYTES < length (visible_str (ch_text (compact (keep_last_n 1)
     [\<lparr>tn_seq = EventSeq 1, tn_kind = UserTurn, tn_text = ''hi'', tn_artifacts = []\<rparr>]
     (register Redactor_new (replicate 16384 (CHR ''k'')) (as_bytes ''user'')))))"
proof -
  have "redact (register Redactor_new l (as_bytes ''user'')) ''hi'' = ''hi''" for l by code_simp
  then show ?thesis
    by (simp add: compact_def keep_last_n_def keep_lines_def cap_lines_def render_turn_def bound_str_def MAX_COMPACT_TURNS_def
        MAX_TURN_BYTES_def MAX_COMPACT_BYTES_def to_model_visible_def redact_role Let_def)
qed

text \<open>A snapshot whose turns were altered is accepted like the original: only the head hash is compared.\<close>

lemma altered_turns_accepted: "verify_against (sn\<lparr>sn_turns := ts\<rparr>) log = verify_against sn log"
  by (simp add: verify_against_def)

text \<open>Resumption does not look at the lease status: a killed run resumes.\<close>

lemma killed_run_resumes:
  assumes "log_inv log" "length (el_bytes log) \<le> usize_max" "\<not> lease_is_live (LeaseView_derive (SessionView_new log s))"
  shows "resume log s [] = Inr (SessionView_new log s)"
  using assms(1) by (auto simp: resume_def check_join_def verify_against_log_def log_inv_def verify_def)

text \<open>When a run resumes from a stored head.\<close>

lemma resume_iff:
  assumes len: "length (el_bytes log) \<le> usize_max"
  shows "resume_to_head log s rs h = Inr v \<longleftrightarrow>
    v = SessionView_new log s
    \<and> (\<exists>fs. walk log = (fs, ChainStatus.Intact (length fs)) \<and> log_head GENESIS_PREV_HASH fs = h
         \<and> (\<forall>r\<in>set rs. \<exists>d\<in>set fs. frame_backs d r)
         \<and> view_frames v = filter (\<lambda>d. fm_task_id (fst d) = Some (session_task s)) fs)"
proof -
  have ok: "resume_to_head log s rs h = Inr v \<longleftrightarrow>
      list_all (backed (frame_refs log)) rs \<and> (\<exists>n. verify_to_head log h = ChainStatus.Intact n) \<and> v = SessionView_new log s"
    using check_join_ok [of log rs]
    by (cases "check_join log rs"; cases "verify_to_head log h") (auto simp: resume_to_head_def)
  have w: "n = length fs" "log_iter log = fs" "seqs_from None fs"
      "log_head GENESIS_PREV_HASH fs = (if fs = [] then GENESIS_PREV_HASH else ef_frame_hash (fst (last fs)))"
    if "walk log = (fs, ChainStatus.Intact n)" for fs n
    using walk_intact_iff [OF len, THEN iffD1, OF that] log_iter_walk [OF len that] head_of_chain by auto
  show ?thesis
  proof (cases "\<exists>n. snd (walk log) = ChainStatus.Intact n")
    case True
    then obtain fs n where fs: "walk log = (fs, ChainStatus.Intact n)" by (metis prod.collapse)
    note w = w [OF fs]
    have b: "list_all (backed (frame_refs log)) rs \<longleftrightarrow> (\<forall>r\<in>set rs. \<exists>d\<in>set fs. frame_backs d r)"
      using backed_frames [OF w(2,3)] by (simp add: list_all_iff)
    have "(\<exists>n. verify_to_head log h = ChainStatus.Intact n) \<longleftrightarrow> log_head GENESIS_PREV_HASH fs = h"
      by (auto simp: verify_to_head_iff fs w(4))
    then show ?thesis unfolding ok b using fs w(1,2) by (auto simp: view_frames_all)
  next
    case False
    then show ?thesis unfolding ok by (auto simp: verify_to_head_iff)
  qed
qed

section \<open>Properties\<close>

text \<open>The log of one frame, from the event-log examples, seen as a session.\<close>

lemma demo_iter: "log_iter demo_log = [framed GENESIS_PREV_HASH demo_meta [1, 2, 3]]"
  by (rule log_iter_walk [OF demo_log_length demo_walk(1)])

text \<open>
  C37. A run resumes only on a verified log. If resumption from a stored head returns a view (and the
  log's length fits the machine), then the whole log is a chain that ends at this head, every receipt
  matches a completed tool call of the chain with its task and job, and the view shows exactly the
  session's frames of that chain, in order; so a log that is no such chain, or a receipt that no
  frame backs, is refused. The lease of the session is not among what resumption checks.
\<close>

theorem resume_verified:
  assumes "length (el_bytes log) \<le> usize_max" and "resume_to_head log s rs h = Inr v"
  shows "\<exists>fs. walk log = (fs, ChainStatus.Intact (length fs)) \<and> log_head GENESIS_PREV_HASH fs = h
    \<and> (\<forall>r\<in>set rs. \<exists>d\<in>set fs. frame_backs d r)
    \<and> view_frames v = filter (\<lambda>d. fm_task_id (fst d) = Some (session_task s)) fs"
  using assms(2) unfolding resume_iff [OF assms(1)] by blast

theorem resume_verified_witness:
  "\<exists>v. resume_to_head demo_log (SessionId (TaskId 7)) [] (log_head GENESIS_PREV_HASH [framed GENESIS_PREV_HASH demo_meta [1, 2, 3]]) = Inr v
     \<and> (\<exists>fs. walk demo_log = (fs, ChainStatus.Intact (length fs))
          \<and> view_frames v = filter (\<lambda>d. fm_task_id (fst d) = Some (TaskId 7)) fs)"
proof -
  let ?v = "SessionView_new demo_log (SessionId (TaskId 7))"
  have r: "resume_to_head demo_log (SessionId (TaskId 7)) [] (log_head GENESIS_PREV_HASH [framed GENESIS_PREV_HASH demo_meta [1, 2, 3]]) = Inr ?v"
    using demo_walk(1)
    by (subst resume_iff [OF demo_log_length])
      (auto simp: view_frames_all demo_iter intro!: exI [of _ "[framed GENESIS_PREV_HASH demo_meta [1, 2, 3]]"])
  from resume_verified [OF demo_log_length r] r show ?thesis by (intro exI [of _ ?v]) auto
qed

text \<open>
  A snapshot shows the model only what is visible, and only redacted. Its turns are exactly the
  frames of the session up to the requested sequence number that are marked visible and are turns of
  the conversation, in order, each with its payload redacted; the payload of every other frame is
  left out. It is refused exactly when the session has no frame so far.
\<close>

theorem snapshot_visible:
  "Snapshot_derive v at_seq red =
     (let ds = filter (\<lambda>d. selects (with_range v (up_to at_seq)) (fst d)) (log_iter (sv_log v)) in
      if ds = [] then Inl (NoFramesAtOrBelow at_seq)
      else Inr \<lparr>sn_session = sv_session v, sn_at_seq = EventSeq (Max ((\<lambda>d. seq_no (fm_seq (fst d))) ` set ds)),
                sn_head_hash = el_head_hash (sv_log v), sn_turns = map (turn_of red) (filter visible_turn ds)\<rparr>)"
  (is "_ = (let ds = ?ds in _)")
proof -
  have d: "view_frames (with_range v (up_to at_seq)) = ?ds" by (simp add: view_frames_def with_range_def)
  obtain ts mx where f: "foldl (note_frame_turn red) ([], None) ?ds = (ts, mx)" by fastforce
  have "ts = map (turn_of red) (filter visible_turn ?ds)" using note_turns [of red "[]" None ?ds] by (simp add: f)
  moreover have "mx = (if ?ds = [] then None else Some (EventSeq (Max ((\<lambda>d. seq_no (fm_seq (fst d))) ` set ?ds))))"
    using note_max [of red "[]" None ?ds] by (simp add: f)
  ultimately show ?thesis unfolding Snapshot_derive_def d f Let_def by simp
qed

text \<open>
  The lease status follows the log. When a lease frame with an owner is appended to a log in good
  order, the derived status names this owner and the frame's job and nobody else, and the run is as
  live as before; when a kill is appended, the run is not live; and no frame ever makes a killed or
  failed run live again.
\<close>

theorem lease_follows_log:
  assumes inv: "log_inv log" "length p < 2 ^ 32" "\<And>s'. last_seq log = Some s' \<Longrightarrow> s' < seq_no (fm_seq m)"
      "append_frame log m p = (log', h)" "length (el_bytes log') \<le> usize_max"
    and own: "fm_task_id m = Some (session_task s)"
  defines "before \<equiv> LeaseView_derive (SessionView_new log s)" and "after \<equiv> LeaseView_derive (SessionView_new log' s)"
  shows "(fm_kind m = JobLeased \<and> fm_job_id m = Some job \<and> p = encode_lease_payload owner \<longrightarrow>
            lv_lease after = Leased job owner (fm_seq m) \<and> (\<forall>o'. owned_by after o' \<longleftrightarrow> o' = owner)
            \<and> lease_is_live after = lease_is_live before)
       \<and> (fm_kind m = TaskKilled \<longrightarrow> \<not> lease_is_live after)
       \<and> (\<not> lease_is_live before \<longrightarrow> \<not> lease_is_live after \<and> lv_terminal_seq after = lv_terminal_seq before)"
proof -
  let ?d = "framed (el_head_hash log) m p"
  have "view_frames (SessionView_new log' s) = view_frames (SessionView_new log s) @ [?d]"
    by (simp add: view_frames_all log_iter_append [OF inv] own)
  then have a: "after = note_lease before ?d" by (simp add: after_def before_def LeaseView_derive_def)
  have "frame_lease_owner ?d = Some owner" if "fm_kind m = JobLeased" "p = encode_lease_payload owner"
    using that by (cases owner) (simp add: frame_lease_owner_def)
  then show ?thesis by (auto simp: a note_lease_def lease_is_live_def owned_by_def split: option.splits)
qed

definition lease_meta :: FrameMeta where
  "lease_meta = meta_job (meta_task (FrameMeta_new 1 JobLeased) (TaskId 1)) (JobId 10)"

theorem lease_follows_log_witness:
  "lv_lease (LeaseView_derive (SessionView_new
       (fst (append_frame EventLog_new lease_meta (encode_lease_payload (LeaseOwner 5)))) (SessionId (TaskId 1))))
     = Leased (JobId 10) (LeaseOwner 5) (EventSeq 1)"
proof -
  let ?p = "encode_lease_payload (LeaseOwner 5)"
  let ?log = "fst (append_frame EventLog_new lease_meta ?p)"
  have "frame_ok (framed GENESIS_PREV_HASH lease_meta ?p)"
    by (rule framed_ok) (simp_all add: GENESIS_PREV_HASH_def)
  then have len: "length (el_bytes ?log) \<le> usize_max"
    by (simp add: append_frame_eq Let_def EventLog_new_def frame_ok_def length_frame_bytes)
  have "last_seq EventLog_new = Some s \<Longrightarrow> s < seq_no (fm_seq lease_meta)" for s
    by (simp add: last_seq_def new_log_inv(1))
  from lease_follows_log [OF new_log_inv(2) _ this prod.collapse [symmetric] len,
      where s = "SessionId (TaskId 1)" and job = "JobId 10" and owner = "LeaseOwner 5"]
  show ?thesis
    by (simp add: lease_meta_def meta_job_def meta_task_def FrameMeta_new_def)
qed

text \<open>
  Compacted history is bounded: at most 32 lines, each turn's text cut to 2 KiB, and 16 KiB in all
  unless a registered secret occurs in the bounded text, in which case what replaces it is a marker;
  the text handed to the model is the redaction of the bounded text.
\<close>

theorem compact_bounded:
  "\<exists>joined ls. ch_text (compact pol turns red) = ModelVisibleText (redact red joined)
     \<and> length joined \<le> MAX_COMPACT_BYTES \<and> prefix joined (join_with [CHR 0x0A] ls) \<and> length ls \<le> MAX_COMPACT_TURNS
     \<and> ((\<forall>l v i. secret red l v \<longrightarrow> \<not> occurs_at v joined i) \<longrightarrow>
          length (visible_str (ch_text (compact pol turns red))) \<le> MAX_COMPACT_BYTES)"
proof -
  let ?ls = "cap_lines (policy_lines (policy_mode pol) turns red)"
  let ?joined = "bound_str (join_with [CHR 0x0A] ?ls) MAX_COMPACT_BYTES"
  have t: "ch_text (compact pol turns red) = ModelVisibleText (redact red ?joined)"
    by (simp add: compact_def Let_def bound_str_def to_model_visible_def)
  have "redact red ?joined = ?joined" if "\<forall>l v i. secret red l v \<longrightarrow> \<not> occurs_at v ?joined i"
    using that by (intro redact_untouched) blast
  then show ?thesis
    using t bound_str_length [of _ MAX_COMPACT_BYTES] cap_lines_length
    by (intro exI [of _ ?joined] exI [of _ ?ls]) (auto simp: bound_str_def take_is_prefix)
qed

end
