(* ===== verification/Telemetry.thy ===== *)
theory Telemetry
  imports Session EventLog_Export Secrets
begin

text \<open>
  Telemetry (\<^verbatim>\<open>crates/crustcore-telemetry\<close>): the projection of log frames to spans and metrics, the
  redaction and bounding every exported value passes, the recorded usage of models and the run over a
  log. An exporter is an argument; the in-memory one is an instance. The OTLP transport is not
  modelled.
\<close>

section \<open>The intermediate form (project.rs, usage.rs)\<close>

record SpanModel =
  sm_name :: string
  sm_attrs :: "(string \<times> string) list"

record MetricSample =
  ms_name :: string
  ms_value :: u64
  ms_labels :: "(string \<times> string) list"

definition SpanModel_new :: "string \<Rightarrow> SpanModel" where
  "SpanModel_new name = \<lparr>sm_name = name, sm_attrs = []\<rparr>"

definition attr :: "SpanModel \<Rightarrow> string \<Rightarrow> string \<Rightarrow> SpanModel" where
  "attr s k v = s\<lparr>sm_attrs := sm_attrs s @ [(k, v)]\<rparr>"

definition MetricSample_new :: "string \<Rightarrow> u64 \<Rightarrow> MetricSample" where
  "MetricSample_new name n = \<lparr>ms_name = name, ms_value = n, ms_labels = []\<rparr>"

definition label :: "MetricSample \<Rightarrow> string \<Rightarrow> string \<Rightarrow> MetricSample" where
  "label m k v = m\<lparr>ms_labels := ms_labels m @ [(k, v)]\<rparr>"

record ProjectedFrame =
  pf_spans :: "SpanModel list"
  pf_metrics :: "MetricSample list"

definition projected_is_empty :: "ProjectedFrame \<Rightarrow> bool" where
  "projected_is_empty p = (pf_spans p = [] \<and> pf_metrics p = [])"

record RecordedUsage =
  ru_model :: string
  ru_input_tokens :: u64
  ru_output_tokens :: u64

datatype UsageBySeq = UsageBySeq (usage_map: "u64 \<rightharpoonup> RecordedUsage")

definition UsageBySeq_new :: UsageBySeq where
  "UsageBySeq_new = UsageBySeq Map.empty"

definition record_usage :: "UsageBySeq \<Rightarrow> EventSeq \<Rightarrow> RecordedUsage \<Rightarrow> UsageBySeq" where
  "record_usage u seq usage = UsageBySeq ((usage_map u)(seq_no seq \<mapsto> usage))"

definition usage_get :: "UsageBySeq \<Rightarrow> EventSeq \<Rightarrow> RecordedUsage option" where
  "usage_get u seq = usage_map u (seq_no seq)"

section \<open>Names and attributes (semconv.rs)\<close>

definition GEN_AI_SYSTEM :: string where
  "GEN_AI_SYSTEM = ''crustcore''"

fun span_name :: "EventKind \<Rightarrow> string" where
  "span_name ModelRequestStarted = ''gen_ai.model_request''"
| "span_name ModelOutputReceived = ''gen_ai.model_response''"
| "span_name ToolCallStarted = ''crustcore.tool.started''"
| "span_name ToolCallCompleted = ''crustcore.tool.completed''"
| "span_name PatchProposed = ''crustcore.verify.proposed''"
| "span_name PatchVerified = ''crustcore.verify.verified''"
| "span_name PatchRejected = ''crustcore.verify.rejected''"
| "span_name JobLeased = ''crustcore.budget.lease''"
| "span_name TaskCreated = ''crustcore.event.task_created''"
| "span_name TaskPlanned = ''crustcore.event.task_planned''"
| "span_name JobQueued = ''crustcore.event.job_queued''"
| "span_name ToolCallRequested = ''crustcore.event.tool_call_requested''"
| "span_name ToolCallApproved = ''crustcore.event.tool_call_approved''"
| "span_name ToolCallDenied = ''crustcore.event.tool_call_denied''"
| "span_name SandboxStarted = ''crustcore.event.sandbox_started''"
| "span_name CommandStarted = ''crustcore.event.command_started''"
| "span_name CommandOutputCaptured = ''crustcore.event.command_output_captured''"
| "span_name CommandCompleted = ''crustcore.event.command_completed''"
| "span_name ApprovalRequested = ''crustcore.event.approval_requested''"
| "span_name ApprovalResolved = ''crustcore.event.approval_resolved''"
| "span_name UserMessageQueued = ''crustcore.event.user_message_queued''"
| "span_name UserSteerReceived = ''crustcore.event.user_steer_received''"
| "span_name GitHubOperationRequested = ''crustcore.event.github_operation_requested''"
| "span_name GitHubOperationCompleted = ''crustcore.event.github_operation_completed''"
| "span_name SecretRequested = ''crustcore.event.secret_requested''"
| "span_name SecretHandleStored = ''crustcore.event.secret_handle_stored''"
| "span_name RiskDetected = ''crustcore.event.risk_detected''"
| "span_name TaskCompleted = ''crustcore.event.task_completed''"
| "span_name TaskFailed = ''crustcore.event.task_failed''"
| "span_name TaskKilled = ''crustcore.event.task_killed''"

fun budget_metric_name :: "BudgetAxis \<Rightarrow> string" where
  "budget_metric_name WallMillis = ''crustcore.budget.wall_millis''"
| "budget_metric_name CpuMillis = ''crustcore.budget.cpu_millis''"
| "budget_metric_name MemoryBytes = ''crustcore.budget.memory_bytes''"
| "budget_metric_name DiskBytes = ''crustcore.budget.disk_bytes''"
| "budget_metric_name OutputBytes = ''crustcore.budget.output_bytes''"
| "budget_metric_name Tokens = ''crustcore.budget.tokens''"
| "budget_metric_name ModelCostMicros = ''crustcore.budget.model_cost_micros''"
| "budget_metric_name SubagentCount = ''crustcore.budget.subagent_count''"

definition budget_samples :: "BudgetDelta \<Rightarrow> TaskId option \<Rightarrow> JobId option \<Rightarrow> MetricSample list" where
  "budget_samples delta task_id job_id =
     map (\<lambda>axis.
        let sample = MetricSample_new (budget_metric_name axis) (amount delta axis);
            sample = (case task_id of Some t \<Rightarrow> label sample ''crustcore.task_id'' (show_nat (unat (task_no t))) | None \<Rightarrow> sample)
        in case job_id of Some j \<Rightarrow> label sample ''crustcore.job_id'' (show_nat (unat (job_no j))) | None \<Rightarrow> sample)
       (filter (\<lambda>axis. amount delta axis \<noteq> 0) BudgetAxis_ALL)"

definition hex_prefix :: "bytes \<Rightarrow> nat \<Rightarrow> string" where
  "hex_prefix bytes n = concat (map hex_byte (take (min n (length bytes)) bytes))"

definition base_attrs :: "FrameMeta \<Rightarrow> (string \<times> string) list" where
  "base_attrs meta =
     [(''crustcore.event.kind'', debug_kind (fm_kind meta)),
      (''crustcore.event.seq'', show_nat (unat (seq_no (fm_seq meta)))),
      (''crustcore.actor'', debug_actor (fm_actor meta)),
      (''crustcore.timestamp_ms'', show_nat (unat (as_millis (fm_timestamp meta))))]
     @ (case fm_task_id meta of Some t \<Rightarrow> [(''crustcore.task_id'', show_nat (unat (task_no t)))] | None \<Rightarrow> [])
     @ (case fm_job_id meta of Some j \<Rightarrow> [(''crustcore.job_id'', show_nat (unat (job_no j)))] | None \<Rightarrow> [])"

definition payload_derived_suppressed :: "FrameMeta \<Rightarrow> bool" where
  "payload_derived_suppressed meta = (fm_visibility meta = Internal \<or> fm_redaction meta = Redacted)"

definition minimal_span :: "FrameMeta \<Rightarrow> SpanModel" where
  "minimal_span meta =
     \<lparr>sm_name = span_name (fm_kind meta),
      sm_attrs = [(''crustcore.event.kind'', debug_kind (fm_kind meta)),
                  (''crustcore.event.seq'', show_nat (unat (seq_no (fm_seq meta))))]\<rparr>"

definition usage_attrs :: "bool \<Rightarrow> RecordedUsage option \<Rightarrow> (string \<times> string) list" where
  "usage_attrs is_request usage =
     (case usage of
        Some u \<Rightarrow>
          [(if is_request then ''gen_ai.request.model'' else ''gen_ai.response.model'', ru_model u),
           (''gen_ai.usage.input_tokens'', show_nat (unat (ru_input_tokens u))),
           (''gen_ai.usage.output_tokens'', show_nat (unat (ru_output_tokens u)))]
      | None \<Rightarrow> [])"

definition receipt_attrs :: "ToolReceipt option \<Rightarrow> (string \<times> string) list" where
  "receipt_attrs receipt =
     (case receipt of
        Some r \<Rightarrow>
          [(''crustcore.tool.call_id'', show_nat (unat (call_no (tr_tool_call_id r)))),
           (''crustcore.tool.name_hash'', hex_prefix (tr_tool_name_hash r) 32),
           (''crustcore.tool.args_hash'', hex_prefix (tr_args_hash r) 32),
           (''crustcore.tool.result_hash'', hex_prefix (tr_result_hash r) 32),
           (''crustcore.tool.mac'', hex_prefix (tr_mac r) 32),
           (''crustcore.tool.receipt_event_seq'', show_nat (unat (seq_no (tr_event_seq r)))),
           (''crustcore.tool.artifact_count'', show_nat (length (tr_artifact_hashes r)))]
      | None \<Rightarrow> [(''crustcore.tool.receipt'', ''absent'')])"

fun kind_attrs :: "EventKind \<Rightarrow> ToolReceipt option \<Rightarrow> RecordedUsage option \<Rightarrow> (string \<times> string) list" where
  "kind_attrs ModelRequestStarted receipt usage =
     [(''gen_ai.operation.name'', ''model_request''), (''gen_ai.system'', GEN_AI_SYSTEM)] @ usage_attrs True usage"
| "kind_attrs ModelOutputReceived receipt usage =
     [(''gen_ai.operation.name'', ''model_response''), (''gen_ai.system'', GEN_AI_SYSTEM)] @ usage_attrs False usage"
| "kind_attrs ToolCallCompleted receipt usage = receipt_attrs receipt"
| "kind_attrs PatchVerified receipt usage = [(''crustcore.verify.outcome'', ''verified'')]"
| "kind_attrs PatchRejected receipt usage = [(''crustcore.verify.outcome'', ''rejected'')]"
| "kind_attrs PatchProposed receipt usage = [(''crustcore.verify.outcome'', ''proposed'')]"
| "kind_attrs _ receipt usage = []"

definition project_frame :: "FrameMeta \<Rightarrow> ToolReceipt option \<Rightarrow> RecordedUsage option \<Rightarrow> ProjectedFrame" where
  "project_frame meta receipt usage =
     (if payload_derived_suppressed meta then \<lparr>pf_spans = [minimal_span meta], pf_metrics = []\<rparr>
      else \<lparr>pf_spans = [\<lparr>sm_name = span_name (fm_kind meta),
                        sm_attrs = base_attrs meta @ kind_attrs (fm_kind meta) receipt usage\<rparr>],
            pf_metrics = []\<rparr>)"

section \<open>The gate (redact.rs)\<close>

definition MAX_ATTR_LEN :: nat where
  "MAX_ATTR_LEN = 1024"

definition MAX_ATTRS :: nat where
  "MAX_ATTRS = 64"

definition DROPPED_MARKER_KEY :: string where
  "DROPPED_MARKER_KEY = ''crustcore.telemetry.attrs_dropped''"

definition bound_value :: "string \<Rightarrow> string" where
  "bound_value s = (if length s \<le> MAX_ATTR_LEN then s else take (back_to_boundary s MAX_ATTR_LEN) s)"

definition redact_pairs :: "(string \<times> string) list \<Rightarrow> Redactor \<Rightarrow> (string \<times> string) list" where
  "redact_pairs pairs redactor =
     (let total = length pairs; keep = min total MAX_ATTRS in
      map (\<lambda>(k, v). (k, bound_value (redact redactor v))) (take keep pairs)
      @ (if total > keep then [(DROPPED_MARKER_KEY, show_nat (total - keep))] else []))"

definition redact_span :: "SpanModel \<Rightarrow> Redactor \<Rightarrow> SpanModel" where
  "redact_span s redactor = \<lparr>sm_name = sm_name s, sm_attrs = redact_pairs (sm_attrs s) redactor\<rparr>"

definition redact_metric :: "MetricSample \<Rightarrow> Redactor \<Rightarrow> MetricSample" where
  "redact_metric m redactor = \<lparr>ms_name = ms_name m, ms_value = ms_value m, ms_labels = redact_pairs (ms_labels m) redactor\<rparr>"

definition redact_frame :: "ProjectedFrame \<Rightarrow> Redactor \<Rightarrow> ProjectedFrame" where
  "redact_frame p redactor =
     \<lparr>pf_spans = map (\<lambda>s. redact_span s redactor) (pf_spans p),
      pf_metrics = map (\<lambda>m. redact_metric m redactor) (pf_metrics p)\<rparr>"

section \<open>Exporters (export/mod.rs)\<close>

record 'x Exporter =
  xp_export_span :: "'x \<Rightarrow> SpanModel \<Rightarrow> 'x"
  xp_export_metric :: "'x \<Rightarrow> MetricSample \<Rightarrow> 'x"
  xp_flush :: "'x \<Rightarrow> 'x"

definition export_frame :: "'x Exporter \<Rightarrow> 'x \<Rightarrow> ProjectedFrame \<Rightarrow> 'x" where
  "export_frame e x p = foldl (xp_export_metric e) (foldl (xp_export_span e) x (pf_spans p)) (pf_metrics p)"

datatype Emitted = EmittedSpan SpanModel | EmittedMetric MetricSample

definition InMemoryExporter :: "Emitted list Exporter" where
  "InMemoryExporter = \<lparr>xp_export_span = (\<lambda>x s. x @ [EmittedSpan s]), xp_export_metric = (\<lambda>x m. x @ [EmittedMetric m]),
     xp_flush = (\<lambda>x. x)\<rparr>"

section \<open>The run (config.rs, run.rs)\<close>

text \<open>The exporter choice of the configuration is read by the caller that builds the exporter.\<close>

record Config =
  cf_enabled :: bool
  cf_sample_rate :: u32
  cf_batch_bound :: nat

definition Config_default :: Config where
  "Config_default = \<lparr>cf_enabled = False, cf_sample_rate = 1, cf_batch_bound = 1024\<rparr>"

definition enabled_in_memory :: Config where
  "enabled_in_memory = Config_default\<lparr>cf_enabled := True\<rparr>"

definition effective_sample_rate :: "Config \<Rightarrow> u32" where
  "effective_sample_rate c = max (cf_sample_rate c) 1"

record FrameInput =
  fi_meta :: FrameMeta
  fi_receipt :: "ToolReceipt option"
  fi_recorded :: "RecordedUsage option"

record RunReport =
  rp_frames_seen :: u64
  rp_frames_projected :: u64
  rp_spans_emitted :: u64
  rp_metrics_emitted :: u64

definition RunReport_default :: RunReport where
  "RunReport_default = \<lparr>rp_frames_seen = 0, rp_frames_projected = 0, rp_spans_emitted = 0, rp_metrics_emitted = 0\<rparr>"

definition run_input :: "nat \<Rightarrow> Redactor \<Rightarrow> 'x Exporter \<Rightarrow> 'x \<times> RunReport \<Rightarrow> nat \<times> FrameInput \<Rightarrow> 'x \<times> RunReport" where
  "run_input rate redactor e = (\<lambda>(x, report) (i, input).
     let report = report\<lparr>rp_frames_seen := rp_frames_seen report + 1\<rparr> in
     if i mod rate \<noteq> 0 then (x, report)
     else let projected = project_frame (fi_meta input) (fi_receipt input) (fi_recorded input) in
          if projected_is_empty projected then (x, report)
          else let redacted = redact_frame projected redactor in
               (export_frame e x redacted,
                report\<lparr>rp_spans_emitted := rp_spans_emitted report + of_nat (length (pf_spans redacted)),
                       rp_metrics_emitted := rp_metrics_emitted report + of_nat (length (pf_metrics redacted)),
                       rp_frames_projected := rp_frames_projected report + 1\<rparr>))"

definition telemetry_run :: "FrameInput list \<Rightarrow> Config \<Rightarrow> Redactor \<Rightarrow> 'x Exporter \<Rightarrow> 'x \<Rightarrow> 'x \<times> RunReport" where
  "telemetry_run inputs config redactor e x =
     (if \<not> cf_enabled config then (x, RunReport_default)
      else let (x', report) = foldl (run_input (unat (effective_sample_rate config)) redactor e) (x, RunReport_default)
                 (List.enumerate 0 (take (cf_batch_bound config) inputs)) in
           (xp_flush e x', report))"

definition first_receipts :: "ToolReceipt list \<Rightarrow> u64 \<rightharpoonup> ToolReceipt" where
  "first_receipts receipts =
     foldl (\<lambda>m r. case m (seq_no (tr_event_seq r)) of None \<Rightarrow> m(seq_no (tr_event_seq r) \<mapsto> r) | Some _ \<Rightarrow> m) Map.empty receipts"

definition frame_header :: "EventFrame \<Rightarrow> FrameMeta" where
  "frame_header f =
     (let meta = meta_timestamp (meta_redaction (meta_visibility (meta_actor
            (FrameMeta_new (seq_no (fm_seq f)) (fm_kind f)) (fm_actor f)) (fm_visibility f)) (fm_redaction f)) (fm_timestamp f);
          meta = (case fm_task_id f of Some t \<Rightarrow> meta_task meta t | None \<Rightarrow> meta)
      in case fm_job_id f of Some j \<Rightarrow> meta_job meta j | None \<Rightarrow> meta)"

definition is_model_kind :: "EventKind \<Rightarrow> bool" where
  "is_model_kind k = (k \<in> {ModelRequestStarted, ModelOutputReceived})"

definition frame_input :: "(u64 \<rightharpoonup> ToolReceipt) \<Rightarrow> UsageBySeq \<Rightarrow> EventFrame \<Rightarrow> FrameInput" where
  "frame_input receipt_by_seq usage f =
     \<lparr>fi_meta = frame_header f,
      fi_receipt = (if fm_kind f = ToolCallCompleted then receipt_by_seq (seq_no (fm_seq f)) else None),
      fi_recorded = (if is_model_kind (fm_kind f) then usage_get usage (fm_seq f) else None)\<rparr>"

definition run_log ::
  "EventLog \<Rightarrow> ToolReceipt list \<Rightarrow> UsageBySeq \<Rightarrow> u64 \<Rightarrow> u64 \<Rightarrow> Config \<Rightarrow> Redactor \<Rightarrow> 'x Exporter \<Rightarrow> 'x \<Rightarrow> 'x \<times> RunReport" where
  "run_log log receipts usage seq_lo seq_hi config redactor e x =
     (if \<not> cf_enabled config then (x, RunReport_default)
      else let join_ok = (case verify_against_log receipts (frame_refs log) of Joined _ \<Rightarrow> True | JoinBroken _ _ \<Rightarrow> False);
               receipt_by_seq = (if join_ok then first_receipts receipts else Map.empty);
               inputs = map (\<lambda>d. frame_input receipt_by_seq usage (fst d))
                 (filter (\<lambda>d. \<not> (seq_no (fm_seq (fst d)) < seq_lo \<or> seq_no (fm_seq (fst d)) > seq_hi)) (log_iter log))
           in telemetry_run inputs config redactor e x)"

section \<open>Endpoint authentication (auth.rs)\<close>

datatype OtlpEndpointAuth = NoAuth | BrokerBearer SecretHandle

definition requires_credential :: "OtlpEndpointAuth \<Rightarrow> bool" where
  "requires_credential a = (case a of BrokerBearer _ \<Rightarrow> True | NoAuth \<Rightarrow> False)"

datatype AuthError = NoCredentialConfigured | AuthBroker BrokerError | AuthView ViewError

fun inject ::
  "OtlpEndpointAuth \<Rightarrow> ('s \<Rightarrow> SecretId \<Rightarrow> SecretMaterial option) \<Rightarrow> 's SecretBroker \<Rightarrow> ApprovalId \<Rightarrow> Timestamp \<Rightarrow> u64
     \<Rightarrow> AuthError + HeaderInjection" where
  "inject NoAuth get broker approval now ttl = Inl NoCredentialConfigured"
| "inject (BrokerBearer h) get broker approval now ttl =
     (case authorize get broker (sh_id h) approval now ttl of
        Inl e \<Rightarrow> Inl (AuthBroker e)
      | Inr view \<Rightarrow> (case snd (bearer view now (as_str (sh_label h))) of Inl e \<Rightarrow> Inl (AuthView e) | Inr i \<Rightarrow> Inr i))"

end
