(* ===== verification/Telemetry_Props.thy ===== *)
theory Telemetry_Props
  imports Telemetry Session_Props
begin

text \<open>
  What telemetry exports: nothing of a payload, of an internal or redacted frame its kind and sequence
  number only, and every value redacted and bounded.
\<close>

section \<open>Exported frames\<close>

definition exported :: "Redactor \<Rightarrow> FrameInput \<Rightarrow> ProjectedFrame" where
  "exported redactor i = redact_frame (project_frame (fi_meta i) (fi_receipt i) (fi_recorded i)) redactor"

text \<open>The sampled inputs of a run, in order.\<close>

definition sampled :: "Config \<Rightarrow> FrameInput list \<Rightarrow> FrameInput list" where
  "sampled config inputs =
     map snd (filter (\<lambda>(i, _). i mod unat (effective_sample_rate config) = 0)
       (List.enumerate 0 (take (cf_batch_bound config) inputs)))"

lemma projected_one: "\<not> projected_is_empty (project_frame m r u)" "length (pf_spans (project_frame m r u)) = 1"
    "pf_metrics (project_frame m r u) = []"
  by (simp_all add: projected_is_empty_def project_frame_def)

lemma run_input_step:
  "run_input rate redactor e (x, report) (k, input) =
     (if k mod rate = 0
      then (export_frame e x (exported redactor input),
            report\<lparr>rp_frames_seen := rp_frames_seen report + 1, rp_frames_projected := rp_frames_projected report + 1,
                   rp_spans_emitted := rp_spans_emitted report + 1\<rparr>)
      else (x, report\<lparr>rp_frames_seen := rp_frames_seen report + 1\<rparr>))"
  by (simp add: run_input_def Let_def projected_one exported_def redact_frame_def)

lemma run_fold:
  "foldl (run_input rate redactor e) (x, report) is =
     (foldl (export_frame e) x (map (exported redactor) (map snd (filter (\<lambda>(i, _). i mod rate = 0) is))),
      \<lparr>rp_frames_seen = rp_frames_seen report + of_nat (length is),
       rp_frames_projected = rp_frames_projected report + of_nat (length (filter (\<lambda>(i, _). i mod rate = 0) is)),
       rp_spans_emitted = rp_spans_emitted report + of_nat (length (filter (\<lambda>(i, _). i mod rate = 0) is)),
       rp_metrics_emitted = rp_metrics_emitted report\<rparr>)"
proof (induction "is" arbitrary: x report)
  case (Cons i "is")
  obtain k input where i: "i = (k, input)" by (cases i)
  show ?case
    by (simp add: Cons i run_input_step del: map_map)
qed simp

lemma run_exports:
  "telemetry_run inputs config redactor e x =
     (if cf_enabled config
      then (xp_flush e (foldl (export_frame e) x (map (exported redactor) (sampled config inputs))),
            \<lparr>rp_frames_seen = of_nat (length (take (cf_batch_bound config) inputs)),
             rp_frames_projected = of_nat (length (sampled config inputs)),
             rp_spans_emitted = of_nat (length (sampled config inputs)), rp_metrics_emitted = 0\<rparr>)
      else (x, RunReport_default))"
  by (simp add: telemetry_run_def run_fold RunReport_default_def sampled_def length_enumerate)

lemma sampled_from: "i \<in> set (sampled config inputs) \<Longrightarrow> i \<in> set inputs"
proof -
  assume "i \<in> set (sampled config inputs)"
  then have "i \<in> snd ` set (List.enumerate 0 (take (cf_batch_bound config) inputs))" by (force simp: sampled_def)
  then have "i \<in> set (map snd (List.enumerate 0 (take (cf_batch_bound config) inputs)))" by (simp only: set_map)
  then have "i \<in> set (take (cf_batch_bound config) inputs)" by simp
  then show ?thesis by (rule in_set_takeD)
qed

section \<open>Bounds\<close>

lemma bound_value_length: "length (bound_value s) \<le> MAX_ATTR_LEN"
  using back_to_boundary_le [of s MAX_ATTR_LEN] by (simp add: bound_value_def min_le_iff_disj)

lemma redact_pairs_value:
  "(k, v) \<in> set (redact_pairs ps redactor) \<Longrightarrow>
     (\<exists>u. (k, u) \<in> set ps \<and> v = bound_value (redact redactor u))
     \<or> k = DROPPED_MARKER_KEY \<and> v = show_nat (length ps - MAX_ATTRS)"
  by (auto simp: redact_pairs_def Let_def min_def dest: in_set_takeD split: if_splits)

lemma redact_pairs_length: "length (redact_pairs ps redactor) \<le> Suc MAX_ATTRS"
  by (simp add: redact_pairs_def Let_def min_def)

section \<open>Headers\<close>

lemma truncate_fields [simp]:
  "fm_seq (FrameMeta.truncate f) = fm_seq f" "fm_kind (FrameMeta.truncate f) = fm_kind f"
  "fm_task_id (FrameMeta.truncate f) = fm_task_id f" "fm_job_id (FrameMeta.truncate f) = fm_job_id f"
  "fm_visibility (FrameMeta.truncate f) = fm_visibility f" "fm_redaction (FrameMeta.truncate f) = fm_redaction f"
  by (simp_all add: FrameMeta.truncate_def)

lemma frame_header_truncate: "frame_header f = FrameMeta.truncate f"
  by (simp add: frame_header_def FrameMeta.truncate_def Let_def meta_timestamp_def meta_redaction_def meta_visibility_def
      meta_actor_def meta_task_def meta_job_def FrameMeta_new_def split: option.splits)

definition headers :: "EventLog \<Rightarrow> FrameMeta list" where
  "headers log = map (\<lambda>d. FrameMeta.truncate (fst d)) (log_iter log)"

definition header_input :: "(u64 \<rightharpoonup> ToolReceipt) \<Rightarrow> UsageBySeq \<Rightarrow> FrameMeta \<Rightarrow> FrameInput" where
  "header_input rs usage m =
     \<lparr>fi_meta = m, fi_receipt = (if fm_kind m = ToolCallCompleted then rs (seq_no (fm_seq m)) else None),
      fi_recorded = (if is_model_kind (fm_kind m) then usage_get usage (fm_seq m) else None)\<rparr>"

lemma frame_refs_headers:
  "frame_refs log = map (\<lambda>m. \<lparr>fr_seq = fm_seq m, fr_tool_completed = (fm_kind m = ToolCallCompleted),
     fr_task_id = fm_task_id m, fr_job_id = fm_job_id m\<rparr>) (headers log)"
  by (simp add: frame_refs_def headers_def)

lemma inputs_headers:
  "map (\<lambda>d. frame_input rs usage (fst d)) (filter (\<lambda>d. P (fm_seq (fst d))) (log_iter log)) =
     map (header_input rs usage) (filter (\<lambda>m. P (fm_seq m)) (headers log))"
  by (simp add: headers_def filter_map comp_def frame_input_def header_input_def frame_header_truncate)

definition joined_receipts :: "EventLog \<Rightarrow> ToolReceipt list \<Rightarrow> u64 \<rightharpoonup> ToolReceipt" where
  "joined_receipts log receipts =
     (case verify_against_log receipts (frame_refs log) of Joined _ \<Rightarrow> first_receipts receipts | JoinBroken _ _ \<Rightarrow> Map.empty)"

lemma run_log_headers:
  "run_log log receipts usage lo hi config redactor e x =
     telemetry_run (map (header_input (joined_receipts log receipts) usage)
       (filter (\<lambda>m. \<not> (seq_no (fm_seq m) < lo \<or> seq_no (fm_seq m) > hi)) (headers log))) config redactor e x"
proof (cases "cf_enabled config")
  case True
  have j: "(if (case s of Joined _ \<Rightarrow> True | JoinBroken _ _ \<Rightarrow> False) then m else Map.empty) =
      (case s of Joined _ \<Rightarrow> m | JoinBroken _ _ \<Rightarrow> Map.empty)" for s and m :: "u64 \<rightharpoonup> ToolReceipt"
    by (cases s) simp_all
  show ?thesis
    using True inputs_headers [where P = "\<lambda>q. \<not> (seq_no q < lo \<or> seq_no q > hi)" and log = log and usage = usage]
    by (simp only: run_log_def Let_def joined_receipts_def j not_True_eq_False if_False)
qed (simp add: run_log_def telemetry_run_def)

section \<open>Properties\<close>

text \<open>
  C40. Telemetry never reads a payload. Two logs whose frames have the same headers (sequence number, kind,
  actor, task, job, time, visibility, redaction) give the same exports and the same report, whatever
  their payloads are.
\<close>

theorem telemetry_ignores_payloads:
  assumes "headers a = headers b"
  shows "run_log a receipts usage lo hi config redactor e x = run_log b receipts usage lo hi config redactor e x"
  using assms by (simp add: run_log_headers joined_receipts_def frame_refs_headers)

theorem telemetry_ignores_payloads_witness:
  "run_log demo_log [] UsageBySeq_new 0 9 enabled_in_memory Redactor_new InMemoryExporter [] =
   run_log (fst (append_frame EventLog_new demo_meta [7])) [] UsageBySeq_new 0 9 enabled_in_memory Redactor_new InMemoryExporter []"
proof (rule telemetry_ignores_payloads)
  let ?log = "fst (append_frame EventLog_new demo_meta [7])"
  have "frame_ok (framed GENESIS_PREV_HASH demo_meta [7])"
    by (rule framed_ok) (simp_all add: GENESIS_PREV_HASH_def)
  then have len: "length (el_bytes ?log) \<le> usize_max"
    by (simp add: append_frame_eq Let_def EventLog_new_def frame_ok_def length_frame_bytes)
  have "log_iter ?log = log_iter EventLog_new @ [framed (el_head_hash EventLog_new) demo_meta [7]]"
    by (rule log_iter_append [OF new_log_inv(2) _ _ prod.collapse [symmetric] len]) (simp_all add: last_seq_def new_log_inv(1))
  moreover have "log_iter EventLog_new = []" by (simp add: log_iter_def EventLog_new_def frame_iter.simps)
  ultimately show "headers demo_log = headers ?log"
    by (simp add: headers_def demo_iter framed_def FrameMeta.defs)
qed

text \<open>
  Every exported value has passed the gate. A run over a log hands the exporter, frame by frame, one
  span whose name is fixed by the event kind and at most 65 attributes; the value of each is the
  redacted value of a projected attribute cut to 1024 bytes, or the number of attributes dropped. Of
  an internal or redacted frame only the kind and the sequence number are exported. A disabled
  configuration exports nothing.
\<close>

theorem exports_gated:
  "\<exists>ps. fst (run_log log receipts usage lo hi config redactor e x) =
       (if cf_enabled config then xp_flush e (foldl (export_frame e) x ps) else x)
     \<and> (\<forall>p\<in>set ps. \<exists>m r u. m \<in> set (headers log) \<and> pf_metrics p = []
          \<and> pf_spans p = [\<lparr>sm_name = span_name (fm_kind m), sm_attrs = redact_pairs
               (if payload_derived_suppressed m
                then [(''crustcore.event.kind'', debug_kind (fm_kind m)),
                      (''crustcore.event.seq'', show_nat (unat (seq_no (fm_seq m))))]
                else base_attrs m @ kind_attrs (fm_kind m) r u) redactor\<rparr>])"
proof -
  let ?in = "map (header_input (joined_receipts log receipts) usage)
       (filter (\<lambda>m. \<not> (seq_no (fm_seq m) < lo \<or> seq_no (fm_seq m) > hi)) (headers log))"
  have s: "i \<in> set ?in" if "i \<in> set (sampled config ?in)" for i
    using that by (rule sampled_from)
  have "\<exists>m r u. m \<in> set (headers log) \<and> pf_metrics p = []
          \<and> pf_spans p = [\<lparr>sm_name = span_name (fm_kind m), sm_attrs = redact_pairs
               (if payload_derived_suppressed m
                then [(''crustcore.event.kind'', debug_kind (fm_kind m)),
                      (''crustcore.event.seq'', show_nat (unat (seq_no (fm_seq m))))]
                else base_attrs m @ kind_attrs (fm_kind m) r u) redactor\<rparr>]"
    if p: "p \<in> set (map (exported redactor) (sampled config ?in))" for p
  proof -
    obtain i where i': "i \<in> set (sampled config ?in)" "p = exported redactor i" using p unfolding set_map by blast
    note i = s [OF i'(1)] i'(2)
    then have "fi_meta i \<in> set (headers log)" by (auto simp: header_input_def)
    then show ?thesis
      unfolding i(2)
      by (intro exI [of _ "fi_meta i"] exI [of _ "fi_receipt i"] exI [of _ "fi_recorded i"])
        (simp add: exported_def redact_frame_def redact_span_def project_frame_def minimal_span_def)
  qed
  then show ?thesis
    by (intro exI [of _ "map (exported redactor) (sampled config ?in)"]) (simp add: run_log_headers run_exports)
qed

end
