(* ===== verification/Parse_Text.thy ===== *)
theory Parse_Text
  imports Netproto_Props
begin

text \<open>
  Reading text the way the standard library does: an unsigned number of a given width (\<^verbatim>\<open>str::parse\<close>: decimal
  digits, after an optional plus sign, whose value fits) and the words of a text.
\<close>

definition parse_unsigned :: "nat \<Rightarrow> string \<Rightarrow> nat option" where
  "parse_unsigned w s =
     (let ds = (if prefix ''+'' s then tl s else s); v = digits_value (map of_char ds) in
      if ds \<noteq> [] \<and> list_all (\<lambda>c. is_ascii_digit (of_char c)) ds \<and> v < 2 ^ w then Some v else None)"

lemma parse_shown: "n < 2 ^ w \<Longrightarrow> parse_unsigned w (show_nat n) = Some n"
proof -
  have "show_nat n \<noteq> []" by (subst show_nat.simps) simp
  moreover have "\<not> prefix ''+'' (show_nat n)" using numeric_no [OF show_nat_numeric [of n]] by (auto simp: prefix_def)
  ultimately show "n < 2 ^ w \<Longrightarrow> ?thesis"
    using show_nat_digits [of n] by (simp add: parse_unsigned_def list_all_iff)
qed

lemma parse_bound: "parse_unsigned w s = Some n \<Longrightarrow> n < 2 ^ w"
  by (auto simp: parse_unsigned_def Let_def split: if_splits)

text \<open>\<^verbatim>\<open>str::split_whitespace\<close>, on the scalar values of a text.\<close>

fun words_loop :: "scalar list \<Rightarrow> scalar list \<Rightarrow> scalar list list" where
  "words_loop word [] = (if word = [] then [] else [word])"
| "words_loop word (c # cs) =
     (if is_whitespace c then (if word = [] then words_loop [] cs else word # words_loop [] cs)
      else words_loop (word @ [c]) cs)"

definition words_of :: "scalar list \<Rightarrow> scalar list list" where
  "words_of cs = words_loop [] cs"

lemma words_loop_single: "\<forall>c\<in>set cs. \<not> is_whitespace c \<Longrightarrow> word @ cs \<noteq> [] \<Longrightarrow> words_loop word cs = [word @ cs]"
  by (induction word cs rule: words_loop.induct) auto

definition split_whitespace :: "string \<Rightarrow> string list" where
  "split_whitespace s = map utf8 (words_of (chars s))"

end
