(* ===== verification/Mcp.thy ===== *)
theory Mcp
  imports Secrets Receipts Parse_Text "HOL-Library.Sublist" "HOL-Library.List_Lexorder" "HOL-Library.Char_ord"
begin

text \<open>
  The gateway to tool servers (\<^verbatim>\<open>crates/crustcore-mcp\<close>): the registry and the gateway decision, the gated
  call with its credential, the redacted and receipted result, the server mode, and the framing of
  messages. JSON values are data; writing and parsing their text (\<^verbatim>\<open>serde_json\<close>) are parameters, and so
  are the transport to a server and the handler of a served tool. A stream is its bytes.
\<close>

section \<open>JSON values\<close>

datatype Number = PosInt u64 | NegInt int | Float u64

datatype Value =
    VNull | VBool bool | VNumber Number | VString string | VArray "Value list" | VObject "(string \<times> Value) list"

fun value_get :: "Value \<Rightarrow> string \<Rightarrow> Value option" where
  "value_get (VObject ms) k = map_of ms k"
| "value_get _ k = None"

fun value_as_str :: "Value \<Rightarrow> string option" where
  "value_as_str (VString s) = Some s"
| "value_as_str _ = None"

fun value_as_i64 :: "Value \<Rightarrow> int option" where
  "value_as_i64 (VNumber (PosInt n)) = (if uint n < 2 ^ 63 then Some (uint n) else None)"
| "value_as_i64 (VNumber (NegInt i)) = Some i"
| "value_as_i64 _ = None"

fun value_as_array :: "Value \<Rightarrow> Value list option" where
  "value_as_array (VArray vs) = Some vs"
| "value_as_array _ = None"

section \<open>The registry (lib.rs)\<close>

definition MAX_MCP_SUMMARY :: nat where
  "MAX_MCP_SUMMARY = 16 * 1024"

datatype TrustLevel = Untrusted | SemiTrusted | Trusted

datatype McpServerId = McpServerId (server_no: u64)

datatype McpServerSource = LocalBinary string | RemoteUrl string | Package string

datatype McpTransport = Stdio | Http

datatype McpAuthMode = AuthNone | BrokerSecret SecretId

datatype ToolDecision = Allow | Ask | DenyTool

record McpToolPolicy =
  mp_tool :: string
  mp_decision :: ToolDecision

record McpServerRecord =
  ms_id :: McpServerId
  ms_source :: McpServerSource
  ms_transport :: McpTransport
  ms_version :: "string option"
  ms_manifest_hash :: "bytes option"
  ms_auth :: McpAuthMode
  ms_trust_level :: TrustLevel
  ms_allowed_repos :: "RepoRef list"
  ms_tool_policies :: "McpToolPolicy list"

definition tool_decision :: "McpServerRecord \<Rightarrow> string \<Rightarrow> ToolDecision option" where
  "tool_decision r tool = map_option mp_decision (find (\<lambda>p. mp_tool p = tool) (ms_tool_policies r))"

definition allows_repo :: "McpServerRecord \<Rightarrow> string \<Rightarrow> bool" where
  "allows_repo r repo = list_ex (\<lambda>x. as_str (repo_text x) = repo) (ms_allowed_repos r)"

type_synonym McpRegistry = "u64 \<rightharpoonup> McpServerRecord"

definition register_server :: "McpRegistry \<Rightarrow> McpServerRecord \<Rightarrow> McpRegistry" where
  "register_server reg r = reg(server_no (ms_id r) \<mapsto> r)"

definition registry_get :: "McpRegistry \<Rightarrow> McpServerId \<Rightarrow> McpServerRecord option" where
  "registry_get reg i = reg (server_no i)"

section \<open>The gateway\<close>

datatype GatewayDeny = UnknownServer | ManifestDrift | RepoNotAllowed | ToolNotAllowed | ToolDenied

datatype GatewayDecision = GatewayAllow | GatewayAsk | GatewayDenied GatewayDeny

definition gateway_check :: "McpRegistry \<Rightarrow> McpServerId \<Rightarrow> string \<Rightarrow> string \<Rightarrow> bytes option \<Rightarrow> GatewayDecision" where
  "gateway_check reg server tool repo live_manifest_hash =
     (case registry_get reg server of
        None \<Rightarrow> GatewayDenied UnknownServer
      | Some r \<Rightarrow>
          if (case (ms_manifest_hash r, live_manifest_hash) of (Some pinned, Some live) \<Rightarrow> pinned \<noteq> live | _ \<Rightarrow> False)
          then GatewayDenied ManifestDrift
          else if \<not> allows_repo r repo then GatewayDenied RepoNotAllowed
          else case tool_decision r tool of
                 None \<Rightarrow> GatewayDenied ToolNotAllowed
               | Some DenyTool \<Rightarrow> GatewayDenied ToolDenied
               | Some Ask \<Rightarrow> GatewayAsk
               | Some Allow \<Rightarrow> GatewayAllow)"

section \<open>Results\<close>

record McpResult =
  mr_summary :: ModelVisibleText
  mr_artifact_hash :: bytes
  mr_receipt :: ToolReceipt

record McpCallIds =
  mi_task_id :: TaskId
  mi_job_id :: JobId
  mi_tool_call_id :: ToolCallId
  mi_event_seq :: EventSeq

definition bounded :: "ModelVisibleText \<Rightarrow> nat \<Rightarrow> ModelVisibleText" where
  "bounded mvt mx = to_model_visible Redactor_new (as_str (truncated (visible_str mvt) mx))"

definition filter_result ::
  "McpServerId \<Rightarrow> string \<Rightarrow> bytes \<Rightarrow> bytes \<Rightarrow> Redactor \<Rightarrow> ReceiptChain \<Rightarrow> McpCallIds \<Rightarrow> ReceiptChain \<times> McpResult" where
  "filter_result server tool call_args raw_output redactor receipts ids =
     (let artifact_hash = sha256 raw_output;
          redacted_text = to_model_visible redactor (utf8_lossy raw_output);
          summary = bounded redacted_text MAX_MCP_SUMMARY;
          tool_name = ''mcp:'' @ show_nat (unat (server_no server)) @ '':'' @ tool;
          (receipts', receipt) = mint receipts
            \<lparr>rp_task_id = mi_task_id ids, rp_job_id = mi_job_id ids, rp_tool_call_id = mi_tool_call_id ids,
             rp_tool_name = as_bytes tool_name, rp_args = call_args, rp_result = as_bytes (visible_str summary),
             rp_artifacts = [ArtifactId artifact_hash], rp_event_seq = mi_event_seq ids\<rparr>
      in (receipts', \<lparr>mr_summary = summary, mr_artifact_hash = artifact_hash, mr_receipt = receipt\<rparr>))"

definition wrap_untrusted :: "string \<Rightarrow> Redactor \<Rightarrow> ModelVisibleText" where
  "wrap_untrusted s redactor = bounded (to_model_visible redactor s) MAX_MCP_SUMMARY"

record StubDescriptor =
  sd_server :: McpServerId
  sd_tool :: string
  sd_signature :: string

definition generate_stubs :: "McpServerRecord \<Rightarrow> string list \<Rightarrow> StubDescriptor list" where
  "generate_stubs r used_tools =
     map (\<lambda>t. \<lparr>sd_server = ms_id r, sd_tool = t, sd_signature = ''fn '' @ t @ ''(args: Json) -> McpResult''\<rparr>)
       (filter (\<lambda>t. tool_decision r t \<in> {Some ToolDecision.Allow, Some Ask}) used_tools)"

section \<open>The gated call\<close>

datatype CallOutcome = Done McpResult | CallDenied GatewayDeny | NeedsApproval | CredentialUnavailable SecretId

datatype McpError = Transport string | Rpc int string | BadResponse string

record 's McpAuthContext =
  ac_broker :: "'s SecretBroker"
  ac_approval_id :: ApprovalId
  ac_now :: Timestamp
  ac_ttl_millis :: u64
  ac_label :: string

fun resolve_auth ::
  "('s \<Rightarrow> SecretId \<Rightarrow> SecretMaterial option) \<Rightarrow> McpAuthMode \<Rightarrow> 's McpAuthContext option \<Rightarrow> SecretId + HeaderInjection option" where
  "resolve_auth get AuthNone ctx = Inr None"
| "resolve_auth get (BrokerSecret secret_id) None = Inl secret_id"
| "resolve_auth get (BrokerSecret secret_id) (Some ctx) =
     (case authorize get (ac_broker ctx) secret_id (ac_approval_id ctx) (ac_now ctx) (ac_ttl_millis ctx) of
        Inl _ \<Rightarrow> Inl secret_id
      | Inr view \<Rightarrow>
          (case snd (bearer view (ac_now ctx) (ac_label ctx)) of
             Inl _ \<Rightarrow> Inl secret_id
           | Inr injection \<Rightarrow> Inr (Some injection)))"

record ToolCall =
  tc_server :: McpServerId
  tc_tool :: string
  tc_repo :: string
  tc_args :: Value
  tc_live_manifest_hash :: "bytes option"

type_synonym 'w mcp_transport = "'w \<Rightarrow> string \<Rightarrow> Value \<Rightarrow> HeaderInjection option \<Rightarrow> 'w \<times> (McpError + Value)"

definition call_tool ::
  "('s \<Rightarrow> SecretId \<Rightarrow> SecretMaterial option) \<Rightarrow> (Value \<Rightarrow> bytes) \<Rightarrow> McpRegistry \<Rightarrow> ToolCall \<Rightarrow> 'w mcp_transport
     \<Rightarrow> 's McpAuthContext option \<Rightarrow> Redactor \<Rightarrow> ReceiptChain \<Rightarrow> McpCallIds \<Rightarrow> 'w
     \<Rightarrow> 'w \<times> ReceiptChain \<times> (McpError + CallOutcome)" where
  "call_tool get to_vec reg c transport auth_ctx redactor receipts ids w =
     (case gateway_check reg (tc_server c) (tc_tool c) (tc_repo c) (tc_live_manifest_hash c) of
        GatewayDenied reason \<Rightarrow> (w, receipts, Inr (CallDenied reason))
      | GatewayAsk \<Rightarrow> (w, receipts, Inr NeedsApproval)
      | GatewayAllow \<Rightarrow>
          let auth_mode = (case registry_get reg (tc_server c) of None \<Rightarrow> AuthNone | Some r \<Rightarrow> ms_auth r) in
          (case resolve_auth get auth_mode auth_ctx of
             Inl secret_id \<Rightarrow> (w, receipts, Inr (CredentialUnavailable secret_id))
           | Inr injection \<Rightarrow>
               (case transport w ''tools/call''
                       (VObject [(''name'', VString (tc_tool c)), (''arguments'', tc_args c)]) injection of
                  (w', Inl e) \<Rightarrow> (w', receipts, Inl e)
                | (w', Inr answer) \<Rightarrow>
                    let (receipts', result) =
                          filter_result (tc_server c) (tc_tool c) (to_vec (tc_args c)) (to_vec answer) redactor receipts ids
                    in (w', receipts', Inr (Done result)))))"

section \<open>Listing and the manifest (transport.rs)\<close>

definition json_i64 :: "int \<Rightarrow> Value" where
  "json_i64 i = VNumber (if 0 \<le> i then PosInt (of_int i) else NegInt i)"

definition build_request_envelope :: "int \<Rightarrow> string \<Rightarrow> Value \<Rightarrow> Value" where
  "build_request_envelope i method params =
     VObject [(''jsonrpc'', VString ''2.0''), (''id'', json_i64 i), (''method'', VString method), (''params'', params)]"

definition parse_rpc_result :: "Value \<Rightarrow> McpError + Value" where
  "parse_rpc_result v =
     (case (case value_get v ''error'' of Some e \<Rightarrow> if e \<noteq> VNull then Some e else None | None \<Rightarrow> None) of
        Some err \<Rightarrow>
          Inl (Rpc (case Option.bind (value_get err ''code'') value_as_i64 of Some c \<Rightarrow> c | None \<Rightarrow> 0)
                   (case Option.bind (value_get err ''message'') value_as_str of Some m \<Rightarrow> m | None \<Rightarrow> ''error''))
      | None \<Rightarrow> ok_or (value_get v ''result'') (BadResponse ''no result/error member''))"

record ToolDescriptor =
  td_name :: string
  td_description :: string

definition describe_tool :: "Value \<Rightarrow> ToolDescriptor option" where
  "describe_tool t =
     map_option (\<lambda>name. \<lparr>td_name = name,
         td_description = (case Option.bind (value_get t ''description'') value_as_str of Some d \<Rightarrow> d | None \<Rightarrow> [])\<rparr>)
       (Option.bind (value_get t ''name'') value_as_str)"

definition list_tools :: "'w mcp_transport \<Rightarrow> 'w \<Rightarrow> 'w \<times> (McpError + ToolDescriptor list)" where
  "list_tools transport w =
     (let (w', res) = transport w ''tools/list'' (VObject []) None in
      (w', and_then res (\<lambda>result.
         and_then (ok_or (Option.bind (value_get result ''tools'') value_as_array) (BadResponse ''tools/list: no tools array''))
           (\<lambda>tools. Inr (List.map_filter describe_tool tools)))))"

definition manifest_bytes :: "string list \<Rightarrow> bytes" where
  "manifest_bytes names = concat (map (\<lambda>n. as_bytes n @ [0]) (remdups_adj (sort names)))"

definition manifest_hash :: "ToolDescriptor list \<Rightarrow> bytes" where
  "manifest_hash tools = sha256 (manifest_bytes (map td_name tools))"

section \<open>Framing\<close>

definition MAX_MESSAGE_BYTES :: nat where
  "MAX_MESSAGE_BYTES = 8 * 1024 * 1024"

definition MAX_HEADER_BYTES :: nat where
  "MAX_HEADER_BYTES = 8 * 1024"

text \<open>\<^verbatim>\<open>take(n).read_until(b'\\n')\<close>: up to and including the first line feed, at most \<^verbatim>\<open>n\<close> bytes.\<close>

definition read_until_lf :: "nat \<Rightarrow> bytes \<Rightarrow> bytes \<times> bytes" where
  "read_until_lf n s =
     (let avail = take n s;
          k = (case position (\<lambda>b. b = 10) avail of Some i \<Rightarrow> i + 1 | None \<Rightarrow> length avail)
      in (take k s, drop k s))"

definition trim_end_crlf :: "string \<Rightarrow> string" where
  "trim_end_crlf s = rev (dropWhile (\<lambda>c. c = CHR 0x0D \<or> c = CHR 0x0A) (rev s))"

definition parse_usize :: "string \<Rightarrow> nat option" where
  "parse_usize s = parse_unsigned 64 s"

definition header_length :: "string \<Rightarrow> nat option \<Rightarrow> nat option" where
  "header_length trimmed content_len =
     (if prefix ''Content-Length:'' trimmed then parse_usize (str_trim (drop 15 trimmed)) else content_len)"

function read_headers :: "nat \<Rightarrow> nat option \<Rightarrow> bytes \<Rightarrow> bytes \<times> (McpError + nat option)" where
  "read_headers header_total content_len s =
     (if header_total \<ge> MAX_HEADER_BYTES then (s, Inl (BadResponse ''headers exceed size cap''))
      else let (line, s') = read_until_lf (MAX_HEADER_BYTES - header_total) s in
           if line = [] then (s', Inl (Transport ''server closed the connection''))
           else let trimmed = trim_end_crlf (utf8_lossy line) in
                if trimmed = [] then (s', Inr content_len)
                else read_headers (header_total + length line) (header_length trimmed content_len) s')"
  by pat_completeness auto
termination
  by (relation "measure (\<lambda>(header_total, _, _). MAX_HEADER_BYTES - header_total)")
    (auto intro!: diff_less_mono2)

declare read_headers.simps [simp del]

definition read_framed_message ::
  "(bytes \<Rightarrow> string + Value) \<Rightarrow> string \<Rightarrow> bytes \<Rightarrow> bytes \<times> (McpError + Value)" where
  "read_framed_message from_slice eof_error s =
     (case read_headers 0 None s of
        (s', Inl e) \<Rightarrow> (s', Inl e)
      | (s', Inr None) \<Rightarrow> (s', Inl (BadResponse ''no Content-Length''))
      | (s', Inr (Some len)) \<Rightarrow>
          if len > MAX_MESSAGE_BYTES then (s', Inl (BadResponse ''message exceeds size cap''))
          else if length s' < len then ([], Inl (Transport eof_error))
          else (drop len s', (case from_slice (take len s') of Inl e \<Rightarrow> Inl (BadResponse e) | Inr v \<Rightarrow> Inr v)))"

definition frame_message :: "bytes \<Rightarrow> bytes" where
  "frame_message body = as_bytes (''Content-Length: '' @ show_nat (length body) @ [CHR 0x0D, CHR 0x0A, CHR 0x0D, CHR 0x0A]) @ body"

section \<open>The two transports\<close>

text \<open>
  A transport keeps the number of its next request. The child process of the first, which is given
  bytes and adds to what it has written, and the server of the second, which is given a body and a header and
  answers with a body, are parameters.
\<close>

fun mcp_error_message :: "McpError \<Rightarrow> string" where
  "mcp_error_message (Transport e) = ''mcp transport: '' @ e"
| "mcp_error_message (Rpc code message) = ''mcp rpc '' @ show_int code @ '': '' @ message"
| "mcp_error_message (BadResponse e) = ''mcp bad response: '' @ e"

definition next_request_id :: "int \<Rightarrow> int" where
  "next_request_id i = min (2 ^ 63 - 1) (i + 1)"

record 'c StdioMcp =
  st_child :: 'c
  st_stdout :: bytes
  st_next_id :: int

definition stdio_call ::
  "(Value \<Rightarrow> bytes) \<Rightarrow> (bytes \<Rightarrow> string + Value) \<Rightarrow> string \<Rightarrow> ('c \<Rightarrow> bytes \<Rightarrow> 'c \<times> (string + bytes)) \<Rightarrow> 'c StdioMcp mcp_transport" where
  "stdio_call to_vec from_slice eof_error child st method params auth =
     (let i = st_next_id st;
          st = st\<lparr>st_next_id := next_request_id i\<rparr>;
          body = to_vec (build_request_envelope i method params)
      in case child (st_child st) (frame_message body) of
           (c, Inl e) \<Rightarrow> (st\<lparr>st_child := c\<rparr>, Inl (Transport e))
         | (c, Inr written) \<Rightarrow>
             let (rest, response) = read_framed_message from_slice eof_error (st_stdout st @ written)
             in (st\<lparr>st_child := c, st_stdout := rest\<rparr>, and_then response parse_rpc_result))"

record HttpMcp =
  ht_url :: string
  ht_next_id :: int

definition parse_response :: "(bytes \<Rightarrow> string + Value) \<Rightarrow> bytes \<Rightarrow> McpError + Value" where
  "parse_response from_slice body =
     (let buf = take (MAX_MESSAGE_BYTES + 1) body in
      if length buf > MAX_MESSAGE_BYTES then Inl (BadResponse ''response exceeds size cap'')
      else case from_slice buf of Inl e \<Rightarrow> Inl (BadResponse e) | Inr response \<Rightarrow> parse_rpc_result response)"

definition http_call ::
  "(Value \<Rightarrow> bytes) \<Rightarrow> (bytes \<Rightarrow> string + Value)
     \<Rightarrow> ('w \<Rightarrow> string \<Rightarrow> (string \<times> string) list \<Rightarrow> bytes \<Rightarrow> 'w \<times> (string + bytes)) \<Rightarrow> ('w \<times> HttpMcp) mcp_transport" where
  "http_call to_vec from_slice send st method params auth =
     (let (w, h) = st;
          i = ht_next_id h;
          h = h\<lparr>ht_next_id := next_request_id i\<rparr>;
          body = to_vec (build_request_envelope i method params);
          content_type = (''Content-Type'', ''application/json'')
      in case (case auth of
                 None \<Rightarrow> Some [content_type]
               | Some inject \<Rightarrow>
                   map_option (\<lambda>v. [content_type, (hi_header_name inject, v)]) (from_utf8 (material_bytes (hi_value inject)))) of
           None \<Rightarrow> ((w, h), Inl (Transport ''auth header is not valid UTF-8''))
         | Some headers \<Rightarrow>
             (case send w (ht_url h) headers body of
                (w', Inr answer) \<Rightarrow> ((w', h), parse_response from_slice answer)
              | (w', Inl e) \<Rightarrow> ((w', h), Inl (Transport e))))"

section \<open>Server mode (server.rs)\<close>

definition ERR_METHOD_NOT_FOUND :: int where "ERR_METHOD_NOT_FOUND = - 32601"
definition ERR_TOOL_NOT_EXPOSED :: int where "ERR_TOOL_NOT_EXPOSED = - 32001"
definition ERR_TOOL_DENIED :: int where "ERR_TOOL_DENIED = - 32002"
definition ERR_TOOL_NEEDS_APPROVAL :: int where "ERR_TOOL_NEEDS_APPROVAL = - 32003"
definition ERR_TOOL_FAILED :: int where "ERR_TOOL_FAILED = - 32004"

record ExposedTool =
  et_name :: string
  et_description :: string
  et_decision :: ToolDecision

type_synonym McpServer = "ExposedTool list"

definition McpServer_new :: McpServer where
  "McpServer_new = []"

text \<open>The ordered map of tools, by name.\<close>

definition expose_tool :: "McpServer \<Rightarrow> ExposedTool \<Rightarrow> McpServer" where
  "expose_tool srv t = insort_key et_name t (filter (\<lambda>x. et_name x \<noteq> et_name t) srv)"

definition server_decision :: "McpServer \<Rightarrow> string \<Rightarrow> ToolDecision option" where
  "server_decision srv tool = map_option et_decision (find (\<lambda>t. et_name t = tool) srv)"

definition rpc_result :: "Value \<Rightarrow> Value \<Rightarrow> Value" where
  "rpc_result i result = VObject [(''jsonrpc'', VString ''2.0''), (''id'', i), (''result'', result)]"

definition rpc_error :: "Value \<Rightarrow> int \<Rightarrow> string \<Rightarrow> Value" where
  "rpc_error i code message =
     VObject [(''jsonrpc'', VString ''2.0''), (''id'', i),
       (''error'', VObject [(''code'', json_i64 code), (''message'', VString message)])]"

definition tools_list :: "McpServer \<Rightarrow> Value" where
  "tools_list srv = VObject [(''tools'', VArray (map (\<lambda>t.
     VObject [(''name'', VString (et_name t)),
       (''description'', VString (as_str (truncated (et_description t) MAX_MCP_SUMMARY)))]) srv))]"

type_synonym 'w handler = "'w \<Rightarrow> string \<Rightarrow> bytes \<Rightarrow> 'w \<times> (string + bytes)"

definition handle_call ::
  "(Value \<Rightarrow> bytes) \<Rightarrow> McpServer \<Rightarrow> Value \<Rightarrow> Value \<Rightarrow> 'w handler \<Rightarrow> Redactor \<Rightarrow> ReceiptChain \<Rightarrow> McpCallIds \<Rightarrow> 'w
     \<Rightarrow> 'w \<times> ReceiptChain \<times> Value" where
  "handle_call to_vec srv i request execute redactor receipts ids w =
     (let params = value_get request ''params'' in
      case Option.bind (Option.bind params (\<lambda>p. value_get p ''name'')) value_as_str of
        None \<Rightarrow> (w, receipts, rpc_error i ERR_TOOL_NOT_EXPOSED ''missing tool name'')
      | Some tool \<Rightarrow>
          (case server_decision srv tool of
             None \<Rightarrow> (w, receipts, rpc_error i ERR_TOOL_NOT_EXPOSED ''tool not exposed'')
           | Some DenyTool \<Rightarrow> (w, receipts, rpc_error i ERR_TOOL_DENIED ''tool denied'')
           | Some Ask \<Rightarrow> (w, receipts, rpc_error i ERR_TOOL_NEEDS_APPROVAL ''tool requires approval'')
           | Some Allow \<Rightarrow>
               let args_val = (case Option.bind params (\<lambda>p. value_get p ''arguments'') of Some a \<Rightarrow> a | None \<Rightarrow> VNull);
                   args_bytes = to_vec args_val in
               (case execute w tool args_bytes of
                  (w', Inl e) \<Rightarrow>
                    (w', receipts, rpc_error i ERR_TOOL_FAILED
                       (as_str (truncated (visible_str (to_model_visible redactor e)) MAX_MCP_SUMMARY)))
                | (w', Inr out) \<Rightarrow>
                    let summary = as_str (truncated (visible_str (to_model_visible redactor (utf8_lossy out))) MAX_MCP_SUMMARY);
                        (receipts', _) = mint receipts
                          \<lparr>rp_task_id = mi_task_id ids, rp_job_id = mi_job_id ids, rp_tool_call_id = mi_tool_call_id ids,
                           rp_tool_name = as_bytes (''mcp-server:'' @ tool), rp_args = args_bytes, rp_result = as_bytes summary,
                           rp_artifacts = [ArtifactId (sha256 out)], rp_event_seq = mi_event_seq ids\<rparr>
                    in (w', receipts', rpc_result i (VObject [(''content'',
                          VArray [VObject [(''type'', VString ''text''), (''text'', VString summary)]])])))))"

definition handle_request ::
  "(Value \<Rightarrow> bytes) \<Rightarrow> string \<Rightarrow> McpServer \<Rightarrow> Value \<Rightarrow> 'w handler \<Rightarrow> Redactor \<Rightarrow> ReceiptChain \<Rightarrow> McpCallIds \<Rightarrow> 'w
     \<Rightarrow> 'w \<times> ReceiptChain \<times> Value" where
  "handle_request to_vec version srv request execute redactor receipts ids w =
     (let i = (case value_get request ''id'' of Some v \<Rightarrow> v | None \<Rightarrow> VNull);
          method = (case Option.bind (value_get request ''method'') value_as_str of Some m \<Rightarrow> m | None \<Rightarrow> []) in
      if method = ''initialize''
      then (w, receipts, rpc_result i (VObject [(''protocolVersion'', VString ''2024-11-05''),
             (''serverInfo'', VObject [(''name'', VString ''crustcore''), (''version'', VString version)]),
             (''capabilities'', VObject [(''tools'', VObject [])])]))
      else if method = ''tools/list'' then (w, receipts, rpc_result i (tools_list srv))
      else if method = ''tools/call'' then handle_call to_vec srv i request execute redactor receipts ids w
      else (w, receipts, rpc_error i ERR_METHOD_NOT_FOUND ''method not found''))"

end
