(* ===== verification/Mcp_Props.thy ===== *)
theory Mcp_Props
  imports Mcp Receipts_Props Session_Props Netproto_Props
begin

text \<open>
  The gateway: what reaches a tool server, what comes back to the model, which served tools a client can
  run, what the manifest hash identifies, and the framing of messages.
\<close>

section \<open>Results\<close>

lemma redact_empty [simp]: "redact Redactor_new t = t"
  by (rule redact_untouched) (simp add: secret_def Redactor_new_def)

lemma bounded_prefix:
  "visible_str (bounded t mx) = as_str (truncated (visible_str t) mx)" "length (visible_str (bounded t mx)) \<le> mx"
  using truncated_bounded [of "visible_str t" mx] by (simp_all add: bounded_def to_model_visible_def BoundedText_len_def)

lemma truncated_is_prefix: "prefix (as_str (truncated s mx)) s"
  by (simp add: truncated_def take_is_prefix)

lemma mint_matches:
  assumes "mint chain p = (chain', r)" "length (rp_artifacts p) \<le> MAX_RECEIPT_ARTIFACTS"
  shows "result_matches r (rp_result p) \<and> args_matches r (rp_args p)
     \<and> tr_artifact_hashes r = rp_artifacts p \<and> tr_event_seq r = rp_event_seq p"
  using assms by (auto simp: mint_def Let_def result_matches_def args_matches_def)

section \<open>The manifest\<close>

definition nul_free :: "string \<Rightarrow> bool" where
  "nul_free s = (CHR 0x00 \<notin> set s)"

lemma as_bytes_nul: "nul_free s \<Longrightarrow> 0 \<notin> set (as_bytes s)"
proof -
  have "of_bytes [0] = [CHR 0x00]" by code_simp
  then have "c = CHR 0x00" if "of_char c = (0 :: u8)" for c
    using that as_bytes_eq_iff [of "[c]" "[0]"] by (simp add: as_bytes_def)
  then show "nul_free s \<Longrightarrow> 0 \<notin> set (as_bytes s)" by (auto simp: nul_free_def as_bytes_def)
qed

lemma split_at_sep:
  assumes "c \<notin> set a" "c \<notin> set b" "a @ c # x = b @ c # y"
  shows "a = b \<and> x = y"
proof -
  have "takeWhile (\<lambda>z. z \<noteq> c) (d @ c # z) = d" if "c \<notin> set d" for d z
    using that by (induction d) auto
  from this [OF assms(1), of x] this [OF assms(2), of y] assms(3) show ?thesis by simp
qed

lemma nul_lists_inj:
  "list_all nul_free xs \<Longrightarrow> list_all nul_free ys \<Longrightarrow>
     concat (map (\<lambda>n. as_bytes n @ [0]) xs) = concat (map (\<lambda>n. as_bytes n @ [0]) ys) \<Longrightarrow> xs = ys"
proof (induction xs arbitrary: ys)
  case Nil
  then show ?case by (cases ys) simp_all
next
  case (Cons x xs)
  then obtain y ys' where y: "ys = y # ys'" by (cases ys) auto
  have "as_bytes x @ 0 # concat (map (\<lambda>n. as_bytes n @ [0]) xs) = as_bytes y @ 0 # concat (map (\<lambda>n. as_bytes n @ [0]) ys')"
    using Cons.prems(3) by (simp add: y)
  from split_at_sep [OF as_bytes_nul as_bytes_nul this]
  have "as_bytes x = as_bytes y" "concat (map (\<lambda>n. as_bytes n @ [0]) xs) = concat (map (\<lambda>n. as_bytes n @ [0]) ys')"
    using Cons.prems(1,2) by (simp_all add: y)
  then show ?case using Cons.IH [of ys'] Cons.prems(1,2) as_bytes_eq_iff [of x "as_bytes y"] by (simp add: y)
qed

lemma distinct_sorted_adj: "sorted xs \<Longrightarrow> distinct (remdups_adj xs)" for xs :: "'a :: linorder list"
  by (induction xs rule: remdups_adj.induct) auto

lemma manifest_bytes_iff:
  assumes "list_all nul_free xs" "list_all nul_free ys"
  shows "manifest_bytes xs = manifest_bytes ys \<longleftrightarrow> set xs = set ys"
proof
  assume "manifest_bytes xs = manifest_bytes ys"
  then have "remdups_adj (sort xs) = remdups_adj (sort ys)"
    using assms by (intro nul_lists_inj) (auto simp: list_all_iff manifest_bytes_def)
  then have "set (remdups_adj (sort xs)) = set (remdups_adj (sort ys))" by simp
  then show "set xs = set ys" by simp
next
  assume "set xs = set ys"
  then have "remdups_adj (sort xs) = remdups_adj (sort ys)"
    by (intro sorted_distinct_set_unique) (simp_all add: distinct_sorted_adj)
  then show "manifest_bytes xs = manifest_bytes ys" by (simp add: manifest_bytes_def)
qed

text \<open>A name with a zero byte stands for two names: the separator is not escaped.\<close>

lemma nul_name_undetected:
  "manifest_bytes [''read'' @ [CHR 0x00] @ ''write''] = manifest_bytes [''read'', ''write'']"
  by code_simp

section \<open>Framing\<close>

lemma read_until_lf_line:
  assumes "10 \<notin> set l" "length l < n"
  shows "read_until_lf n (l @ 10 # s) = (l @ [10], s)"
proof -
  have "take n (l @ 10 # s) = l @ 10 # take (n - Suc (length l)) s" using assms(2) by (simp add: take_Cons')
  moreover have "takeWhile (\<lambda>b. b \<noteq> 10) (l @ 10 # t) = l" for t using assms(1) by (induction l) auto
  ultimately show ?thesis by (simp add: read_until_lf_def position_takeWhile)
qed

lemma show_nat_short: "n < 10 ^ k \<Longrightarrow> 0 < k \<Longrightarrow> length (show_nat n) \<le> k"
proof (induction k arbitrary: n)
  case (Suc k)
  show ?case
  proof (cases "n < 10")
    case False
    then have "0 < k" using Suc.prems by (cases k) auto
    then show ?thesis using Suc False by (subst show_nat.simps) (simp add: less_mult_imp_div_less)
  qed (subst show_nat.simps, simp)
qed simp

lemma lossy_ascii: "ascii s \<Longrightarrow> utf8_lossy (as_bytes s) = s"
  using valid_text_ascii [of s] lossy_utf8 [of "chars s"] by (simp add: valid_text_def)

lemma trim_space_number: "numeric s \<Longrightarrow> str_trim (CHR '' '' # s) = s"
proof -
  assume n: "numeric s"
  then have a: "ascii (CHR '' '' # s)" using numeric_ascii [OF n] by (simp add: ascii_def)
  have "chars (CHR '' '' # s) = 32 # chars s"
    using chars_ascii [OF a, of "[]"] chars_ascii [OF numeric_ascii [OF n], of "[]"] by simp
  then have "dropWhile is_whitespace (chars (CHR '' '' # s)) = dropWhile is_whitespace (chars s)"
    by (simp add: is_whitespace_def)
  then show ?thesis using numeric_trim [OF n] by (simp add: str_trim_def)
qed

lemma parse_shown_usize: "n < 2 ^ 64 \<Longrightarrow> parse_usize (show_nat n) = Some n"
  by (simp add: parse_usize_def parse_shown)

lemma numeric_line:
  assumes "numeric s"
  shows "10 \<notin> set (as_bytes s)" "CHR 0x0A \<notin> set s" "CHR 0x0D \<notin> set s"
proof -
  have "list_all (\<lambda>c. of_char c \<noteq> (10 :: u8) \<and> c \<noteq> CHR 0x0A \<and> c \<noteq> CHR 0x0D) number_chars" by code_simp
  from numeric_all [OF this assms] show "10 \<notin> set (as_bytes s)" "CHR 0x0A \<notin> set s" "CHR 0x0D \<notin> set s"
    by (auto simp: as_bytes_def)
qed

lemma trim_end_number: "numeric s \<Longrightarrow> s \<noteq> [] \<Longrightarrow> trim_end_crlf (pre @ s @ [CHR 0x0D, CHR 0x0A]) = pre @ s"
proof -
  assume a: "numeric s" "s \<noteq> []"
  then obtain c t where "rev s = c # t" by (cases "rev s") auto
  moreover have "c \<in> set s" using calculation by (metis list.set_intros(1) set_rev)
  ultimately show ?thesis
    using numeric_line(2,3) [OF a(1)] by (auto simp: trim_end_crlf_def)
qed

lemma read_headers_line:
  assumes "read_until_lf (MAX_HEADER_BYTES - seen) s = (line, s')" "trim_end_crlf (utf8_lossy line) = h"
    "seen < MAX_HEADER_BYTES" "h \<noteq> []" "line \<noteq> []"
  shows "read_headers seen len s = read_headers (seen + length line) (header_length h len) s'"
  using assms by (subst read_headers.simps) simp

lemma read_headers_end:
  assumes "read_until_lf (MAX_HEADER_BYTES - seen) s = (line, s')" "trim_end_crlf (utf8_lossy line) = []"
    "seen < MAX_HEADER_BYTES" "line \<noteq> []"
  shows "read_headers seen len s = (s', Inr len)"
  using assms by (subst read_headers.simps) simp

lemma read_headers_framed:
  assumes "n \<le> MAX_MESSAGE_BYTES"
  shows "read_headers 0 None (as_bytes (''Content-Length: '' @ show_nat n @ [CHR 0x0D, CHR 0x0A, CHR 0x0D, CHR 0x0A]) @ s) =
    (s, Inr (Some n))"
proof -
  let ?l = "as_bytes (''Content-Length: '' @ show_nat n @ [CHR 0x0D])"
  have num: "numeric (show_nat n)" "show_nat n \<noteq> []" by (rule show_nat_numeric) (subst show_nat.simps, simp)
  have short: "length (show_nat n) \<le> 7" using assms by (intro show_nat_short) (simp_all add: MAX_MESSAGE_BYTES_def)
  have "10 \<notin> set ?l" using numeric_line(1) [OF num(1)] by (auto simp: as_bytes_def)
  then have r1: "read_until_lf MAX_HEADER_BYTES (?l @ 10 # as_bytes [CHR 0x0D, CHR 0x0A] @ s) =
      (?l @ [10], as_bytes [CHR 0x0D, CHR 0x0A] @ s)"
    using short by (intro read_until_lf_line) (simp_all add: MAX_HEADER_BYTES_def)
  have l1: "?l @ [10] = as_bytes (''Content-Length: '' @ show_nat n @ [CHR 0x0D, CHR 0x0A])" by (simp add: as_bytes_def)
  have "ascii (''Content-Length: '' @ show_nat n @ [CHR 0x0D, CHR 0x0A])"
    using numeric_ascii [OF num(1)] by (simp add: ascii_def)
  then have t1: "trim_end_crlf (utf8_lossy (?l @ [10])) = ''Content-Length: '' @ show_nat n"
    unfolding l1 using trim_end_number [OF num, of "''Content-Length: ''"] by (simp only: lossy_ascii)
  have h: "header_length (''Content-Length: '' @ show_nat n) None = Some n"
    using assms by (simp add: header_length_def trim_space_number num parse_shown_usize MAX_MESSAGE_BYTES_def)
  have "read_until_lf (MAX_HEADER_BYTES - length (?l @ [10])) ([13] @ 10 # s) = ([13] @ [10], s)"
    using short by (intro read_until_lf_line) (simp_all add: MAX_HEADER_BYTES_def)
  moreover have "trim_end_crlf (utf8_lossy ([13] @ [10])) = []" by code_simp
  moreover have "length (?l @ [10]) < MAX_HEADER_BYTES" using short by (simp add: MAX_HEADER_BYTES_def)
  ultimately have r2: "read_headers (length (?l @ [10])) (Some n) ([13] @ 10 # s) = (s, Inr (Some n))"
    by (rule read_headers_end) simp
  have "as_bytes [CHR 0x0D, CHR 0x0A] = [13, 10]" by code_simp
  then have r1': "read_until_lf (MAX_HEADER_BYTES - 0) (?l @ 10 # [13] @ 10 # s) = (?l @ [10], [13] @ 10 # s)"
    using r1 by simp
  have "0 < MAX_HEADER_BYTES" by (simp add: MAX_HEADER_BYTES_def)
  from read_headers_line [OF r1' t1 this]
  have "read_headers 0 None (?l @ 10 # [13] @ 10 # s) = (s, Inr (Some n))" using r2 h by simp
  then show ?thesis by (simp add: as_bytes_def)
qed

section \<open>Properties\<close>

definition call_params :: "ToolCall \<Rightarrow> Value" where
  "call_params c = VObject [(''name'', VString (tc_tool c)), (''arguments'', tc_args c)]"

definition call_authorized :: "McpRegistry \<Rightarrow> ToolCall \<Rightarrow> McpServerRecord \<Rightarrow> bool" where
  "call_authorized reg c r =
     (registry_get reg (tc_server c) = Some r \<and> allows_repo r (tc_repo c) \<and> tool_decision r (tc_tool c) = Some ToolDecision.Allow
      \<and> (\<forall>pinned live. ms_manifest_hash r = Some pinned \<and> tc_live_manifest_hash c = Some live \<longrightarrow> pinned = live))"

definition credential ::
  "('s \<Rightarrow> SecretId \<Rightarrow> SecretMaterial option) \<Rightarrow> McpServerRecord \<Rightarrow> 's McpAuthContext option \<Rightarrow> HeaderInjection option \<Rightarrow> bool" where
  "credential get r ctx hdr =
     (case ms_auth r of
        AuthNone \<Rightarrow> hdr = None
      | BrokerSecret sid \<Rightarrow>
          (\<exists>x token. ctx = Some x \<and> get (sb_store (ac_broker x)) sid = Some token
             \<and> hdr = Some \<lparr>hi_header_name = ''Authorization'',
                          hi_value = SecretMaterial_new (as_bytes ''Bearer '' @ material_bytes token), hi_label = ac_label x\<rparr>))"

lemma gateway_allow_iff:
  "gateway_check reg (tc_server c) (tc_tool c) (tc_repo c) (tc_live_manifest_hash c) = GatewayAllow \<longleftrightarrow>
     (\<exists>r. call_authorized reg c r)"
  by (auto simp: gateway_check_def call_authorized_def split: option.splits ToolDecision.splits)

lemma resolve_auth_credential: "resolve_auth get (ms_auth r) ctx = Inr hdr \<Longrightarrow> credential get r ctx hdr"
  by (cases "ms_auth r"; cases ctx)
    (auto simp: credential_def authorize_def bearer_def expose_def and_then_Inr_iff ok_or_def Let_def
      split: option.splits sum.splits if_splits)

text \<open>
  C35. A tool server is reached only through the gateway. A call either leaves the world and the receipts
  untouched and reports a denial, a needed approval or an unavailable credential; or the server is
  registered, its pinned manifest does not differ from the live one, the repository is in its scope
  and the tool's policy allows it, and then exactly one request is sent, with the tool's name and
  arguments and with the credential the broker holds for this server, or with none if it needs none.
\<close>

theorem mcp_call_gated:
  assumes "call_tool get to_vec reg c transport ctx redactor receipts ids w = (w', receipts', res)"
  shows "(w' = w \<and> receipts' = receipts \<and>
           ((\<exists>d. res = Inr (CallDenied d)) \<or> res = Inr NeedsApproval \<or> (\<exists>s. res = Inr (CredentialUnavailable s))))
    \<or> (\<exists>r hdr. call_authorized reg c r \<and> credential get r ctx hdr
         \<and> w' = fst (transport w ''tools/call'' (call_params c) hdr)
         \<and> (case snd (transport w ''tools/call'' (call_params c) hdr) of
              Inl e \<Rightarrow> res = Inl e \<and> receipts' = receipts
            | Inr answer \<Rightarrow> \<exists>result. res = Inr (Done result)
                \<and> filter_result (tc_server c) (tc_tool c) (to_vec (tc_args c)) (to_vec answer) redactor receipts ids = (receipts', result)))"
proof (cases "gateway_check reg (tc_server c) (tc_tool c) (tc_repo c) (tc_live_manifest_hash c)")
  case GatewayAllow
  then obtain r where r: "call_authorized reg c r" using gateway_allow_iff by blast
  then have g: "registry_get reg (tc_server c) = Some r" by (simp add: call_authorized_def)
  show ?thesis
  proof (cases "resolve_auth get (ms_auth r) ctx")
    case (Inl s)
    then show ?thesis using assms GatewayAllow g by (auto simp: call_tool_def)
  next
    case (Inr hdr)
    obtain w1 out where t: "transport w ''tools/call'' (call_params c) hdr = (w1, out)" by fastforce
    show ?thesis
      using assms GatewayAllow g Inr t r resolve_auth_credential [OF Inr]
      by (intro disjI2 exI [of _ r] exI [of _ hdr])
        (auto simp: call_tool_def call_params_def Let_def split: sum.splits prod.splits)
  qed
qed (use assms in \<open>auto simp: call_tool_def\<close>)

definition demo_server :: McpServerRecord where
  "demo_server = \<lparr>ms_id = McpServerId 3, ms_source = Package ''files'', ms_transport = Stdio, ms_version = None,
     ms_manifest_hash = Some [1], ms_auth = AuthNone, ms_trust_level = Untrusted,
     ms_allowed_repos = [RepoRef (BoundedText ''acme/app'')],
     ms_tool_policies = [\<lparr>mp_tool = ''read'', mp_decision = ToolDecision.Allow\<rparr>]\<rparr>"

definition demo_call :: "bytes option \<Rightarrow> ToolCall" where
  "demo_call live = \<lparr>tc_server = McpServerId 3, tc_tool = ''read'', tc_repo = ''acme/app'', tc_args = VNull,
     tc_live_manifest_hash = live\<rparr>"

definition demo_ids :: McpCallIds where
  "demo_ids = \<lparr>mi_task_id = TaskId 1, mi_job_id = JobId 2, mi_tool_call_id = ToolCallId 3, mi_event_seq = EventSeq 4\<rparr>"

theorem mcp_call_gated_witness:
  "call_authorized (register_server Map.empty demo_server) (demo_call (Some [1])) demo_server
    \<and> fst (call_tool (\<lambda>_ _. None) (\<lambda>_. []) (register_server Map.empty demo_server) (demo_call (Some [1]))
         (\<lambda>w method params header. (w + 1, Inl (Transport ''down''))) (None :: unit McpAuthContext option)
         Redactor_new (ReceiptChain_new []) demo_ids (0 :: nat)) = 1"
proof -
  let ?c = "call_tool (\<lambda>_ _. None) (\<lambda>_. []) (register_server Map.empty demo_server) (demo_call (Some [1]))
         (\<lambda>w method params header. (w + 1, Inl (Transport ''down''))) (None :: unit McpAuthContext option)
         Redactor_new (ReceiptChain_new []) demo_ids (0 :: nat)"
  have a: "call_authorized (register_server Map.empty demo_server) (demo_call (Some [1])) demo_server"
    by (simp add: call_authorized_def register_server_def registry_get_def demo_server_def demo_call_def
        allows_repo_def tool_decision_def)
  then have "gateway_check (register_server Map.empty demo_server) (tc_server (demo_call (Some [1]))) (tc_tool (demo_call (Some [1])))
      (tc_repo (demo_call (Some [1]))) (tc_live_manifest_hash (demo_call (Some [1]))) = GatewayAllow"
    using gateway_allow_iff by blast
  moreover have "registry_get (register_server Map.empty demo_server) (tc_server (demo_call (Some [1]))) = Some demo_server"
    using a by (simp add: call_authorized_def)
  moreover have "ms_auth demo_server = AuthNone" by (simp add: demo_server_def)
  ultimately have "snd (snd ?c) = Inl (Transport ''down'')" by (simp add: call_tool_def)
  moreover obtain w receipts res where c: "?c = (w, receipts, res)" by (cases ?c)
  ultimately show ?thesis using a mcp_call_gated [OF c] by auto
qed

text \<open>
  What the model sees of a tool's answer is bounded, redacted and receipted. The summary is a prefix of
  the redacted answer of at most 16 KiB; the receipt the chain mints for it commits to exactly the
  summary shown, to the arguments of the call and to the hash of the whole answer.
\<close>

theorem mcp_result_receipted:
  assumes "filter_result server tool args answer redactor receipts ids = (receipts', result)"
  shows "prefix (visible_str (mr_summary result)) (redact redactor (utf8_lossy answer))
    \<and> length (visible_str (mr_summary result)) \<le> MAX_MCP_SUMMARY
    \<and> result_matches (mr_receipt result) (as_bytes (visible_str (mr_summary result)))
    \<and> args_matches (mr_receipt result) args
    \<and> tr_artifact_hashes (mr_receipt result) = [ArtifactId (sha256 answer)]
    \<and> tr_event_seq (mr_receipt result) = mi_event_seq ids"
proof -
  have "(1 :: nat) \<le> MAX_RECEIPT_ARTIFACTS" by (simp add: MAX_RECEIPT_ARTIFACTS_def)
  then show ?thesis
    using assms truncated_is_prefix [of "redact redactor (utf8_lossy answer)" MAX_MCP_SUMMARY]
      truncated_bounded [of "redact redactor (utf8_lossy answer)" MAX_MCP_SUMMARY]
    by (auto simp: filter_result_def Let_def bounded_prefix to_model_visible_def BoundedText_len_def dest!: mint_matches split: prod.splits)
qed

definition runs_tool :: "McpServer \<Rightarrow> Value \<Rightarrow> string \<Rightarrow> bool" where
  "runs_tool srv request tool =
     (Option.bind (value_get request ''method'') value_as_str = Some ''tools/call''
      \<and> Option.bind (Option.bind (value_get request ''params'') (\<lambda>p. value_get p ''name'')) value_as_str = Some tool
      \<and> server_decision srv tool = Some ToolDecision.Allow)"

definition call_arguments :: "Value \<Rightarrow> Value" where
  "call_arguments request =
     (case Option.bind (value_get request ''params'') (\<lambda>p. value_get p ''arguments'') of Some a \<Rightarrow> a | None \<Rightarrow> VNull)"

text \<open>
  A client runs only the tools the server exposes. A request runs the handler exactly when it is a call
  of a tool that is exposed and allowed, once, with the arguments it carries; every other request, listed,
  unknown, denied or waiting for an approval, leaves the world and the receipts as they were.
\<close>

theorem served_tools_gated:
  assumes "handle_request to_vec version srv request execute redactor receipts ids w = (w', receipts', answer)"
  shows "(\<exists>tool. runs_tool srv request tool
       \<and> w' = fst (execute w tool (to_vec (call_arguments request)))
       \<and> ((\<exists>e. snd (execute w tool (to_vec (call_arguments request))) = Inl e) \<longrightarrow> receipts' = receipts))
    \<or> ((\<forall>tool. \<not> runs_tool srv request tool) \<and> w' = w \<and> receipts' = receipts)"
proof (cases "\<exists>tool. runs_tool srv request tool")
  case True
  then obtain tool where r: "runs_tool srv request tool" by blast
  obtain w1 out where x: "execute w tool (to_vec (call_arguments request)) = (w1, out)" by fastforce
  show ?thesis
    using assms r x
    by (intro disjI1 exI [of _ tool])
      (auto simp: runs_tool_def handle_request_def handle_call_def call_arguments_def Let_def split: sum.splits prod.splits)
next
  case False
  then show ?thesis
    using assms by (auto simp: runs_tool_def handle_request_def handle_call_def Let_def
      split: if_splits option.splits ToolDecision.splits)
qed

theorem served_tools_gated_witness:
  "fst (handle_request (\<lambda>_. []) ''1'' (expose_tool McpServer_new \<lparr>et_name = ''rm'', et_description = [], et_decision = Ask\<rparr>)
      (VObject [(''method'', VString ''tools/call''), (''params'', VObject [(''name'', VString ''rm'')])])
      (\<lambda>w tool args. (w + 1, Inr [])) Redactor_new (ReceiptChain_new []) demo_ids (0 :: nat)) = 0"
proof -
  let ?s = "expose_tool McpServer_new \<lparr>et_name = ''rm'', et_description = [], et_decision = Ask\<rparr>"
  let ?q = "VObject [(''method'', VString ''tools/call''), (''params'', VObject [(''name'', VString ''rm'')])]"
  obtain w receipts answer where c: "handle_request (\<lambda>_. []) ''1'' ?s ?q
      (\<lambda>w tool args. (w + 1, Inr [])) Redactor_new (ReceiptChain_new []) demo_ids (0 :: nat) = (w, receipts, answer)"
    by (cases "handle_request (\<lambda>_. []) ''1'' ?s ?q
      (\<lambda>w tool args. (w + 1, Inr [])) Redactor_new (ReceiptChain_new []) demo_ids (0 :: nat)")
  have "\<not> runs_tool ?s ?q tool" for tool
    by (auto simp: runs_tool_def server_decision_def expose_tool_def McpServer_new_def)
  then show ?thesis using c served_tools_gated [OF c] by auto
qed

text \<open>
  The manifest hash identifies the set of tool names. For names without a zero byte, two lists of tools
  have the same hash exactly when they name the same tools, in whatever order and however often, unless
  their two manifests are a collision of the hash function.
\<close>

theorem manifest_hash_exact:
  assumes "list_all (nul_free \<circ> td_name) xs" "list_all (nul_free \<circ> td_name) ys"
  shows "(manifest_hash xs = manifest_hash ys \<longleftrightarrow> td_name ` set xs = td_name ` set ys)
    \<or> (manifest_bytes (map td_name xs) \<noteq> manifest_bytes (map td_name ys) \<and> manifest_hash xs = manifest_hash ys)"
  using manifest_bytes_iff [of "map td_name xs" "map td_name ys"] assms
  by (auto simp: manifest_hash_def list.pred_map)

text \<open>
  Messages are framed without loss. A reader given a framed message of at most 8 MiB followed by anything
  returns what the parser makes of exactly its body and leaves exactly what follows it.
\<close>

theorem framed_roundtrip:
  assumes "length body \<le> MAX_MESSAGE_BYTES"
  shows "read_framed_message from_slice eof_error (frame_message body @ rest) =
    (rest, case from_slice body of Inl e \<Rightarrow> Inl (BadResponse e) | Inr v \<Rightarrow> Inr v)"
  using assms read_headers_framed [OF assms, of "body @ rest"]
  by (simp add: read_framed_message_def frame_message_def)

theorem framed_roundtrip_witness:
  "read_framed_message (\<lambda>b. Inr (VArray (map (\<lambda>_. VNull) b))) [] (frame_message [1, 2] @ [3]) =
    ([3], Inr (VArray [VNull, VNull]))"
  by (subst framed_roundtrip) (simp_all add: MAX_MESSAGE_BYTES_def)

theorem manifest_hash_exact_witness:
  "manifest_hash [\<lparr>td_name = ''b'', td_description = []\<rparr>, \<lparr>td_name = ''a'', td_description = []\<rparr>] =
    manifest_hash [\<lparr>td_name = ''a'', td_description = []\<rparr>, \<lparr>td_name = ''b'', td_description = ''x''\<rparr>]"
  using manifest_hash_exact [of "[\<lparr>td_name = ''b'', td_description = []\<rparr>, \<lparr>td_name = ''a'', td_description = []\<rparr>]"
    "[\<lparr>td_name = ''a'', td_description = []\<rparr>, \<lparr>td_name = ''b'', td_description = ''x''\<rparr>]"]
  by (auto simp: nul_free_def)

end
