(* ===== verification/Supervisor.thy ===== *)
theory Supervisor
  imports Types Prelude
begin

text \<open>
  The supervisor's orchestration core (\<^verbatim>\<open>crates/crustcore-daemon/src/supervisor.rs\<close>): roles, the registry of
  agents, the budget of an agent and what is charged to it, the bounded scheduler, the blackboard and
  the integration gate.
\<close>

section \<open>Roles\<close>

datatype AgentRole =
    RoleSupervisor | Planner | Researcher | RepoAnalyst | Architect | Implementer | Tester | Reviewer | SecurityAuditor
  | DependencyAnalyst | ReleaseManager | DocumentationWriter | ExternalCodex | ExternalClaudeCode | ExternalCommand

fun is_supervisor :: "AgentRole \<Rightarrow> bool" where
  "is_supervisor RoleSupervisor = True"
| "is_supervisor _ = False"

definition can_block_integration :: "AgentRole \<Rightarrow> bool" where
  "can_block_integration r = (r \<in> {Reviewer, SecurityAuditor, Tester})"

definition is_external_worker :: "AgentRole \<Rightarrow> bool" where
  "is_external_worker r = (r \<in> {ExternalCodex, ExternalClaudeCode, ExternalCommand})"

section \<open>Budgets\<close>

record AgentBudget =
  ab_max_wall_ms :: u64
  ab_max_output_bytes :: u64
  ab_max_tokens :: u64

record AgentUsage =
  au_wall_ms :: u64
  au_output_bytes :: u64
  au_tokens :: u64

definition AgentUsage_default :: AgentUsage where
  "AgentUsage_default = \<lparr>au_wall_ms = 0, au_output_bytes = 0, au_tokens = 0\<rparr>"

datatype AgentBudgetError = Wall | OutputBytes | Tokens

definition agent_charge :: "AgentUsage \<Rightarrow> AgentUsage \<Rightarrow> AgentBudget \<Rightarrow> AgentBudgetError + AgentUsage" where
  "agent_charge u delta budget =
     (let nxt = \<lparr>au_wall_ms = saturating_add (au_wall_ms u) (au_wall_ms delta),
                 au_output_bytes = saturating_add (au_output_bytes u) (au_output_bytes delta),
                 au_tokens = saturating_add (au_tokens u) (au_tokens delta)\<rparr>
      in if au_wall_ms nxt > ab_max_wall_ms budget then Inl Wall
         else if au_output_bytes nxt > ab_max_output_bytes budget then Inl OutputBytes
         else if au_tokens nxt > ab_max_tokens budget then Inl Tokens
         else Inr nxt)"

section \<open>Agents\<close>

datatype AgentId = AgentId (agent_no: u64)

record AgentSpec =
  as_id :: AgentId
  as_role :: AgentRole
  as_budget :: AgentBudget

type_synonym AgentRegistry = "u64 \<rightharpoonup> AgentSpec"

definition register_agent :: "AgentRegistry \<Rightarrow> AgentSpec \<Rightarrow> AgentRegistry" where
  "register_agent reg spec = reg(agent_no (as_id spec) \<mapsto> spec)"

definition agent_get :: "AgentRegistry \<Rightarrow> AgentId \<Rightarrow> AgentSpec option" where
  "agent_get reg i = reg (agent_no i)"

definition agent_role :: "AgentRegistry \<Rightarrow> AgentId \<Rightarrow> AgentRole option" where
  "agent_role reg i = map_option as_role (reg (agent_no i))"

section \<open>The scheduler\<close>

datatype SpawnRefused = SpawnConcurrencyCap

record Scheduler =
  sc_max_concurrent :: nat
  sc_running :: nat

definition Scheduler_new :: "nat \<Rightarrow> Scheduler" where
  "Scheduler_new mx = \<lparr>sc_max_concurrent = max mx 1, sc_running = 0\<rparr>"

definition try_spawn :: "Scheduler \<Rightarrow> Scheduler \<times> (SpawnRefused + unit)" where
  "try_spawn s =
     (if sc_running s \<ge> sc_max_concurrent s then (s, Inl SpawnConcurrencyCap)
      else (s\<lparr>sc_running := sc_running s + 1\<rparr>, Inr ()))"

definition sched_finish :: "Scheduler \<Rightarrow> Scheduler" where
  "sched_finish s = s\<lparr>sc_running := sc_running s - 1\<rparr>"

section \<open>The blackboard\<close>

datatype AgentTarget = ToSupervisor | ToAgent AgentId | BroadcastToTeam

datatype MessageKind =
    Finding | Hypothesis | Question | Answer | Plan | PatchProposal | TestResult | Risk | CapabilityRequest | Completion

record AgentMessage =
  am_from :: AgentId
  am_from_role :: AgentRole
  am_target :: AgentTarget
  am_kind :: MessageKind
  am_payload :: BoundedText

type_synonym Blackboard = "AgentMessage list"

definition post :: "Blackboard \<Rightarrow> AgentMessage \<Rightarrow> Blackboard" where
  "post b m = b @ [m]"

definition messages_for :: "Blackboard \<Rightarrow> AgentTarget \<Rightarrow> AgentMessage list" where
  "messages_for b target = filter (\<lambda>m. am_target m = target \<or> am_target m = BroadcastToTeam) b"

definition of_kind :: "Blackboard \<Rightarrow> MessageKind \<Rightarrow> AgentMessage list" where
  "of_kind b k = filter (\<lambda>m. am_kind m = k) b"

section \<open>The integration gate\<close>

datatype Verdict = Approve | Block BoundedText

datatype IntegrationDecision = Integrate | BlockedBy AgentRole string | NotVerified | MissingReview

fun integration_loop :: "bool \<Rightarrow> (AgentRole \<times> Verdict) list \<Rightarrow> (AgentRole \<times> string) option \<times> bool" where
  "integration_loop saw [] = (None, saw)"
| "integration_loop saw ((role, verdict) # vs) =
     (if \<not> can_block_integration role then integration_loop saw vs
      else case verdict of
             Block reason \<Rightarrow> (Some (role, as_str reason), True)
           | Approve \<Rightarrow> integration_loop True vs)"

definition decide_integration :: "(AgentRole \<times> Verdict) list \<Rightarrow> bool \<Rightarrow> IntegrationDecision" where
  "decide_integration verdicts verified =
     (case integration_loop False verdicts of
        (Some (role, reason), _) \<Rightarrow> BlockedBy role reason
      | (None, saw_blocking_review) \<Rightarrow>
          if \<not> saw_blocking_review then MissingReview
          else if \<not> verified then NotVerified
          else Integrate)"

section \<open>Lemmas\<close>

definition within :: "AgentUsage \<Rightarrow> AgentBudget \<Rightarrow> bool" where
  "within u b = (au_wall_ms u \<le> ab_max_wall_ms b \<and> au_output_bytes u \<le> ab_max_output_bytes b \<and> au_tokens u \<le> ab_max_tokens b)"

lemma charge_within: "agent_charge u d b = Inr v \<Longrightarrow> within v b"
  by (auto simp: agent_charge_def Let_def within_def split: if_splits)

lemma charge_nothing: "agent_charge u AgentUsage_default b = Inr v \<longleftrightarrow> within u b \<and> v = u"
  by (cases u) (auto simp: agent_charge_def AgentUsage_default_def within_def Let_def)

lemma default_within [simp]: "within AgentUsage_default b"
  by (simp add: within_def AgentUsage_default_def)

lemma integration_loop_spec:
  "integration_loop saw vs =
     (case filter (\<lambda>(r, v). can_block_integration r \<and> v \<noteq> Approve) vs of
        (r, Block reason) # _ \<Rightarrow> (Some (r, as_str reason), True)
      | _ \<Rightarrow> (None, saw \<or> list_ex (\<lambda>(r, v). can_block_integration r) vs))"
  by (induction saw vs rule: integration_loop.induct) (auto split: Verdict.splits list.splits)

end
