(* ===== verification/Registry.thy ===== *)
theory Registry
  imports Supervisor Ordered_Map Bytes Utf8 Format
begin

text \<open>
  The registry of supervised tasks (\<^verbatim>\<open>crates/crustcore-daemon/src/registry.rs\<close>): leases, phases, the operations
  of the runtime loop, the tick that makes the lifecycle decisions, and the snapshots a restarted
  daemon recovers from. Every operation takes the time as an argument, as in the code. Reading and
  writing the dump file are left out; its bytes are modelled.
\<close>

section \<open>Removal from an ordered map\<close>

definition bt_remove :: "'k \<Rightarrow> ('k \<times> 'v) list \<Rightarrow> ('k \<times> 'v) list" where
  "bt_remove k m = filter (\<lambda>p. fst p \<noteq> k) m"

locale ordered_map_remove = ordered_map get insert entries wf
  for get :: "'m \<Rightarrow> 'k::linorder \<Rightarrow> 'v option" and insert entries wf +
  fixes remove :: "'k \<Rightarrow> 'm \<Rightarrow> 'm"
  assumes get_remove: "get (remove k m) j = (if j = k then None else get m j)"
    and wf_remove: "wf m \<Longrightarrow> wf (remove k m)"
begin

lemma entries_remove: "wf m \<Longrightarrow> set (entries (remove k m)) = {(j, v) \<in> set (entries m). j \<noteq> k}"
  using entry_iff [OF wf_remove] entry_iff by (auto simp: get_remove split: if_splits)

lemma remove_absent: "wf m \<Longrightarrow> get m k = None \<Longrightarrow> set (entries (remove k m)) = set (entries m)"
  using entry_iff [of m] by (auto simp: entries_remove)

end

lemma bt_wf_filter: "bt_wf m \<Longrightarrow> bt_wf (filter p m)"
  by (induction m) (auto simp: bt_wf_def)

lemma bt_remove_wf: "bt_wf m \<Longrightarrow> bt_wf (bt_remove k m)"
  by (simp add: bt_remove_def bt_wf_filter)

lemma bt_get_remove: "bt_get (bt_remove k m) j = (if j = k then None else bt_get m j)"
  unfolding bt_get_def bt_remove_def by (induction m) auto

interpretation btree: ordered_map_remove bt_get bt_insert "\<lambda>m. m" bt_wf bt_remove
  by unfold_locales (simp_all add: bt_get_remove bt_remove_wf)

section \<open>Leases and phases\<close>

definition TASK_LEASE_TTL_MS :: u64 where
  "TASK_LEASE_TTL_MS = 60000"

definition default_task_budget :: AgentBudget where
  "default_task_budget = \<lparr>ab_max_wall_ms = 30 * 60 * 1000, ab_max_output_bytes = 2 ^ 20, ab_max_tokens = 1000000\<rparr>"

datatype DaemonTaskId = DaemonTaskId (task_no: u64)
datatype DaemonLeaseOwner = DaemonLeaseOwner u64
datatype ChatId = ChatId (chat_no: u64)

record Lease =
  le_owner :: DaemonLeaseOwner
  le_expires_at :: Timestamp
  le_heartbeat_at :: Timestamp

definition granted :: "DaemonLeaseOwner \<Rightarrow> Timestamp \<Rightarrow> Lease" where
  "granted owner now =
     \<lparr>le_owner = owner, le_expires_at = from_millis (saturating_add (as_millis now) TASK_LEASE_TTL_MS), le_heartbeat_at = now\<rparr>"

definition lease_refresh :: "Lease \<Rightarrow> Timestamp \<Rightarrow> Lease" where
  "lease_refresh l now =
     l\<lparr>le_heartbeat_at := now, le_expires_at := from_millis (saturating_add (as_millis now) TASK_LEASE_TTL_MS)\<rparr>"

definition expired_at :: "Lease \<Rightarrow> Timestamp \<Rightarrow> bool" where
  "expired_at l now = (as_millis now > as_millis (le_expires_at l))"

datatype TaskDone = Completed | Cancelled | Killed | Expired | BudgetExhausted AgentBudgetError

fun done_label :: "TaskDone \<Rightarrow> string" where
  "done_label Completed = ''completed''"
| "done_label Cancelled = ''cancelled''"
| "done_label Killed = ''killed''"
| "done_label Expired = ''expired (stalled, reclaimed)''"
| "done_label (BudgetExhausted _) = ''killed (budget exhausted)''"

datatype TaskPhase = Pending | Running | Cancelling | Done TaskDone

fun phase_is_terminal :: "TaskPhase \<Rightarrow> bool" where
  "phase_is_terminal (Done _) = True"
| "phase_is_terminal _ = False"

fun is_active :: "TaskPhase \<Rightarrow> bool" where
  "is_active (Done _) = False"
| "is_active _ = True"

section \<open>The registry\<close>

record TaskSlot =
  ts_id :: DaemonTaskId
  ts_chat :: ChatId
  ts_phase :: TaskPhase
  ts_lease :: Lease
  ts_budget :: AgentBudget
  ts_usage :: AgentUsage
  ts_started_at :: Timestamp
  ts_last_charge_at :: Timestamp

datatype RegistryAction =
    SendLine ChatId string | RequestCancel DaemonTaskId | HardKill DaemonTaskId | Finalize DaemonTaskId TaskDone

datatype AdmitError = ConcurrencyCap

record TaskRegistry =
  rg_slots :: "(u64 \<times> TaskSlot) list"
  rg_sched :: Scheduler
  rg_owner :: DaemonLeaseOwner
  rg_next_id :: u64

definition TaskRegistry_new :: "nat \<Rightarrow> DaemonLeaseOwner \<Rightarrow> TaskRegistry" where
  "TaskRegistry_new max_concurrent owner =
     \<lparr>rg_slots = [], rg_sched = Scheduler_new max_concurrent, rg_owner = owner, rg_next_id = 1\<rparr>"

definition fresh_slot :: "DaemonTaskId \<Rightarrow> ChatId \<Rightarrow> TaskPhase \<Rightarrow> DaemonLeaseOwner \<Rightarrow> AgentBudget \<Rightarrow> AgentUsage \<Rightarrow> Timestamp \<Rightarrow> TaskSlot" where
  "fresh_slot i chat phase owner budget usage now =
     \<lparr>ts_id = i, ts_chat = chat, ts_phase = phase, ts_lease = granted owner now, ts_budget = budget, ts_usage = usage,
      ts_started_at = now, ts_last_charge_at = now\<rparr>"

definition admit :: "TaskRegistry \<Rightarrow> ChatId \<Rightarrow> AgentBudget \<Rightarrow> Timestamp \<Rightarrow> TaskRegistry \<times> (AdmitError + DaemonTaskId)" where
  "admit reg chat budget now =
     (case try_spawn (rg_sched reg) of
        (sched, Inl _) \<Rightarrow> (reg\<lparr>rg_sched := sched\<rparr>, Inl ConcurrencyCap)
      | (sched, Inr _) \<Rightarrow>
          let i = DaemonTaskId (rg_next_id reg) in
          (reg\<lparr>rg_sched := sched, rg_next_id := rg_next_id reg + 1,
               rg_slots := bt_insert (task_no i)
                 (fresh_slot i chat Pending (rg_owner reg) budget AgentUsage_default now) (rg_slots reg)\<rparr>, Inr i))"

text \<open>The slot of a task, updated in place when it is there.\<close>

definition with_slot :: "TaskRegistry \<Rightarrow> DaemonTaskId \<Rightarrow> (TaskSlot \<Rightarrow> TaskSlot) \<Rightarrow> TaskRegistry" where
  "with_slot reg i f =
     (case bt_get (rg_slots reg) (task_no i) of
        None \<Rightarrow> reg
      | Some s \<Rightarrow> reg\<lparr>rg_slots := bt_insert (task_no i) (f s) (rg_slots reg)\<rparr>)"

definition mark_running :: "TaskRegistry \<Rightarrow> DaemonTaskId \<Rightarrow> Timestamp \<Rightarrow> TaskRegistry" where
  "mark_running reg i now =
     with_slot reg i (\<lambda>s. if ts_phase s = Pending then s\<lparr>ts_phase := Running, ts_lease := lease_refresh (ts_lease s) now\<rparr> else s)"

text \<open>Charging the time since the last charge, and some output.\<close>

definition wall_delta :: "TaskSlot \<Rightarrow> u64 \<Rightarrow> Timestamp \<Rightarrow> AgentUsage" where
  "wall_delta s output_bytes now =
     \<lparr>au_wall_ms = (if as_millis (ts_last_charge_at s) \<le> as_millis now then as_millis now - as_millis (ts_last_charge_at s) else 0),
      au_output_bytes = output_bytes, au_tokens = 0\<rparr>"

definition charge_slot :: "TaskSlot \<Rightarrow> u64 \<Rightarrow> Timestamp \<Rightarrow> TaskSlot" where
  "charge_slot s output_bytes now =
     (case agent_charge (ts_usage s) (wall_delta s output_bytes now) (ts_budget s) of
        Inr nxt \<Rightarrow> s\<lparr>ts_usage := nxt, ts_last_charge_at := now\<rparr>
      | Inl e \<Rightarrow> s\<lparr>ts_phase := Done (BudgetExhausted e)\<rparr>)"

definition observe_progress :: "TaskRegistry \<Rightarrow> DaemonTaskId \<Rightarrow> u64 \<Rightarrow> Timestamp \<Rightarrow> TaskRegistry" where
  "observe_progress reg i output_bytes now =
     with_slot reg i (\<lambda>s. if phase_is_terminal (ts_phase s) then s
                          else charge_slot (s\<lparr>ts_lease := lease_refresh (ts_lease s) now\<rparr>) output_bytes now)"

definition heartbeat :: "TaskRegistry \<Rightarrow> DaemonTaskId \<Rightarrow> Timestamp \<Rightarrow> TaskRegistry" where
  "heartbeat reg i now =
     with_slot reg i (\<lambda>s. if phase_is_terminal (ts_phase s) then s else s\<lparr>ts_lease := lease_refresh (ts_lease s) now\<rparr>)"

definition observe_finished :: "TaskRegistry \<Rightarrow> DaemonTaskId \<Rightarrow> TaskRegistry" where
  "observe_finished reg i =
     with_slot reg i (\<lambda>s. if phase_is_terminal (ts_phase s) then s else s\<lparr>ts_phase := Done Completed\<rparr>)"

definition request_cancel :: "TaskRegistry \<Rightarrow> DaemonTaskId \<Rightarrow> ChatId \<Rightarrow> TaskRegistry \<times> bool" where
  "request_cancel reg i chat =
     (case bt_get (rg_slots reg) (task_no i) of
        Some s \<Rightarrow> if ts_chat s = chat \<and> is_active (ts_phase s)
                  then (with_slot reg i (\<lambda>s. s\<lparr>ts_phase := Cancelling\<rparr>), True) else (reg, False)
      | None \<Rightarrow> (reg, False))"

definition request_kill :: "TaskRegistry \<Rightarrow> DaemonTaskId \<Rightarrow> ChatId \<Rightarrow> TaskRegistry \<times> bool" where
  "request_kill reg i chat =
     (case bt_get (rg_slots reg) (task_no i) of
        Some s \<Rightarrow> if ts_chat s = chat \<and> \<not> phase_is_terminal (ts_phase s)
                  then (with_slot reg i (\<lambda>s. s\<lparr>ts_phase := Done Killed\<rparr>), True) else (reg, False)
      | None \<Rightarrow> (reg, False))"

section \<open>The tick\<close>

definition tick_slot :: "Timestamp \<Rightarrow> TaskSlot \<Rightarrow> TaskSlot \<times> RegistryAction list" where
  "tick_slot now s =
     (case ts_phase s of
        Done _ \<Rightarrow> (s, [])
      | Cancelling \<Rightarrow>
          (if expired_at (ts_lease s) now then s\<lparr>ts_phase := Done Killed\<rparr> else s, [RequestCancel (ts_id s)])
      | _ \<Rightarrow>
          let s' = charge_slot s 0 now in
          (if \<not> phase_is_terminal (ts_phase s') \<and> expired_at (ts_lease s') now then s'\<lparr>ts_phase := Done Expired\<rparr> else s', []))"

definition terminal_of :: "TaskSlot \<Rightarrow> (DaemonTaskId \<times> ChatId \<times> TaskDone) option" where
  "terminal_of s = (case ts_phase s of Done d \<Rightarrow> Some (ts_id s, ts_chat s, d) | _ \<Rightarrow> None)"

fun needs_kill :: "TaskDone \<Rightarrow> bool" where
  "needs_kill Killed = True"
| "needs_kill (BudgetExhausted _) = True"
| "needs_kill _ = False"

definition final_actions :: "DaemonTaskId \<times> ChatId \<times> TaskDone \<Rightarrow> RegistryAction list" where
  "final_actions = (\<lambda>(i, chat, d).
     (if needs_kill d then [HardKill i] else [])
     @ [SendLine chat (''task #'' @ show_nat (unat (task_no i)) @ '' '' @ done_label d @ ''.''), Finalize i d])"

fun finalize_all :: "TaskRegistry \<Rightarrow> (DaemonTaskId \<times> ChatId \<times> TaskDone) list \<Rightarrow> TaskRegistry \<times> RegistryAction list" where
  "finalize_all reg [] = (reg, [])"
| "finalize_all reg (t # ts) =
     (let reg' = reg\<lparr>rg_slots := bt_remove (task_no (fst t)) (rg_slots reg), rg_sched := sched_finish (rg_sched reg)\<rparr>;
          (reg'', acts) = finalize_all reg' ts
      in (reg'', final_actions t @ acts))"

definition tick :: "TaskRegistry \<Rightarrow> Timestamp \<Rightarrow> TaskRegistry \<times> RegistryAction list" where
  "tick reg now =
     (let stepped = map (\<lambda>(k, s). (k, tick_slot now s)) (rg_slots reg);
          slots = map (\<lambda>(k, s, _). (k, s)) stepped;
          acts = concat (map (\<lambda>(_, _, a). a) stepped);
          terminal = List.map_filter (\<lambda>(_, s). terminal_of s) slots;
          (reg', finals) = finalize_all (reg\<lparr>rg_slots := slots\<rparr>) terminal
      in (reg', acts @ finals))"

section \<open>Views\<close>

definition len_active :: "TaskRegistry \<Rightarrow> nat" where
  "len_active reg = length (filter (\<lambda>(_, s). is_active (ts_phase s)) (rg_slots reg))"

definition lease_remaining :: "TaskSlot \<Rightarrow> Timestamp \<Rightarrow> u64" where
  "lease_remaining s now =
     (let e = as_millis (le_expires_at (ts_lease s)) in if as_millis now \<le> e then e - as_millis now else 0)"

record TaskRow =
  tw_id :: DaemonTaskId
  tw_chat :: ChatId
  tw_phase :: TaskPhase
  tw_wall_ms :: u64
  tw_output_bytes :: u64
  tw_lease_ttl_ms :: u64

definition registry_snapshot :: "TaskRegistry \<Rightarrow> Timestamp \<Rightarrow> TaskRow list" where
  "registry_snapshot reg now = map (\<lambda>(_, s). \<lparr>tw_id = ts_id s, tw_chat = ts_chat s, tw_phase = ts_phase s,
     tw_wall_ms = au_wall_ms (ts_usage s), tw_output_bytes = au_output_bytes (ts_usage s),
     tw_lease_ttl_ms = lease_remaining s now\<rparr>) (rg_slots reg)"

definition row_get :: "TaskRow list \<Rightarrow> DaemonTaskId \<Rightarrow> TaskRow option" where
  "row_get rows i = find (\<lambda>r. tw_id r = i) rows"

fun sole_loop :: "ChatId \<Rightarrow> DaemonTaskId option \<Rightarrow> (u64 \<times> TaskSlot) list \<Rightarrow> DaemonTaskId option" where
  "sole_loop chat found [] = found"
| "sole_loop chat found ((_, s) # ss) =
     (if ts_chat s = chat \<and> is_active (ts_phase s)
      then if found \<noteq> None then None else sole_loop chat (Some (ts_id s)) ss
      else sole_loop chat found ss)"

definition sole_active_for :: "TaskRegistry \<Rightarrow> ChatId \<Rightarrow> DaemonTaskId option" where
  "sole_active_for reg chat = sole_loop chat None (rg_slots reg)"

section \<open>Recovery\<close>

record TaskSnapshot =
  sn_id :: DaemonTaskId
  sn_chat :: ChatId
  sn_phase :: TaskPhase
  sn_lease_remaining_ms :: u64
  sn_budget :: AgentBudget
  sn_usage :: AgentUsage
  sn_worktree_path :: "string option"

definition snapshot_all :: "TaskRegistry \<Rightarrow> Timestamp \<Rightarrow> TaskSnapshot list" where
  "snapshot_all reg now = map (\<lambda>(_, s). \<lparr>sn_id = ts_id s, sn_chat = ts_chat s, sn_phase = ts_phase s,
     sn_lease_remaining_ms = lease_remaining s now, sn_budget = ts_budget s, sn_usage = ts_usage s, sn_worktree_path = None\<rparr>)
     (filter (\<lambda>(_, s). \<not> phase_is_terminal (ts_phase s)) (rg_slots reg))"

datatype AdoptError = WorktreeGone | Duplicate

definition adopt_phase :: "TaskSnapshot \<Rightarrow> TaskPhase" where
  "adopt_phase snap =
     (case agent_charge (sn_usage snap) AgentUsage_default (sn_budget snap) of
        Inl axis \<Rightarrow> Done (BudgetExhausted axis)
      | Inr _ \<Rightarrow> Pending)"

definition adopt_from_snapshot :: "TaskRegistry \<Rightarrow> TaskSnapshot \<Rightarrow> bool \<Rightarrow> Timestamp \<Rightarrow> TaskRegistry \<times> (AdoptError + DaemonTaskId)" where
  "adopt_from_snapshot reg snap worktree_present now =
     (if bt_get (rg_slots reg) (task_no (sn_id snap)) \<noteq> None then (reg, Inl Duplicate)
      else if \<not> worktree_present then (reg, Inl WorktreeGone)
      else (reg\<lparr>rg_slots := bt_insert (task_no (sn_id snap))
                  (fresh_slot (sn_id snap) (sn_chat snap) (adopt_phase snap) (rg_owner reg) (sn_budget snap) (sn_usage snap) now)
                  (rg_slots reg),
                rg_next_id := (if rg_next_id reg \<le> task_no (sn_id snap) then task_no (sn_id snap) + 1 else rg_next_id reg)\<rparr>,
            Inr (sn_id snap)))"

section \<open>The dump\<close>

definition SNAPSHOT_MAGIC :: bytes where "SNAPSHOT_MAGIC = as_bytes ''CCTS''"
definition SNAPSHOT_VERSION :: u8 where "SNAPSHOT_VERSION = 1"
definition MAX_DUMP_SNAPSHOTS :: nat where "MAX_DUMP_SNAPSHOTS = 4096"
definition MAX_WORKTREE_PATH :: nat where "MAX_WORKTREE_PATH = 4096"

datatype SnapshotIoError = SnapshotIo string | BadFormat | BadVersion u8 | BadContents

fun snapshot_error_message :: "SnapshotIoError \<Rightarrow> string" where
  "snapshot_error_message (SnapshotIo e) = ''snapshot io: '' @ e"
| "snapshot_error_message BadFormat = ''not a task-snapshot dump''"
| "snapshot_error_message (BadVersion v) = ''unsupported snapshot dump version '' @ show_nat (unat v)"
| "snapshot_error_message BadContents = ''malformed task-snapshot dump''"

fun axis_byte :: "AgentBudgetError \<Rightarrow> u8" where
  "axis_byte Wall = 0"
| "axis_byte OutputBytes = 1"
| "axis_byte Tokens = 2"

fun encode_phase :: "TaskPhase \<Rightarrow> bytes" where
  "encode_phase Pending = [0]"
| "encode_phase Running = [1]"
| "encode_phase Cancelling = [2]"
| "encode_phase (Done Completed) = [3, 0]"
| "encode_phase (Done Cancelled) = [3, 1]"
| "encode_phase (Done Killed) = [3, 2]"
| "encode_phase (Done Expired) = [3, 3]"
| "encode_phase (Done (BudgetExhausted axis)) = [3, 4, axis_byte axis]"

definition encode_snapshot :: "TaskSnapshot \<Rightarrow> bytes" where
  "encode_snapshot s =
     (let path = (case sn_worktree_path s of Some p \<Rightarrow> p | None \<Rightarrow> []);
          plen = min (length path) MAX_WORKTREE_PATH
      in to_le 8 (task_no (sn_id s)) @ to_le 8 (chat_no (sn_chat s)) @ encode_phase (sn_phase s)
         @ to_le 8 (sn_lease_remaining_ms s)
         @ to_le 8 (ab_max_wall_ms (sn_budget s)) @ to_le 8 (ab_max_output_bytes (sn_budget s)) @ to_le 8 (ab_max_tokens (sn_budget s))
         @ to_le 8 (au_wall_ms (sn_usage s)) @ to_le 8 (au_output_bytes (sn_usage s)) @ to_le 8 (au_tokens (sn_usage s))
         @ to_le 4 (of_nat plen :: u32) @ take plen (as_bytes path))"

definition encode_snapshots :: "TaskSnapshot list \<Rightarrow> bytes" where
  "encode_snapshots snaps =
     SNAPSHOT_MAGIC @ [SNAPSHOT_VERSION]
     @ to_le 4 (if length snaps < 2 ^ 32 then of_nat (length snaps) else - 1 :: u32)
     @ concat (map encode_snapshot snaps)"

text \<open>The cursor is what is left to read.\<close>

definition snap_take :: "nat \<Rightarrow> bytes \<Rightarrow> (bytes \<times> bytes) option" where
  "snap_take n s = (if n \<le> length s then Some (take n s, drop n s) else None)"

definition snap_u8 :: "bytes \<Rightarrow> (u8 \<times> bytes) option" where
  "snap_u8 s = map_option (\<lambda>(b, s'). (hd b, s')) (snap_take 1 s)"

definition snap_u32 :: "bytes \<Rightarrow> (u32 \<times> bytes) option" where
  "snap_u32 s = map_option (\<lambda>(b, s'). (from_le b, s')) (snap_take 4 s)"

definition snap_u64 :: "bytes \<Rightarrow> (u64 \<times> bytes) option" where
  "snap_u64 s = map_option (\<lambda>(b, s'). (from_le b, s')) (snap_take 8 s)"

definition decode_axis :: "u8 \<Rightarrow> AgentBudgetError" where
  "decode_axis b = (if b = 0 then Wall else if b = 1 then OutputBytes else Tokens)"

definition decode_done :: "bytes \<Rightarrow> (TaskDone \<times> bytes) option" where
  "decode_done s = Option.bind (snap_u8 s) (\<lambda>(b, s).
     if b = 0 then Some (Completed, s) else if b = 1 then Some (Cancelled, s)
     else if b = 2 then Some (Killed, s) else if b = 3 then Some (Expired, s)
     else if b = 4 then Option.bind (snap_u8 s) (\<lambda>(a, s). Some (BudgetExhausted (decode_axis a), s))
     else None)"

definition decode_phase :: "bytes \<Rightarrow> (TaskPhase \<times> bytes) option" where
  "decode_phase s = Option.bind (snap_u8 s) (\<lambda>(b, s).
     if b = 0 then Some (Pending, s) else if b = 1 then Some (Running, s)
     else if b = 2 then Some (Cancelling, s)
     else if b = 3 then Option.bind (decode_done s) (\<lambda>(d, s). Some (Done d, s))
     else None)"

definition decode_snapshot :: "bytes \<Rightarrow> (TaskSnapshot \<times> bytes) option" where
  "decode_snapshot s =
     Option.bind (snap_u64 s) (\<lambda>(i, s). Option.bind (snap_u64 s) (\<lambda>(chat, s).
     Option.bind (decode_phase s) (\<lambda>(phase, s). Option.bind (snap_u64 s) (\<lambda>(remaining, s).
     Option.bind (snap_u64 s) (\<lambda>(max_wall, s). Option.bind (snap_u64 s) (\<lambda>(max_out, s). Option.bind (snap_u64 s) (\<lambda>(max_tok, s).
     Option.bind (snap_u64 s) (\<lambda>(wall, s). Option.bind (snap_u64 s) (\<lambda>(out, s). Option.bind (snap_u64 s) (\<lambda>(tok, s).
     Option.bind (snap_u32 s) (\<lambda>(plen, s).
       if unat plen > MAX_WORKTREE_PATH then None
       else Option.bind (snap_take (unat plen) s) (\<lambda>(path, s).
         Some (\<lparr>sn_id = DaemonTaskId i, sn_chat = ChatId chat, sn_phase = phase, sn_lease_remaining_ms = remaining,
                sn_budget = \<lparr>ab_max_wall_ms = max_wall, ab_max_output_bytes = max_out, ab_max_tokens = max_tok\<rparr>,
                sn_usage = \<lparr>au_wall_ms = wall, au_output_bytes = out, au_tokens = tok\<rparr>,
                sn_worktree_path = (if plen = 0 then None else Some (utf8_lossy path))\<rparr>, s)))))))))))))"

fun decode_loop :: "nat \<Rightarrow> bytes \<Rightarrow> TaskSnapshot list option" where
  "decode_loop 0 s = Some []"
| "decode_loop (Suc n) s =
     Option.bind (decode_snapshot s) (\<lambda>(snap, s). map_option (\<lambda>snaps. snap # snaps) (decode_loop n s))"

definition decode_snapshots :: "bytes \<Rightarrow> SnapshotIoError + TaskSnapshot list" where
  "decode_snapshots bytes =
     (case snap_take 4 bytes of
        None \<Rightarrow> Inl BadFormat
      | Some (magic, s) \<Rightarrow>
          if magic \<noteq> SNAPSHOT_MAGIC then Inl BadFormat
          else case snap_u8 s of
                 None \<Rightarrow> Inl BadFormat
               | Some (version, s) \<Rightarrow>
                   if version \<noteq> SNAPSHOT_VERSION then Inl (BadVersion version)
                   else case snap_u32 s of
                          None \<Rightarrow> Inl BadContents
                        | Some (count, s) \<Rightarrow>
                            if unat count > MAX_DUMP_SNAPSHOTS then Inl BadContents
                            else ok_or (decode_loop (unat count) s) BadContents)"

end
