(* ===== verification/Registry_Props.thy ===== *)
theory Registry_Props
  imports Registry Json_Props
begin

text \<open>
  The task registry keeps its bounds: as long as no task is adopted, the scheduler counts the slots,
  no more than the cap run, and every task stays within its budget. What a tick reclaims, whom a cancellation obeys, and what a
  restarted daemon gets back.
\<close>

section \<open>Ordered maps\<close>

lemma bt_insert_present:
  "bt_wf m \<Longrightarrow> bt_get m k = Some w \<Longrightarrow> bt_insert k v m = map (\<lambda>p. if fst p = k then (k, v) else p) m"
proof (induction m)
  case (Cons p m)
  obtain j x where p: "p = (j, x)" by fastforce
  have wf: "bt_wf m" and above: "\<forall>q\<in>set m. j < fst q" using Cons.prems(1) by (auto simp: bt_wf_def p)
  show ?case
  proof (cases "j = k")
    case True
    then have "map (\<lambda>p. if fst p = k then (k, v) else p) m = m" using above by (intro map_idI) auto
    then show ?thesis using True by (simp add: p)
  next
    case False
    then have "bt_get m k = Some w" using Cons.prems(2) by (simp add: bt_get_def p)
    moreover have "j < k" using calculation above by (force simp: bt_get_def dest: map_of_SomeD)
    ultimately show ?thesis using Cons.IH [OF wf] False by (simp add: p)
  qed
qed (simp add: bt_get_def)

lemma bt_insert_absent: "bt_get m k = None \<Longrightarrow> length (bt_insert k v m) = Suc (length m)"
  by (induction m) (auto simp: bt_get_def)

lemma bt_insert_last: "\<forall>p\<in>set m. fst p < k \<Longrightarrow> bt_insert k v m = m @ [(k, v)]"
  by (induction m) auto

lemma bt_get_memI: "bt_get m k = Some v \<Longrightarrow> (k, v) \<in> set m"
  by (simp add: bt_get_def map_of_SomeD)

lemma bt_get_absent: "k \<notin> fst ` set m \<Longrightarrow> bt_get m k = None"
  by (simp add: bt_get_def map_of_eq_None_iff)

lemma word_less_next: "a \<noteq> - 1 \<Longrightarrow> a < (a :: u64) + 1"
  using unat_less_max [of a] by (simp add: word_less_nat_alt unat_word_ariths)

section \<open>The invariant\<close>

definition slot_ok :: "u64 \<times> TaskSlot \<Rightarrow> bool" where
  "slot_ok p = (ts_id (snd p) = DaemonTaskId (fst p) \<and> within (ts_usage (snd p)) (ts_budget (snd p)))"

definition registry_ok :: "nat \<Rightarrow> TaskRegistry \<Rightarrow> bool" where
  "registry_ok n reg =
     (bt_wf (rg_slots reg) \<and> list_all slot_ok (rg_slots reg) \<and> (\<forall>p\<in>set (rg_slots reg). fst p < rg_next_id reg)
      \<and> sc_running (rg_sched reg) = length (rg_slots reg) \<and> length (rg_slots reg) \<le> sc_max_concurrent (rg_sched reg)
      \<and> unat (rg_next_id reg) \<le> Suc n)"

lemma with_slot_ok:
  assumes "registry_ok n reg"
    and "\<And>s. ts_id (f s) = ts_id s \<and> ts_budget (f s) = ts_budget s"
    and "\<And>s. within (ts_usage s) (ts_budget s) \<Longrightarrow> within (ts_usage (f s)) (ts_budget s)"
  shows "registry_ok n (with_slot reg i f)"
proof (cases "bt_get (rg_slots reg) (task_no i)")
  case (Some s)
  let ?m = "map (\<lambda>p. if fst p = task_no i then (task_no i, f s) else p) (rg_slots reg)"
  have wf: "bt_wf (rg_slots reg)" using assms(1) by (simp add: registry_ok_def)
  note ins = bt_insert_present [OF wf Some, of "f s"]
  have s: "slot_ok (task_no i, s)" using assms(1) bt_get_memI [OF Some] by (auto simp: registry_ok_def list_all_iff)
  then have "slot_ok (task_no i, f s)" using assms(2,3) [of s] by (simp add: slot_ok_def)
  then have "list_all slot_ok ?m" using assms(1) by (auto simp: registry_ok_def list_all_iff)
  then show ?thesis
    using assms(1) Some bt_insert_wf [OF wf, of "task_no i" "f s"]
    by (auto simp: with_slot_def registry_ok_def ins)
qed (use assms(1) in \<open>simp add: with_slot_def\<close>)

lemma charge_slot_keeps:
  "ts_id (charge_slot s b now) = ts_id s \<and> ts_chat (charge_slot s b now) = ts_chat s \<and> ts_budget (charge_slot s b now) = ts_budget s
     \<and> ts_lease (charge_slot s b now) = ts_lease s"
  "within (ts_usage s) (ts_budget s) \<Longrightarrow> within (ts_usage (charge_slot s b now)) (ts_budget s)"
  using charge_within by (auto simp: charge_slot_def split: sum.splits)

lemma charge_refreshed:
  "within (ts_usage s) (ts_budget s) \<Longrightarrow> within (ts_usage (charge_slot (s\<lparr>ts_lease := l\<rparr>) b now)) (ts_budget s)"
  using charge_slot_keeps(2) [of "s\<lparr>ts_lease := l\<rparr>"] by simp

lemma tick_slot_keeps:
  "ts_id (fst (tick_slot now s)) = ts_id s \<and> ts_chat (fst (tick_slot now s)) = ts_chat s
     \<and> ts_budget (fst (tick_slot now s)) = ts_budget s"
  "within (ts_usage s) (ts_budget s) \<Longrightarrow> within (ts_usage (fst (tick_slot now s))) (ts_budget s)"
  using charge_slot_keeps [of s 0 now] by (auto simp: tick_slot_def Let_def split: TaskPhase.splits)

lemma new_registry_ok: "registry_ok 0 (TaskRegistry_new cap owner)"
  by (simp add: registry_ok_def TaskRegistry_new_def Scheduler_new_def bt_wf_def)

lemma admit_ok:
  assumes "registry_ok n reg" "Suc n < 2 ^ 64 - 1"
  shows "registry_ok (Suc n) (fst (admit reg chat budget now))"
proof (cases "sc_running (rg_sched reg) < sc_max_concurrent (rg_sched reg)")
  case True
  have "unat (rg_next_id reg) < 2 ^ 64 - 1" using assms by (simp add: registry_ok_def)
  then have nxt: "unat (rg_next_id reg + 1) = Suc (unat (rg_next_id reg))"
    by (subst unat_add_lem [THEN iffD1]) (simp_all add: unat_less_pow)
  then have "rg_next_id reg < rg_next_id reg + 1" by (simp add: word_less_nat_alt)
  then have "\<forall>p\<in>set (rg_slots reg @ [(rg_next_id reg, s)]). fst p < rg_next_id reg + 1" for s
    using assms(1) by (auto simp: registry_ok_def intro: less_trans)
  moreover have "\<forall>p\<in>set (rg_slots reg). fst p < rg_next_id reg" using assms(1) by (simp add: registry_ok_def)
  ultimately show ?thesis
    using True assms(1) nxt bt_insert_wf [of "rg_slots reg" "rg_next_id reg"]
    by (auto simp: admit_def try_spawn_def registry_ok_def Let_def bt_insert_last slot_ok_def fresh_slot_def)
qed (use assms in \<open>auto simp: admit_def try_spawn_def registry_ok_def\<close>)

section \<open>The tick\<close>

definition stepped :: "Timestamp \<Rightarrow> (u64 \<times> TaskSlot) list \<Rightarrow> (u64 \<times> TaskSlot) list" where
  "stepped now slots = map (\<lambda>(k, s). (k, fst (tick_slot now s))) slots"

definition ended :: "Timestamp \<Rightarrow> (u64 \<times> TaskSlot) list \<Rightarrow> (DaemonTaskId \<times> ChatId \<times> TaskDone) list" where
  "ended now slots = List.map_filter (\<lambda>(_, s). terminal_of s) (stepped now slots)"

definition cancels :: "Timestamp \<Rightarrow> (u64 \<times> TaskSlot) list \<Rightarrow> RegistryAction list" where
  "cancels now slots = concat (map (\<lambda>(_, s). snd (tick_slot now s)) slots)"

lemma finalize_all_spec:
  "finalize_all reg ts =
     (reg\<lparr>rg_slots := filter (\<lambda>p. fst p \<notin> (task_no \<circ> fst) ` set ts) (rg_slots reg),
          rg_sched := (rg_sched reg)\<lparr>sc_running := sc_running (rg_sched reg) - length ts\<rparr>\<rparr>,
      concat (map final_actions ts))"
proof (induction ts arbitrary: reg)
  case (Cons t ts)
  have "filter (\<lambda>p. fst p \<notin> (task_no \<circ> fst) ` set ts) (bt_remove (task_no (fst t)) (rg_slots reg)) =
      filter (\<lambda>p. fst p \<notin> (task_no \<circ> fst) ` set (t # ts)) (rg_slots reg)"
    unfolding bt_remove_def filter_filter by (rule filter_cong) auto
  then show ?case by (simp add: Cons.IH Let_def sched_finish_def)
qed simp

lemma terminal_of_iff: "terminal_of s = Some (i, c, d) \<longleftrightarrow> ts_phase s = Done d \<and> i = ts_id s \<and> c = ts_chat s"
  by (auto simp: terminal_of_def split: TaskPhase.splits)

lemma phase_terminal_iff: "phase_is_terminal p \<longleftrightarrow> (\<exists>d. p = Done d)" "is_active p \<longleftrightarrow> \<not> phase_is_terminal p"
  by (cases p; simp)+

lemma map_filter_ids:
  assumes "\<forall>p\<in>set ps. ts_id (snd p) = DaemonTaskId (fst p)"
  shows "map (task_no \<circ> fst) (List.map_filter (\<lambda>(_, s). terminal_of s) ps) = map fst (filter (\<lambda>p. phase_is_terminal (ts_phase (snd p))) ps)"
  using assms
  by (induction ps)
    (auto simp: List.map_filter_simps terminal_of_def phase_terminal_iff split: TaskPhase.splits option.splits, metis DaemonTaskId.sel)

lemma stepped_ids: "list_all slot_ok slots \<Longrightarrow> list_all slot_ok (stepped now slots)"
  using tick_slot_keeps by (auto simp: stepped_def list_all_iff slot_ok_def)

lemma stepped_keys: "map fst (stepped now slots) = map fst slots"
  by (simp add: stepped_def case_prod_unfold)

lemma tick_spec:
  assumes "registry_ok n reg"
  shows "tick reg now =
     (reg\<lparr>rg_slots := filter (\<lambda>p. is_active (ts_phase (snd p))) (stepped now (rg_slots reg)),
          rg_sched := (rg_sched reg)\<lparr>sc_running := sc_running (rg_sched reg) - length (ended now (rg_slots reg))\<rparr>\<rparr>,
      cancels now (rg_slots reg) @ concat (map final_actions (ended now (rg_slots reg))))"
    and "map (task_no \<circ> fst) (ended now (rg_slots reg)) =
      map fst (filter (\<lambda>p. phase_is_terminal (ts_phase (snd p))) (stepped now (rg_slots reg)))"
    and "distinct (map fst (ended now (rg_slots reg)))"
proof -
  let ?s = "stepped now (rg_slots reg)"
  have ok: "list_all slot_ok ?s" using assms stepped_ids by (auto simp: registry_ok_def)
  then show ids: "map (task_no \<circ> fst) (ended now (rg_slots reg)) = map fst (filter (\<lambda>p. phase_is_terminal (ts_phase (snd p))) ?s)"
    unfolding ended_def by (intro map_filter_ids) (auto simp: list_all_iff slot_ok_def)
  have dist: "distinct (map fst ?s)" using assms btree.entries_distinct by (auto simp: stepped_keys registry_ok_def)
  then have "distinct (map (task_no \<circ> fst) (ended now (rg_slots reg)))" unfolding ids by (rule distinct_map_filter)
  then show "distinct (map fst (ended now (rg_slots reg)))" by (simp add: distinct_map comp_inj_on_iff inj_on_def)
  have "filter (\<lambda>p. fst p \<notin> (task_no \<circ> fst) ` set (ended now (rg_slots reg))) ?s =
      filter (\<lambda>p. is_active (ts_phase (snd p))) ?s"
  proof (rule filter_cong [OF refl])
    fix p assume p: "p \<in> set ?s"
    have uniq: "q = p" if "q \<in> set ?s" "fst q = fst p" for q using dist p that by (simp add: distinct_map inj_on_def)
    have "(task_no \<circ> fst) ` set (ended now (rg_slots reg)) = fst ` {q \<in> set ?s. phase_is_terminal (ts_phase (snd q))}"
      using arg_cong [OF ids, of set] by simp
    moreover have "fst p \<in> fst ` {q \<in> set ?s. phase_is_terminal (ts_phase (snd q))} \<longleftrightarrow> phase_is_terminal (ts_phase (snd p))"
      using p uniq by (auto simp del: split_paired_All intro!: imageI)
    ultimately show "(fst p \<notin> (task_no \<circ> fst) ` set (ended now (rg_slots reg))) = is_active (ts_phase (snd p))"
      by (simp only: phase_terminal_iff(2))
  qed
  moreover have "map (\<lambda>(k, s, _). (k, s)) (map (\<lambda>(k, s). (k, tick_slot now s)) (rg_slots reg)) = ?s"
    by (auto simp: stepped_def case_prod_unfold)
  moreover have "concat (map (\<lambda>(_, _, a). a) (map (\<lambda>(k, s). (k, tick_slot now s)) (rg_slots reg))) = cancels now (rg_slots reg)"
    by (simp add: cancels_def case_prod_unfold comp_def)
  ultimately show "tick reg now =
     (reg\<lparr>rg_slots := filter (\<lambda>p. is_active (ts_phase (snd p))) ?s,
          rg_sched := (rg_sched reg)\<lparr>sc_running := sc_running (rg_sched reg) - length (ended now (rg_slots reg))\<rparr>\<rparr>,
      cancels now (rg_slots reg) @ concat (map final_actions (ended now (rg_slots reg))))"
    by (simp add: tick_def finalize_all_spec ended_def Let_def)
qed

lemma tick_length:
  assumes "registry_ok n reg"
  shows "length (ended now (rg_slots reg)) + length (filter (\<lambda>p. is_active (ts_phase (snd p))) (stepped now (rg_slots reg)))
    = length (rg_slots reg)"
proof -
  have "length (ended now (rg_slots reg)) = length (filter (\<lambda>p. phase_is_terminal (ts_phase (snd p))) (stepped now (rg_slots reg)))"
    using arg_cong [OF tick_spec(2) [OF assms, of now], of length] by simp
  then show ?thesis
    using sum_length_filter_compl [of "\<lambda>p. phase_is_terminal (ts_phase (snd p))" "stepped now (rg_slots reg)"]
    by (simp add: phase_terminal_iff(2) stepped_def)
qed

lemma tick_ok: "registry_ok n reg \<Longrightarrow> registry_ok n (fst (tick reg now))"
proof -
  assume ok: "registry_ok n reg"
  let ?l = "filter (\<lambda>p. is_active (ts_phase (snd p))) (stepped now (rg_slots reg))"
  have "bt_wf (stepped now (rg_slots reg))" using ok by (simp add: registry_ok_def bt_wf_def stepped_keys)
  then have "bt_wf ?l" by (rule bt_wf_filter)
  moreover have "list_all slot_ok ?l" using ok stepped_ids by (auto simp: registry_ok_def list_all_iff)
  moreover have "\<forall>p\<in>set ?l. fst p < rg_next_id reg"
  proof
    fix p assume "p \<in> set ?l"
    then have "fst p \<in> fst ` set (rg_slots reg)"
      using arg_cong [OF stepped_keys [of now "rg_slots reg"], of set] by (metis (no_types, lifting) filter_is_subset image_eqI set_map subsetD)
    then show "fst p < rg_next_id reg" using ok by (auto simp: registry_ok_def)
  qed
  ultimately show "registry_ok n (fst (tick reg now))"
    using ok tick_length [OF ok, of now] by (simp add: tick_spec(1) [OF ok]) (auto simp: registry_ok_def)
qed

section \<open>Histories\<close>

datatype RegistryOp =
    Admit ChatId AgentBudget Timestamp | MarkRunning DaemonTaskId Timestamp | ObserveProgress DaemonTaskId u64 Timestamp
  | Heartbeat DaemonTaskId Timestamp | ObserveFinished DaemonTaskId | Cancel DaemonTaskId ChatId | Kill DaemonTaskId ChatId | Tick Timestamp
  | Adopt TaskSnapshot bool Timestamp

fun apply_op :: "RegistryOp \<Rightarrow> TaskRegistry \<Rightarrow> TaskRegistry" where
  "apply_op (Admit chat budget now) reg = fst (admit reg chat budget now)"
| "apply_op (MarkRunning i now) reg = mark_running reg i now"
| "apply_op (ObserveProgress i b now) reg = observe_progress reg i b now"
| "apply_op (Heartbeat i now) reg = heartbeat reg i now"
| "apply_op (ObserveFinished i) reg = observe_finished reg i"
| "apply_op (Cancel i chat) reg = fst (request_cancel reg i chat)"
| "apply_op (Kill i chat) reg = fst (request_kill reg i chat)"
| "apply_op (Tick now) reg = fst (tick reg now)"
| "apply_op (Adopt snap present now) reg = fst (adopt_from_snapshot reg snap present now)"

fun is_adopt :: "RegistryOp \<Rightarrow> bool" where
  "is_adopt (Adopt _ _ _) = True"
| "is_adopt _ = False"

lemma registry_ok_Suc: "registry_ok n reg \<Longrightarrow> registry_ok (Suc n) reg"
  by (auto simp: registry_ok_def)

lemma apply_op_ok:
  assumes "registry_ok n reg" "Suc n < 2 ^ 64 - 1" "\<not> is_adopt x"
  shows "registry_ok (Suc n) (apply_op x reg)"
  using assms admit_ok tick_ok
  by (cases x)
    (auto simp: mark_running_def observe_progress_def heartbeat_def observe_finished_def request_cancel_def request_kill_def
      charge_slot_keeps charge_refreshed split: option.splits intro!: registry_ok_Suc with_slot_ok)

lemma run_ops_ok:
  assumes "\<not> list_ex is_adopt ops" "length ops < 2 ^ 64 - 2"
  shows "registry_ok (length ops) (fold apply_op ops (TaskRegistry_new cap owner))"
  using assms
proof (induction ops rule: rev_induct)
  case (snoc x ops)
  then show ?case using apply_op_ok [of "length ops"] by simp
qed (simp add: new_registry_ok)

lemma op_keeps_cap: "sc_max_concurrent (rg_sched (apply_op x reg)) = sc_max_concurrent (rg_sched reg)"
proof (cases x)
  case (Tick now)
  then show ?thesis by (simp add: tick_def finalize_all_spec Let_def)
qed (simp_all add: admit_def try_spawn_def mark_running_def observe_progress_def heartbeat_def observe_finished_def
    request_cancel_def request_kill_def adopt_from_snapshot_def with_slot_def Let_def split: option.splits)

lemma run_ops_cap: "sc_max_concurrent (rg_sched (fold apply_op ops reg)) = sc_max_concurrent (rg_sched reg)"
  by (induction ops arbitrary: reg) (simp_all add: op_keeps_cap)

text \<open>
  What holds after every history, adoptions included: a slot stands under its own id, and a task that
  used more than its budget is over.
\<close>

definition slot_shaped :: "u64 \<times> TaskSlot \<Rightarrow> bool" where
  "slot_shaped p = (ts_id (snd p) = DaemonTaskId (fst p)
     \<and> (within (ts_usage (snd p)) (ts_budget (snd p)) \<or> (\<exists>e. ts_phase (snd p) = Done (BudgetExhausted e))))"

definition registry_shaped :: "TaskRegistry \<Rightarrow> bool" where
  "registry_shaped reg = (bt_wf (rg_slots reg) \<and> list_all slot_shaped (rg_slots reg))"

lemma shaped_insert:
  assumes "registry_shaped reg" "slot_shaped (k, s)"
  shows "registry_shaped (reg\<lparr>rg_slots := bt_insert k s (rg_slots reg)\<rparr>)"
proof -
  have wf: "bt_wf (rg_slots reg)" using assms(1) by (simp add: registry_shaped_def)
  have "\<forall>p\<in>set (bt_insert k s (rg_slots reg)). p = (k, s) \<or> p \<in> set (rg_slots reg)"
    using btree.entry_iff [OF bt_insert_wf [OF wf]] btree.entry_iff [OF wf] by (auto simp: bt_get_insert split: if_splits)
  then show ?thesis
    using assms bt_insert_wf [OF wf] by (auto simp: registry_shaped_def list_all_iff)
qed

lemma with_slot_shaped:
  assumes "registry_shaped reg"
    and "\<And>s. bt_get (rg_slots reg) (task_no i) = Some s \<Longrightarrow> slot_shaped (task_no i, s) \<Longrightarrow> slot_shaped (task_no i, f s)"
  shows "registry_shaped (with_slot reg i f)"
proof (cases "bt_get (rg_slots reg) (task_no i)")
  case (Some s)
  then have "slot_shaped (task_no i, s)" using assms(1) bt_get_memI by (fastforce simp: registry_shaped_def list_all_iff)
  then show ?thesis using Some shaped_insert [OF assms(1) assms(2)] by (auto simp add: with_slot_def)
qed (use assms(1) in \<open>simp add: with_slot_def\<close>)

lemma charge_slot_shaped:
  assumes "slot_shaped (k, s)" "\<not> phase_is_terminal (ts_phase s)"
  shows "slot_shaped (k, charge_slot (s\<lparr>ts_lease := l\<rparr>) b now)"
proof -
  have "within (ts_usage s) (ts_budget s)" using assms by (auto simp: slot_shaped_def)
  then show ?thesis
    using charge_refreshed [of s l b now] charge_slot_keeps(1) [of "s\<lparr>ts_lease := l\<rparr>" b now] assms(1) by (simp add: slot_shaped_def)
qed

lemma tick_slot_shaped: "slot_shaped (k, s) \<Longrightarrow> slot_shaped (k, fst (tick_slot now s))"
  using charge_slot_shaped [of k s "ts_lease s" 0 now]
  by (cases "ts_phase s") (auto simp: tick_slot_def Let_def slot_shaped_def)

lemma tick_shaped: "registry_shaped reg \<Longrightarrow> registry_shaped (fst (tick reg now))"
proof -
  assume ok: "registry_shaped reg"
  have "map (\<lambda>(k, s, _). (k, s)) (map (\<lambda>(k, s). (k, tick_slot now s)) (rg_slots reg)) = stepped now (rg_slots reg)"
    by (auto simp: stepped_def case_prod_unfold)
  then have "rg_slots (fst (tick reg now)) =
      filter (\<lambda>p. fst p \<notin> (task_no \<circ> fst) ` set (ended now (rg_slots reg))) (stepped now (rg_slots reg))"
    by (simp add: tick_def finalize_all_spec ended_def Let_def)
  moreover have "bt_wf (stepped now (rg_slots reg))" using ok by (simp add: registry_shaped_def bt_wf_def stepped_keys)
  moreover have "list_all slot_shaped (stepped now (rg_slots reg))"
    using ok tick_slot_shaped by (auto simp: registry_shaped_def list_all_iff stepped_def)
  ultimately show ?thesis by (auto simp: registry_shaped_def bt_wf_filter list_all_iff)
qed

lemma adopt_shaped: "registry_shaped reg \<Longrightarrow> registry_shaped (fst (adopt_from_snapshot reg snap present now))"
proof -
  let ?s = "fresh_slot (sn_id snap) (sn_chat snap) (adopt_phase snap) (rg_owner reg) (sn_budget snap) (sn_usage snap) now"
  assume ok: "registry_shaped reg"
  have "slot_shaped (task_no (sn_id snap), ?s)"
    by (auto simp: slot_shaped_def fresh_slot_def adopt_phase_def charge_nothing split: sum.splits)
  from shaped_insert [OF ok this] show ?thesis
    using ok by (simp add: adopt_from_snapshot_def registry_shaped_def)
qed

lemma admit_shaped: "registry_shaped reg \<Longrightarrow> registry_shaped (fst (admit reg chat budget now))"
proof -
  assume ok: "registry_shaped reg"
  have "slot_shaped (rg_next_id reg, fresh_slot (DaemonTaskId (rg_next_id reg)) chat Pending (rg_owner reg) budget AgentUsage_default now)"
    by (simp add: slot_shaped_def fresh_slot_def)
  from shaped_insert [OF ok this] show ?thesis
    using ok by (auto simp: admit_def registry_shaped_def Let_def split: prod.splits sum.splits)
qed

lemma apply_op_shaped: "registry_shaped reg \<Longrightarrow> registry_shaped (apply_op x reg)"
  using admit_shaped tick_shaped adopt_shaped charge_slot_shaped
  by (cases x)
    (auto simp: mark_running_def observe_progress_def heartbeat_def observe_finished_def request_cancel_def request_kill_def
      split: option.splits intro!: with_slot_shaped, auto simp: slot_shaped_def)

lemma run_ops_shaped: "registry_shaped (fold apply_op ops (TaskRegistry_new cap owner))"
proof (induction ops rule: rev_induct)
  case (snoc x ops)
  then show ?case by (simp add: apply_op_shaped)
qed (simp add: registry_shaped_def TaskRegistry_new_def bt_wf_def)

section \<open>What a tick reports\<close>

lemma tick_slot_actions: "snd (tick_slot now s) = (if ts_phase s = Cancelling then [RequestCancel (ts_id s)] else [])"
  by (cases "ts_phase s") (simp_all add: tick_slot_def Let_def)

lemma cancels_shape: "a \<in> set (cancels now slots) \<Longrightarrow> \<exists>i. a = RequestCancel i"
  by (auto simp: cancels_def tick_slot_actions split: if_splits)

lemma ended_mem:
  assumes "registry_ok n reg" "(k, s) \<in> set (rg_slots reg)"
  shows "(DaemonTaskId k, c, d) \<in> set (ended now (rg_slots reg)) \<longleftrightarrow> ts_phase (fst (tick_slot now s)) = Done d \<and> c = ts_chat s"
proof -
  let ?s = "stepped now (rg_slots reg)"
  have ok: "list_all slot_ok ?s" using assms stepped_ids by (auto simp: registry_ok_def)
  have dist: "distinct (map fst ?s)" using assms btree.entries_distinct by (auto simp: stepped_keys registry_ok_def)
  have mem: "(k, fst (tick_slot now s)) \<in> set ?s" using assms(2) by (force simp: stepped_def)
  have idk: "ts_id x = DaemonTaskId j" if "(j, x) \<in> set ?s" for j x using ok that by (auto simp: list_all_iff slot_ok_def)
  have only: "x = fst (tick_slot now s)" if "(j, x) \<in> set ?s" "DaemonTaskId k = ts_id x" for j x
    using idk [OF that(1)] that eq_key_imp_eq_value [OF dist mem] by auto
  have "(DaemonTaskId k, c, d) \<in> set (ended now (rg_slots reg)) \<longleftrightarrow>
      (\<exists>j x. (j, x) \<in> set ?s \<and> ts_phase x = Done d \<and> DaemonTaskId k = ts_id x \<and> c = ts_chat x)"
    by (force simp: ended_def List.map_filter_def terminal_of_def split: TaskPhase.splits)
  then show ?thesis using only idk [OF mem] mem tick_slot_keeps(1) [of now s] by metis
qed

text \<open>The actions that end a task.\<close>

fun ends :: "DaemonTaskId \<Rightarrow> RegistryAction \<Rightarrow> bool" where
  "ends i (Finalize j d) = (j = i)"
| "ends i (HardKill j) = (j = i)"
| "ends i _ = False"

lemma cancels_end_nothing: "a \<in> set (cancels now slots) \<Longrightarrow> \<not> ends i a"
  using cancels_shape by fastforce

lemma finals_end: "a \<in> set (concat (map final_actions ts)) \<Longrightarrow> ends i a \<Longrightarrow> i \<in> fst ` set ts"
  by (induction ts) (auto simp: final_actions_def split: if_splits)

lemma finals_split:
  assumes "distinct (map fst ts)" "(i, c, d) \<in> set ts"
  obtains pre post where "concat (map final_actions ts) = pre @ final_actions (i, c, d) @ post"
    "list_all (\<lambda>a. \<not> ends i a) (pre @ post)"
proof -
  obtain xs ys where ts: "ts = xs @ (i, c, d) # ys" using split_list [OF assms(2)] by blast
  then have "i \<notin> fst ` set xs" "i \<notin> fst ` set ys" using assms(1) by auto
  then have "list_all (\<lambda>a. \<not> ends i a) (concat (map final_actions xs) @ concat (map final_actions ys))"
    by (simp only: list_all_iff set_append) (blast dest: finals_end)
  then show ?thesis by (rule that [rotated]) (simp add: ts)
qed

lemma tick_slot_unexpired: "is_active (ts_phase (fst (tick_slot now s))) \<Longrightarrow> \<not> expired_at (ts_lease (fst (tick_slot now s))) now"
  by (cases "ts_phase s") (auto simp: tick_slot_def Let_def phase_terminal_iff split: if_splits)

lemma slot_after_tick:
  assumes "registry_ok n reg" "(k, s) \<in> set (rg_slots reg)"
  shows "bt_get (filter (\<lambda>p. is_active (ts_phase (snd p))) (stepped now (rg_slots reg))) k =
    (if is_active (ts_phase (fst (tick_slot now s))) then Some (fst (tick_slot now s)) else None)"
proof -
  let ?s = "stepped now (rg_slots reg)"
  have dist: "distinct (map fst ?s)" using assms btree.entries_distinct by (auto simp: stepped_keys registry_ok_def)
  have mem: "(k, fst (tick_slot now s)) \<in> set ?s" using assms(2) by (force simp: stepped_def)
  have fdist: "distinct (map fst (filter (\<lambda>p. is_active (ts_phase (snd p))) ?s))" using dist by (rule distinct_map_filter)
  show ?thesis
  proof (cases "is_active (ts_phase (fst (tick_slot now s)))")
    case True
    then show ?thesis using map_of_is_SomeI [OF fdist, of k "fst (tick_slot now s)"] mem by (simp add: bt_get_def)
  next
    case False
    have "\<not> is_active (ts_phase x)" if "(k, x) \<in> set ?s" for x
      using eq_key_imp_eq_value [OF dist mem that] False by simp
    then have "k \<notin> fst ` set (filter (\<lambda>p. is_active (ts_phase (snd p))) ?s)" by force
    then show ?thesis using False by (simp add: bt_get_absent)
  qed
qed

text \<open>
  How a task ends at a time, if it does: it is over already; it was to be cancelled and its lease ran
  out; the time it used with the time since its last charge is more than its budget (the counter
  stops at the largest number); or its lease ran out.
\<close>

definition fate :: "Timestamp \<Rightarrow> TaskSlot \<Rightarrow> TaskDone option" where
  "fate now s =
     (let stale = unat (as_millis (le_expires_at (ts_lease s))) < unat (as_millis now);
          wall = unat (au_wall_ms (ts_usage s)) + (unat (as_millis now) - unat (as_millis (ts_last_charge_at s)))
      in case ts_phase s of
           Done d \<Rightarrow> Some d
         | Cancelling \<Rightarrow> if stale then Some Killed else None
         | _ \<Rightarrow> if unat (ab_max_wall_ms (ts_budget s)) < min wall (2 ^ 64 - 1) then Some (BudgetExhausted Wall)
                else if stale then Some Expired else None)"

lemma charge_time:
  assumes "within (ts_usage s) (ts_budget s)"
  shows "ts_phase (charge_slot s 0 now) =
    (if unat (ab_max_wall_ms (ts_budget s)) <
          min (unat (au_wall_ms (ts_usage s)) + (unat (as_millis now) - unat (as_millis (ts_last_charge_at s)))) (2 ^ 64 - 1)
     then Done (BudgetExhausted Wall) else ts_phase s)"
  using assms
  by (auto simp: charge_slot_def agent_charge_def wall_delta_def within_def Let_def word_less_nat_alt word_le_nat_alt
      unat_saturating_add unat_sub split: if_splits)

lemma tick_slot_fate:
  assumes "within (ts_usage s) (ts_budget s)"
  shows "fate now s = Some d \<longleftrightarrow> ts_phase (fst (tick_slot now s)) = Done d"
    and "fate now s = None \<Longrightarrow> ts_phase (fst (tick_slot now s)) = ts_phase s \<and> ts_lease (fst (tick_slot now s)) = ts_lease s"
    and "fate now s = None \<Longrightarrow> is_active (ts_phase s)"
  using charge_time [OF assms, of now] charge_slot_keeps(1) [of s 0 now]
  by (cases "ts_phase s"; auto simp: fate_def tick_slot_def Let_def expired_at_def word_less_nat_alt)+

section \<open>Recovery\<close>

lemma snap_words [simp]:
  "snap_u64 (to_le 8 w @ s) = Some (w, s)" "snap_u32 (to_le 4 v @ s) = Some (v, s)" "snap_u8 (b # s) = Some (b, s)"
  by (simp_all add: snap_u64_def snap_u32_def snap_u8_def snap_take_def)

lemma phase_roundtrip: "decode_phase (encode_phase p @ s) = Some (p, s)"
proof (cases p)
  case (Done d)
  have "decode_axis (axis_byte a) = a" for a by (cases a) (simp_all add: decode_axis_def)
  then show ?thesis using Done by (cases d) (simp_all add: decode_phase_def decode_done_def)
qed (simp_all add: decode_phase_def)

definition snap_ok :: "TaskSnapshot \<Rightarrow> bool" where
  "snap_ok s = (case sn_worktree_path s of None \<Rightarrow> True | Some p \<Rightarrow> p \<noteq> [] \<and> length p \<le> MAX_WORKTREE_PATH \<and> valid_text p)"

lemma snapshot_roundtrip:
  assumes "snap_ok snap"
  shows "decode_snapshot (encode_snapshot snap @ s) = Some (snap, s)"
proof -
  define path where "path = (case sn_worktree_path snap of Some p \<Rightarrow> p | None \<Rightarrow> [])"
  have len: "length path \<le> MAX_WORKTREE_PATH" using assms by (auto simp: snap_ok_def path_def split: option.splits)
  then have small: "length path < 2 ^ 32" by (simp add: MAX_WORKTREE_PATH_def)
  then have u: "unat (of_nat (length path) :: u32) = length path" by (simp add: unat_of_nat)
  have restored: "(if (of_nat (length path) :: u32) = 0 then None else Some (utf8_lossy (as_bytes path))) = sn_worktree_path snap"
  proof (cases "sn_worktree_path snap")
    case (Some p)
    then have p: "path = p" "p \<noteq> []" "valid_text p" using assms by (simp_all add: snap_ok_def path_def)
    then have "(of_nat (length path) :: u32) \<noteq> 0" using u by (metis length_0_conv unat_0)
    moreover have "utf8_lossy (as_bytes p) = p" using p(3) lossy_utf8 [of "chars p"] by (simp add: valid_text_def)
    ultimately show ?thesis using p(1) Some by simp
  qed (simp add: path_def)
  show ?thesis
    using len u restored
    by (cases "sn_id snap"; cases "sn_chat snap")
      (simp add: encode_snapshot_def decode_snapshot_def Let_def phase_roundtrip snap_take_def flip: path_def)
qed

lemma decode_loop_roundtrip:
  "list_all snap_ok snaps \<Longrightarrow> decode_loop (length snaps) (concat (map encode_snapshot snaps)) = Some snaps"
  by (induction snaps) (simp_all add: snapshot_roundtrip)

lemma dump_roundtrip:
  assumes "list_all snap_ok snaps" "length snaps \<le> MAX_DUMP_SNAPSHOTS"
  shows "decode_snapshots (encode_snapshots snaps) = Inr snaps"
proof -
  have "length snaps < 2 ^ 32" using assms(2) by (simp add: MAX_DUMP_SNAPSHOTS_def)
  moreover from this have "unat (of_nat (length snaps) :: u32) = length snaps" by (simp add: unat_of_nat)
  moreover have "length SNAPSHOT_MAGIC = 4" by (simp add: SNAPSHOT_MAGIC_def)
  ultimately show ?thesis
    using assms decode_loop_roundtrip [OF assms(1)] by (simp add: decode_snapshots_def encode_snapshots_def snap_take_def)
qed

definition adopt_all :: "TaskSnapshot list \<Rightarrow> Timestamp \<Rightarrow> TaskRegistry \<Rightarrow> TaskRegistry" where
  "adopt_all snaps now reg = fold (\<lambda>snap r. fst (adopt_from_snapshot r snap True now)) snaps reg"

definition recovered :: "DaemonLeaseOwner \<Rightarrow> Timestamp \<Rightarrow> u64 \<times> TaskSlot \<Rightarrow> u64 \<times> TaskSlot" where
  "recovered owner now p =
     (fst p, fresh_slot (ts_id (snd p)) (ts_chat (snd p)) Pending owner (ts_budget (snd p)) (ts_usage (snd p)) now)"

definition snapshot_of :: "Timestamp \<Rightarrow> u64 \<times> TaskSlot \<Rightarrow> TaskSnapshot" where
  "snapshot_of now p = \<lparr>sn_id = ts_id (snd p), sn_chat = ts_chat (snd p), sn_phase = ts_phase (snd p),
     sn_lease_remaining_ms = lease_remaining (snd p) now, sn_budget = ts_budget (snd p), sn_usage = ts_usage (snd p), sn_worktree_path = None\<rparr>"

lemma lease_remaining_nat:
  "lease_remaining s now = of_nat (unat (as_millis (le_expires_at (ts_lease s))) - unat (as_millis now))"
proof (cases "as_millis now \<le> as_millis (le_expires_at (ts_lease s))")
  case True
  then show ?thesis by (simp add: lease_remaining_def Let_def unat_sub [symmetric] word_le_nat_alt)
qed (simp add: lease_remaining_def Let_def word_le_nat_alt)

lemma adopt_all_spec:
  assumes "bt_wf ps" "list_all slot_ok ps" "\<forall>p\<in>set ps. fst p \<noteq> - 1" "rg_slots reg = []"
  shows "rg_slots (adopt_all (map (snapshot_of t) ps) now reg) = map (recovered (rg_owner reg) now) ps
    \<and> (\<forall>p\<in>set ps. fst p < rg_next_id (adopt_all (map (snapshot_of t) ps) now reg))
    \<and> rg_owner (adopt_all (map (snapshot_of t) ps) now reg) = rg_owner reg"
  using assms(1-3)
proof (induction ps rule: rev_induct)
  case (snoc p ps)
  have keys: "\<forall>q\<in>set ps. fst q < fst p" and wf: "bt_wf ps"
    using snoc.prems(1) by (simp_all add: bt_wf_def sorted_wrt_append)
  have p: "ts_id (snd p) = DaemonTaskId (fst p)" "within (ts_usage (snd p)) (ts_budget (snd p))"
    using snoc.prems(2) by (simp_all add: slot_ok_def)
  let ?r = "adopt_all (map (snapshot_of t) ps) now reg"
  have IH: "rg_slots ?r = map (recovered (rg_owner reg) now) ps" "\<forall>q\<in>set ps. fst q < rg_next_id ?r" "rg_owner ?r = rg_owner reg"
    using snoc.IH [OF wf] snoc.prems(2,3) by simp_all
  have absent: "bt_get (rg_slots ?r) (fst p) = None" unfolding IH(1) using keys by (intro bt_get_absent) (auto simp: recovered_def)
  have last: "bt_insert (fst p) v (rg_slots ?r) = rg_slots ?r @ [(fst p, v)]" for v
    unfolding IH(1) using keys by (intro bt_insert_last) (auto simp: recovered_def)
  have phase: "adopt_phase (snapshot_of t p) = Pending"
    using p(2) charge_nothing [of "ts_usage (snd p)" "ts_budget (snd p)" "ts_usage (snd p)"] by (simp add: adopt_phase_def snapshot_of_def)
  have step: "adopt_all (map (snapshot_of t) (ps @ [p])) now reg =
      ?r\<lparr>rg_slots := rg_slots ?r @ [recovered (rg_owner reg) now p],
         rg_next_id := (if rg_next_id ?r \<le> fst p then fst p + 1 else rg_next_id ?r)\<rparr>"
    using absent last phase p(1) IH(3)
    by (simp add: adopt_all_def adopt_from_snapshot_def recovered_def) (simp add: snapshot_of_def)
  have "fst p < fst p + 1" using snoc.prems(3) by (intro word_less_next) simp
  then show ?case
    unfolding step using IH keys by (auto intro: less_trans)
qed (simp add: adopt_all_def assms(4))

lemma registry_bound:
  assumes "\<not> list_ex is_adopt ops" "length ops < 2 ^ 64 - 2" "reg = fold apply_op ops (TaskRegistry_new cap owner)"
  shows "length (rg_slots reg) \<le> max cap 1"
  using run_ops_ok [OF assms(1,2), of cap owner] run_ops_cap [of ops "TaskRegistry_new cap owner"]
  by (simp add: assms(3) registry_ok_def TaskRegistry_new_def Scheduler_new_def)

section \<open>Properties\<close>

text \<open>
  C29. The registry of tasks is well formed after every history of operations of one daemon, whatever
  their order and times, adoptions included: its slots are sorted by task, each under the task's own
  id; and a task that used more than its budget is over, with its budget exhausted. If no task was
  adopted and fewer than 2^64 - 2 operations were done, moreover, the scheduler counts exactly the
  slots, never more than the cap (of at least one), and every task is within its budget.
\<close>

theorem registry_well_formed:
  assumes "reg = fold apply_op ops (TaskRegistry_new cap owner)"
  shows "bt_wf (rg_slots reg)
    \<and> list_all (\<lambda>(k, s). ts_id s = DaemonTaskId k
         \<and> (within (ts_usage s) (ts_budget s) \<or> (\<exists>e. ts_phase s = Done (BudgetExhausted e)))) (rg_slots reg)
    \<and> (\<not> list_ex is_adopt ops \<and> length ops < 2 ^ 64 - 2 \<longrightarrow>
        sc_running (rg_sched reg) = length (rg_slots reg) \<and> length (rg_slots reg) \<le> max cap 1
        \<and> list_all (\<lambda>(k, s). within (ts_usage s) (ts_budget s)) (rg_slots reg))"
  using run_ops_shaped [of ops cap owner] run_ops_ok [of ops cap owner] registry_bound [of ops reg cap owner] assms
  by (fastforce simp: registry_shaped_def registry_ok_def list_all_iff slot_ok_def slot_shaped_def)

definition demo_ops :: "RegistryOp list" where
  "demo_ops = [Admit (ChatId 9) default_task_budget (Timestamp 0), Admit (ChatId 9) default_task_budget (Timestamp 5),
     MarkRunning (DaemonTaskId 1) (Timestamp 6), Kill (DaemonTaskId 2) (ChatId 9)]"

lemma demo_ops_short: "\<not> list_ex is_adopt demo_ops" "length demo_ops < 2 ^ 64 - 2"
  by (simp_all add: demo_ops_def)

theorem registry_well_formed_witness:
  "let reg = fold apply_op demo_ops (TaskRegistry_new 1 (DaemonLeaseOwner 1)) in
     bt_wf (rg_slots reg) \<and> rg_slots reg \<noteq> [] \<and> sc_running (rg_sched reg) = length (rg_slots reg) \<and> length (rg_slots reg) \<le> 1"
proof -
  have "rg_slots (fold apply_op demo_ops (TaskRegistry_new 1 (DaemonLeaseOwner 1))) \<noteq> []" by code_simp
  with registry_well_formed [OF refl, of demo_ops 1 "DaemonLeaseOwner 1"] demo_ops_short show ?thesis by (simp add: Let_def)
qed



text \<open>
  A recovered task is not counted: the daemon that adopts it runs more tasks than its cap, and when the
  adopted task ends the slot of another is given away.
\<close>

definition demo_chat :: ChatId where
  "demo_chat = ChatId 9"

definition demo_snapshot :: TaskSnapshot where
  "demo_snapshot = \<lparr>sn_id = DaemonTaskId 5, sn_chat = demo_chat, sn_phase = Running, sn_lease_remaining_ms = 0,
     sn_budget = default_task_budget, sn_usage = AgentUsage_default, sn_worktree_path = None\<rparr>"

lemma adoption_uncounted:
  "let reg = fold apply_op [Adopt demo_snapshot True (Timestamp 0), Admit demo_chat default_task_budget (Timestamp 0)]
         (TaskRegistry_new 1 (DaemonLeaseOwner 1));
       reg' = fold apply_op [Kill (DaemonTaskId 5) demo_chat, Tick (Timestamp 1), Admit demo_chat default_task_budget (Timestamp 1)] reg
   in len_active reg = 2 \<and> sc_running (rg_sched reg) = 1 \<and> sc_max_concurrent (rg_sched reg) = 1 \<and> len_active reg' = 2"
  by code_simp

text \<open>
  A cancelled task whose worker is still there is kept for ever: the loop sends a heartbeat for every
  live worker just before the tick, so the lease never expires, and no time is charged to it.
\<close>

lemma cancelled_never_reclaimed:
  assumes "ts_phase s = Cancelling"
  shows "tick_slot now (s\<lparr>ts_lease := lease_refresh (ts_lease s) now\<rparr>)
    = (s\<lparr>ts_lease := lease_refresh (ts_lease s) now\<rparr>, [RequestCancel (ts_id s)])"
  using assms by (simp add: tick_slot_def expired_at_def lease_refresh_def from_millis_def leD)

text \<open>
  C39. A restarted daemon gets its tasks back. Take the registry of a daemon that adopted no task, did
  fewer than 2^64 - 2 operations and has at most 4096 slots. Its dump decodes to exactly its
  snapshots: one for each task that is not over, with its id, chat, phase, remaining lease, budget
  and usage. A new daemon that adopts these snapshots holds exactly those tasks, each under its id,
  for its chat, with its budget and what it had used, leased to the new daemon from now on and
  pending; and the next id it gives out is above theirs.
\<close>

theorem restart_recovers:
  assumes "\<not> list_ex is_adopt ops" "length ops < 2 ^ 64 - 2"
    and "reg = fold apply_op ops (TaskRegistry_new cap owner)" "length (rg_slots reg) \<le> MAX_DUMP_SNAPSHOTS"
    and "live = filter (\<lambda>(k, s). is_active (ts_phase s)) (rg_slots reg)"
    and "reg' = adopt_all (snapshot_all reg now) now' (TaskRegistry_new cap' owner')"
  shows "decode_snapshots (encode_snapshots (snapshot_all reg now)) = Inr (snapshot_all reg now)
    \<and> snapshot_all reg now = map (\<lambda>(k, s). \<lparr>sn_id = DaemonTaskId k, sn_chat = ts_chat s, sn_phase = ts_phase s,
         sn_lease_remaining_ms = of_nat (unat (as_millis (le_expires_at (ts_lease s))) - unat (as_millis now)),
         sn_budget = ts_budget s, sn_usage = ts_usage s, sn_worktree_path = None\<rparr>) live
    \<and> rg_slots reg' = map (\<lambda>(k, s). (k, \<lparr>ts_id = DaemonTaskId k, ts_chat = ts_chat s, ts_phase = Pending,
         ts_lease = granted owner' now', ts_budget = ts_budget s, ts_usage = ts_usage s,
         ts_started_at = now', ts_last_charge_at = now'\<rparr>)) live
    \<and> list_all (\<lambda>(k, s). k < rg_next_id reg') live"
proof -
  have live: "live = filter (\<lambda>p. is_active (ts_phase (snd p))) (rg_slots reg)" by (simp add: assms(5) case_prod_unfold)
  have ok: "registry_ok (length ops) reg" unfolding assms(3) using assms(1,2) by (rule run_ops_ok)
  then have ids: "list_all slot_ok live" "bt_wf live" and low: "\<forall>p\<in>set live. fst p \<noteq> - 1"
    using bt_wf_filter word_n1_ge [of "rg_next_id reg"] by (auto simp: live registry_ok_def list_all_iff leD)
  have snaps: "snapshot_all reg now = map (snapshot_of now) live"
    by (simp add: live snapshot_all_def snapshot_of_def case_prod_unfold phase_terminal_iff(2))
  have "list_all snap_ok (snapshot_all reg now)" by (simp add: snaps list_all_iff snap_ok_def snapshot_of_def)
  moreover have "length (snapshot_all reg now) \<le> MAX_DUMP_SNAPSHOTS"
    using order_trans [OF length_filter_le assms(4)] by (simp add: snaps live)
  ultimately have dump: "decode_snapshots (encode_snapshots (snapshot_all reg now)) = Inr (snapshot_all reg now)"
    by (rule dump_roundtrip)
  have "rg_slots reg' = map (recovered owner' now') live \<and> (\<forall>p\<in>set live. fst p < rg_next_id reg')"
    using adopt_all_spec [OF ids(2,1) low, of "TaskRegistry_new cap' owner'" now now'] assms(6) snaps by (simp add: TaskRegistry_new_def)
  then show ?thesis
    using dump ids(1)
    by (auto simp: snaps snapshot_of_def recovered_def fresh_slot_def lease_remaining_nat list_all_iff slot_ok_def)
qed

theorem restart_recovers_witness:
  "let reg = fold apply_op demo_ops (TaskRegistry_new 2 (DaemonLeaseOwner 1));
       reg' = adopt_all (snapshot_all reg (Timestamp 50)) (Timestamp 60) (TaskRegistry_new 2 (DaemonLeaseOwner 2))
   in decode_snapshots (encode_snapshots (snapshot_all reg (Timestamp 50))) = Inr (snapshot_all reg (Timestamp 50))
     \<and> map sn_phase (snapshot_all reg (Timestamp 50)) = [Running] \<and> map fst (rg_slots reg') = [1]"
proof -
  let ?reg = "fold apply_op demo_ops (TaskRegistry_new 2 (DaemonLeaseOwner 1))"
  have n: "length (rg_slots ?reg) \<le> MAX_DUMP_SNAPSHOTS"
    using registry_bound [OF demo_ops_short refl, of 2 "DaemonLeaseOwner 1"] by (simp add: MAX_DUMP_SNAPSHOTS_def)
  have l: "map (\<lambda>(k, s). (k, ts_phase s)) (filter (\<lambda>(k, s). is_active (ts_phase s)) (rg_slots ?reg)) = [(1, Running)]" by code_simp
  show ?thesis
    using restart_recovers [OF demo_ops_short refl n refl refl, of "Timestamp 50" "Timestamp 60" 2 "DaemonLeaseOwner 2"] l
    by (auto simp: Let_def map_eq_Cons_conv)
qed

text \<open>
  Integration needs a review and a verified patch. The supervisor integrates a candidate exactly when a
  role that can block it gave a verdict, every such verdict approves, and the patch is verified.
\<close>

theorem integration_gate:
  "decide_integration verdicts verified = Integrate \<longleftrightarrow>
     verified \<and> list_ex (\<lambda>(r, v). can_block_integration r) verdicts
     \<and> (\<nexists>r reason. (r, Block reason) \<in> set verdicts \<and> can_block_integration r)"
proof -
  let ?f = "filter (\<lambda>(r, v). can_block_integration r \<and> v \<noteq> Approve) verdicts"
  have blocks: "v \<noteq> Approve \<longleftrightarrow> (\<exists>reason. v = Block reason)" for v by (cases v) auto
  have empty: "?f = [] \<longleftrightarrow> (\<nexists>r reason. (r, Block reason) \<in> set verdicts \<and> can_block_integration r)"
    by (fastforce simp: filter_empty_conv blocks)
  show ?thesis
  proof (cases ?f)
    case Nil
    then show ?thesis using empty by (simp add: decide_integration_def integration_loop_spec)
  next
    case (Cons p vs)
    then have "p \<in> set ?f" by (metis list.set_intros(1))
    then obtain r reason where "p = (r, Block reason)" using blocks by auto
    then show ?thesis using Cons empty by (simp add: decide_integration_def integration_loop_spec)
  qed
qed

end
