(* ===== verification/Telegram.thy ===== *)
theory Telegram
  imports Registry Parse_Text Policy Secrets Hash Confine
begin

text \<open>
  The operator's channel (\<^verbatim>\<open>crates/crustcore-daemon/src/telegram.rs\<close>): the allowlist of chats, commands, the
  normalization of updates, the removal of duplicates, the approval engine, the rendering of replies and
  the polling loop. The Bot API is a parameter. A chat is the bits of its number; an update's number is an
  integer.
\<close>

section \<open>The allowlist\<close>

definition MAX_INBOUND_TEXT :: nat where "MAX_INBOUND_TEXT = 8 * 1024"
definition DEDUPE_WINDOW :: nat where "DEDUPE_WINDOW = 4096"

record ChatAllowlist =
  al_ids :: "u64 set"
  al_wildcard :: bool

definition chats_deny_all :: ChatAllowlist where
  "chats_deny_all = \<lparr>al_ids = {}, al_wildcard = False\<rparr>"

definition chats_of :: "u64 list \<Rightarrow> ChatAllowlist" where
  "chats_of ids = \<lparr>al_ids = set ids, al_wildcard = False\<rparr>"

definition chats_wildcard :: ChatAllowlist where
  "chats_wildcard = \<lparr>al_ids = {}, al_wildcard = True\<rparr>"

definition chat_allowed :: "ChatAllowlist \<Rightarrow> ChatId \<Rightarrow> bool" where
  "chat_allowed al chat = (al_wildcard al \<or> chat_no chat \<in> al_ids al)"

definition authorized_user :: "ChatAllowlist \<Rightarrow> ChatId \<Rightarrow> AuthorizedUser option" where
  "authorized_user al chat = (if chat_allowed al chat then Some (AuthorizedUser_bind (chat_no chat)) else None)"

section \<open>Updates and commands\<close>

record RawUpdate =
  ru_update_id :: int
  ru_chat_id :: u64
  ru_message_id :: int
  ru_from_user_id :: int
  ru_from_username :: "string option"
  ru_text :: "string option"
  ru_callback_data :: "string option"

datatype Command =
    Status | Tasks | Task u128 | ApproveCmd u128 | DenyCmd u128 | Pause u128 | Resume u128 | CancelCmd u128 | KillCmd u128
  | Diff u128 | Logs u128 | BudgetCmd | PolicyCmd | Repo | Help | Unknown string

definition command_with_id :: "string \<Rightarrow> (u128 \<Rightarrow> Command) \<Rightarrow> string option \<Rightarrow> Command" where
  "command_with_id s c arg =
     (case Option.bind arg (parse_unsigned 128) of Some n \<Rightarrow> c (of_nat n) | None \<Rightarrow> Unknown s)"

definition command_parse :: "string \<Rightarrow> Command" where
  "command_parse s =
     (case split_whitespace s of
        [] \<Rightarrow> Unknown s
      | verb # rest \<Rightarrow>
          let arg = (case rest of a # _ \<Rightarrow> Some a | [] \<Rightarrow> None) in
          if verb = ''/status'' then Status
          else if verb = ''/tasks'' then Tasks
          else if verb = ''/budget'' then BudgetCmd
          else if verb = ''/policy'' then PolicyCmd
          else if verb = ''/repo'' then Repo
          else if verb = ''/help'' then Help
          else if verb = ''/task'' then command_with_id s Task arg
          else if verb = ''/approve'' then command_with_id s ApproveCmd arg
          else if verb = ''/deny'' then command_with_id s DenyCmd arg
          else if verb = ''/pause'' then command_with_id s Pause arg
          else if verb = ''/resume'' then command_with_id s Resume arg
          else if verb = ''/cancel'' then command_with_id s CancelCmd arg
          else if verb = ''/kill'' then command_with_id s KillCmd arg
          else if verb = ''/diff'' then command_with_id s Diff arg
          else if verb = ''/logs'' then command_with_id s Logs arg
          else Unknown s)"

section \<open>Callbacks\<close>

record CallbackData =
  cb_approval_id :: u128
  cb_decision :: ApprovalResolution
  cb_op_hash :: bytes

text \<open>\<^verbatim>\<open>u8::from_str_radix\<close> on two characters: a plus sign may stand before a single digit.\<close>

definition radix_pair :: "bytes \<Rightarrow> u8 option" where
  "radix_pair p = (if p ! 0 = 0x2B then hex_val (p ! 1) else hex_pair p)"

fun radix_pairs :: "bytes list \<Rightarrow> bytes option" where
  "radix_pairs [] = Some []"
| "radix_pairs (p # ps) = Option.bind (radix_pair p) (\<lambda>b. map_option (Cons b) (radix_pairs ps))"

definition parse_hash_hex :: "string \<Rightarrow> bytes option" where
  "parse_hash_hex hex = (if length hex \<noteq> 64 then None else radix_pairs (chunks_exact 2 (as_bytes hex)))"

definition parse_decision :: "string \<Rightarrow> ApprovalResolution option" where
  "parse_decision s =
     (if s = ''approve'' then Some ApprovalResolution.Approve
      else if s = ''deny'' then Some ApprovalResolution.Deny else None)"

definition callback_parse :: "string \<Rightarrow> CallbackData option" where
  "callback_parse data =
     (case split_on CHR '':'' data of
        [tag, i, d, hex] \<Rightarrow>
          if tag \<noteq> ''ap'' then None
          else Option.bind (parse_unsigned 128 i) (\<lambda>n. Option.bind (parse_decision d) (\<lambda>decision.
               map_option (\<lambda>h. \<lparr>cb_approval_id = of_nat n, cb_decision = decision, cb_op_hash = h\<rparr>) (parse_hash_hex hex)))
      | _ \<Rightarrow> None)"

section \<open>Normalization\<close>

datatype EnvelopeKind = EnvCommand Command | EnvText | EnvCallback CallbackData | EnvSteerButton

record InboundEnvelope =
  ie_source_chat_id :: ChatId
  ie_update_id :: int
  ie_message_id :: int
  ie_received_at :: Timestamp
  ie_kind :: EnvelopeKind
  ie_normalized_text :: BoundedText
  ie_steer_flag :: bool

datatype RejectReason = NotAllowlisted | DuplicateUpdate | Empty | BadCallback

definition STEER_BUTTON_DATA :: string where "STEER_BUTTON_DATA = ''steer''"

definition is_control :: "scalar \<Rightarrow> bool" where
  "is_control c = (c < 32 \<or> (127 \<le> c \<and> c < 160))"

definition clean_text :: "string \<Rightarrow> string" where
  "clean_text s =
     (let spaced = filter (\<lambda>c. \<not> is_control c) (map (\<lambda>c. if is_whitespace c then 32 else c) (chars s))
      in join_with '' '' (map utf8 (words_of spaced)))"

definition envelope :: "RawUpdate \<Rightarrow> Timestamp \<Rightarrow> EnvelopeKind \<Rightarrow> string \<Rightarrow> bool \<Rightarrow> InboundEnvelope" where
  "envelope upd now kind content steer =
     \<lparr>ie_source_chat_id = ChatId (ru_chat_id upd), ie_update_id = ru_update_id upd, ie_message_id = ru_message_id upd,
      ie_received_at = now, ie_kind = kind, ie_normalized_text = truncated content MAX_INBOUND_TEXT, ie_steer_flag = steer\<rparr>"

definition normalize :: "RawUpdate \<Rightarrow> ChatAllowlist \<Rightarrow> Timestamp \<Rightarrow> RejectReason + InboundEnvelope" where
  "normalize upd al now =
     (if \<not> chat_allowed al (ChatId (ru_chat_id upd)) then Inl NotAllowlisted
      else case ru_callback_data upd of
             Some cb \<Rightarrow>
               if cb = STEER_BUTTON_DATA then Inr (envelope upd now EnvSteerButton [] False)
               else and_then (ok_or (callback_parse cb) BadCallback) (\<lambda>c. Inr (envelope upd now (EnvCallback c) [] False))
           | None \<Rightarrow>
               let cleaned = clean_text (case ru_text upd of Some t \<Rightarrow> t | None \<Rightarrow> []) in
               if cleaned = [] then Inl Empty
               else if hd cleaned = CHR 0x21 then Inr (envelope upd now EnvText (str_trim (tl cleaned)) True)
               else if hd cleaned = CHR ''/'' then Inr (envelope upd now (EnvCommand (command_parse cleaned)) cleaned False)
               else Inr (envelope upd now EnvText cleaned False))"

section \<open>Duplicates\<close>

record Deduper =
  dd_floor :: int
  dd_window :: "int list"
  dd_seen :: "int set"

definition Deduper_new :: Deduper where
  "Deduper_new = \<lparr>dd_floor = - (2 ^ 63), dd_window = [], dd_seen = {}\<rparr>"

fun evict :: "int list \<Rightarrow> int set \<Rightarrow> int \<Rightarrow> Deduper" where
  "evict [] seen flr = \<lparr>dd_floor = flr, dd_window = [], dd_seen = seen\<rparr>"
| "evict (e # w) seen flr =
     (if length (e # w) > DEDUPE_WINDOW then evict w (seen - {e}) (max flr e)
      else \<lparr>dd_floor = flr, dd_window = e # w, dd_seen = seen\<rparr>)"

definition dedupe_accept :: "Deduper \<Rightarrow> int \<Rightarrow> Deduper \<times> bool" where
  "dedupe_accept d update_id =
     (if update_id \<in> dd_seen d then (d, False)
      else if update_id \<le> dd_floor d then (d, False)
      else (evict (dd_window d @ [update_id]) (insert update_id (dd_seen d)) (dd_floor d), True))"

section \<open>Routing\<close>

datatype RuntimeEvent =
    QueuedTurn BoundedText | Steer BoundedText | RunCommand Command | ApprovalCallback CallbackData | SteerButton

definition route_event :: "InboundEnvelope \<Rightarrow> RuntimeEvent" where
  "route_event e =
     (case ie_kind e of
        EnvCommand c \<Rightarrow> RunCommand c
      | EnvCallback cb \<Rightarrow> ApprovalCallback cb
      | EnvSteerButton \<Rightarrow> SteerButton
      | EnvText \<Rightarrow> if ie_steer_flag e then Steer (ie_normalized_text e) else QueuedTurn (ie_normalized_text e))"

section \<open>Approvals\<close>

record ApprovalNonce =
  an_approval_id :: u128
  an_op_hash :: bytes
  an_expires_at :: Timestamp

definition hash_hex :: "bytes \<Rightarrow> string" where
  "hash_hex b = concat (map hex_byte b)"

definition callback_data :: "ApprovalNonce \<Rightarrow> ApprovalResolution \<Rightarrow> string" where
  "callback_data nonce decision =
     (let verb = (case decision of ApprovalResolution.Approve \<Rightarrow> ''approve'' | ApprovalResolution.Deny \<Rightarrow> ''deny'')
      in ''ap:'' @ show_nat (unat (an_approval_id nonce)) @ '':'' @ verb @ '':'' @ hash_hex (an_op_hash nonce))"

record ApprovedOperation =
  ao_approval_id :: u128
  ao_op_hash :: bytes
  ao_summary :: BoundedText

datatype ApprovalOutcome =
    OutcomeApproved "ApprovedOperation Approved" | OutcomeDenied u128 | RejectedNotAllowlisted | RejectedUnknownNonce
  | RejectedExpired | RejectedOpMismatch

record PendingApproval =
  pn_op_hash :: bytes
  pn_summary :: BoundedText
  pn_expires_at :: Timestamp

type_synonym ApprovalEngine = "u128 \<rightharpoonup> PendingApproval"

definition approval_request :: "ApprovalEngine \<Rightarrow> u128 \<Rightarrow> string \<Rightarrow> string \<Rightarrow> Timestamp \<Rightarrow> ApprovalEngine \<times> ApprovalNonce" where
  "approval_request eng approval_id operation summary expires_at =
     (let op_hash = sha256 (as_bytes operation) in
      (eng(approval_id \<mapsto> \<lparr>pn_op_hash = op_hash, pn_summary = truncated summary DEFAULT_MAX, pn_expires_at = expires_at\<rparr>),
       \<lparr>an_approval_id = approval_id, an_op_hash = op_hash, an_expires_at = expires_at\<rparr>))"

definition approval_resolve ::
  "ApprovalEngine \<Rightarrow> u128 \<Rightarrow> ApprovalResolution \<Rightarrow> ChatId \<Rightarrow> ChatAllowlist \<Rightarrow> Timestamp \<Rightarrow> bytes option
     \<Rightarrow> ApprovalEngine \<times> ApprovalOutcome" where
  "approval_resolve eng approval_id decision chat al now callback_op_hash =
     (case authorized_user al chat of
        None \<Rightarrow> (eng, RejectedNotAllowlisted)
      | Some user \<Rightarrow>
          (case eng approval_id of
             None \<Rightarrow> (eng, RejectedUnknownNonce)
           | Some p \<Rightarrow>
               if as_millis now > as_millis (pn_expires_at p) then (eng(approval_id := None), RejectedExpired)
               else if (case callback_op_hash of Some h \<Rightarrow> h \<noteq> pn_op_hash p | None \<Rightarrow> False) then (eng, RejectedOpMismatch)
               else (eng(approval_id := None),
                     case decision of
                       ApprovalResolution.Deny \<Rightarrow> OutcomeDenied approval_id
                     | ApprovalResolution.Approve \<Rightarrow>
                         OutcomeApproved (approve user
                           \<lparr>ao_approval_id = approval_id, ao_op_hash = pn_op_hash p, ao_summary = pn_summary p\<rparr>
                           (ApprovalId approval_id) (pn_expires_at p)))))"

section \<open>Replies\<close>

record StatusSnapshot =
  ss_active_tasks :: nat
  ss_budget_used_micros :: u64
  ss_budget_limit_micros :: u64
  ss_channel_healthy :: bool

definition render_status :: "Redactor \<Rightarrow> StatusSnapshot \<Rightarrow> ModelVisibleText" where
  "render_status r snap = to_model_visible r
     (''status: '' @ show_nat (ss_active_tasks snap) @ '' active task(s); budget '' @ show_nat (unat (ss_budget_used_micros snap))
      @ ''/'' @ show_nat (unat (ss_budget_limit_micros snap)) @ '' micros; channel ''
      @ (if ss_channel_healthy snap then ''ok'' else ''degraded''))"

definition render_approval_request :: "Redactor \<Rightarrow> string \<Rightarrow> ApprovalNonce \<Rightarrow> ModelVisibleText" where
  "render_approval_request r summary nonce = to_model_visible r
     (''approval needed (id '' @ show_nat (unat (an_approval_id nonce)) @ ''): '' @ summary @ [CHR 0x0A] @ ''[approve] [deny]'')"

definition render_verifier_result :: "Redactor \<Rightarrow> bool \<Rightarrow> string \<Rightarrow> ModelVisibleText" where
  "render_verifier_result r passed evidence = to_model_visible r
     (''verify '' @ (if passed then ''PASSED'' else ''FAILED'') @ '': '' @ evidence)"

definition render_logs :: "Redactor \<Rightarrow> string \<Rightarrow> ModelVisibleText" where
  "render_logs r raw_logs = to_model_visible r raw_logs"

definition render_notice :: "Redactor \<Rightarrow> string \<Rightarrow> ModelVisibleText" where
  "render_notice r s = to_model_visible r s"

section \<open>The polling loop\<close>

datatype TgError = TgTransport string | TgApi string

fun tg_error_message :: "TgError \<Rightarrow> string" where
  "tg_error_message (TgTransport e) = ''telegram transport: '' @ e"
| "tg_error_message (TgApi e) = ''telegram api: '' @ e"

definition ABUSE_WINDOW_MS :: u64 where "ABUSE_WINDOW_MS = 60000"
definition MAX_TRACKED_CHATS :: nat where "MAX_TRACKED_CHATS = 4096"

record AbuseSuppressor =
  sp_window_ms :: u64
  sp_last_surfaced :: "(int \<times> u64) list"

definition AbuseSuppressor_new :: "u64 \<Rightarrow> AbuseSuppressor" where
  "AbuseSuppressor_new w = \<lparr>sp_window_ms = w, sp_last_surfaced = []\<rparr>"

text \<open>\<^verbatim>\<open>min_by_key\<close>: the first of the entries with the least time.\<close>

definition oldest :: "(int \<times> u64) list \<Rightarrow> int option" where
  "oldest m = (case m of [] \<Rightarrow> None | p # ps \<Rightarrow> Some (fst (foldl (\<lambda>b q. if snd q < snd b then q else b) p ps)))"

definition should_surface :: "AbuseSuppressor \<Rightarrow> u64 \<Rightarrow> Timestamp \<Rightarrow> AbuseSuppressor \<times> bool" where
  "should_surface sp chat now =
     (let k = sint chat; now_ms = as_millis now; m = sp_last_surfaced sp in
      case bt_get m k of
        Some prev \<Rightarrow>
          if (if prev \<le> now_ms then now_ms - prev else 0) < sp_window_ms sp then (sp, False)
          else (sp\<lparr>sp_last_surfaced := bt_insert k now_ms m\<rparr>, True)
      | None \<Rightarrow>
          let m = (if length m \<ge> MAX_TRACKED_CHATS then (case oldest m of Some j \<Rightarrow> bt_remove j m | None \<Rightarrow> m) else m)
          in (sp\<lparr>sp_last_surfaced := bt_insert k now_ms m\<rparr>, True))"

record TelegramPoller =
  tp_offset :: int
  tp_deduper :: Deduper
  tp_allowlist :: ChatAllowlist
  tp_rejected :: u32
  tp_suppressor :: AbuseSuppressor

definition TelegramPoller_new :: "ChatAllowlist \<Rightarrow> TelegramPoller" where
  "TelegramPoller_new al = \<lparr>tp_offset = 0, tp_deduper = Deduper_new, tp_allowlist = al, tp_rejected = 0,
     tp_suppressor = AbuseSuppressor_new ABUSE_WINDOW_MS\<rparr>"

definition poll_update :: "Timestamp \<Rightarrow> RawUpdate \<Rightarrow> TelegramPoller \<Rightarrow> TelegramPoller \<times> (ChatId \<times> RuntimeEvent) list" where
  "poll_update now upd p =
     (let p = p\<lparr>tp_offset := max (tp_offset p) (min (2 ^ 63 - 1) (ru_update_id upd + 1))\<rparr>;
          (d, fresh) = dedupe_accept (tp_deduper p) (ru_update_id upd);
          p = p\<lparr>tp_deduper := d\<rparr>
      in if \<not> fresh then (p, [])
         else case normalize upd (tp_allowlist p) now of
                Inr env \<Rightarrow> (p, [(ie_source_chat_id env, route_event env)])
              | Inl NotAllowlisted \<Rightarrow>
                  let (sp, surface) = should_surface (tp_suppressor p) (ru_chat_id upd) now in
                  (p\<lparr>tp_suppressor := sp, tp_rejected := (if surface then saturating_add (tp_rejected p) 1 else tp_rejected p)\<rparr>, [])
              | Inl _ \<Rightarrow> (p, []))"

fun poll_updates :: "Timestamp \<Rightarrow> RawUpdate list \<Rightarrow> TelegramPoller \<Rightarrow> TelegramPoller \<times> (ChatId \<times> RuntimeEvent) list" where
  "poll_updates now [] p = (p, [])"
| "poll_updates now (upd # upds) p =
     (let (p, es) = poll_update now upd p; (p, es') = poll_updates now upds p in (p, es @ es'))"

definition poll_routed ::
  "(int \<Rightarrow> TgError + RawUpdate list) \<Rightarrow> TelegramPoller \<Rightarrow> Timestamp \<Rightarrow> TelegramPoller \<times> (TgError + (ChatId \<times> RuntimeEvent) list)" where
  "poll_routed get_updates p now =
     (case get_updates (tp_offset p) of
        Inl e \<Rightarrow> (p, Inl e)
      | Inr updates \<Rightarrow> let (p', es) = poll_updates now updates p in (p', Inr es))"

definition poll_once ::
  "(int \<Rightarrow> TgError + RawUpdate list) \<Rightarrow> TelegramPoller \<Rightarrow> Timestamp \<Rightarrow> TelegramPoller \<times> (TgError + RuntimeEvent list)" where
  "poll_once get_updates p now =
     (let (p', res) = poll_routed get_updates p now in (p', and_then res (\<lambda>es. Inr (map snd es))))"

end
