(* ===== verification/Telegram_Props.thy ===== *)
theory Telegram_Props
  imports Telegram Registry_Props EventLog_Props Text_Split
begin

text \<open>
  The operator's channel: who is heard, that a redelivered update changes nothing, what an approval
  token stands for, and that the buttons of a request answer that request.
\<close>

section \<open>Duplicates\<close>

definition covered :: "Deduper \<Rightarrow> int \<Rightarrow> bool" where
  "covered d x = (x \<in> dd_seen d \<or> x \<le> dd_floor d)"

lemma evict_covers: "x \<in> seen \<or> x \<le> flr \<Longrightarrow> covered (evict w seen flr) x"
  by (induction w seen flr rule: evict.induct) (auto simp: covered_def le_max_iff_disj)

lemma accept_covers:
  assumes "dedupe_accept d i = (d', b)"
  shows "covered d' i" "covered d x \<Longrightarrow> covered d' x" "b \<longleftrightarrow> \<not> covered d i"
  using assms evict_covers [of _ "insert i (dd_seen d)" "dd_floor d"]
  by (auto simp: dedupe_accept_def covered_def split: if_splits)

lemma evict_window:
  "length (dd_window (evict w seen flr)) \<le> DEDUPE_WINDOW"
  "set w \<subseteq> seen \<Longrightarrow> distinct w \<Longrightarrow> seen \<subseteq> set w \<Longrightarrow> dd_seen (evict w seen flr) = set (dd_window (evict w seen flr))"
  by (induction w seen flr rule: evict.induct) auto

section \<open>The polling loop\<close>

lemma normalize_allowed: "normalize u al now = Inr e \<Longrightarrow> chat_allowed al (ie_source_chat_id e) \<and> ie_source_chat_id e = ChatId (ru_chat_id u)"
  by (auto simp: normalize_def envelope_def and_then_Inr_iff Let_def split: if_splits option.splits)

lemma poll_update_spec:
  assumes "poll_update now u p = (p', es)"
  shows "tp_allowlist p' = tp_allowlist p"
    and "covered (tp_deduper p') (ru_update_id u)"
    and "covered (tp_deduper p) x \<Longrightarrow> covered (tp_deduper p') x"
    and "tp_offset p' = max (tp_offset p) (min (2 ^ 63 - 1) (ru_update_id u + 1))"
    and "covered (tp_deduper p) (ru_update_id u) \<Longrightarrow> es = []"
    and "length es \<le> 1"
    and "\<forall>ev\<in>set es. fst ev = ChatId (ru_chat_id u) \<and> chat_allowed (tp_allowlist p) (fst ev)"
proof -
  obtain d b where d: "dedupe_accept (tp_deduper p) (ru_update_id u) = (d, b)" by fastforce
  note s = assms [unfolded poll_update_def Let_def, simplified, unfolded d, simplified]
  have "tp_deduper p' = d \<and> tp_allowlist p' = tp_allowlist p
      \<and> tp_offset p' = max (tp_offset p) (min (2 ^ 63 - 1) (ru_update_id u + 1))"
    using s by (auto split: if_splits sum.splits RejectReason.splits prod.splits)
  then show "tp_allowlist p' = tp_allowlist p" "covered (tp_deduper p') (ru_update_id u)"
    "covered (tp_deduper p) x \<Longrightarrow> covered (tp_deduper p') x"
    "tp_offset p' = max (tp_offset p) (min (2 ^ 63 - 1) (ru_update_id u + 1))"
    using accept_covers [OF d] by auto
  show "covered (tp_deduper p) (ru_update_id u) \<Longrightarrow> es = []" using accept_covers(3) [OF d] s by (auto split: if_splits)
  show "length es \<le> 1" using s by (auto split: if_splits sum.splits RejectReason.splits prod.splits)
  show "\<forall>ev\<in>set es. fst ev = ChatId (ru_chat_id u) \<and> chat_allowed (tp_allowlist p) (fst ev)"
    using s normalize_allowed by (fastforce split: if_splits sum.splits RejectReason.splits prod.splits)
qed

lemma poll_updates_spec:
  assumes "poll_updates now us p = (p', es)"
  shows "tp_allowlist p' = tp_allowlist p \<and> (\<forall>x. covered (tp_deduper p) x \<longrightarrow> covered (tp_deduper p') x)
    \<and> tp_offset p \<le> tp_offset p'
    \<and> (\<forall>u\<in>set us. covered (tp_deduper p') (ru_update_id u) \<and> min (2 ^ 63 - 1) (ru_update_id u + 1) \<le> tp_offset p')
    \<and> length es \<le> length us
    \<and> (\<forall>ev\<in>set es. chat_allowed (tp_allowlist p) (fst ev) \<and> fst ev \<in> (ChatId \<circ> ru_chat_id) ` set us)"
  using assms
proof (induction us arbitrary: p es)
  case (Cons u us)
  obtain p1 es1 where 1: "poll_update now u p = (p1, es1)" by fastforce
  obtain es2 where 2: "poll_updates now us p1 = (p', es2)" "es = es1 @ es2"
    using Cons.prems 1 by (auto split: prod.splits)
  note s = poll_update_spec [OF 1]
  show ?case using Cons.IH [OF 2(1)] s 2(2) by fastforce
qed simp

text \<open>An update that the poller is done with: it is known, and the offset is past it.\<close>

definition processed :: "TelegramPoller \<Rightarrow> int \<Rightarrow> bool" where
  "processed p x = (covered (tp_deduper p) x \<and> min (2 ^ 63 - 1) (x + 1) \<le> tp_offset p)"

lemma processed_noop: "processed p (ru_update_id u) \<Longrightarrow> poll_update now u p = (p, [])"
  by (auto simp: processed_def poll_update_def dedupe_accept_def covered_def max_absorb1)

lemma processed_updates: "processed p x \<Longrightarrow> processed (fst (poll_updates now us p)) x"
  using poll_updates_spec [OF prod.collapse [symmetric], of now us p] by (auto simp: processed_def intro: order_trans)

lemma processed_filter:
  "\<forall>x\<in>X. processed p x \<Longrightarrow> poll_updates now vs p = poll_updates now (filter (\<lambda>v. ru_update_id v \<notin> X) vs) p"
proof (induction vs arbitrary: p)
  case (Cons v vs)
  obtain p1 es1 where 1: "poll_update now v p = (p1, es1)" by fastforce
  have "\<forall>x\<in>X. processed p1 x" using Cons.prems processed_updates [of p _ now "[v]"] 1 by simp
  from Cons.IH [OF this] Cons.IH [OF Cons.prems] show ?case
    using Cons.prems 1 processed_noop [of p v now] by (auto simp: Let_def)
qed simp

definition polled :: "((int \<Rightarrow> TgError + RawUpdate list) \<times> Timestamp) list \<Rightarrow> TelegramPoller \<Rightarrow> TelegramPoller" where
  "polled polls p = fold (\<lambda>(get_updates, now) p. fst (poll_routed get_updates p now)) polls p"

lemma processed_polled: "processed p x \<Longrightarrow> processed (polled polls p) x"
proof (induction polls arbitrary: p)
  case (Cons q polls)
  have "processed (fst (poll_routed (fst q) p (snd q))) x"
    using Cons.prems processed_updates by (auto simp: poll_routed_def split: sum.splits prod.splits) (metis fst_conv)
  from Cons.IH [OF this] show ?case by (simp add: polled_def case_prod_unfold)
qed (simp add: polled_def)

section \<open>Approvals\<close>

datatype EngineOp =
    Request u128 string string Timestamp
  | Resolve u128 ApprovalResolution ChatId ChatAllowlist Timestamp "bytes option"

fun engine_step :: "EngineOp \<Rightarrow> ApprovalEngine \<Rightarrow> ApprovalEngine" where
  "engine_step (Request i operation summary t) eng = fst (approval_request eng i operation summary t)"
| "engine_step (Resolve i d chat al now h) eng = fst (approval_resolve eng i d chat al now h)"

definition engine_after :: "EngineOp list \<Rightarrow> ApprovalEngine" where
  "engine_after ops = fold engine_step ops Map.empty"

definition pending_for :: "string \<Rightarrow> string \<Rightarrow> Timestamp \<Rightarrow> PendingApproval" where
  "pending_for operation summary t =
     \<lparr>pn_op_hash = sha256 (as_bytes operation), pn_summary = truncated summary DEFAULT_MAX, pn_expires_at = t\<rparr>"

lemma resolve_step: "engine_step (Resolve i d chat al now h) eng j \<in> {eng j, None}"
  by (auto simp: approval_resolve_def split: option.splits)

lemma request_step: "engine_step (Request i operation summary t) eng = eng(i \<mapsto> pending_for operation summary t)"
  by (simp add: approval_request_def pending_for_def Let_def)

lemma pending_traced:
  "engine_after ops i = Some p \<Longrightarrow>
     \<exists>pre operation summary t post. ops = pre @ Request i operation summary t # post \<and> p = pending_for operation summary t
       \<and> (\<forall>k\<le>length post. engine_after (pre @ Request i operation summary t # take k post) i = Some p)"
proof (induction ops rule: rev_induct)
  case (snoc x ops)
  have last: "engine_after (ops @ [x]) = engine_step x (engine_after ops)" by (simp add: engine_after_def)
  show ?case
  proof (cases "\<exists>operation summary t. x = Request i operation summary t")
    case True
    then obtain operation summary t where x: "x = Request i operation summary t" by blast
    then have "p = pending_for operation summary t" using snoc.prems last by (simp add: request_step del: engine_step.simps)
    then show ?thesis using snoc.prems x by (intro exI [of _ ops] exI [of _ operation] exI [of _ summary] exI [of _ t] exI [of _ "[]"]) simp
  next
    case False
    have "engine_after ops i = Some p"
    proof (cases x)
      case (Resolve j d chat al now h)
      then show ?thesis using snoc.prems resolve_step [of j d chat al now h "engine_after ops" i] unfolding last by auto
    next
      case (Request j operation summary t)
      then show ?thesis using snoc.prems False unfolding last by (simp add: request_step del: engine_step.simps split: if_splits)
    qed
    then obtain pre operation summary t post where p:
      "ops = pre @ Request i operation summary t # post" "p = pending_for operation summary t"
      "\<forall>k\<le>length post. engine_after (pre @ Request i operation summary t # take k post) i = Some p"
      using snoc.IH by blast
    have "engine_after (pre @ Request i operation summary t # take k (post @ [x])) i = Some p" if "k \<le> length (post @ [x])" for k
      using p(1,3) snoc.prems that by (cases "k \<le> length post") auto
    then show ?thesis using p by (intro exI [of _ pre] exI [of _ operation] exI [of _ summary] exI [of _ t] exI [of _ "post @ [x]"]) simp
  qed
qed (simp add: engine_after_def)

section \<open>Buttons\<close>

lemma digit_plain: "n < 16 \<Longrightarrow> of_char (digit n) \<noteq> (0x2B :: u8)" "n < 16 \<Longrightarrow> digit n \<noteq> CHR '':''"
proof -
  have "list_all (\<lambda>n. of_char (digit n) \<noteq> (0x2B :: u8) \<and> digit n \<noteq> CHR '':'') [0..<16]" by code_simp
  then show "n < 16 \<Longrightarrow> of_char (digit n) \<noteq> (0x2B :: u8)" "n < 16 \<Longrightarrow> digit n \<noteq> CHR '':''"
    by (simp_all add: list_all_iff)
qed

lemma nibbles: "unat (b :: u8) div 16 < 16" "unat b mod 16 < 16"
  using unat_less_pow [of b] by simp_all

lemma radix_hex: "radix_pair (as_bytes (hex_byte b)) = Some b"
  using hex_byte_roundtrip [of b] digit_plain(1) [OF nibbles(1) [of b]]
  by (simp add: radix_pair_def as_bytes_def) (simp add: hex_byte_def)

lemma hex_chunks: "chunks_exact 2 (as_bytes (hash_hex b)) = map (\<lambda>x. as_bytes (hex_byte x)) b"
  using chunks_hex [of b] by (simp add: hash_hex_def as_bytes_def)

lemma radix_pairs_hex: "radix_pairs (map (\<lambda>x. as_bytes (hex_byte x)) b) = Some b"
  by (induction b) (simp_all add: radix_hex)

lemma hash_roundtrip: "length b = 32 \<Longrightarrow> parse_hash_hex (hash_hex b) = Some b"
proof -
  have "length (hash_hex b) = 2 * length b" by (induction b) (simp_all add: hash_hex_def hex_byte_def)
  then show "length b = 32 \<Longrightarrow> ?thesis" by (simp add: parse_hash_hex_def hex_chunks radix_pairs_hex)
qed

lemma hex_no_colon: "CHR '':'' \<notin> set (hash_hex b)"
proof -
  have "CHR '':'' \<notin> set (hex_byte x)" for x
    using digit_plain(2) [OF nibbles(1) [of x]] digit_plain(2) [OF nibbles(2) [of x]] by (auto simp: hex_byte_def)
  then show ?thesis by (auto simp: hash_hex_def)
qed

lemma number_no_colon: "CHR '':'' \<notin> set (show_nat n)"
proof -
  have "list_all (\<lambda>c. c \<noteq> CHR '':'') number_chars" by code_simp
  from numeric_all [OF this show_nat_numeric] show ?thesis by blast
qed

lemma split_four:
  assumes "c \<notin> set a" "c \<notin> set b" "c \<notin> set d" "c \<notin> set e"
  shows "split_on c (a @ c # b @ c # d @ c # e) = [a, b, d, e]"
  using assms by (simp add: split_on_append split_on_none)

lemma decision_roundtrip: "parse_decision (case d of ApprovalResolution.Approve \<Rightarrow> ''approve'' | ApprovalResolution.Deny \<Rightarrow> ''deny'') = Some d"
  by (cases d) (simp_all add: parse_decision_def)

section \<open>Properties\<close>

text \<open>
  C30. Only allowlisted chats are heard, and each update once. Whatever the Bot API returns to a poll,
  every event handed to the runtime comes from an allowlisted chat that sent an update of that batch,
  and there are at most as many as updates. After any further polls, failed ones included, a poll
  asks the API only at the poller's offset, which is past every update of that batch (or at the
  largest signed 64-bit number); and when updates with the numbers of that batch are delivered again, the
  poll does exactly what it does without them.
\<close>

theorem poll_guarded:
  assumes "poll_routed get_updates p now = (p', Inr es)" and "p'' = polled polls p'"
  shows "\<exists>us. get_updates (tp_offset p) = Inr us
    \<and> (\<forall>ev\<in>set es. chat_allowed (tp_allowlist p) (fst ev) \<and> fst ev \<in> (ChatId \<circ> ru_chat_id) ` set us)
    \<and> length es \<le> length us
    \<and> (\<forall>api api' later. api (tp_offset p'') = api' (tp_offset p'') \<longrightarrow> poll_routed api p'' later = poll_routed api' p'' later)
    \<and> (\<forall>u\<in>set us. min (2 ^ 63 - 1) (ru_update_id u + 1) \<le> tp_offset p'')
    \<and> (\<forall>later vs. poll_routed (\<lambda>_. Inr vs) p'' later =
         poll_routed (\<lambda>_. Inr (filter (\<lambda>v. ru_update_id v \<notin> ru_update_id ` set us) vs)) p'' later)"
proof -
  obtain us where us: "get_updates (tp_offset p) = Inr us" "poll_updates now us p = (p', es)"
    using assms(1) by (auto simp: poll_routed_def split: sum.splits prod.splits)
  note s = poll_updates_spec [OF us(2)]
  have d: "\<forall>x\<in>ru_update_id ` set us. processed p'' x"
    using s processed_polled unfolding assms(2) by (auto simp: processed_def)
  then have "\<forall>u\<in>set us. min (2 ^ 63 - 1) (ru_update_id u + 1) \<le> tp_offset p''" by (simp add: processed_def)
  moreover have "poll_routed (\<lambda>_. Inr vs) p'' later =
      poll_routed (\<lambda>_. Inr (filter (\<lambda>v. ru_update_id v \<notin> ru_update_id ` set us) vs)) p'' later" for later vs
    unfolding poll_routed_def sum.case using processed_filter [OF d] by presburger
  ultimately show ?thesis using us(1) s by (intro exI [of _ us]) (simp add: poll_routed_def)
qed

definition demo_update :: RawUpdate where
  "demo_update = \<lparr>ru_update_id = 31, ru_chat_id = 7, ru_message_id = 1, ru_from_user_id = 2, ru_from_username = None,
     ru_text = None, ru_callback_data = Some STEER_BUTTON_DATA\<rparr>"

theorem poll_guarded_witness:
  "\<exists>p' es. poll_routed (\<lambda>_. Inr [demo_update]) (TelegramPoller_new (chats_of [7])) (Timestamp 0) = (p', Inr es)
     \<and> map fst es = [ChatId 7] \<and> tp_offset p' \<ge> 32
     \<and> poll_routed (\<lambda>_. Inr [demo_update]) p' (Timestamp 9) = (p', Inr [])"
proof -
  let ?r = "poll_routed (\<lambda>_. Inr [demo_update]) (TelegramPoller_new (chats_of [7])) (Timestamp 0)"
  obtain p' es where r: "?r = (p', Inr es)" "map fst es = [ChatId 7]"
    by (simp add: poll_routed_def poll_update_def dedupe_accept_def TelegramPoller_new_def Deduper_new_def demo_update_def
        normalize_def chat_allowed_def chats_of_def envelope_def Let_def)
  have "p' = polled [] p'" by (simp add: polled_def)
  from poll_guarded [OF r(1) this] obtain us where "Inr [demo_update] = (Inr us :: TgError + RawUpdate list)"
    and "\<forall>u\<in>set us. min (2 ^ 63 - 1) (ru_update_id u + 1) \<le> tp_offset p'"
    and again: "\<forall>later vs. poll_routed (\<lambda>_. Inr vs) p' later =
       poll_routed (\<lambda>_. Inr (filter (\<lambda>v. ru_update_id v \<notin> ru_update_id ` set us) vs)) p' later"
    by (elim exE conjE)
  then have us: "tp_offset p' \<ge> 32" "us = [demo_update]" by (auto simp: demo_update_def)
  have "poll_routed (\<lambda>_. Inr [demo_update]) p' (Timestamp 9) = (p', Inr [])"
    using again [rule_format, of "[demo_update]"] us(2) by (simp add: poll_routed_def)
  then show ?thesis using r us(1) by (intro exI [of _ p'] exI [of _ es] conjI)
qed

text \<open>
  C31. An approval token stands for one answer to one request. Whatever requests and answers came before, if an
  answer yields a token, then an allowlisted chat approved, before the expiry, the operation of the
  latest request under that id, which had been pending ever since; the token carries the hash of exactly that
  operation and its expiry, a button's hash must equal it, and the request is used up.
\<close>

theorem approval_traced:
  assumes "approval_resolve (engine_after ops) i d chat al now h = (eng', OutcomeApproved token)"
  shows "d = ApprovalResolution.Approve \<and> chat_allowed al chat \<and> eng' i = None
    \<and> ap_approved_by token = AuthorizedUser_bind (chat_no chat) \<and> is_valid_at token now
    \<and> (\<exists>pre operation summary t post. ops = pre @ Request i operation summary t # post
         \<and> (\<forall>k\<le>length post. engine_after (pre @ Request i operation summary t # take k post) i
              = Some (pending_for operation summary t))
         \<and> ao_op_hash (ap_value token) = sha256 (as_bytes operation) \<and> ap_expires_at token = t
         \<and> (\<forall>x. h = Some x \<longrightarrow> x = sha256 (as_bytes operation)))"
proof -
  obtain p where p: "engine_after ops i = Some p"
    using assms by (auto simp: approval_resolve_def split: option.splits)
  then obtain pre operation summary t post where tr:
    "ops = pre @ Request i operation summary t # post" "p = pending_for operation summary t"
    "\<forall>k\<le>length post. engine_after (pre @ Request i operation summary t # take k post) i = Some p"
    using pending_traced by blast
  have r: "d = ApprovalResolution.Approve" "chat_allowed al chat" "eng' i = None" "as_millis now \<le> as_millis (pn_expires_at p)"
    "\<forall>x. h = Some x \<longrightarrow> x = pn_op_hash p"
    "token = approve (AuthorizedUser_bind (chat_no chat)) \<lparr>ao_approval_id = i, ao_op_hash = pn_op_hash p, ao_summary = pn_summary p\<rparr>
       (ApprovalId i) (pn_expires_at p)"
    using assms p
    by (auto simp: approval_resolve_def authorized_user_def split: option.splits if_splits ApprovalResolution.splits)
  then show ?thesis using tr
    by (auto simp: approve_def Approved_new_def is_valid_at_def less_eq_Timestamp_def pending_for_def)
qed

theorem approval_traced_witness:
  "\<exists>eng' token. approval_resolve (engine_after [Request 1 ''push'' ''push it'' (Timestamp 10)]) 1 ApprovalResolution.Approve (ChatId 7)
       (chats_of [7]) (Timestamp 5) None = (eng', OutcomeApproved token)
     \<and> ao_op_hash (ap_value token) = sha256 (as_bytes ''push'') \<and> eng' 1 = None"
proof -
  have e: "engine_after [Request 1 ''push'' ''push it'' (Timestamp 10)] = [1 \<mapsto> pending_for ''push'' ''push it'' (Timestamp 10)]"
    by (simp add: engine_after_def request_step del: engine_step.simps)
  obtain eng' token where r: "approval_resolve (engine_after [Request 1 ''push'' ''push it'' (Timestamp 10)]) 1 ApprovalResolution.Approve
      (ChatId 7) (chats_of [7]) (Timestamp 5) None = (eng', OutcomeApproved token)"
    unfolding e by (simp add: approval_resolve_def authorized_user_def chat_allowed_def chats_of_def pending_for_def)
  obtain pre operation summary t post where "[Request 1 ''push'' ''push it'' (Timestamp 10)] = pre @ Request 1 operation summary t # post"
    "ao_op_hash (ap_value token) = sha256 (as_bytes operation)"
    using approval_traced [OF r] by blast
  then have "ao_op_hash (ap_value token) = sha256 (as_bytes ''push'')" by (cases pre) auto
  then show ?thesis using r approval_traced [OF r] by blast
qed

text \<open>
  The buttons of a request answer it: what the approve or deny button of a request sends back is read as
  that decision on that request, with the hash of its operation.
\<close>

theorem callback_roundtrip:
  assumes "length (an_op_hash nonce) = 32"
  shows "callback_parse (callback_data nonce d) =
    Some \<lparr>cb_approval_id = an_approval_id nonce, cb_decision = d, cb_op_hash = an_op_hash nonce\<rparr>"
proof -
  let ?v = "case d of ApprovalResolution.Approve \<Rightarrow> ''approve'' | ApprovalResolution.Deny \<Rightarrow> ''deny''"
  have "CHR '':'' \<notin> set ?v" by (cases d) simp_all
  then have "split_on CHR '':'' (''ap'' @ CHR '':'' # show_nat (unat (an_approval_id nonce)) @ CHR '':'' # ?v @ CHR '':'' # hash_hex (an_op_hash nonce))
      = [''ap'', show_nat (unat (an_approval_id nonce)), ?v, hash_hex (an_op_hash nonce)]"
    using number_no_colon hex_no_colon by (intro split_four) simp_all
  moreover have "unat (an_approval_id nonce) < 2 ^ 128" using unat_less_pow [of "an_approval_id nonce"] by simp
  ultimately show ?thesis
    using assms by (simp add: callback_parse_def callback_data_def parse_shown decision_roundtrip hash_roundtrip Let_def)
qed

theorem callback_roundtrip_witness:
  "callback_parse (callback_data \<lparr>an_approval_id = 5, an_op_hash = replicate 32 7, an_expires_at = Timestamp 1\<rparr> ApprovalResolution.Deny) =
    Some \<lparr>cb_approval_id = 5, cb_decision = ApprovalResolution.Deny, cb_op_hash = replicate 32 7\<rparr>"
  using callback_roundtrip [of "\<lparr>an_approval_id = 5, an_op_hash = replicate 32 7, an_expires_at = Timestamp 1\<rparr>"] by simp

text \<open>A hash may also be written with plus signs for leading zeros.\<close>

lemma signed_hex_accepted: "parse_hash_hex (concat (replicate 32 ''+a'')) = Some (replicate 32 10)"
  by code_simp

end
