(* ===== verification/Github.thy ===== *)
theory Github
  imports Parse_Text Policy Secrets Backend Worker
begin

text \<open>
  The GitHub boundary of the daemon (\<^verbatim>\<open>crates/crustcore-daemon/src/github.rs\<close>): the ranking of authentication modes,
  registered repositories, the push checkpoint of the credential proxy, the credential helper, the merge
  gate, the bounded repair loop and the intake of comments. Minting an installation token is left out.
\<close>

section \<open>Authentication modes\<close>

datatype AuthMode = GitHubApp | FineGrainedPat | ClassicPat

fun mode_rank :: "AuthMode \<Rightarrow> u8" where
  "mode_rank GitHubApp = 0"
| "mode_rank FineGrainedPat = 1"
| "mode_rank ClassicPat = 2"

fun is_discouraged :: "AuthMode \<Rightarrow> bool" where
  "is_discouraged ClassicPat = True"
| "is_discouraged _ = False"

text \<open>\<^verbatim>\<open>min_by_key\<close>: the first of the modes with the least rank.\<close>

definition strongest :: "AuthMode list \<Rightarrow> AuthMode option" where
  "strongest modes =
     (case modes of [] \<Rightarrow> None | m # ms \<Rightarrow> Some (foldl (\<lambda>b x. if mode_rank x < mode_rank b then x else b) m ms))"

section \<open>Registered repositories\<close>

type_synonym RepoRegistry = "string \<rightharpoonup> GitHubWriteCap"

definition cap_repo :: "GitHubWriteCap \<Rightarrow> string" where
  "cap_repo cap = as_str (repo_text (gwc_repo cap))"

definition cap_prefix :: "GitHubWriteCap \<Rightarrow> string" where
  "cap_prefix cap = as_str (prefix_text (gwc_branch_prefix cap))"

definition register_repo :: "RepoRegistry \<Rightarrow> GitHubWriteCap \<Rightarrow> RepoRegistry" where
  "register_repo reg cap = reg(cap_repo cap \<mapsto> cap)"

definition cap_for :: "RepoRegistry \<Rightarrow> string \<Rightarrow> GitHubWriteCap option" where
  "cap_for reg repo = reg repo"

definition is_registered :: "RepoRegistry \<Rightarrow> string \<Rightarrow> bool" where
  "is_registered reg repo = (reg repo \<noteq> None)"

section \<open>The push checkpoint\<close>

record PushRequest =
  pq_repo :: string
  pq_host :: string
  pq_force :: bool
  pq_refspecs :: "string list"

definition is_force_flag :: "string \<Rightarrow> bool" where
  "is_force_flag token = (token = ''-f'' \<or> prefix ''--force'' token)"

fun push_argv_loop :: "bool \<Rightarrow> bool \<Rightarrow> string list \<Rightarrow> string list \<Rightarrow> bool \<times> string list" where
  "push_argv_loop force remote_seen refspecs [] = (force, refspecs)"
| "push_argv_loop force remote_seen refspecs (tok # argv) =
     (if tok = ''push'' \<and> \<not> remote_seen \<and> refspecs = [] then push_argv_loop force remote_seen refspecs argv
      else if is_force_flag tok then push_argv_loop True remote_seen refspecs argv
      else if prefix ''-'' tok then push_argv_loop force remote_seen refspecs argv
      else if \<not> remote_seen then push_argv_loop force True refspecs argv
      else push_argv_loop force remote_seen (refspecs @ [tok]) argv)"

definition parse_push_argv :: "string \<Rightarrow> string \<Rightarrow> string list \<Rightarrow> PushRequest" where
  "parse_push_argv repo host argv =
     (let (force, refspecs) = push_argv_loop False False [] argv
      in \<lparr>pq_repo = repo, pq_host = host, pq_force = force, pq_refspecs = refspecs\<rparr>)"

datatype PushDenied =
    DeniedHost string | RepoMismatch string string | ForcePush | ProtectedBranch string | BranchOutsidePrefix string

fun push_denied_message :: "PushDenied \<Rightarrow> string" where
  "push_denied_message (DeniedHost h) = ''push denied: unexpected host '' @ [CHR 0x27] @ h @ [CHR 0x27]"
| "push_denied_message (RepoMismatch requested allowed) =
     ''push denied: repo '' @ [CHR 0x27] @ requested @ [CHR 0x27] @ '' != capability repo '' @ [CHR 0x27] @ allowed @ [CHR 0x27]"
| "push_denied_message ForcePush = ''push denied: force-push is deny-default''"
| "push_denied_message (ProtectedBranch b) = ''push denied: protected branch '' @ [CHR 0x27] @ b @ [CHR 0x27]"
| "push_denied_message (BranchOutsidePrefix b) =
     ''push denied: branch '' @ [CHR 0x27] @ b @ [CHR 0x27] @ '' is outside the capability prefix''"

definition ALLOWED_HOSTS :: "string list" where
  "ALLOWED_HOSTS = [''github.com'', ''api.github.com'']"

definition github_branch_under_prefix :: "string \<Rightarrow> string \<Rightarrow> bool" where
  "github_branch_under_prefix branch pre =
     (if list_ex (\<lambda>seg. seg = ''..'' \<or> seg = ''.'') (split_on CHR ''/'' branch) then False
      else let pre = trim_end_matches CHR ''/'' pre in
           if pre = [] then False else branch = pre \<or> prefix (pre @ ''/'') branch)"

text \<open>The branch a refspec writes: what follows the last colon, without the branch namespace.\<close>

definition refspec_branch :: "string \<Rightarrow> string" where
  "refspec_branch spec =
     (let dst = last (split_on CHR '':'' spec)
      in if prefix ''refs/heads/'' dst then drop 11 dst else dst)"

definition check_refspec :: "GitHubWriteCap \<Rightarrow> string \<Rightarrow> PushDenied + unit" where
  "check_refspec cap spec =
     (let spec = str_trim spec in
      if length (split_whitespace spec) > 1 then Inl ForcePush
      else if prefix ''+'' spec then Inl ForcePush
      else let branch = refspec_branch spec in
           if branch = ''main'' \<or> branch = ''master'' \<or> branch = ''HEAD'' then Inl (ProtectedBranch branch)
           else if \<not> github_branch_under_prefix branch (cap_prefix cap) then Inl (BranchOutsidePrefix branch)
           else Inr ())"

fun check_refspecs :: "GitHubWriteCap \<Rightarrow> string list \<Rightarrow> PushDenied + unit" where
  "check_refspecs cap [] = Inr ()"
| "check_refspecs cap (spec # specs) = and_then (check_refspec cap spec) (\<lambda>_. check_refspecs cap specs)"

definition validate_push :: "GitHubWriteCap \<Rightarrow> PushRequest \<Rightarrow> PushDenied + unit" where
  "validate_push cap req =
     (if pq_host req \<notin> set ALLOWED_HOSTS then Inl (DeniedHost (pq_host req))
      else if pq_repo req \<noteq> cap_repo cap then Inl (RepoMismatch (pq_repo req) (cap_repo cap))
      else if pq_force req then Inl ForcePush
      else check_refspecs cap (pq_refspecs req))"

section \<open>The credential helper\<close>

definition GITHUB_HOST :: string where "GITHUB_HOST = ''github.com''"

record CredentialRequest =
  cq_protocol :: string
  cq_host :: string
  cq_path :: string

definition CredentialRequest_default :: CredentialRequest where
  "CredentialRequest_default = \<lparr>cq_protocol = [], cq_host = [], cq_path = []\<rparr>"

fun credential_loop :: "CredentialRequest \<Rightarrow> string list \<Rightarrow> CredentialRequest" where
  "credential_loop req [] = req"
| "credential_loop req (line # ls) =
     (let line = trim_end_matches CHR 0x0D line in
      if line = [] then req
      else case split_once CHR ''='' line of
             None \<Rightarrow> credential_loop req ls
           | Some (k, v) \<Rightarrow>
               let v = utf8 (take 512 (chars v)) in
               credential_loop
                 (if k = ''protocol'' then req\<lparr>cq_protocol := v\<rparr>
                  else if k = ''host'' then req\<lparr>cq_host := v\<rparr>
                  else if k = ''path'' then req\<lparr>cq_path := v\<rparr>
                  else req) ls)"

definition parse_credential_request :: "string \<Rightarrow> CredentialRequest" where
  "parse_credential_request stdin = credential_loop CredentialRequest_default (take 64 (str_lines stdin))"

datatype CredentialDenied = WrongProtocol | WrongHost | RepoNotRegistered

text \<open>\<^verbatim>\<open>trim_end_matches\<close> of a suffix, as often as it occurs.\<close>

function trim_suffix :: "string \<Rightarrow> string \<Rightarrow> string" where
  "trim_suffix suf s = (if suf \<noteq> [] \<and> suffix suf s then trim_suffix suf (take (length s - length suf) s) else s)"
  by pat_completeness auto
termination by (relation "measure (length \<circ> snd)") (auto simp: suffix_def)

declare trim_suffix.simps [simp del]

definition repo_from_credential_path :: "string \<Rightarrow> string" where
  "repo_from_credential_path path = trim_suffix ''.git'' (dropWhile (\<lambda>c. c = CHR ''/'') path)"

definition authorize_credential :: "CredentialRequest \<Rightarrow> RepoRegistry \<Rightarrow> CredentialDenied + string" where
  "authorize_credential req reg =
     (if cq_protocol req \<noteq> ''https'' then Inl WrongProtocol
      else if cq_host req \<noteq> GITHUB_HOST then Inl WrongHost
      else let repo = repo_from_credential_path (cq_path req) in
           if is_registered reg repo then Inr repo else Inl RepoNotRegistered)"

definition credential_helper_response :: "string \<Rightarrow> string" where
  "credential_helper_response token =
     ''username=x-access-token'' @ [CHR 0x0A] @ ''password='' @ token @ [CHR 0x0A]"

definition confining_git_config :: "string \<Rightarrow> string list" where
  "confining_git_config helper_path =
     [''-c'', ''credential.helper='', ''-c'', ''credential.helper='' @ helper_path, ''-c'', ''credential.useHttpPath=true'']"

section \<open>The merge gate and the repair loop\<close>

datatype MergeDecision = Authorized | RequiresApproval

definition decide_merge :: "GitHubWriteCap Approved option \<Rightarrow> Timestamp \<Rightarrow> MergeDecision" where
  "decide_merge approval now =
     (case approval of
        Some a \<Rightarrow> if is_valid_at a now then Authorized else RequiresApproval
      | None \<Rightarrow> RequiresApproval)"

datatype CheckOutcome = CheckPassed | CheckFailed

datatype CheckState = StatePending | StatePassed | StateFailed

datatype RepairDecision = RepairGreen | SpawnRepair | StopExhausted

definition repair_decision :: "CheckOutcome \<Rightarrow> u32 \<Rightarrow> u32 \<Rightarrow> RepairDecision" where
  "repair_decision outcome attempts_so_far max_attempts =
     (case outcome of
        CheckPassed \<Rightarrow> RepairGreen
      | CheckFailed \<Rightarrow> if attempts_so_far < max_attempts then SpawnRepair else StopExhausted)"

definition MAX_REPAIR_CONTEXT_CHECKS :: nat where "MAX_REPAIR_CONTEXT_CHECKS = 16"

definition aggregate_check_runs :: "CheckState list \<Rightarrow> CheckState" where
  "aggregate_check_runs runs =
     (if StateFailed \<in> set runs then StateFailed
      else if runs = [] \<or> StatePending \<in> set runs then StatePending
      else StatePassed)"

datatype MonitorDecision = MonitorWait | MonitorGreen | MonitorSpawnRepair | MonitorStopExhausted

definition monitor_decision :: "CheckState \<Rightarrow> u32 \<Rightarrow> u32 \<Rightarrow> MonitorDecision" where
  "monitor_decision st attempts_so_far max_attempts =
     (case st of
        StatePending \<Rightarrow> MonitorWait
      | StatePassed \<Rightarrow> MonitorGreen
      | StateFailed \<Rightarrow>
          (case repair_decision CheckFailed attempts_so_far max_attempts of
             SpawnRepair \<Rightarrow> MonitorSpawnRepair
           | StopExhausted \<Rightarrow> MonitorStopExhausted
           | RepairGreen \<Rightarrow> MonitorGreen))"

definition repair_task_goal :: "string list \<Rightarrow> string" where
  "repair_task_goal failed_checks =
     (if failed_checks = [] then ''Repair the failing CI checks on this branch.''
      else let names = map (\<lambda>n. as_str (truncated n 120)) (take MAX_REPAIR_CONTEXT_CHECKS failed_checks);
               more = length failed_checks - MAX_REPAIR_CONTEXT_CHECKS;
               tail_text = (if more > 0 then '' (+'' @ show_nat more @ '' more)'' else [])
           in ''Repair the failing CI checks: '' @ join_with '', '' names @ tail_text @ ''.'')"

section \<open>Comments\<close>

record IngestedComment =
  ic_content :: "string Tainted"
  ic_redacted :: ModelVisibleText
  ic_author :: BoundedText

definition MAX_COMMENT_BYTES :: nat where "MAX_COMMENT_BYTES = 64 * 1024"

definition ingest_comment :: "string \<Rightarrow> string \<Rightarrow> Redactor \<Rightarrow> IngestedComment" where
  "ingest_comment author comment redactor =
     (let b = truncated comment MAX_COMMENT_BYTES in
      \<lparr>ic_content = Tainted (as_str b), ic_redacted = to_model_visible redactor (as_str b), ic_author = truncated author 256\<rparr>)"

end
