(* ===== verification/Github_Props.thy ===== *)
theory Github_Props
  imports Github Json_Props Backend_Props Text_Split
begin

text \<open>
  What the credential proxy lets through: pushes confined to the branch prefix of the capability, and
  credentials for registered repositories only.
\<close>

lemma branch_checks_agree: "github_branch_under_prefix = branch_under_prefix"
  by (simp add: fun_eq_iff github_branch_under_prefix_def branch_under_prefix_def)

lemma split_on_last:
  "\<exists>pre. s = pre @ last (split_on c s) \<and> (pre = [] \<or> last pre = c) \<and> c \<notin> set (last (split_on c s))"
proof (cases "c \<in> set s")
  case True
  then obtain a b where "s = a @ c # b" "c \<notin> set b" by (metis split_list_last)
  then show ?thesis by (intro exI [of _ "a @ [c]"]) (simp add: split_on_append split_on_none)
qed (simp add: split_on_none)

lemma force_is_flag: "is_force_flag t \<Longrightarrow> prefix ''-'' t"
  by (auto simp: is_force_flag_def prefix_def)

lemma push_argv_force: "fst (push_argv_loop force seen specs argv) \<longleftrightarrow> force \<or> list_ex is_force_flag argv"
  by (induction force seen specs argv rule: push_argv_loop.induct) (auto simp: is_force_flag_def prefix_def)

lemma push_argv_refspecs:
  "snd (push_argv_loop force True specs argv) = specs @ filter (\<lambda>t. \<not> prefix ''-'' t) argv"
  by (induction force True specs argv rule: push_argv_loop.induct) (auto dest: force_is_flag)

lemma push_argv_remote:
  "snd (push_argv_loop force False [] argv) = drop 1 (dropWhile (\<lambda>t. t = ''push'') (filter (\<lambda>t. \<not> prefix ''-'' t) argv))"
proof (induction argv arbitrary: force)
  case (Cons tok argv)
  then show ?case by (auto simp: push_argv_refspecs dest: force_is_flag)
qed simp

lemma check_refspecs_iff: "check_refspecs cap specs = Inr () \<longleftrightarrow> list_all (\<lambda>s. check_refspec cap s = Inr ()) specs"
  by (induction specs) (auto simp: and_then_Inr_iff)

definition refs_of :: "string list \<Rightarrow> string list" where
  "refs_of argv = drop 1 (dropWhile (\<lambda>t. t = ''push'') (filter (\<lambda>t. \<not> prefix ''-'' t) argv))"

lemma trim_suffix_spec: "suf \<noteq> [] \<Longrightarrow> \<exists>n. s = trim_suffix suf s @ concat (replicate n suf)"
proof (induction suf s rule: trim_suffix.induct)
  case (1 suf s)
  show ?case
  proof (cases "suffix suf s")
    case True
    then obtain pre where s: "s = pre @ suf" by (auto simp: suffix_def)
    then obtain n where "pre = trim_suffix suf pre @ concat (replicate n suf)" using 1 True by auto
    then have "s = trim_suffix suf s @ concat (replicate n suf) @ suf"
      using s True "1.prems" by (subst trim_suffix.simps) simp
    also have "concat (replicate n suf) @ suf = concat (replicate (Suc n) suf)"
      by (induction n) simp_all
    finally show ?thesis by blast
  next
    case False
    then show ?thesis by (intro exI [of _ 0]) (simp add: trim_suffix.simps)
  qed
qed

text \<open>Texts of one word, for evaluation.\<close>

definition one_word :: "string \<Rightarrow> bool" where
  "one_word s = (s \<noteq> [] \<and> ascii s \<and> list_all (\<lambda>c. \<not> is_whitespace (of_char c)) s)"

lemma one_word_reads: "one_word s \<Longrightarrow> str_trim s = s" "one_word s \<Longrightarrow> split_whitespace s = [s]"
proof -
  assume w: "one_word s"
  then have c: "chars s = map of_char s" "utf8 (map of_char s) = s"
    using chars_ascii [of s "[]"] valid_text_ascii [of s] by (simp_all add: one_word_def valid_text_def)
  have ws: "\<not> is_whitespace x" if "x \<in> set (chars s)" for x using w that by (auto simp: c(1) one_word_def list_all_iff)
  have "s \<noteq> []" using w by (simp add: one_word_def)
  then have "chars s \<noteq> []" unfolding c(1) by simp
  then obtain x xs where xs: "chars s = x # xs" by (cases "chars s") simp_all
  obtain y ys where ys: "rev (chars s) = y # ys" using xs by (cases "rev (chars s)") auto
  have "y \<in> set (chars s)" using ys by (metis list.set_intros(1) set_rev)
  then have trim: "dropWhile is_whitespace (rev (chars s)) = rev (chars s)" using ws ys by simp
  have id: "dropWhile is_whitespace (chars s) = chars s" using ws xs by simp
  show "str_trim s = s" using trim id c by (simp add: str_trim_def)
  have "words_of (chars s) = [chars s]" unfolding words_of_def using ws xs by (subst words_loop_single) auto
  then show "split_whitespace s = [s]" using c by (simp add: split_whitespace_def)
qed

section \<open>Properties\<close>

text \<open>
  What a refspec writes: the branch named after its last colon, with or without the branch namespace.
\<close>

definition writes :: "string \<Rightarrow> string \<Rightarrow> bool" where
  "writes spec b = (\<exists>src dst. spec = src @ dst \<and> (src = [] \<or> last src = CHR '':'') \<and> CHR '':'' \<notin> set dst
     \<and> (dst = ''refs/heads/'' @ b \<or> \<not> prefix ''refs/heads/'' dst \<and> dst = b))"

lemma writes_refspec_branch: "writes spec (refspec_branch spec)"
proof -
  define dst where "dst = last (split_on CHR '':'' spec)"
  obtain src where s: "spec = src @ dst" "src = [] \<or> last src = CHR '':''" "CHR '':'' \<notin> set dst"
    using split_on_last [of spec "CHR '':''"] by (auto simp: dst_def)
  have "dst = ''refs/heads/'' @ refspec_branch spec \<or> \<not> prefix ''refs/heads/'' dst \<and> dst = refspec_branch spec"
    by (cases "prefix ''refs/heads/'' dst") (auto simp: refspec_branch_def Let_def prefix_def simp flip: dst_def)
  with s show ?thesis unfolding writes_def by blast
qed

text \<open>
  C32. A push with named refspecs reaches a token only inside its capability. If the checkpoint accepts
  the push that the arguments of git describe, the host is GitHub's and the repository the
  capability's; no argument is -f or starts with --force; and every refspec given (the arguments
  after the remote that are no options) has no leading plus sign and writes a branch below the
  capability's prefix, at a path boundary and without dot segments, that is not main, master or HEAD.
  Other options are not looked at: the claim says nothing about what --mirror or --all push, or
  about a force option bundled with another, as in -uf.
\<close>

theorem push_confined:
  assumes "validate_push cap (parse_push_argv repo host argv) = Inr ()"
  shows "host \<in> {''github.com'', ''api.github.com''} \<and> repo = cap_repo cap
    \<and> list_all (\<lambda>arg. arg \<noteq> ''-f'' \<and> \<not> prefix ''--force'' arg) argv
    \<and> list_all (\<lambda>spec. \<not> prefix ''+'' (str_trim spec)
          \<and> (\<exists>b. writes (str_trim spec) b \<and> b \<notin> {''main'', ''master'', ''HEAD''} \<and> below (cap_prefix cap) b))
        (refs_of argv)"
  using assms push_argv_force [of False False "[]" argv] push_argv_remote [of False argv] writes_refspec_branch
  by (auto simp: validate_push_def parse_push_argv_def ALLOWED_HOSTS_def check_refspecs_iff check_refspec_def
      refs_of_def branch_checks_agree branch_under_prefix_iff list_all_iff list_ex_iff is_force_flag_def Let_def
      case_prod_unfold split: if_splits)

definition demo_cap :: GitHubWriteCap where
  "demo_cap = \<lparr>gwc_repo = RepoRef (BoundedText ''acme/app''), gwc_branch_prefix = BranchPrefix (BoundedText ''crustcore/''),
     gwc_scope = ScopeId 1\<rparr>"

lemma demo_branch: "github_branch_under_prefix ''crustcore/fix'' (cap_prefix demo_cap)"
  by code_simp

lemma demo_words: "one_word ''HEAD:crustcore/fix''" "one_word ''crustcore/fix''"
  by (simp_all add: one_word_def ascii_def is_whitespace_def)

lemma demo_branches: "refspec_branch ''HEAD:crustcore/fix'' = ''crustcore/fix''" "refspec_branch ''crustcore/fix'' = ''crustcore/fix''"
  by code_simp+

lemma demo_refspecs: "check_refspec demo_cap ''HEAD:crustcore/fix'' = Inr ()" "check_refspec demo_cap ''crustcore/fix'' = Inr ()"
  using demo_branch by (simp_all add: check_refspec_def one_word_reads demo_words demo_branches Let_def)

lemma demo_repo: "cap_repo demo_cap = ''acme/app''"
  by (simp add: cap_repo_def demo_cap_def)

theorem push_confined_witness:
  "refs_of [''push'', ''-u'', ''origin'', ''HEAD:crustcore/fix''] = [''HEAD:crustcore/fix'']
    \<and> (\<exists>b. writes ''HEAD:crustcore/fix'' b \<and> below (cap_prefix demo_cap) b)"
proof -
  have "validate_push demo_cap (parse_push_argv ''acme/app'' ''github.com'' [''push'', ''-u'', ''origin'', ''HEAD:crustcore/fix'']) = Inr ()"
    by (simp add: validate_push_def parse_push_argv_def is_force_flag_def ALLOWED_HOSTS_def demo_refspecs demo_repo)
  from push_confined [OF this] have p: "list_all (\<lambda>spec. \<exists>b. writes (str_trim spec) b \<and> below (cap_prefix demo_cap) b)
      (refs_of [''push'', ''-u'', ''origin'', ''HEAD:crustcore/fix''])"
    by (auto simp: list_all_iff)
  have r: "refs_of [''push'', ''-u'', ''origin'', ''HEAD:crustcore/fix''] = [''HEAD:crustcore/fix'']" by code_simp
  show ?thesis using p unfolding r by (simp add: one_word_reads demo_words)
qed

text \<open>A push of everything names no refspec, and a force flag bundled with another is not seen.\<close>

lemma mirror_push_accepted:
  "validate_push demo_cap (parse_push_argv ''acme/app'' ''github.com'' [''push'', ''--mirror'', ''origin'']) = Inr ()"
  "validate_push demo_cap (parse_push_argv ''acme/app'' ''github.com'' [''push'', ''-uf'', ''origin'', ''crustcore/fix'']) = Inr ()"
  by (simp_all add: validate_push_def parse_push_argv_def is_force_flag_def ALLOWED_HOSTS_def demo_refspecs demo_repo)

text \<open>
  A credential is issued only for a registered repository over an encrypted connection to GitHub, and the
  requested path is that repository's, up to leading slashes and the suffix .git.
\<close>

theorem credential_scoped:
  assumes "authorize_credential (parse_credential_request stdin) reg = Inr repo"
  shows "cq_protocol (parse_credential_request stdin) = ''https'' \<and> cq_host (parse_credential_request stdin) = ''github.com''
    \<and> (\<exists>cap. cap_for reg repo = Some cap)
    \<and> (\<exists>m n. cq_path (parse_credential_request stdin) = replicate m CHR ''/'' @ repo @ concat (replicate n ''.git''))"
proof -
  let ?p = "cq_path (parse_credential_request stdin)"
  have "takeWhile (\<lambda>c. c = CHR ''/'') ?p = replicate (length (takeWhile (\<lambda>c. c = CHR ''/'') ?p)) CHR ''/''"
    by (rule replicate_eqI) (auto dest: set_takeWhileD)
  moreover obtain n where "dropWhile (\<lambda>c. c = CHR ''/'') ?p = repo_from_credential_path ?p @ concat (replicate n ''.git'')"
    using trim_suffix_spec [of "''.git''" "dropWhile (\<lambda>c. c = CHR ''/'') ?p"] by (auto simp: repo_from_credential_path_def)
  ultimately have "\<exists>m n. ?p = replicate m CHR ''/'' @ repo_from_credential_path ?p @ concat (replicate n ''.git'')"
    by (metis takeWhile_dropWhile_id)
  then show ?thesis
    using assms by (auto simp: authorize_credential_def is_registered_def cap_for_def GITHUB_HOST_def Let_def split: if_splits)
qed

lemma demo_credential:
  "parse_credential_request (''protocol=https'' @ [CHR 0x0A] @ ''host=github.com'' @ [CHR 0x0A] @ ''path=/a/b.git'' @ [CHR 0x0A])
    = \<lparr>cq_protocol = ''https'', cq_host = ''github.com'', cq_path = ''/a/b.git''\<rparr>"
proof -
  have "utf8 (take 512 (chars s)) = s" if "ascii s" "length s \<le> 512" for s
    using that chars_ascii [of s "[]"] valid_text_ascii [of s] by (simp add: valid_text_def)
  moreover have "ascii ''https''" "ascii ''github.com''" "ascii ''/a/b.git''" by (simp_all add: ascii_def)
  moreover have "str_lines (''protocol=https'' @ [CHR 0x0A] @ ''host=github.com'' @ [CHR 0x0A] @ ''path=/a/b.git'' @ [CHR 0x0A])
      = [''protocol=https'', ''host=github.com'', ''path=/a/b.git'']" by code_simp
  moreover have "split_once CHR ''='' ''protocol=https'' = Some (''protocol'', ''https'')"
    "split_once CHR ''='' ''host=github.com'' = Some (''host'', ''github.com'')"
    "split_once CHR ''='' ''path=/a/b.git'' = Some (''path'', ''/a/b.git'')" by code_simp+
  ultimately show ?thesis
    by (simp add: parse_credential_request_def CredentialRequest_default_def trim_end_matches_def del: chars.simps)
qed

theorem credential_scoped_witness:
  "\<exists>m n. ''/a/b.git'' = replicate m CHR ''/'' @ ''a/b'' @ concat (replicate n ''.git'')"
proof -
  let ?in = "''protocol=https'' @ [CHR 0x0A] @ ''host=github.com'' @ [CHR 0x0A] @ ''path=/a/b.git'' @ [CHR 0x0A]"
  have "trim_suffix ''.git'' ''a/b.git'' = ''a/b''"
    by (subst trim_suffix.simps, simp add: suffix_def, subst trim_suffix.simps) (auto simp: suffix_def)
  then have "authorize_credential (parse_credential_request ?in) [''a/b'' \<mapsto> demo_cap] = Inr ''a/b''"
    unfolding demo_credential by (simp add: authorize_credential_def GITHUB_HOST_def repo_from_credential_path_def is_registered_def)
  from credential_scoped [OF this] show ?thesis unfolding demo_credential by simp
qed

end
