(* ===== verification/Webhook.thy ===== *)
theory Webhook
  imports Parse_Text Hash Secrets Confine Format
begin

text \<open>
  GitHub webhooks (\<^verbatim>\<open>crates/crustcore-daemon/src/webhook.rs\<close>): the verifier with its replay guard, and the parser of
  one HTTP request. The listening socket is left out.
\<close>

definition MAX_WEBHOOK_BODY :: nat where "MAX_WEBHOOK_BODY = 1024 * 1024"
definition MAX_WEBHOOK_SUMMARY :: nat where "MAX_WEBHOOK_SUMMARY = 8 * 1024"
definition MAX_SEEN_DELIVERIES :: nat where "MAX_SEEN_DELIVERIES = 4096"
definition MAX_DELIVERY_ID :: nat where "MAX_DELIVERY_ID = 128"

record WebhookRequest =
  wr_event :: string
  wr_delivery_id :: string
  wr_signature :: string
  wr_body :: bytes

datatype WebhookReject = TooLarge | EmptyDelivery | DeliveryIdTooLong | BadSignature | Replay

datatype GitHubEventKind = Issue | PullRequest | CheckSuite | IssueComment | Push | OtherEvent

record GitHubEnvelope =
  ge_kind :: GitHubEventKind
  ge_delivery_id :: BoundedText
  ge_payload :: BoundedText

record ReplayGuard =
  gd_order :: "string list"
  gd_set :: "string set"

definition ReplayGuard_new :: ReplayGuard where
  "ReplayGuard_new = \<lparr>gd_order = [], gd_set = {}\<rparr>"

definition guard_accept :: "ReplayGuard \<Rightarrow> string \<Rightarrow> ReplayGuard \<times> bool" where
  "guard_accept g i =
     (if i \<in> gd_set g then (g, False)
      else let g = (if length (gd_order g) \<ge> MAX_SEEN_DELIVERIES
                    then (case gd_order g of old # rest \<Rightarrow> \<lparr>gd_order = rest, gd_set = gd_set g - {old}\<rparr> | [] \<Rightarrow> g)
                    else g)
           in (\<lparr>gd_order = gd_order g @ [i], gd_set = insert i (gd_set g)\<rparr>, True))"

record WebhookVerifier =
  wv_secret :: bytes
  wv_seen :: ReplayGuard

definition WebhookVerifier_new :: "bytes \<Rightarrow> WebhookVerifier" where
  "WebhookVerifier_new k = \<lparr>wv_secret = k, wv_seen = ReplayGuard_new\<rparr>"

definition signature_ok :: "WebhookVerifier \<Rightarrow> string \<Rightarrow> bytes \<Rightarrow> bool" where
  "signature_ok v signature body =
     (if \<not> prefix ''sha256='' signature then False
      else case hex32_decode (as_bytes (drop 7 signature)) of
             None \<Rightarrow> False
           | Some provided \<Rightarrow> ct_eq provided (hmac_sha256 (wv_secret v) body))"

definition parse_kind :: "string \<Rightarrow> GitHubEventKind" where
  "parse_kind event =
     (if event = ''issues'' then Issue
      else if event = ''pull_request'' then PullRequest
      else if event = ''check_suite'' \<or> event = ''check_run'' then CheckSuite
      else if event = ''issue_comment'' \<or> event = ''pull_request_review_comment'' then IssueComment
      else if event = ''push'' then Push
      else OtherEvent)"

definition webhook_verify ::
  "WebhookVerifier \<Rightarrow> WebhookRequest \<Rightarrow> Redactor \<Rightarrow> WebhookVerifier \<times> (WebhookReject + GitHubEnvelope)" where
  "webhook_verify v req redactor =
     (if length (wr_body req) > MAX_WEBHOOK_BODY then (v, Inl TooLarge)
      else if wr_delivery_id req = [] then (v, Inl EmptyDelivery)
      else if length (wr_delivery_id req) > MAX_DELIVERY_ID then (v, Inl DeliveryIdTooLong)
      else if \<not> signature_ok v (wr_signature req) (wr_body req) then (v, Inl BadSignature)
      else let (g, fresh) = guard_accept (wv_seen v) (wr_delivery_id req);
               v = v\<lparr>wv_seen := g\<rparr>
           in if \<not> fresh then (v, Inl Replay)
              else (v, Inr \<lparr>ge_kind = parse_kind (wr_event req),
                            ge_delivery_id = truncated (wr_delivery_id req) MAX_DELIVERY_ID,
                            ge_payload = truncated (visible_str (to_model_visible redactor (utf8_lossy (wr_body req)))) MAX_WEBHOOK_SUMMARY\<rparr>))"

section \<open>One HTTP request\<close>

datatype HttpParseError = NotPost | Malformed | HttpTooLarge

fun webhook_find_subslice :: "bytes \<Rightarrow> bytes \<Rightarrow> nat option" where
  "webhook_find_subslice needle [] = None"
| "webhook_find_subslice needle (b # bs) =
     (if needle = [] \<or> length (b # bs) < length needle then None
      else if prefix needle (b # bs) then Some 0
      else map_option Suc (webhook_find_subslice needle bs))"

text \<open>\<^verbatim>\<open>split\<close> at every carriage return that a line feed follows.\<close>

fun split_crlf :: "string \<Rightarrow> string list" where
  "split_crlf [] = [[]]"
| "split_crlf (c # s) =
     (if c = CHR 0x0D \<and> s \<noteq> [] \<and> hd s = CHR 0x0A then [] # split_crlf (tl s)
      else case split_crlf s of l # ls \<Rightarrow> (c # l) # ls | [] \<Rightarrow> [[c]])"

definition read_header :: "string \<Rightarrow> WebhookRequest \<Rightarrow> WebhookRequest" where
  "read_header line req =
     (case split_once CHR '':'' line of
        None \<Rightarrow> req
      | Some (name, v) \<Rightarrow>
          let v = str_trim v; name = str_trim name in
          if eq_ignore_ascii_case name ''X-GitHub-Event'' then req\<lparr>wr_event := v\<rparr>
          else if eq_ignore_ascii_case name ''X-GitHub-Delivery'' then req\<lparr>wr_delivery_id := v\<rparr>
          else if eq_ignore_ascii_case name ''X-Hub-Signature-256'' then req\<lparr>wr_signature := v\<rparr>
          else req)"

definition parse_http_webhook :: "bytes \<Rightarrow> HttpParseError + WebhookRequest" where
  "parse_http_webhook inp =
     (case webhook_find_subslice [13, 10, 13, 10] inp of
        None \<Rightarrow> Inl Malformed
      | Some at \<Rightarrow>
          let body = drop (at + 4) inp in
          if length body > MAX_WEBHOOK_BODY then Inl HttpTooLarge
          else case from_utf8 (take at inp) of
                 None \<Rightarrow> Inl Malformed
               | Some hd_text \<Rightarrow>
                   (case split_crlf hd_text of
                      [] \<Rightarrow> Inl Malformed
                    | request_line # ls \<Rightarrow>
                        if (case split_whitespace request_line of m # _ \<Rightarrow> \<not> eq_ignore_ascii_case m ''POST'' | [] \<Rightarrow> True)
                        then Inl NotPost
                        else Inr (fold read_header ls
                               \<lparr>wr_event = [], wr_delivery_id = [], wr_signature = [], wr_body = body\<rparr>)))"

end
