(* ===== verification/Admin.thy ===== *)
theory Admin
  imports Registry Parse_Text
begin

text \<open>
  The operator's administration socket (\<^verbatim>\<open>crates/crustcore-daemon/src/admin.rs\<close>): commands, frames, the
  comparison of the nonce, dispatch against the task registry, and serving one connection. A connection is the
  bytes it brings; reading past its end is the only failure of a read, and writing does not fail.
\<close>

definition MAX_ADMIN_FRAME :: nat where "MAX_ADMIN_FRAME = 64 * 1024"
definition MAX_STATUS_ROWS :: nat where "MAX_STATUS_ROWS = 256"

datatype AdminCommand = AdminStatus | TaskDetail u64 | AdminCancel u64 | AdminKill u64

definition admin_id :: "(u64 \<Rightarrow> AdminCommand) \<Rightarrow> string list \<Rightarrow> AdminCommand option" where
  "admin_id c ws = (case ws of [] \<Rightarrow> None | w # _ \<Rightarrow> map_option (\<lambda>n. c (of_nat n)) (parse_unsigned 64 w))"

definition parse_admin_command :: "string \<Rightarrow> AdminCommand option" where
  "parse_admin_command line =
     (case split_whitespace line of
        [] \<Rightarrow> None
      | verb # ws \<Rightarrow>
          if verb = ''status'' then Some AdminStatus
          else if verb = ''detail'' then admin_id TaskDetail ws
          else if verb = ''cancel'' then admin_id AdminCancel ws
          else if verb = ''kill'' then admin_id AdminKill ws
          else None)"

datatype AdminResponse = SnapshotText string | DetailText string | Acted | NotActed | BadRequest | Unauthorized

fun response_render :: "AdminResponse \<Rightarrow> string" where
  "response_render (SnapshotText s) = s"
| "response_render (DetailText s) = s"
| "response_render Acted = ''ok: acted''"
| "response_render NotActed = ''ok: no-op (not owned / unknown / terminal)''"
| "response_render BadRequest = ''error: bad request''"
| "response_render Unauthorized = ''error: unauthorized''"

definition frame :: "bytes \<Rightarrow> bytes" where
  "frame payload = to_le 4 (if length payload < 2 ^ 32 then of_nat (length payload) else - 1 :: u32) @ payload"

datatype AdminError = FrameTooLarge

definition try_deframe :: "bytes \<Rightarrow> AdminError + (bytes \<times> nat) option" where
  "try_deframe buf =
     (if length buf < 4 then Inr None
      else let len = unat (from_le (take 4 buf) :: u32) in
           if len > MAX_ADMIN_FRAME then Inl FrameTooLarge
           else if length buf < 4 + len then Inr None
           else Inr (Some (take len (drop 4 buf), 4 + len)))"

definition authenticate :: "bytes \<Rightarrow> bytes \<Rightarrow> bool" where
  "authenticate provided expected =
     (if length provided \<noteq> length expected \<or> expected = [] then False
      else foldl (\<lambda>diff (a, b). diff OR (a XOR b)) 0 (zip provided expected) = 0)"

fun debug_axis :: "AgentBudgetError \<Rightarrow> string" where
  "debug_axis Wall = ''Wall''"
| "debug_axis OutputBytes = ''Output''"
| "debug_axis Tokens = ''Tokens''"

fun debug_done :: "TaskDone \<Rightarrow> string" where
  "debug_done Completed = ''Completed''"
| "debug_done Cancelled = ''Cancelled''"
| "debug_done Killed = ''Killed''"
| "debug_done Expired = ''Expired''"
| "debug_done (BudgetExhausted a) = ''BudgetExhausted('' @ debug_axis a @ '')''"

fun debug_phase :: "TaskPhase \<Rightarrow> string" where
  "debug_phase Pending = ''Pending''"
| "debug_phase Running = ''Running''"
| "debug_phase Cancelling = ''Cancelling''"
| "debug_phase (Done d) = ''Done('' @ debug_done d @ '')''"

definition render_row :: "TaskRow \<Rightarrow> string" where
  "render_row row =
     ''task '' @ show_nat (unat (task_no (tw_id row))) @ '' chat '' @ show_int (sint (chat_no (tw_chat row))) @ '' ''
     @ debug_phase (tw_phase row) @ '' '' @ show_nat (unat (tw_wall_ms row)) @ ''ms''"

definition render_snapshot :: "TaskRow list \<Rightarrow> string" where
  "render_snapshot rows =
     ''tasks: '' @ show_nat (length rows) @ [CHR 0x0A]
     @ concat (map (\<lambda>row. render_row row @ [CHR 0x0A]) (take MAX_STATUS_ROWS rows))"

fun dispatch_admin :: "AdminCommand \<Rightarrow> TaskRegistry \<Rightarrow> ChatId \<Rightarrow> Timestamp \<Rightarrow> TaskRegistry \<times> AdminResponse" where
  "dispatch_admin AdminStatus reg operator now = (reg, SnapshotText (render_snapshot (registry_snapshot reg now)))"
| "dispatch_admin (TaskDetail i) reg operator now =
     (reg, case row_get (registry_snapshot reg now) (DaemonTaskId i) of Some row \<Rightarrow> DetailText (render_row row) | None \<Rightarrow> NotActed)"
| "dispatch_admin (AdminCancel i) reg operator now =
     (let (reg', acted) = request_cancel reg (DaemonTaskId i) operator in (reg', if acted then Acted else NotActed))"
| "dispatch_admin (AdminKill i) reg operator now =
     (let (reg', acted) = request_kill reg (DaemonTaskId i) operator in (reg', if acted then Acted else NotActed))"

datatype StreamError = UnexpectedEof | InvalidData string

definition read_frame :: "bytes \<Rightarrow> bytes \<times> (StreamError + bytes option)" where
  "read_frame s =
     (if length s < 4 then ([], Inr None)
      else let len = unat (from_le (take 4 s) :: u32); s = drop 4 s in
           if len > MAX_ADMIN_FRAME then (s, Inl (InvalidData ''admin frame too large''))
           else if length s < len then ([], Inl UnexpectedEof)
           else (drop len s, Inr (Some (take len s))))"

definition serve_admin_connection ::
  "bytes \<Rightarrow> TaskRegistry \<Rightarrow> ChatId \<Rightarrow> bytes \<Rightarrow> Timestamp \<Rightarrow> TaskRegistry \<times> bytes \<times> (StreamError + unit)" where
  "serve_admin_connection inp reg operator expected_nonce now =
     (case read_frame inp of
        (s, Inl e) \<Rightarrow> (reg, [], Inl e)
      | (s, Inr None) \<Rightarrow> (reg, [], Inr ())
      | (s, Inr (Some nonce)) \<Rightarrow>
          if \<not> authenticate nonce expected_nonce
          then (reg, frame (as_bytes (response_render Unauthorized)), Inr ())
          else case read_frame s of
                 (_, Inl e) \<Rightarrow> (reg, [], Inl e)
               | (_, Inr None) \<Rightarrow> (reg, [], Inr ())
               | (_, Inr (Some cmd_bytes)) \<Rightarrow>
                   let (reg', response) =
                         (case parse_admin_command (utf8_lossy cmd_bytes) of
                            Some cmd \<Rightarrow> dispatch_admin cmd reg operator now
                          | None \<Rightarrow> (reg, BadRequest))
                   in (reg', frame (as_bytes (response_render response)), Inr ()))"

end
