(* ===== verification/Inbound_Props.thy ===== *)
theory Inbound_Props
  imports Webhook Admin Json_Props EventLog_Props
begin

text \<open>
  The daemon's two other doors: a webhook is taken only with a valid signature and a delivery id that is not
  among the last ones taken, and an administration connection changes the registry only with the nonce.
\<close>

section \<open>Webhooks\<close>

lemma decode_pairs_length: "decode_pairs ps = Some b \<Longrightarrow> length b = length ps"
  by (induction ps arbitrary: b) (auto split: Option.bind_splits)

lemma hex32_decode_length: "hex32_decode s = Some b \<Longrightarrow> length b = 32"
proof -
  assume h: "hex32_decode s = Some b"
  then have s: "length s = 64" and d: "decode_pairs (chunks_exact 2 s) = Some b" by (auto simp: hex32_decode_def split: if_splits)
  have "length (concat cs) = 2 * length cs" if "\<forall>c\<in>set cs. length c = 2" for cs :: "bytes list"
    using that by (induction cs) auto
  then have "length (concat (chunks_exact 2 s)) = 2 * length (chunks_exact 2 s)"
    using chunks_exact_length by blast
  then show ?thesis using chunks_exact_concat [of 2 s] s decode_pairs_length [OF d] by simp
qed

definition signed :: "bytes \<Rightarrow> WebhookRequest \<Rightarrow> bool" where
  "signed k req =
     (prefix ''sha256='' (wr_signature req)
      \<and> hex32_decode (as_bytes (drop 7 (wr_signature req))) = Some (hmac_sha256 k (wr_body req)))"

lemma signature_ok_iff: "signature_ok v (wr_signature req) (wr_body req) \<longleftrightarrow> signed (wv_secret v) req"
  by (auto simp: signature_ok_def signed_def ct_eq_iff hex32_decode_length split: option.splits)

text \<open>The requests taken so far, in order, and the verifier after them.\<close>

fun webhook_run :: "WebhookVerifier \<Rightarrow> (WebhookRequest \<times> Redactor) list \<Rightarrow> WebhookVerifier \<times> string list" where
  "webhook_run v [] = (v, [])"
| "webhook_run v ((req, red) # rs) =
     (let (v', res) = webhook_verify v req red; (v'', ids) = webhook_run v' rs
      in (v'', (case res of Inr _ \<Rightarrow> [wr_delivery_id req] | Inl _ \<Rightarrow> []) @ ids))"

definition recent :: "string list \<Rightarrow> string list" where
  "recent ids = drop (length ids - MAX_SEEN_DELIVERIES) ids"

definition guard_holds :: "ReplayGuard \<Rightarrow> string list \<Rightarrow> bool" where
  "guard_holds g ids = (gd_order g = recent ids \<and> gd_set g = set (recent ids) \<and> distinct (recent ids))"

lemma recent_snoc:
  "recent (ids @ [i]) = (if length (recent ids) < MAX_SEEN_DELIVERIES then recent ids else tl (recent ids)) @ [i]"
proof -
  have "0 < MAX_SEEN_DELIVERIES" by (simp add: MAX_SEEN_DELIVERIES_def)
  then show ?thesis by (auto simp: recent_def Suc_diff_le drop_Suc tl_drop)
qed

lemma guard_accept_holds:
  assumes "guard_holds g ids" "guard_accept g i = (g', b)"
  shows "b \<longleftrightarrow> i \<notin> set (recent ids)" "guard_holds g' (if b then ids @ [i] else ids)"
proof -
  show b: "b \<longleftrightarrow> i \<notin> set (recent ids)"
    using assms by (auto simp: guard_holds_def guard_accept_def Let_def split: if_splits)
  show "guard_holds g' (if b then ids @ [i] else ids)"
  proof (cases b)
    case False
    then have "g' = g" using assms by (auto simp: guard_accept_def Let_def split: if_splits)
    then show ?thesis using assms(1) False by simp
  next
    case True
    then have new: "i \<notin> gd_set g" using b assms(1) by (simp add: guard_holds_def)
    show ?thesis
    proof (cases "length (recent ids) < MAX_SEEN_DELIVERIES")
      case short: True
      have "g' = \<lparr>gd_order = gd_order g @ [i], gd_set = insert i (gd_set g)\<rparr>"
        using assms new short by (simp add: guard_holds_def guard_accept_def)
      then show ?thesis using assms(1) True short b by (simp add: guard_holds_def recent_snoc)
    next
      case full: False
      then obtain old rest where r: "recent ids = old # rest" by (cases "recent ids") (auto simp: MAX_SEEN_DELIVERIES_def)
      have "g' = \<lparr>gd_order = rest @ [i], gd_set = insert i (gd_set g - {old})\<rparr>"
        using assms new full r by (simp add: guard_holds_def guard_accept_def)
      then show ?thesis using assms(1) True full b r by (auto simp: guard_holds_def recent_snoc)
    qed
  qed
qed

definition well_sized :: "WebhookRequest \<Rightarrow> bool" where
  "well_sized req = (length (wr_body req) \<le> MAX_WEBHOOK_BODY \<and> wr_delivery_id req \<noteq> [] \<and> length (wr_delivery_id req) \<le> MAX_DELIVERY_ID)"

lemma webhook_verify_spec:
  assumes "guard_holds (wv_seen v) ids" "webhook_verify v req red = (v', res)"
  shows "(\<exists>env. res = Inr env) \<longleftrightarrow> well_sized req \<and> signed (wv_secret v) req \<and> wr_delivery_id req \<notin> set (recent ids)"
    and "guard_holds (wv_seen v') (case res of Inr _ \<Rightarrow> ids @ [wr_delivery_id req] | Inl _ \<Rightarrow> ids) \<and> wv_secret v' = wv_secret v"
proof -
  obtain g b where g: "guard_accept (wv_seen v) (wr_delivery_id req) = (g, b)" by fastforce
  note s = guard_accept_holds [OF assms(1) g]
  show "(\<exists>env. res = Inr env) \<longleftrightarrow> well_sized req \<and> signed (wv_secret v) req \<and> wr_delivery_id req \<notin> set (recent ids)"
    using assms(2) s(1) by (auto simp: webhook_verify_def g well_sized_def signature_ok_iff split: if_splits)
  show "guard_holds (wv_seen v') (case res of Inr _ \<Rightarrow> ids @ [wr_delivery_id req] | Inl _ \<Rightarrow> ids) \<and> wv_secret v' = wv_secret v"
    using assms s by (auto simp: webhook_verify_def g split: if_splits)
qed

lemma webhook_run_holds:
  "guard_holds (wv_seen v) ids \<Longrightarrow> webhook_run v rs = (v', later) \<Longrightarrow>
     guard_holds (wv_seen v') (ids @ later) \<and> wv_secret v' = wv_secret v"
proof (induction v rs arbitrary: ids later rule: webhook_run.induct)
  case (2 v req red rs)
  obtain v1 res where v1: "webhook_verify v req red = (v1, res)" by fastforce
  obtain later' where m: "webhook_run v1 rs = (v', later')"
    "later = (case res of Inr _ \<Rightarrow> [wr_delivery_id req] | Inl _ \<Rightarrow> []) @ later'"
    using "2.prems"(2) v1 by (auto split: prod.splits)
  note s = webhook_verify_spec(2) [OF "2.prems"(1) v1]
  have IH: "guard_holds (wv_seen v1) ids' \<Longrightarrow> guard_holds (wv_seen v') (ids' @ later') \<and> wv_secret v' = wv_secret v1" for ids'
    using "2.IH" [OF v1 [symmetric] refl _ m(1)] .
  show ?case using IH [of ids] IH [of "ids @ [wr_delivery_id req]"] s by (cases res) (simp_all add: m(2))
qed simp

section \<open>Administration\<close>

lemma or_fold_zero: "foldl (\<lambda>diff (a, b). diff OR (a XOR b)) d ps = 0 \<longleftrightarrow> d = 0 \<and> (\<forall>(a, b)\<in>set ps. a = (b :: u8))"
  by (induction ps arbitrary: d) (auto simp: or_eq_0_iff xor_eq_0_word)

lemma authenticate_iff: "authenticate p e \<longleftrightarrow> p = e \<and> e \<noteq> []"
proof -
  have "(\<forall>(a, b)\<in>set (zip p e). a = b) \<longleftrightarrow> p = e" if "length p = length e"
    using that by (induction p e rule: list_induct2) auto
  then show ?thesis by (auto simp: authenticate_def or_fold_zero)
qed

lemma request_scoped:
  assumes "request_cancel reg i chat = (reg', acted) \<or> request_kill reg i chat = (reg', acted)"
  shows "acted \<longleftrightarrow> (\<exists>s. bt_get (rg_slots reg) (task_no i) = Some s \<and> ts_chat s = chat \<and> is_active (ts_phase s))"
    and "\<not> acted \<Longrightarrow> reg' = reg"
    and "j \<noteq> task_no i \<Longrightarrow> bt_get (rg_slots reg') j = bt_get (rg_slots reg) j"
proof -
  have t: "phase_is_terminal ph \<longleftrightarrow> \<not> is_active ph" for ph by (cases ph) simp_all
  show "acted \<longleftrightarrow> (\<exists>s. bt_get (rg_slots reg) (task_no i) = Some s \<and> ts_chat s = chat \<and> is_active (ts_phase s))"
    "\<not> acted \<Longrightarrow> reg' = reg" "j \<noteq> task_no i \<Longrightarrow> bt_get (rg_slots reg') j = bt_get (rg_slots reg) j"
    using assms by (auto simp: request_cancel_def request_kill_def with_slot_def t split: option.splits if_splits)
qed

lemma dispatch_scoped:
  assumes "dispatch_admin cmd reg operator now = (reg', res)" "reg' \<noteq> reg"
  shows "\<exists>i s. cmd \<in> {AdminCancel i, AdminKill i} \<and> bt_get (rg_slots reg) i = Some s \<and> ts_chat s = operator
    \<and> is_active (ts_phase s) \<and> (\<forall>j. j \<noteq> i \<longrightarrow> bt_get (rg_slots reg') j = bt_get (rg_slots reg) j)"
proof -
  have "\<exists>i acted. cmd \<in> {AdminCancel i, AdminKill i}
      \<and> (request_cancel reg (DaemonTaskId i) operator = (reg', acted) \<or> request_kill reg (DaemonTaskId i) operator = (reg', acted))"
    using assms by (cases cmd) (auto split: prod.splits)
  then obtain i acted where i: "cmd \<in> {AdminCancel i, AdminKill i}"
    "request_cancel reg (DaemonTaskId i) operator = (reg', acted) \<or> request_kill reg (DaemonTaskId i) operator = (reg', acted)" by blast
  note s = request_scoped [OF i(2)]
  have acted using s(2) assms(2) by blast
  then show ?thesis using s(1,3) i(1) by (metis DaemonTaskId.sel)
qed

section \<open>Properties\<close>

text \<open>
  C33. A webhook is taken exactly when it is of bounded size, carries the signature of its body under the shared
  secret, and its delivery id is not among the last 4096 taken, whatever requests came before.
\<close>

theorem webhook_gate:
  assumes "webhook_run (WebhookVerifier_new k) rs = (v, ids)" "webhook_verify v req red = (v', res)"
  shows "(\<exists>env. res = Inr env) \<longleftrightarrow> well_sized req \<and> signed k req \<and> wr_delivery_id req \<notin> set (recent ids)"
proof -
  have "guard_holds (wv_seen (WebhookVerifier_new k)) []"
    by (simp add: WebhookVerifier_new_def ReplayGuard_new_def guard_holds_def recent_def)
  from webhook_run_holds [OF this assms(1)] have "guard_holds (wv_seen v) ids" "wv_secret v = k"
    by (simp_all add: WebhookVerifier_new_def)
  then show ?thesis using webhook_verify_spec(1) [OF _ assms(2)] by simp
qed

definition demo_request :: WebhookRequest where
  "demo_request = \<lparr>wr_event = ''push'', wr_delivery_id = ''d1'', wr_signature = ''sha256='' @ hex_into [] (hmac_sha256 [1] [2]), wr_body = [2]\<rparr>"

theorem webhook_gate_witness:
  "(\<exists>env. snd (webhook_verify (WebhookVerifier_new [1]) demo_request Redactor_new) = Inr env)
    \<and> (\<nexists>env. snd (webhook_verify (WebhookVerifier_new [9]) (demo_request\<lparr>wr_signature := ''none''\<rparr>) Redactor_new) = Inr env)"
proof -
  have "signed [1] demo_request" using hex_roundtrip [of "hmac_sha256 [1] [2]"] by (simp add: signed_def demo_request_def as_bytes_def)
  moreover have "well_sized demo_request"
    by (simp add: well_sized_def demo_request_def MAX_WEBHOOK_BODY_def MAX_DELIVERY_ID_def)
  moreover have "\<not> signed [9] (demo_request\<lparr>wr_signature := ''none''\<rparr>)" by (simp add: signed_def)
  ultimately show ?thesis
    using webhook_gate [OF webhook_run.simps(1) prod.collapse [symmetric], of "[1]" demo_request Redactor_new]
      webhook_gate [OF webhook_run.simps(1) prod.collapse [symmetric], of "[9]" "demo_request\<lparr>wr_signature := ''none''\<rparr>" Redactor_new]
    by (simp add: recent_def)
qed

text \<open>The delivery id is not signed: a request taken once is taken again under another id.\<close>

lemma replayed_body_taken:
  assumes "webhook_run (WebhookVerifier_new k) rs = (v, ids)" "webhook_verify v req red = (v', Inr env)"
    and "i \<noteq> []" "length i \<le> MAX_DELIVERY_ID" "i \<notin> set (recent (ids @ [wr_delivery_id req]))"
  shows "\<exists>env'. snd (webhook_verify v' (req\<lparr>wr_delivery_id := i\<rparr>) red) = Inr env'"
proof -
  have g: "guard_holds (wv_seen (WebhookVerifier_new k)) []"
    by (simp add: WebhookVerifier_new_def ReplayGuard_new_def guard_holds_def recent_def)
  from webhook_run_holds [OF g assms(1)] have v: "guard_holds (wv_seen v) ids" "wv_secret v = k"
    by (simp_all add: WebhookVerifier_new_def)
  note s = webhook_verify_spec [OF v(1) assms(2)]
  have "guard_holds (wv_seen v') (ids @ [wr_delivery_id req])" "wv_secret v' = k" using s(2) v(2) by simp_all
  from webhook_verify_spec(1) [OF this(1) prod.collapse [symmetric], of "req\<lparr>wr_delivery_id := i\<rparr>" red] this(2) s(1) v(2) assms(3-5)
  show ?thesis by (simp add: well_sized_def signed_def)
qed

text \<open>
  C34. The administration socket obeys its nonce and its operator. Serving a connection changes the task registry
  only if the connection's first frame is exactly the expected, non-empty nonce and its second frame is a
  command to cancel or kill an active task of the operator, and then no other task is touched.
\<close>

theorem admin_gated:
  assumes "serve_admin_connection inp reg operator nonce now = (reg', reply, res)" "reg' \<noteq> reg"
  shows "\<exists>s cmd_bytes s' i slot. read_frame inp = (s, Inr (Some nonce)) \<and> nonce \<noteq> [] \<and> read_frame s = (s', Inr (Some cmd_bytes))
    \<and> parse_admin_command (utf8_lossy cmd_bytes) \<in> {Some (AdminCancel i), Some (AdminKill i)}
    \<and> bt_get (rg_slots reg) i = Some slot \<and> ts_chat slot = operator \<and> is_active (ts_phase slot)
    \<and> (\<forall>j. j \<noteq> i \<longrightarrow> bt_get (rg_slots reg') j = bt_get (rg_slots reg) j)"
proof -
  obtain s n where f: "read_frame inp = (s, Inr (Some n))" "authenticate n nonce"
    using assms by (auto simp: serve_admin_connection_def split: prod.splits sum.splits option.splits if_splits)
  then have n: "n = nonce" "nonce \<noteq> []" by (simp_all add: authenticate_iff)
  obtain s' cmd_bytes where c: "read_frame s = (s', Inr (Some cmd_bytes))"
    using assms f by (auto simp: serve_admin_connection_def split: prod.splits sum.splits option.splits)
  obtain cmd where cmd: "parse_admin_command (utf8_lossy cmd_bytes) = Some cmd"
    using assms f c by (auto simp: serve_admin_connection_def split: option.splits)
  have "fst (dispatch_admin cmd reg operator now) = reg'"
    using assms f c cmd by (auto simp: serve_admin_connection_def split: prod.splits)
  then have "dispatch_admin cmd reg operator now = (reg', snd (dispatch_admin cmd reg operator now))" by auto
  from dispatch_scoped [OF this assms(2)] f(1) c cmd n show ?thesis by auto
qed

lemma demo_kill_parsed: "parse_admin_command ''kill 1'' = Some (AdminKill 1)"
proof -
  have "chars ''kill 1'' = [107, 105, 108, 108, 32, 49]" using chars_ascii [of "''kill 1''" "[]"] by (simp add: ascii_def)
  moreover have "words_of [107, 105, 108, 108, 32, 49] = [[107, 105, 108, 108], [49]]" by (simp add: words_of_def is_whitespace_def)
  moreover have "utf8 [107, 105, 108, 108] = ''kill''" "utf8 [49] = ''1''"
    using valid_text_ascii [of "''kill''"] valid_text_ascii [of "''1''"] by (simp_all add: ascii_def valid_text_def)
  moreover have "parse_unsigned 64 ''1'' = Some 1" using parse_shown [of 1 64] by (simp add: show_nat.simps digit_def)
  ultimately show ?thesis by (simp add: parse_admin_command_def split_whitespace_def admin_id_def)
qed

lemma read_framed: "length x \<le> MAX_ADMIN_FRAME \<Longrightarrow> read_frame (frame x @ s) = (s, Inr (Some x))"
  by (simp add: read_frame_def frame_def MAX_ADMIN_FRAME_def unat_of_nat)

theorem admin_gated_witness:
  "\<exists>reg' reply res. serve_admin_connection (frame [7, 7] @ frame (as_bytes ''kill 1''))
      (fst (admit (TaskRegistry_new 1 (DaemonLeaseOwner 1)) (ChatId 9) default_task_budget (Timestamp 0))) (ChatId 9) [7, 7] (Timestamp 1)
        = (reg', reply, res)
    \<and> map_option ts_phase (bt_get (rg_slots reg') 1) = Some (Done Killed)"
proof -
  let ?reg = "fst (admit (TaskRegistry_new 1 (DaemonLeaseOwner 1)) (ChatId 9) default_task_budget (Timestamp 0))"
  have f1: "read_frame (frame [7, 7] @ frame (as_bytes ''kill 1'')) = (frame (as_bytes ''kill 1''), Inr (Some [7, 7]))"
    by (rule read_framed) (simp add: MAX_ADMIN_FRAME_def)
  have f2: "read_frame (frame (as_bytes ''kill 1'')) = ([], Inr (Some (as_bytes ''kill 1'')))"
    using read_framed [of "as_bytes ''kill 1''" "[]"] by (simp add: MAX_ADMIN_FRAME_def)
  have l: "utf8_lossy (as_bytes ''kill 1'') = ''kill 1''"
    using valid_text_ascii [of "''kill 1''"] lossy_utf8 [of "chars ''kill 1''"] by (simp add: ascii_def valid_text_def del: chars.simps)
  obtain reg' reply res where r: "serve_admin_connection (frame [7, 7] @ frame (as_bytes ''kill 1'')) ?reg (ChatId 9) [7, 7] (Timestamp 1)
      = (reg', reply, res)" by (cases "serve_admin_connection (frame [7, 7] @ frame (as_bytes ''kill 1'')) ?reg (ChatId 9) [7, 7] (Timestamp 1)")
  have "fst (dispatch_admin (AdminKill 1) ?reg (ChatId 9) (Timestamp 1)) = reg'"
    using r by (simp add: serve_admin_connection_def f1 f2 l demo_kill_parsed authenticate_iff split: prod.splits)
  moreover have "map_option ts_phase (bt_get (rg_slots (fst (dispatch_admin (AdminKill 1) ?reg (ChatId 9) (Timestamp 1)))) 1) = Some (Done Killed)"
    "map_option ts_phase (bt_get (rg_slots ?reg) 1) = Some Pending"
    by code_simp+
  ultimately have k: "map_option ts_phase (bt_get (rg_slots reg') 1) = Some (Done Killed)" "reg' \<noteq> ?reg" by auto
  from admin_gated [OF r this(2)] show ?thesis using r k by blast
qed

end
