(* ===== verification/Flow.thy ===== *)
theory Flow
  imports Backend Ordered_Map Redactor "HOL-Library.List_Lexorder" "HOL-Library.Char_ord"
begin

text \<open>
  The workflow language (\<^verbatim>\<open>crates/crustcore-flow/src\<close>): the graph and its state, predicates, budgets,
  the builder, and the scheduler. The drivers are arguments: each takes the world it acts on and
  returns the world afterwards with its answer. The scheduler's loop is only bounded by the step cap,
  so it is a function of a fuel that may run out.
\<close>

section \<open>The graph (graph.rs)\<close>

datatype NodeId = NodeId (node_number: u32)

instantiation NodeId :: linorder
begin

definition less_eq_NodeId :: "NodeId \<Rightarrow> NodeId \<Rightarrow> bool" where
  "less_eq_NodeId a b = (node_number a \<le> node_number b)"

definition less_NodeId :: "NodeId \<Rightarrow> NodeId \<Rightarrow> bool" where
  "less_NodeId a b = (node_number a < node_number b)"

instance
  by standard (auto simp: less_eq_NodeId_def less_NodeId_def NodeId.expand)

end

record ToolSpec =
  ts_name :: string
  ts_reversibility :: Reversibility
  ts_execution_capable :: bool

definition spec_fail_closed :: "string \<Rightarrow> ToolSpec" where
  "spec_fail_closed name = \<lparr>ts_name = name, ts_reversibility = Destructive, ts_execution_capable = True\<rparr>"

definition spec_requires_approval :: "ToolSpec \<Rightarrow> bool" where
  "spec_requires_approval spec = requires_approval (ts_reversibility spec)"

datatype Predicate =
  Flag string
| CounterAtLeast string int
| OutputPresent string
| PNot Predicate
| PAnd Predicate Predicate
| POr Predicate Predicate
| Always bool

datatype Node =
  Model string string NodeId
| Tool ToolSpec string string NodeId
| Verify NodeId
| Review string NodeId
| Parallel "NodeId list" nat NodeId
| LoopUntil NodeId Predicate u32 NodeId
| Route Predicate NodeId NodeId
| Join NodeId
| End

record FlowState =
  fs_outputs :: "(string \<times> string) list"
  fs_flags :: "(string \<times> bool) list"
  fs_counters :: "(string \<times> int) list"
  fs_approvals :: "unit Approved list"

definition FlowState_new :: FlowState where
  "FlowState_new = \<lparr>fs_outputs = [], fs_flags = [], fs_counters = [], fs_approvals = []\<rparr>"

definition set_output :: "FlowState \<Rightarrow> string \<Rightarrow> string \<Rightarrow> FlowState" where
  "set_output st key redacted = st\<lparr>fs_outputs := bt_insert key redacted (fs_outputs st)\<rparr>"

definition state_output :: "FlowState \<Rightarrow> string \<Rightarrow> string option" where
  "state_output st key = bt_get (fs_outputs st) key"

definition set_flag :: "FlowState \<Rightarrow> string \<Rightarrow> bool \<Rightarrow> FlowState" where
  "set_flag st key v = st\<lparr>fs_flags := bt_insert key v (fs_flags st)\<rparr>"

definition flag :: "FlowState \<Rightarrow> string \<Rightarrow> bool" where
  "flag st key = (case bt_get (fs_flags st) key of Some b \<Rightarrow> b | None \<Rightarrow> False)"

definition set_counter :: "FlowState \<Rightarrow> string \<Rightarrow> int \<Rightarrow> FlowState" where
  "set_counter st key v = st\<lparr>fs_counters := bt_insert key v (fs_counters st)\<rparr>"

definition counter :: "FlowState \<Rightarrow> string \<Rightarrow> int" where
  "counter st key = (case bt_get (fs_counters st) key of Some v \<Rightarrow> v | None \<Rightarrow> 0)"

definition add_approval :: "FlowState \<Rightarrow> unit Approved \<Rightarrow> FlowState" where
  "add_approval st a = st\<lparr>fs_approvals := fs_approvals st @ [a]\<rparr>"

definition has_valid_approval :: "FlowState \<Rightarrow> u64 \<Rightarrow> bool" where
  "has_valid_approval st now_millis = list_ex (\<lambda>a. is_valid_at a (from_millis now_millis)) (fs_approvals st)"

datatype FlowError =
  UnknownNode NodeId
| NoEntry
| ApprovalRequired NodeId
| PolicyDenied NodeId string
| Driver string
| BudgetExceeded string
| StepCapExceeded

record Flow =
  fl_nodes :: "(NodeId \<times> Node) list"
  fl_entry :: NodeId

definition flow_node :: "Flow \<Rightarrow> NodeId \<Rightarrow> Node option" where
  "flow_node fl i = bt_get (fl_nodes fl) i"

fun node_targets :: "Node \<Rightarrow> NodeId list" where
  "node_targets (Model _ _ next) = [next]"
| "node_targets (Review _ next) = [next]"
| "node_targets (Join next) = [next]"
| "node_targets (Tool _ _ _ next) = [next]"
| "node_targets (Verify on_fail) = [on_fail]"
| "node_targets (Parallel children _ join) = children @ [join]"
| "node_targets (LoopUntil body _ _ next) = [body, next]"
| "node_targets (Route _ if_true if_false) = [if_true, if_false]"
| "node_targets End = []"

definition validate :: "Flow \<Rightarrow> FlowError + unit" where
  "validate fl =
     (if bt_get (fl_nodes fl) (fl_entry fl) = None then Inl NoEntry
      else case find (\<lambda>i. bt_get (fl_nodes fl) i = None) (concat (map (\<lambda>(_, node). node_targets node) (fl_nodes fl))) of
             Some referenced \<Rightarrow> Inl (UnknownNode referenced)
           | None \<Rightarrow> Inr ())"

section \<open>Predicates and the untrusted-data boundary (predicate.rs)\<close>

definition MAX_OUTPUT_BYTES :: nat where "MAX_OUTPUT_BYTES = 8 * 1024"

definition declassify_output :: "string \<Rightarrow> Redactor \<Rightarrow> string" where
  "declassify_output answer redactor =
     (let s = visible_str (declassify (Tainted answer) redactor) in
      if length s \<le> MAX_OUTPUT_BYTES then s else take (back_to_boundary s MAX_OUTPUT_BYTES) s)"

fun eval :: "Predicate \<Rightarrow> FlowState \<Rightarrow> bool" where
  "eval (Flag key) st = flag st key"
| "eval (CounterAtLeast key mn) st = (counter st key \<ge> mn)"
| "eval (OutputPresent key) st = (state_output st key \<noteq> None)"
| "eval (PNot p) st = (\<not> eval p st)"
| "eval (PAnd p q) st = (eval p st \<and> eval q st)"
| "eval (POr p q) st = (eval p st \<or> eval q st)"
| "eval (Always v) st = v"

section \<open>Budgets (budget.rs)\<close>

record FlowBudget =
  max_model_cost :: u64
  max_wall_ms :: u64
  max_steps :: u32
  max_total_fanout :: u32

definition budget_fail_closed :: FlowBudget where
  "budget_fail_closed = \<lparr>max_model_cost = 0, max_wall_ms = 0, max_steps = 64, max_total_fanout = 0\<rparr>"

datatype BudgetBreach = ModelCost | Wall | Steps | Fanout

fun breach_axis :: "BudgetBreach \<Rightarrow> string" where
  "breach_axis ModelCost = ''model cost''"
| "breach_axis Wall = ''wall time''"
| "breach_axis Steps = ''steps''"
| "breach_axis Fanout = ''total fan-out''"

record FlowUsage =
  fu_model_cost :: u64
  fu_wall_ms :: u64
  fu_steps :: u32
  fu_fanout :: u32

definition FlowUsage_default :: FlowUsage where
  "FlowUsage_default = \<lparr>fu_model_cost = 0, fu_wall_ms = 0, fu_steps = 0, fu_fanout = 0\<rparr>"

definition charge_step :: "FlowUsage \<Rightarrow> FlowBudget \<Rightarrow> BudgetBreach + FlowUsage" where
  "charge_step us budget =
     (let next = saturating_add (fu_steps us) 1 in
      if next > max_steps budget then Inl Steps else Inr (us\<lparr>fu_steps := next\<rparr>))"

definition charge_model :: "FlowUsage \<Rightarrow> u64 \<Rightarrow> FlowBudget \<Rightarrow> BudgetBreach + FlowUsage" where
  "charge_model us cost budget =
     (let next = saturating_add (fu_model_cost us) cost in
      if next > max_model_cost budget then Inl ModelCost else Inr (us\<lparr>fu_model_cost := next\<rparr>))"

definition charge_wall :: "FlowUsage \<Rightarrow> u64 \<Rightarrow> FlowBudget \<Rightarrow> BudgetBreach + FlowUsage" where
  "charge_wall us ms budget =
     (let next = saturating_add (fu_wall_ms us) ms in
      if next > max_wall_ms budget then Inl Wall else Inr (us\<lparr>fu_wall_ms := next\<rparr>))"

definition charge_fanout :: "FlowUsage \<Rightarrow> u32 \<Rightarrow> FlowBudget \<Rightarrow> BudgetBreach + FlowUsage" where
  "charge_fanout us n budget =
     (let next = saturating_add (fu_fanout us) n in
      if next > max_total_fanout budget then Inl Fanout else Inr (us\<lparr>fu_fanout := next\<rparr>))"

section \<open>The builder (builder.rs)\<close>

record FlowBuilder =
  fb_nodes :: "(NodeId \<times> Node) list"
  fb_next_id :: u32
  fb_entry :: "NodeId option"

definition FlowBuilder_new :: FlowBuilder where
  "FlowBuilder_new = \<lparr>fb_nodes = [], fb_next_id = 0, fb_entry = None\<rparr>"

definition reserve :: "FlowBuilder \<Rightarrow> FlowBuilder \<times> NodeId" where
  "reserve b = (b\<lparr>fb_next_id := fb_next_id b + 1\<rparr>, NodeId (fb_next_id b))"

definition build_entry :: "FlowBuilder \<Rightarrow> NodeId \<Rightarrow> FlowBuilder" where
  "build_entry b i = b\<lparr>fb_entry := Some i\<rparr>"

definition define_node :: "FlowBuilder \<Rightarrow> NodeId \<Rightarrow> Node \<Rightarrow> FlowBuilder" where
  "define_node b i node = b\<lparr>fb_nodes := bt_insert i node (fb_nodes b)\<rparr>"

definition build_model :: "FlowBuilder \<Rightarrow> NodeId \<Rightarrow> string \<Rightarrow> string \<Rightarrow> NodeId \<Rightarrow> FlowBuilder" where
  "build_model b i prompt out_key next = define_node b i (Model prompt out_key next)"

definition build_tool :: "FlowBuilder \<Rightarrow> NodeId \<Rightarrow> ToolSpec \<Rightarrow> string \<Rightarrow> string \<Rightarrow> NodeId \<Rightarrow> FlowBuilder" where
  "build_tool b i spec args out_key next = define_node b i (Tool spec args out_key next)"

definition tool_fail_closed :: "FlowBuilder \<Rightarrow> NodeId \<Rightarrow> string \<Rightarrow> string \<Rightarrow> string \<Rightarrow> NodeId \<Rightarrow> FlowBuilder" where
  "tool_fail_closed b i name args out_key next = build_tool b i (spec_fail_closed name) args out_key next"

definition build_verify :: "FlowBuilder \<Rightarrow> NodeId \<Rightarrow> NodeId \<Rightarrow> FlowBuilder" where
  "build_verify b i on_fail = define_node b i (Verify on_fail)"

definition build_review :: "FlowBuilder \<Rightarrow> NodeId \<Rightarrow> string \<Rightarrow> NodeId \<Rightarrow> FlowBuilder" where
  "build_review b i out_key next = define_node b i (Review out_key next)"

definition build_parallel :: "FlowBuilder \<Rightarrow> NodeId \<Rightarrow> NodeId list \<Rightarrow> nat \<Rightarrow> NodeId \<Rightarrow> FlowBuilder" where
  "build_parallel b i children max_concurrency join = define_node b i (Parallel children (max max_concurrency 1) join)"

definition build_loop_until :: "FlowBuilder \<Rightarrow> NodeId \<Rightarrow> NodeId \<Rightarrow> Predicate \<Rightarrow> u32 \<Rightarrow> NodeId \<Rightarrow> FlowBuilder" where
  "build_loop_until b i body until max_iterations next = define_node b i (LoopUntil body until max_iterations next)"

definition build_route :: "FlowBuilder \<Rightarrow> NodeId \<Rightarrow> Predicate \<Rightarrow> NodeId \<Rightarrow> NodeId \<Rightarrow> FlowBuilder" where
  "build_route b i predicate if_true if_false = define_node b i (Route predicate if_true if_false)"

definition build_join :: "FlowBuilder \<Rightarrow> NodeId \<Rightarrow> NodeId \<Rightarrow> FlowBuilder" where
  "build_join b i next = define_node b i (Join next)"

definition build_end :: "FlowBuilder \<Rightarrow> NodeId \<Rightarrow> FlowBuilder" where
  "build_end b i = define_node b i End"

definition default_budget :: FlowBudget where
  "default_budget = budget_fail_closed"

definition build :: "FlowBuilder \<Rightarrow> FlowError + Flow" where
  "build b =
     (case fb_entry b of
        None \<Rightarrow> Inl NoEntry
      | Some entry \<Rightarrow>
          let flow = \<lparr>fl_nodes = fb_nodes b, fl_entry = entry\<rparr> in
          and_then (validate flow) (\<lambda>_. Inr flow))"

section \<open>The scheduler (engine.rs)\<close>

record 'w FlowDrivers =
  run_model :: "'w \<Rightarrow> string \<Rightarrow> 'w \<times> (string + string \<times> u64)"
  run_tool :: "'w \<Rightarrow> ToolSpec \<Rightarrow> string \<Rightarrow> 'w \<times> (string + string)"
  verify :: "'w \<Rightarrow> 'w \<times> VerifyOutcome"
  review :: "'w \<Rightarrow> 'w \<times> (string + string)"

datatype FlowOutcome = FlowCompleted VerifiedPatch | FlowFinished

definition verified_patch :: "FlowOutcome \<Rightarrow> VerifiedPatch option" where
  "verified_patch f = (case f of FlowCompleted p \<Rightarrow> Some p | FlowFinished \<Rightarrow> None)"

record FlowEngine =
  en_policy :: PolicySnapshot
  en_redactor :: Redactor
  en_now_millis :: u64

record 'w run_env =
  rn_engine :: FlowEngine
  rn_flow :: Flow
  rn_drivers :: "'w FlowDrivers"
  rn_budget :: FlowBudget

record 'w run_state =
  world :: 'w
  state :: FlowState
  usage :: FlowUsage

text \<open>A run that has not ended yet is \<^const>\<open>None\<close>.\<close>

type_synonym ('w, 'a) run_result = "('w run_state \<times> (FlowError + 'a)) option"

definition run_then :: "('w, 'a) run_result \<Rightarrow> ('w run_state \<Rightarrow> 'a \<Rightarrow> ('w, 'b) run_result) \<Rightarrow> ('w, 'b) run_result" where
  "run_then r k =
     (case r of
        None \<Rightarrow> None
      | Some (s, Inl e) \<Rightarrow> Some (s, Inl e)
      | Some (s, Inr a) \<Rightarrow> k s a)"

definition gate_tool :: "FlowEngine \<Rightarrow> NodeId \<Rightarrow> ToolSpec \<Rightarrow> FlowState \<Rightarrow> FlowError + unit" where
  "gate_tool en node spec st =
     (case classify (en_policy en) (ts_reversibility spec) of
        Allow \<Rightarrow>
          if spec_requires_approval spec \<and> \<not> has_valid_approval st (en_now_millis en)
          then Inl (ApprovalRequired node) else Inr ()
      | RequireApproval _ \<Rightarrow>
          if has_valid_approval st (en_now_millis en) then Inr () else Inl (ApprovalRequired node)
      | Deny reason \<Rightarrow> Inl (PolicyDenied node reason))"

definition run_subgraph ::
  "(NodeId \<Rightarrow> 'w run_state \<Rightarrow> ('w, FlowOutcome) run_result) \<Rightarrow> NodeId \<Rightarrow> 'w run_state
     \<Rightarrow> ('w, FlowOutcome option) run_result" where
  "run_subgraph run start s =
     run_then (run start s) (\<lambda>s outcome.
       case outcome of FlowCompleted p \<Rightarrow> Some (s, Inr (Some (FlowCompleted p))) | FlowFinished \<Rightarrow> Some (s, Inr None))"

definition verify_in_parallel :: FlowError where
  "verify_in_parallel = Driver (''a verify completion inside a parallel child is not a valid plan; ''
     @ ''completion is reserved for the top-level verify path'')"

fun run_wave ::
  "(NodeId \<Rightarrow> 'w run_state \<Rightarrow> ('w, FlowOutcome) run_result) \<Rightarrow> NodeId list \<Rightarrow> 'w run_state \<Rightarrow> ('w, unit) run_result" where
  "run_wave run [] s = Some (s, Inr ())"
| "run_wave run (child # wave) s =
     run_then (run_subgraph run child s) (\<lambda>s ended.
       if ended \<noteq> None then Some (s, Inl verify_in_parallel) else run_wave run wave s)"

fun run_waves ::
  "(NodeId \<Rightarrow> 'w run_state \<Rightarrow> ('w, FlowOutcome) run_result) \<Rightarrow> NodeId list list \<Rightarrow> 'w run_state
     \<Rightarrow> ('w, unit) run_result" where
  "run_waves run [] s = Some (s, Inr ())"
| "run_waves run (wave # waves) s = run_then (run_wave run wave s) (\<lambda>s _. run_waves run waves s)"

function chunks :: "nat \<Rightarrow> 'a list \<Rightarrow> 'a list list" where
  "chunks n xs = (if xs = [] \<or> n = 0 then [] else take n xs # chunks n (drop n xs))"
  by pat_completeness auto
termination
  by (relation "measure (\<lambda>(n, xs). length xs)") auto

declare chunks.simps [simp del]

definition run_parallel ::
  "FlowBudget \<Rightarrow> (NodeId \<Rightarrow> 'w run_state \<Rightarrow> ('w, FlowOutcome) run_result) \<Rightarrow> NodeId list \<Rightarrow> nat
     \<Rightarrow> 'w run_state \<Rightarrow> ('w, unit) run_result" where
  "run_parallel budget run children max_concurrency s =
     (let n = (if length children < 2 ^ 32 then of_nat (length children) else - 1) in
      case charge_fanout (usage s) n budget of
        Inl b \<Rightarrow> Some (s, Inl (BudgetExceeded (breach_axis b)))
      | Inr us \<Rightarrow> run_waves run (chunks (max max_concurrency 1) children) (s\<lparr>usage := us\<rparr>))"

text \<open>The body of \<^verbatim>\<open>LoopUntil\<close>, with the number of iterations still allowed.\<close>

primrec loop_until ::
  "(NodeId \<Rightarrow> 'w run_state \<Rightarrow> ('w, FlowOutcome) run_result) \<Rightarrow> NodeId \<Rightarrow> Predicate \<Rightarrow> nat \<Rightarrow> nat
     \<Rightarrow> 'w run_state \<Rightarrow> ('w, FlowOutcome option \<times> nat) run_result" where
  "loop_until run body until 0 iter s = Some (s, Inr (None, iter))"
| "loop_until run body until (Suc left) iter s =
     (if eval until (state s) then Some (s, Inr (None, iter))
      else run_then (run_subgraph run body s) (\<lambda>s ended.
             if ended \<noteq> None then Some (s, Inr (ended, iter))
             else loop_until run body until left (Suc iter) s))"

definition record_output :: "'w run_env \<Rightarrow> string \<Rightarrow> string \<Rightarrow> 'w run_state \<Rightarrow> 'w run_state" where
  "record_output env out_key answer s =
     s\<lparr>state := set_output (state s) out_key (declassify_output answer (en_redactor (rn_engine env)))\<rparr>"

fun run_node ::
  "'w run_env \<Rightarrow> (NodeId \<Rightarrow> 'w run_state \<Rightarrow> ('w, FlowOutcome) run_result) \<Rightarrow> NodeId \<Rightarrow> Node \<Rightarrow> 'w run_state
     \<Rightarrow> ('w, FlowOutcome) run_result" where
  "run_node env run current (Model prompt out_key next) s =
     (case run_model (rn_drivers env) (world s) prompt of
        (w, Inl e) \<Rightarrow> Some (s\<lparr>world := w\<rparr>, Inl (Driver e))
      | (w, Inr (answer, cost)) \<Rightarrow>
          (case charge_model (usage s) cost (rn_budget env) of
             Inl b \<Rightarrow> Some (s\<lparr>world := w\<rparr>, Inl (BudgetExceeded (breach_axis b)))
           | Inr us \<Rightarrow> run next (record_output env out_key answer (s\<lparr>world := w, usage := us\<rparr>))))"
| "run_node env run current (Tool spec args out_key next) s =
     (case gate_tool (rn_engine env) current spec (state s) of
        Inl e \<Rightarrow> Some (s, Inl e)
      | Inr _ \<Rightarrow>
          (case run_tool (rn_drivers env) (world s) spec args of
             (w, Inl e) \<Rightarrow> Some (s\<lparr>world := w\<rparr>, Inl (Driver e))
           | (w, Inr answer) \<Rightarrow> run next (record_output env out_key answer (s\<lparr>world := w\<rparr>))))"
| "run_node env run current (Verify on_fail) s =
     (case verify (rn_drivers env) (world s) of
        (w, Verified patch) \<Rightarrow> Some (s\<lparr>world := w\<rparr>, Inr (FlowCompleted patch))
      | (w, _) \<Rightarrow> run on_fail (s\<lparr>world := w\<rparr>))"
| "run_node env run current (Review out_key next) s =
     (case review (rn_drivers env) (world s) of
        (w, Inl e) \<Rightarrow> Some (s\<lparr>world := w\<rparr>, Inl (Driver e))
      | (w, Inr answer) \<Rightarrow> run next (record_output env out_key answer (s\<lparr>world := w\<rparr>)))"
| "run_node env run current (Parallel children max_concurrency join) s =
     run_then (run_parallel (rn_budget env) run children max_concurrency s) (\<lambda>s _. run join s)"
| "run_node env run current (LoopUntil body until max_iterations next) s =
     run_then (loop_until run body until (unat max_iterations) 0 s) (\<lambda>s (ended, iter).
       case ended of
         Some outcome \<Rightarrow> Some (s, Inr outcome)
       | None \<Rightarrow> run next (s\<lparr>state := set_counter (state s) ''__loop_iterations'' (int iter)\<rparr>))"
| "run_node env run current (Route predicate if_true if_false) s =
     run (if eval predicate (state s) then if_true else if_false) s"
| "run_node env run current (Join next) s = run next s"
| "run_node env run current End s = Some (s, Inr FlowFinished)"

definition run_step ::
  "'w run_env \<Rightarrow> (NodeId \<Rightarrow> 'w run_state \<Rightarrow> ('w, FlowOutcome) run_result) \<Rightarrow> NodeId \<Rightarrow> 'w run_state
     \<Rightarrow> ('w, FlowOutcome) run_result" where
  "run_step env run current s =
     (case charge_step (usage s) (rn_budget env) of
        Inl _ \<Rightarrow> Some (s, Inl StepCapExceeded)
      | Inr us \<Rightarrow>
          (case flow_node (rn_flow env) current of
             None \<Rightarrow> Some (s\<lparr>usage := us\<rparr>, Inl (UnknownNode current))
           | Some node \<Rightarrow> run_node env run current node (s\<lparr>usage := us\<rparr>)))"

primrec run_from :: "nat \<Rightarrow> 'w run_env \<Rightarrow> NodeId \<Rightarrow> 'w run_state \<Rightarrow> ('w, FlowOutcome) run_result" where
  "run_from 0 env = (\<lambda>current s. None)"
| "run_from (Suc fuel) env = run_step env (run_from fuel env)"

definition run_flow :: "nat \<Rightarrow> 'w run_env \<Rightarrow> 'w \<Rightarrow> FlowState \<Rightarrow> ('w, FlowOutcome) run_result" where
  "run_flow fuel env w st =
     (let s = \<lparr>world = w, state = st, usage = FlowUsage_default\<rparr> in
      case validate (rn_flow env) of
        Inl e \<Rightarrow> Some (s, Inl e)
      | Inr _ \<Rightarrow> run_from fuel env (fl_entry (rn_flow env)) s)"

section \<open>The live verify driver (live/mod.rs)\<close>

text \<open>The receipts it borrows are a part of the world.\<close>

record LiveVerifyDriver =
  lv_cap :: SandboxExecCap
  lv_profile :: SandboxProfile
  lv_worktree :: WorktreeRoot
  lv_spec :: VerifySpec
  lv_patch :: PatchRef
  lv_ids :: VerifyIds

definition live_verify ::
  "build \<Rightarrow> host \<Rightarrow> LiveVerifyDriver \<Rightarrow> 'v \<times> ReceiptChain \<Rightarrow> ('v \<times> ReceiptChain) \<times> VerifyOutcome" where
  "live_verify b h d = (\<lambda>(v, receipts).
     let (receipts', out) = run_verify b h (lv_cap d) (lv_profile d) (lv_worktree d) (lv_spec d) (lv_patch d) receipts (lv_ids d)
     in ((v, receipts'), out))"

section \<open>Imported gates (agentic\_flows.rs)\<close>

record AgenticFlowGate =
  ag_id :: string
  ag_title :: string
  ag_required :: bool
  ag_evidence_refs :: "string list"

record VerifierCompletionCriterion =
  vc_gate_id :: string
  vc_title :: string
  vc_required_evidence_refs :: "string list"

record GateEvidence =
  ge_gate_id :: string
  ge_evidence_refs :: "string list"

datatype CompletionEvidenceError = MissingRequiredGate string | MissingEvidenceRef string string

text \<open>\<^verbatim>\<open>BTreeSet\<close>: a sorted list without duplicates.\<close>

definition bset_extend :: "string list \<Rightarrow> string list \<Rightarrow> string list" where
  "bset_extend xs ys = foldl (\<lambda>s x. map fst (bt_insert x () (map (\<lambda>y. (y, ())) s))) xs ys"

definition normalized_refs :: "string list \<Rightarrow> string list" where
  "normalized_refs refs = bset_extend [] (filter (\<lambda>r. r \<noteq> []) refs)"

definition verifier_completion_criteria :: "AgenticFlowGate list \<Rightarrow> VerifierCompletionCriterion list" where
  "verifier_completion_criteria gates =
     sort_key vc_gate_id
       (map (\<lambda>gate. \<lparr>vc_gate_id = ag_id gate, vc_title = ag_title gate,
                      vc_required_evidence_refs = normalized_refs (ag_evidence_refs gate)\<rparr>)
         (filter ag_required gates))"

definition by_gate :: "GateEvidence list \<Rightarrow> (string \<times> string list) list" where
  "by_gate evidence =
     foldl (\<lambda>m item.
         let refs = (case bt_get m (ge_gate_id item) of Some refs \<Rightarrow> refs | None \<Rightarrow> []) in
         bt_insert (ge_gate_id item) (bset_extend refs (ge_evidence_refs item)) m) [] evidence"

definition criterion_errors ::
  "(string \<times> string list) list \<Rightarrow> VerifierCompletionCriterion \<Rightarrow> CompletionEvidenceError list" where
  "criterion_errors m criterion =
     (case bt_get m (vc_gate_id criterion) of
        None \<Rightarrow> [MissingRequiredGate (vc_gate_id criterion)]
      | Some refs \<Rightarrow>
          map (MissingEvidenceRef (vc_gate_id criterion))
            (filter (\<lambda>r. r \<notin> set refs) (vc_required_evidence_refs criterion)))"

definition completion_evidence_errors ::
  "VerifierCompletionCriterion list \<Rightarrow> GateEvidence list \<Rightarrow> CompletionEvidenceError list" where
  "completion_evidence_errors criteria evidence = concat (map (criterion_errors (by_gate evidence)) criteria)"

definition validate_patch_completion_evidence ::
  "VerifierCompletionCriterion list \<Rightarrow> GateEvidence list \<Rightarrow> CompletionEvidenceError list + unit" where
  "validate_patch_completion_evidence criteria evidence =
     (let errors = completion_evidence_errors criteria evidence in if errors = [] then Inr () else Inl errors)"

end
