(* ===== verification/Flow_Runs.thy ===== *)
theory Flow_Runs
  imports Flow Backend_Props
begin

text \<open>
  The runs of a flow, by induction on the fuel: what every step keeps (as a locale of relations on
  run states), that the drivers do no more than was charged, that more fuel changes nothing and enough fuel always suffices, where a completion
  comes from, that a validated graph has no dangling node, and the lockstep of two runs whose
  drivers differ in their texts.
\<close>

section \<open>Runs as compositions\<close>

lemma run_then_simps [simp]:
  "run_then None k = None" "run_then (Some (s, Inl e)) k = Some (s, Inl e)" "run_then (Some (s, Inr a)) k = k s a"
  by (simp_all add: run_then_def)

lemma run_then_Some_iff:
  "run_then r k = Some (s', res) \<longleftrightarrow>
     (\<exists>e. r = Some (s', Inl e) \<and> res = Inl e) \<or> (\<exists>s a. r = Some (s, Inr a) \<and> k s a = Some (s', res))"
  by (auto simp: run_then_def split: option.splits sum.splits)

lemma run_then_None_iff:
  "run_then r k = None \<longleftrightarrow> r = None \<or> (\<exists>s a. r = Some (s, Inr a) \<and> k s a = None)"
  by (auto simp: run_then_def split: option.splits sum.splits)

lemma run_then_assoc: "run_then (run_then r f) k = run_then r (\<lambda>s a. run_then (f s a) k)"
  by (auto simp: run_then_def split: option.splits sum.splits)

lemma run_subgraph_Some_iff:
  "run_subgraph run c s = Some (s', res) \<longleftrightarrow>
     (\<exists>res'. run c s = Some (s', res') \<and>
        res = (case res' of Inl e \<Rightarrow> Inl e | Inr (FlowCompleted p) \<Rightarrow> Inr (Some (FlowCompleted p)) | Inr FlowFinished \<Rightarrow> Inr None))"
  by (auto simp: run_subgraph_def run_then_def split: option.splits sum.splits FlowOutcome.splits)

lemma subgraph_results:
  "run_subgraph run c s = Some (s', Inl e) \<longleftrightarrow> run c s = Some (s', Inl e)"
  "run_subgraph run c s = Some (s', Inr None) \<longleftrightarrow> run c s = Some (s', Inr FlowFinished)"
  "run_subgraph run c s = Some (s', Inr (Some f)) \<longleftrightarrow> (\<exists>p. f = FlowCompleted p \<and> run c s = Some (s', Inr (FlowCompleted p)))"
  by (auto simp: run_subgraph_def run_then_def split: option.splits sum.splits FlowOutcome.splits)

lemma concat_chunks: "0 < n \<Longrightarrow> concat (chunks n xs) = xs"
  by (induction n xs rule: chunks.induct) (subst chunks.simps, simp)

lemma run_waves_concat: "run_waves run waves s = run_wave run (concat waves) s"
proof (induction waves arbitrary: s)
  case (Cons wave waves)
  have "run_then (run_wave run wave s) (\<lambda>s _. run_wave run (concat waves) s) = run_wave run (wave @ concat waves) s" for s
    by (induction wave arbitrary: s)
      (simp_all add: run_then_assoc if_distrib [of "\<lambda>r. run_then r _"] cong: if_cong)
  then show ?case using Cons by simp
qed simp

text \<open>The waves change nothing: a parallel node runs its children in order.\<close>

lemma run_parallel_children:
  "run_parallel budget run children width s =
     (case charge_fanout (usage s) (if length children < 2 ^ 32 then of_nat (length children) else - 1) budget of
        Inl b \<Rightarrow> Some (s, Inl (BudgetExceeded (breach_axis b)))
      | Inr us \<Rightarrow> run_wave run children (s\<lparr>usage := us\<rparr>))"
  by (auto simp: run_parallel_def run_waves_concat concat_chunks Let_def split: sum.split)

section \<open>What every step of a run keeps\<close>

locale run_relation =
  fixes env :: "'w run_env"
    and R :: "'w run_state \<Rightarrow> 'w run_state \<Rightarrow> bool"
  assumes R_refl: "R s s"
    and R_trans: "R s t \<Longrightarrow> R t u \<Longrightarrow> R s u"
    and R_charge_step: "charge_step (usage s) (rn_budget env) = Inr us \<Longrightarrow> R s (s\<lparr>usage := us\<rparr>)"
    and R_charge_model: "charge_model (usage s) cost (rn_budget env) = Inr us \<Longrightarrow> R s (s\<lparr>usage := us\<rparr>)"
    and R_charge_fanout: "charge_fanout (usage s) n (rn_budget env) = Inr us \<Longrightarrow> R s (s\<lparr>usage := us\<rparr>)"
    and R_model: "run_model (rn_drivers env) (world s) prompt = (w, a) \<Longrightarrow> R s (s\<lparr>world := w\<rparr>)"
    and R_tool: "gate_tool (rn_engine env) i spec (state s) = Inr () \<Longrightarrow>
      run_tool (rn_drivers env) (world s) spec args = (w, a') \<Longrightarrow> R s (s\<lparr>world := w\<rparr>)"
    and R_verify: "verify (rn_drivers env) (world s) = (w, v) \<Longrightarrow> R s (s\<lparr>world := w\<rparr>)"
    and R_review: "review (rn_drivers env) (world s) = (w, a') \<Longrightarrow> R s (s\<lparr>world := w\<rparr>)"
    and R_output: "R s (record_output env k answer s)"
    and R_counter: "R s (s\<lparr>state := set_counter (state s) k' v'\<rparr>)"
begin

definition keeps :: "(NodeId \<Rightarrow> 'w run_state \<Rightarrow> ('w, FlowOutcome) run_result) \<Rightarrow> bool" where
  "keeps run = (\<forall>c s s' res. run c s = Some (s', res) \<longrightarrow> R s s')"

lemma keepsD: "keeps run \<Longrightarrow> run c s = Some (s', res) \<Longrightarrow> R s s'"
  by (auto simp: keeps_def)

lemma keeps_subgraph: "keeps run \<Longrightarrow> run_subgraph run c s = Some (s', res) \<Longrightarrow> R s s'"
  by (auto simp: run_subgraph_Some_iff keeps_def)

lemma keeps_wave: "keeps run \<Longrightarrow> run_wave run cs s = Some (s', res) \<Longrightarrow> R s s'"
proof (induction cs arbitrary: s)
  case (Cons c cs)
  show ?case
    using Cons.prems(2) keeps_subgraph [OF Cons.prems(1)] Cons.IH [OF Cons.prems(1)]
    by (auto simp: run_then_Some_iff split: if_splits) (metis R_trans)+
qed (simp add: R_refl)

lemma keeps_loop: "keeps run \<Longrightarrow> loop_until run body until n i s = Some (s', res) \<Longrightarrow> R s s'"
proof (induction n arbitrary: i s)
  case (Suc n)
  show ?case
    using Suc.prems(2) keeps_subgraph [OF Suc.prems(1)] Suc.IH [OF Suc.prems(1)]
    by (auto simp: run_then_Some_iff R_refl split: if_splits) (metis R_trans)+
qed (simp add: R_refl)

lemma keeps_node: "keeps run \<Longrightarrow> run_node env run c node s = Some (s', res) \<Longrightarrow> R s s'"
proof (cases node)
  case (Model prompt k nxt)
  assume a: "keeps run" "run_node env run c node s = Some (s', res)"
  obtain w r where m: "run_model (rn_drivers env) (world s) prompt = (w, r)" by fastforce
  have u: "R s (s\<lparr>world := w, usage := us\<rparr>)" if "charge_model (usage s) cost (rn_budget env) = Inr us" for cost us
    using R_trans [OF R_model [OF m] R_charge_model [of "s\<lparr>world := w\<rparr>"]] that by simp
  show ?thesis
    using a(2) m R_model [OF m]
    by (auto simp: Model split: sum.splits dest!: keepsD [OF a(1)] intro: R_trans [OF R_trans [OF u R_output]])
next
  case (Tool spec args k nxt)
  assume a: "keeps run" "run_node env run c node s = Some (s', res)"
  obtain w r where t: "run_tool (rn_drivers env) (world s) spec args = (w, r)" by fastforce
  show ?thesis
    using a(2) t R_tool [OF _ t]
    by (auto simp: Tool R_refl split: sum.splits dest!: keepsD [OF a(1)] intro: R_trans [OF R_trans [OF _ R_output]])
next
  case (Verify on_fail)
  assume a: "keeps run" "run_node env run c node s = Some (s', res)"
  obtain w r where v: "verify (rn_drivers env) (world s) = (w, r)" by fastforce
  show ?thesis
    using a(2) v R_verify [OF v] by (auto simp: Verify split: VerifyOutcome.splits dest!: keepsD [OF a(1)] intro: R_trans)
next
  case (Review k nxt)
  assume a: "keeps run" "run_node env run c node s = Some (s', res)"
  obtain w r where v: "review (rn_drivers env) (world s) = (w, r)" by fastforce
  show ?thesis
    using a(2) v R_review [OF v]
    by (auto simp: Review split: sum.splits dest!: keepsD [OF a(1)] intro: R_trans [OF R_trans [OF _ R_output]])
next
  case (Parallel cs width nxt)
  assume a: "keeps run" "run_node env run c node s = Some (s', res)"
  show ?thesis
    using a(2) by (auto simp: Parallel run_then_Some_iff run_parallel_children R_refl split: sum.splits
        dest!: keepsD [OF a(1)] keeps_wave [OF a(1)] R_charge_fanout intro: R_trans)
next
  case (LoopUntil body until n nxt)
  assume a: "keeps run" "run_node env run c node s = Some (s', res)"
  show ?thesis
    using a(2) by (auto simp: LoopUntil run_then_Some_iff split: option.splits
        dest!: keepsD [OF a(1)] keeps_loop [OF a(1)] intro: R_trans [OF R_trans [OF _ R_counter]])
qed (auto simp: keeps_def R_refl)

lemma keeps_run_from: "keeps (run_from fuel env)"
proof (induction fuel)
  case (Suc fuel)
  have "R s s'" if "run_step env (run_from fuel env) c s = Some (s', res)" for c s s' res
    using that
    by (auto simp: run_step_def R_refl split: sum.splits option.splits
        dest!: keeps_node [OF Suc] R_charge_step intro: R_trans)
  then show ?case by (simp add: keeps_def)
qed (simp add: keeps_def)

lemma run_from_R: "run_from fuel env c s = Some (s', res) \<Longrightarrow> R s s'"
  using keeps_run_from by (rule keepsD)

end

section \<open>The budget\<close>

definition within :: "FlowBudget \<Rightarrow> FlowUsage \<Rightarrow> bool" where
  "within b us = (fu_steps us \<le> max_steps b \<and> fu_model_cost us \<le> max_model_cost b \<and> fu_fanout us \<le> max_total_fanout b)"

lemma charge_step_Inr:
  "charge_step us b = Inr us' \<longleftrightarrow>
     saturating_add (fu_steps us) 1 \<le> max_steps b \<and> us' = us\<lparr>fu_steps := saturating_add (fu_steps us) 1\<rparr>"
  by (auto simp: charge_step_def Let_def not_less split: if_splits)

lemma charge_model_Inr:
  "charge_model us c b = Inr us' \<longleftrightarrow>
     saturating_add (fu_model_cost us) c \<le> max_model_cost b \<and> us' = us\<lparr>fu_model_cost := saturating_add (fu_model_cost us) c\<rparr>"
  by (auto simp: charge_model_def Let_def not_less split: if_splits)

lemma charge_fanout_Inr:
  "charge_fanout us n b = Inr us' \<longleftrightarrow>
     saturating_add (fu_fanout us) n \<le> max_total_fanout b \<and> us' = us\<lparr>fu_fanout := saturating_add (fu_fanout us) n\<rparr>"
  by (auto simp: charge_fanout_def Let_def not_less split: if_splits)

lemmas charge_Inr = charge_step_Inr charge_model_Inr charge_fanout_Inr

lemma record_output_simps [simp]:
  "world (record_output env k a s) = world s" "usage (record_output env k a s) = usage s"
  "state (record_output env k a s) = set_output (state s) k (declassify_output a (en_redactor (rn_engine env)))"
  by (simp_all add: record_output_def)

interpretation budget: run_relation env "\<lambda>s s'. within (rn_budget env) (usage s) \<longrightarrow> within (rn_budget env) (usage s')"
  for env
  by unfold_locales (auto simp: charge_Inr within_def)

interpretation clock: run_relation env "\<lambda>s s'. fu_steps (usage s) \<le> fu_steps (usage s')" for env
  by unfold_locales (auto simp: charge_Inr intro: order_trans)

interpretation authority: run_relation env "\<lambda>s s'. fs_approvals (state s') = fs_approvals (state s) \<and> fs_flags (state s') = fs_flags (state s)"
  for env
  by unfold_locales (auto simp: set_output_def set_counter_def)

lemma declassify_output_shape:
  "length (declassify_output a r) \<le> MAX_OUTPUT_BYTES \<and> prefix (declassify_output a r) (redact r a)"
  using back_to_boundary_le [of "redact r a" MAX_OUTPUT_BYTES]
  by (auto simp: declassify_output_def declassify_def to_model_visible_def Let_def take_is_prefix min_le_iff_disj)

definition shown :: "Redactor \<Rightarrow> string \<Rightarrow> bool" where
  "shown r v = (length v \<le> MAX_OUTPUT_BYTES \<and> (\<exists>answer. prefix v (redact r answer)))"

interpretation redacted: run_relation env
  "\<lambda>s s'. \<forall>k v. state_output (state s') k = Some v \<longrightarrow> state_output (state s) k = Some v \<or> shown (en_redactor (rn_engine env)) v"
  for env
proof unfold_locales
  fix s :: "'a run_state" and k answer
  have "shown r (declassify_output answer r)" for r
    using declassify_output_shape by (auto simp: shown_def)
  then show "\<forall>j v. state_output (state (record_output env k answer s)) j = Some v \<longrightarrow>
      state_output (state s) j = Some v \<or> shown (en_redactor (rn_engine env)) v"
    by (auto simp: state_output_def set_output_def split: if_splits)
qed (auto simp: state_output_def set_counter_def)

section \<open>What the caps bound\<close>

text \<open>
  Meters on the world: one that a driver call raises by at most one, and one that only a model call
  raises, by at most the cost it reports.
\<close>

definition metered :: "'w FlowDrivers \<Rightarrow> ('w \<Rightarrow> nat) \<Rightarrow> ('w \<Rightarrow> nat) \<Rightarrow> bool" where
  "metered d calls spent =
     ((\<forall>w p. calls (fst (run_model d w p)) \<le> calls w + 1
        \<and> spent (fst (run_model d w p)) \<le> spent w + (case snd (run_model d w p) of Inl _ \<Rightarrow> 0 | Inr (_, cost) \<Rightarrow> unat cost))
      \<and> (\<forall>w spec args. calls (fst (run_tool d w spec args)) \<le> calls w + 1 \<and> spent (fst (run_tool d w spec args)) \<le> spent w)
      \<and> (\<forall>w. calls (fst (verify d w)) \<le> calls w + 1 \<and> spent (fst (verify d w)) \<le> spent w)
      \<and> (\<forall>w. calls (fst (review d w)) \<le> calls w + 1 \<and> spent (fst (review d w)) \<le> spent w))"

definition over_cost :: "FlowError + 'a \<Rightarrow> bool" where
  "over_cost res = (res = Inl (BudgetExceeded ''model cost''))"

text \<open>From \<open>s\<close> to \<open>t\<close> the meters rose by no more than was charged, up to \<open>n\<close> calls charged before.\<close>

definition paid :: "('w \<Rightarrow> nat) \<Rightarrow> ('w \<Rightarrow> nat) \<Rightarrow> nat \<Rightarrow> bool \<Rightarrow> 'w run_state \<Rightarrow> 'w run_state \<Rightarrow> bool" where
  "paid calls spent n over s t =
     (calls (world t) + unat (fu_steps (usage s)) \<le> calls (world s) + unat (fu_steps (usage t)) + n
      \<and> (over \<or> spent (world t) + unat (fu_model_cost (usage s)) \<le> spent (world s) + unat (fu_model_cost (usage t))))"

definition pays :: "('w \<Rightarrow> nat) \<Rightarrow> ('w \<Rightarrow> nat) \<Rightarrow> (NodeId \<Rightarrow> 'w run_state \<Rightarrow> ('w, FlowOutcome) run_result) \<Rightarrow> bool" where
  "pays calls spent run = (\<forall>c s s' res. run c s = Some (s', res) \<longrightarrow> paid calls spent 0 (over_cost res) s s')"

lemma paysD: "pays calls spent run \<Longrightarrow> run c s = Some (s', res) \<Longrightarrow> paid calls spent 0 (over_cost res) s s'"
  unfolding pays_def by blast

lemma paid_refl [simp]: "paid calls spent n over s s"
  by (simp add: paid_def)

lemma paid_trans: "paid calls spent n False s t \<Longrightarrow> paid calls spent 0 over t u \<Longrightarrow> paid calls spent n over s u"
  by (auto simp: paid_def)

lemma over_cost_simps [simp]: "over_cost (Inr a) = False" "over_cost (Inl e) = (e = BudgetExceeded ''model cost'')"
  by (simp_all add: over_cost_def)

lemma pays_subgraph:
  assumes "pays calls spent run" "run_subgraph run c s = Some (s', res)"
  shows "paid calls spent 0 (over_cost res) s s'"
proof -
  consider e where "res = Inl e" | "res = Inr None" | f where "res = Inr (Some f)" by (metis not_None_eq sum.exhaust)
  then show ?thesis using assms by cases (auto simp: subgraph_results dest: paysD)
qed

lemma pays_wave: "pays calls spent run \<Longrightarrow> run_wave run cs s = Some (s', res) \<Longrightarrow> paid calls spent 0 (over_cost res) s s'"
proof (induction cs arbitrary: s)
  case (Cons c cs)
  from Cons.prems(2) show ?case
    using Cons.IH [OF Cons.prems(1)]
    by (auto simp: run_then_Some_iff verify_in_parallel_def split: if_splits
        dest!: pays_subgraph [OF Cons.prems(1)] intro: paid_trans)
qed simp

lemma pays_loop:
  "pays calls spent run \<Longrightarrow> loop_until run body until n i s = Some (s', res) \<Longrightarrow> paid calls spent 0 (over_cost res) s s'"
proof (induction n arbitrary: i s)
  case (Suc n)
  from Suc.prems(2) show ?case
    using Suc.IH [OF Suc.prems(1)]
    by (auto simp: run_then_Some_iff split: if_splits dest!: pays_subgraph [OF Suc.prems(1)] intro: paid_trans)
qed simp

lemma saturating_add_exact:
  fixes a b :: "'a::len word"
  assumes "saturating_add a b \<le> m" "m \<noteq> - 1"
  shows "unat (saturating_add a b) = unat a + unat b"
proof -
  have "saturating_add a b \<noteq> - 1" using assms by (metis max_word_max order_antisym_conv)
  then show ?thesis by (auto simp: saturating_add_def unat_word_ariths split: if_splits)
qed

lemma paid_charge_step:
  "max_steps b \<noteq> - 1 \<Longrightarrow> charge_step (usage s) b = Inr us \<Longrightarrow> paid calls spent 1 over (s\<lparr>usage := us\<rparr>) t
     \<Longrightarrow> paid calls spent 0 over s t"
  by (auto simp: paid_def charge_Inr saturating_add_exact)

lemma paid_calls:
  assumes "metered d calls spent"
  shows "run_tool d (world s) spec args = (w, r) \<Longrightarrow> paid calls spent 1 False s (s\<lparr>world := w\<rparr>)"
    "verify d (world s) = (w, v) \<Longrightarrow> paid calls spent 1 False s (s\<lparr>world := w\<rparr>)"
    "review d (world s) = (w, r) \<Longrightarrow> paid calls spent 1 False s (s\<lparr>world := w\<rparr>)"
    "run_model d (world s) p = (w, Inl e) \<Longrightarrow> paid calls spent 1 False s (s\<lparr>world := w\<rparr>)"
    "run_model d (world s) p = (w, Inr a) \<Longrightarrow> paid calls spent 1 True s (s\<lparr>world := w\<rparr>)"
    "run_model d (world s) p = (w, Inr (answer, cost)) \<Longrightarrow> max_model_cost b \<noteq> - 1 \<Longrightarrow> charge_model (usage s) cost b = Inr us
      \<Longrightarrow> paid calls spent 1 False s (s\<lparr>world := w, usage := us\<rparr>)"
proof -
  have m: "calls (fst (run_model d w p)) \<le> calls w + 1"
    "spent (fst (run_model d w p)) \<le> spent w + (case snd (run_model d w p) of Inl _ \<Rightarrow> 0 | Inr (_, cost) \<Rightarrow> unat cost)" for w p
    using assms unfolding metered_def by blast+
  show "run_model d (world s) p = (w, Inl e) \<Longrightarrow> paid calls spent 1 False s (s\<lparr>world := w\<rparr>)"
    "run_model d (world s) p = (w, Inr a) \<Longrightarrow> paid calls spent 1 True s (s\<lparr>world := w\<rparr>)"
    "run_model d (world s) p = (w, Inr (answer, cost)) \<Longrightarrow> max_model_cost b \<noteq> - 1 \<Longrightarrow> charge_model (usage s) cost b = Inr us
      \<Longrightarrow> paid calls spent 1 False s (s\<lparr>world := w, usage := us\<rparr>)"
    using m [of "world s" p] by (auto simp: paid_def charge_Inr saturating_add_exact)
qed (use assms in \<open>auto simp: paid_def metered_def dest: spec [of _ "world s"]; metis fst_conv\<close>)+

lemma pays_node:
  assumes d: "metered (rn_drivers env) calls spent" and c: "max_model_cost (rn_budget env) \<noteq> - 1"
    and p: "pays calls spent run" and r: "run_node env run i node s = Some (s', res)"
  shows "paid calls spent 1 (over_cost res) s s'"
proof (cases node)
  case (Model prompt k nxt)
  obtain w a where m: "run_model (rn_drivers env) (world s) prompt = (w, a)" by fastforce
  show ?thesis
  proof (cases a)
    case (Inl e)
    with r m show ?thesis using paid_calls(4) [OF d, of s prompt w e] by (auto simp: Model paid_def)
  next
    case (Inr b)
    then obtain answer cost where b: "a = Inr (answer, cost)" by (cases b) auto
    show ?thesis
    proof (cases "charge_model (usage s) cost (rn_budget env)")
      case (Inl br)
      then have "br = ModelCost" by (auto simp: charge_model_def Let_def split: if_splits)
      with r m b Inl show ?thesis using paid_calls(5) [OF d, of s prompt w "(answer, cost)"] by (auto simp: Model paid_def)
    next
      case (Inr us)
      with r m b have "paid calls spent 0 (over_cost res) (s\<lparr>world := w, usage := us\<rparr>) s'"
        by (auto simp: Model paid_def dest: paysD [OF p])
      with paid_calls(6) [OF d m [unfolded b] c Inr] show ?thesis by (rule paid_trans)
    qed
  qed
next
  case (Tool spec args k nxt)
  obtain w a where t: "run_tool (rn_drivers env) (world s) spec args = (w, a)" by fastforce
  show ?thesis
    using r t paid_calls(1) [OF d t]
    by (auto simp: Tool paid_def split: sum.splits dest!: paysD [OF p])
next
  case (Verify on_fail)
  obtain w v where v: "verify (rn_drivers env) (world s) = (w, v)" by fastforce
  show ?thesis
    using r v paid_calls(2) [OF d v]
    by (auto simp: Verify paid_def split: VerifyOutcome.splits dest!: paysD [OF p])
next
  case (Review k nxt)
  obtain w a where v: "review (rn_drivers env) (world s) = (w, a)" by fastforce
  show ?thesis
    using r v paid_calls(3) [OF d v]
    by (auto simp: Review paid_def split: sum.splits dest!: paysD [OF p])
next
  case (Parallel cs width nxt)
  show ?thesis
    using r by (auto simp: Parallel run_then_Some_iff run_parallel_children paid_def charge_Inr split: sum.splits
        dest!: paysD [OF p] pays_wave [OF p])
next
  case (LoopUntil body until n nxt)
  show ?thesis
    using r by (auto simp: LoopUntil run_then_Some_iff paid_def split: option.splits
        dest!: paysD [OF p] pays_loop [OF p])
qed (use r in \<open>auto simp: paid_def dest!: paysD [OF p]\<close>)

lemma pays_run_from:
  assumes "metered (rn_drivers env) calls spent" "max_steps (rn_budget env) \<noteq> - 1" "max_model_cost (rn_budget env) \<noteq> - 1"
  shows "pays calls spent (run_from fuel env)"
proof (induction fuel)
  case (Suc fuel)
  have "paid calls spent 0 (over_cost res) s s'" if "run_step env (run_from fuel env) c s = Some (s', res)" for c s s' res
    using that by (auto simp: run_step_def split: sum.splits option.splits
        intro: paid_charge_step [OF assms(2)] dest!: pays_node [OF assms(1,3) Suc])
  then show ?case by (simp add: pays_def)
qed (simp add: pays_def)

section \<open>Runs end\<close>

text \<open>More fuel gives the same run.\<close>

definition extends :: "(NodeId \<Rightarrow> 'w run_state \<Rightarrow> ('w, FlowOutcome) run_result)
    \<Rightarrow> (NodeId \<Rightarrow> 'w run_state \<Rightarrow> ('w, FlowOutcome) run_result) \<Rightarrow> bool" where
  "extends f g = (\<forall>c s x. f c s = Some x \<longrightarrow> g c s = Some x)"

lemma extendsD: "extends f g \<Longrightarrow> f c s = Some x \<Longrightarrow> g c s = Some x"
  unfolding extends_def by blast

lemma run_then_mono:
  "run_then r k = Some x \<Longrightarrow> (\<And>y. r = Some y \<Longrightarrow> r' = Some y) \<Longrightarrow> (\<And>s a. k s a = Some x \<Longrightarrow> k' s a = Some x)
     \<Longrightarrow> run_then r' k' = Some x"
  by (cases r) (auto simp: run_then_def split: sum.splits)

lemma extends_subgraph: "extends f g \<Longrightarrow> run_subgraph f c s = Some x \<Longrightarrow> run_subgraph g c s = Some x"
  unfolding run_subgraph_def by (erule run_then_mono) (auto simp: extends_def)

lemma extends_wave: "extends f g \<Longrightarrow> run_wave f cs s = Some x \<Longrightarrow> run_wave g cs s = Some x"
proof (induction cs arbitrary: s)
  case (Cons c cs)
  from Cons.prems(2) show ?case
    unfolding run_wave.simps
    by (rule run_then_mono) (use extends_subgraph Cons in \<open>auto split: if_splits\<close>)
qed simp

lemma extends_loop: "extends f g \<Longrightarrow> loop_until f body until n i s = Some x \<Longrightarrow> loop_until g body until n i s = Some x"
proof (induction n arbitrary: i s)
  case (Suc n)
  show ?case
  proof (cases "eval until (state s)")
    case False
    then have r: "run_then (run_subgraph f body s) (\<lambda>s ended. if ended \<noteq> None then Some (s, Inr (ended, i))
        else loop_until f body until n (Suc i) s) = Some x" using Suc.prems(2) by simp
    have "run_then (run_subgraph g body s) (\<lambda>s ended. if ended \<noteq> None then Some (s, Inr (ended, i))
        else loop_until g body until n (Suc i) s) = Some x"
      using r by (rule run_then_mono) (use extends_subgraph Suc in \<open>auto split: if_splits\<close>)
    with False show ?thesis by simp
  qed (use Suc.prems in simp)
qed simp

lemma extends_node: "extends f g \<Longrightarrow> run_node env f c node s = Some x \<Longrightarrow> run_node env g c node s = Some x"
proof (cases node)
  case (Parallel cs width nxt)
  assume a: "extends f g" "run_node env f c node s = Some x"
  note e = extendsD [OF a(1)]
  show ?thesis
    using a(2) unfolding Parallel run_node.simps run_parallel_children
    by (rule run_then_mono) (auto intro: e extends_wave [OF a(1)] split: sum.splits)
next
  case (LoopUntil body until n nxt)
  assume a: "extends f g" "run_node env f c node s = Some x"
  note e = extendsD [OF a(1)]
  show ?thesis
    using a(2) unfolding LoopUntil run_node.simps
    by (rule run_then_mono) (auto intro: e extends_loop [OF a(1)] split: option.splits)
qed (auto split: sum.splits prod.splits VerifyOutcome.splits if_splits intro: extendsD)

lemma extends_step: "extends f g \<Longrightarrow> run_step env f c s = Some x \<Longrightarrow> run_step env g c s = Some x"
  by (auto simp: run_step_def split: sum.splits option.splits intro: extends_node)

lemma extends_run_from: "extends (run_from fuel env) (run_from (Suc fuel) env)"
proof (induction fuel)
  case (Suc fuel)
  from extends_step [OF this] show ?case by (simp add: extends_def del: run_from.simps(2)) (simp add: extends_def)
qed (simp add: extends_def)

lemma run_from_more_fuel: "run_from fuel env c s = Some x \<Longrightarrow> fuel \<le> fuel' \<Longrightarrow> run_from fuel' env c s = Some x"
proof (induction fuel')
  case (Suc n)
  then show ?case using extends_run_from [of n env] unfolding extends_def le_Suc_eq by blast
qed simp

text \<open>Below the largest cap every node costs a step that is never given back, so a run ends.\<close>

definition stuck_after :: "(NodeId \<Rightarrow> 'w run_state \<Rightarrow> ('w, FlowOutcome) run_result) \<Rightarrow> 'w run_state \<Rightarrow> bool" where
  "stuck_after run s = (\<exists>c s'. run c s' = None \<and> fu_steps (usage s) \<le> fu_steps (usage s'))"

lemma stuck_here: "run c s = None \<Longrightarrow> stuck_after run s"
  by (auto simp: stuck_after_def)

lemma stuck_later: "stuck_after run s' \<Longrightarrow> fu_steps (usage s) \<le> fu_steps (usage s') \<Longrightarrow> stuck_after run s"
  by (auto simp: stuck_after_def intro: order_trans)

lemma run_then_NoneE:
  assumes "run_then r k = None"
  obtains "r = None" | s a where "r = Some (s, Inr a)" "k s a = None"
  using assms by (auto simp: run_then_None_iff)

lemma subgraph_None: "run_subgraph run c s = None \<Longrightarrow> run c s = None"
  unfolding run_subgraph_def by (erule run_then_NoneE) (auto split: FlowOutcome.splits)

lemma stuck_subgraph:
  assumes "clock.keeps run" "run_then (run_subgraph run c s) k = None"
    and "\<And>s' a. k s' a = None \<Longrightarrow> stuck_after run s'"
  shows "stuck_after run s"
  using assms(2)
proof (rule run_then_NoneE)
  fix s' a assume "run_subgraph run c s = Some (s', Inr a)" "k s' a = None"
  then show ?thesis using assms(3) clock.keeps_subgraph [OF assms(1)] stuck_later by blast
qed (rule stuck_here [OF subgraph_None])

lemma stuck_wave: "clock.keeps run \<Longrightarrow> run_wave run cs s = None \<Longrightarrow> stuck_after run s"
proof (induction cs arbitrary: s)
  case (Cons c cs)
  from Cons.prems(2) show ?case
    unfolding run_wave.simps
    by (rule stuck_subgraph [OF Cons.prems(1)]) (use Cons.IH [OF Cons.prems(1)] in \<open>simp split: if_splits\<close>)
qed simp

lemma stuck_loop: "clock.keeps run \<Longrightarrow> loop_until run body until n i s = None \<Longrightarrow> stuck_after run s"
proof (induction n arbitrary: i s)
  case (Suc n)
  have "run_then (run_subgraph run body s) (\<lambda>s ended. if ended \<noteq> None then Some (s, Inr (ended, i))
      else loop_until run body until n (Suc i) s) = None" using Suc.prems(2) by (simp split: if_splits)
  then show ?case
    by (rule stuck_subgraph [OF Suc.prems(1)]) (use Suc.IH [OF Suc.prems(1)] in \<open>simp split: if_splits\<close>)
qed simp

lemma stuck_node: "clock.keeps run \<Longrightarrow> run_node env run c node s = None \<Longrightarrow> stuck_after run s"
proof (cases node)
  case (Parallel cs width nxt)
  assume a: "clock.keeps run" "run_node env run c node s = None"
  let ?n = "if length cs < 2 ^ 32 then of_nat (length cs) else - 1 :: u32"
  obtain us where us: "charge_fanout (usage s) ?n (rn_budget env) = Inr us"
      "run_then (run_wave run cs (s\<lparr>usage := us\<rparr>)) (\<lambda>s _. run nxt s) = None"
    using a(2) by (cases "charge_fanout (usage s) ?n (rn_budget env)") (simp_all add: Parallel run_parallel_children)
  have "stuck_after run (s\<lparr>usage := us\<rparr>)"
    using us(2) stuck_wave [OF a(1)] clock.keeps_wave [OF a(1)]
    by (elim run_then_NoneE) (blast intro: stuck_later [OF stuck_here])+
  then show ?thesis using us(1) by (auto simp: charge_Inr intro: stuck_later)
next
  case (LoopUntil body until n nxt)
  assume a: "clock.keeps run" "run_node env run c node s = None"
  from a(2) show ?thesis
    unfolding LoopUntil run_node.simps
  proof (rule run_then_NoneE)
    fix s' r assume l: "loop_until run body until (unat n) 0 s = Some (s', Inr r)"
      and "(case r of (ended, iter) \<Rightarrow> case ended of Some outcome \<Rightarrow> Some (s', Inr outcome)
          | None \<Rightarrow> run nxt (s'\<lparr>state := set_counter (state s') ''__loop_iterations'' (int iter)\<rparr>)) = None"
    then have "run nxt (s'\<lparr>state := set_counter (state s') ''__loop_iterations'' (int (snd r))\<rparr>) = None"
      by (auto split: prod.splits option.splits)
    from stuck_here [of run, OF this] show ?thesis using clock.keeps_loop [OF a(1) l] by (auto intro: stuck_later)
  qed (rule stuck_loop [OF a(1)])
qed (auto simp: charge_Inr split: sum.splits prod.splits VerifyOutcome.splits
    intro: stuck_here stuck_later [OF stuck_here])

lemma stuck_step:
  assumes "max_steps (rn_budget env) \<noteq> - 1" "clock.keeps run" "run_step env run c s = None"
  shows "unat (fu_steps (usage s)) < unat (max_steps (rn_budget env))
    \<and> (\<exists>c' s'. run c' s' = None \<and> unat (fu_steps (usage s)) < unat (fu_steps (usage s')))"
proof -
  obtain us where us: "charge_step (usage s) (rn_budget env) = Inr us" "stuck_after run (s\<lparr>usage := us\<rparr>)"
    using assms(3) stuck_node [OF assms(2)] by (auto simp: run_step_def split: sum.splits option.splits)
  have c: "saturating_add (fu_steps (usage s)) 1 \<le> max_steps (rn_budget env)"
    "fu_steps us = saturating_add (fu_steps (usage s)) 1" using us(1) by (auto simp: charge_Inr)
  have "fu_steps (usage s) \<noteq> - 1"
  proof
    assume "fu_steps (usage s) = - 1"
    with c(1) assms(1) show False by (simp add: word_le_nat_alt word_unat_eq_iff) (metis assms(1) max_word_max order_antisym_conv word_le_nat_alt)
  qed
  then have "fu_steps (usage s) < fu_steps us" unfolding c(2) by (rule saturating_add_1_less)
  with us(2) c show ?thesis
    by (auto simp: stuck_after_def word_less_nat_alt word_le_nat_alt intro: less_le_trans)
qed

lemma run_from_stuck:
  assumes "max_steps (rn_budget env) \<noteq> - 1"
  shows "run_from fuel env c s = None \<Longrightarrow> fuel = 0 \<or> fuel + unat (fu_steps (usage s)) \<le> unat (max_steps (rn_budget env))"
proof (induction fuel arbitrary: c s)
  case (Suc fuel)
  then obtain c' s' where r: "run_from fuel env c' s' = None" "unat (fu_steps (usage s)) < unat (fu_steps (usage s'))"
      "unat (fu_steps (usage s)) < unat (max_steps (rn_budget env))"
    using stuck_step [OF assms clock.keeps_run_from, of fuel env c s] by auto
  show ?case using Suc.IH [OF r(1)] r(2,3) by auto
qed simp

section \<open>Completion\<close>

text \<open>A run that completes did so at a verify node, whose driver just answered with the patch.\<close>

definition honest :: "'w run_env \<Rightarrow> (NodeId \<Rightarrow> 'w run_state \<Rightarrow> ('w, FlowOutcome) run_result) \<Rightarrow> bool" where
  "honest env run = (\<forall>c s s' p. run c s = Some (s', Inr (FlowCompleted p)) \<longrightarrow>
     (\<exists>w. verify (rn_drivers env) w = (world s', Verified p)))"

lemma honestD:
  "honest env run \<Longrightarrow> run c s = Some (s', Inr (FlowCompleted p)) \<Longrightarrow> \<exists>w. verify (rn_drivers env) w = (world s', Verified p)"
  unfolding honest_def by blast

lemma honest_loop:
  "honest env run \<Longrightarrow> loop_until run body until n i s = Some (s', Inr (Some (FlowCompleted p), j)) \<Longrightarrow>
     \<exists>w. verify (rn_drivers env) w = (world s', Verified p)"
proof (induction n arbitrary: i s)
  case (Suc n)
  show ?case
    using Suc.prems(2) Suc.IH [OF Suc.prems(1)] honestD [OF Suc.prems(1)]
    by (auto simp: run_then_Some_iff subgraph_results split: if_splits)
qed simp

lemma honest_node:
  "honest env run \<Longrightarrow> run_node env run c node s = Some (s', Inr (FlowCompleted p)) \<Longrightarrow>
     \<exists>w. verify (rn_drivers env) w = (world s', Verified p)"
proof (cases node)
  case (LoopUntil body until n nxt)
  assume a: "honest env run" "run_node env run c node s = Some (s', Inr (FlowCompleted p))"
  show ?thesis
    using a(2) honestD [OF a(1)] honest_loop [OF a(1)]
    by (auto simp: LoopUntil run_then_Some_iff split: option.splits)
next
  case (Parallel cs width nxt)
  assume a: "honest env run" "run_node env run c node s = Some (s', Inr (FlowCompleted p))"
  show ?thesis using a(2) honestD [OF a(1)] by (auto simp: Parallel run_then_Some_iff)
qed (auto split: sum.splits prod.splits VerifyOutcome.splits dest: honestD)

lemma honest_run_from: "honest env (run_from fuel env)"
proof (induction fuel)
  case (Suc fuel)
  have "\<exists>w. verify (rn_drivers env) w = (world s', Verified p)"
    if "run_step env (run_from fuel env) c s = Some (s', Inr (FlowCompleted p))" for c s s' p
    using that honest_node [OF Suc] by (auto simp: run_step_def split: sum.splits option.splits)
  then show ?case by (simp add: honest_def)
qed (simp add: honest_def)

section \<open>Structure\<close>

definition defined :: "Flow \<Rightarrow> NodeId \<Rightarrow> bool" where
  "defined fl i = (flow_node fl i \<noteq> None)"

lemma validate_Inr_iff:
  "validate fl = Inr () \<longleftrightarrow> defined fl (fl_entry fl)
     \<and> (\<forall>(i, node)\<in>set (fl_nodes fl). \<forall>j\<in>set (node_targets node). defined fl j)"
proof -
  have "validate fl = Inr () \<longleftrightarrow> defined fl (fl_entry fl)
      \<and> find (\<lambda>i. \<not> defined fl i) (concat (map (\<lambda>(_, node). node_targets node) (fl_nodes fl))) = None"
    by (auto simp: validate_def defined_def flow_node_def split: option.splits)
  also have "\<dots> \<longleftrightarrow> defined fl (fl_entry fl)
      \<and> (\<forall>(i, node)\<in>set (fl_nodes fl). \<forall>j\<in>set (node_targets node). defined fl j)"
    unfolding find_None_iff by auto
  finally show ?thesis .
qed

lemma validated_targets:
  "validate fl = Inr () \<Longrightarrow> flow_node fl i = Some node \<Longrightarrow> j \<in> set (node_targets node) \<Longrightarrow> defined fl j"
  unfolding validate_Inr_iff using map_of_SomeD [of "fl_nodes fl" i node]
  by (auto simp: flow_node_def bt_get_def)

fun lost :: "FlowError \<Rightarrow> bool" where
  "lost NoEntry = True"
| "lost (UnknownNode _) = True"
| "lost _ = False"

definition never_lost :: "'w run_env \<Rightarrow> (NodeId \<Rightarrow> 'w run_state \<Rightarrow> ('w, FlowOutcome) run_result) \<Rightarrow> bool" where
  "never_lost env run = (\<forall>c s s' e. defined (rn_flow env) c \<longrightarrow> run c s = Some (s', Inl e) \<longrightarrow> \<not> lost e)"

lemma never_lostD:
  "never_lost env run \<Longrightarrow> run c s = Some (s', Inl e) \<Longrightarrow> lost e \<Longrightarrow> defined (rn_flow env) c \<Longrightarrow> False"
  unfolding never_lost_def by blast

lemma never_lost_wave:
  "never_lost env run \<Longrightarrow> run_wave run cs s = Some (s', Inl e) \<Longrightarrow> lost e \<Longrightarrow>
     \<forall>c\<in>set cs. defined (rn_flow env) c \<Longrightarrow> False"
proof (induction cs arbitrary: s)
  case (Cons c cs)
  show ?case
    using Cons.prems(2-) Cons.IH [OF Cons.prems(1)] never_lostD [OF Cons.prems(1)]
    by (auto simp: run_then_Some_iff subgraph_results verify_in_parallel_def split: if_splits)
qed simp

lemma never_lost_loop:
  "never_lost env run \<Longrightarrow> loop_until run body until n j s = Some (s', Inl e) \<Longrightarrow> lost e \<Longrightarrow>
     defined (rn_flow env) body \<Longrightarrow> False"
proof (induction n arbitrary: j s)
  case (Suc n)
  show ?case
    using Suc.prems(2-) Suc.IH [OF Suc.prems(1)] never_lostD [OF Suc.prems(1)]
    by (auto simp: run_then_Some_iff subgraph_results split: if_splits)
qed simp

lemma gate_never_lost: "gate_tool en c spec st = Inl e \<Longrightarrow> \<not> lost e"
  by (auto simp: gate_tool_def split: PolicyDecision.splits if_splits)

lemma never_lost_node:
  assumes "never_lost env run" "run_node env run c node s = Some (s', Inl e)" "lost e"
    and t: "\<forall>j\<in>set (node_targets node). defined (rn_flow env) j"
  shows False
proof (cases node)
  case (Parallel cs width nxt)
  show ?thesis
    using assms(2,3) t never_lostD [OF assms(1)] never_lost_wave [OF assms(1)]
    by (auto simp: Parallel run_parallel_children run_then_Some_iff split: sum.splits)
next
  case (LoopUntil body until n nxt)
  show ?thesis
    using assms(2,3) t never_lostD [OF assms(1)] never_lost_loop [OF assms(1)]
    by (auto simp: LoopUntil run_then_Some_iff split: option.splits)
qed (use assms never_lostD [OF assms(1)] gate_never_lost in
    \<open>auto split: sum.splits prod.splits VerifyOutcome.splits if_splits\<close>)

lemma never_lost_run_from: "validate (rn_flow env) = Inr () \<Longrightarrow> never_lost env (run_from fuel env)"
proof (induction fuel)
  case (Suc fuel)
  have False if r: "run_step env (run_from fuel env) c s = Some (s', Inl e)" "lost e" "defined (rn_flow env) c" for c s s' e
  proof -
    obtain node us where "flow_node (rn_flow env) c = Some node"
        "run_node env (run_from fuel env) c node (s\<lparr>usage := us\<rparr>) = Some (s', Inl e)"
      using r by (auto simp: run_step_def defined_def split: sum.splits option.splits)
    then show False using never_lost_node [OF Suc.IH [OF Suc.prems]] validated_targets [OF Suc.prems] r(2) by blast
  qed
  then show ?case by (auto simp: never_lost_def)
qed (simp add: never_lost_def)

section \<open>Untrusted text\<close>

text \<open>Two states that a predicate cannot tell apart, and two driver bundles that differ in their texts only.\<close>

definition alike :: "FlowState \<Rightarrow> FlowState \<Rightarrow> bool" where
  "alike st st' = (fs_flags st = fs_flags st' \<and> fs_counters st = fs_counters st' \<and> fs_approvals st = fs_approvals st'
     \<and> dom (bt_get (fs_outputs st)) = dom (bt_get (fs_outputs st')))"

definition same_but_text :: "'w FlowDrivers \<Rightarrow> 'w FlowDrivers \<Rightarrow> bool" where
  "same_but_text d d' =
     ((\<forall>w p. rel_prod (=) (rel_sum (=) (rel_prod (\<lambda>_ _. True) (=))) (run_model d w p) (run_model d' w p))
      \<and> (\<forall>w spec args. rel_prod (=) (rel_sum (=) (\<lambda>_ _. True)) (run_tool d w spec args) (run_tool d' w spec args))
      \<and> (\<forall>w. verify d w = verify d' w)
      \<and> (\<forall>w. rel_prod (=) (rel_sum (=) (\<lambda>_ _. True)) (review d w) (review d' w)))"

lemma eval_alike: "alike st st' \<Longrightarrow> eval p st = eval p st'"
  by (induction p) (auto simp: alike_def flag_def counter_def state_output_def dom_def)

lemma gate_alike: "alike st st' \<Longrightarrow> gate_tool en i spec st = gate_tool en i spec st'"
  by (simp add: gate_tool_def has_valid_approval_def alike_def)

definition lockstep :: "'w run_state \<Rightarrow> 'w run_state \<Rightarrow> bool" where
  "lockstep s t = (world s = world t \<and> usage s = usage t \<and> alike (state s) (state t))"

abbreviation agree :: "('w, 'a) run_result \<Rightarrow> ('w, 'a) run_result \<Rightarrow> bool" where
  "agree \<equiv> rel_option (rel_prod lockstep (=))"

lemma agree_then:
  "agree r r' \<Longrightarrow> (\<And>s t a. lockstep s t \<Longrightarrow> agree (k s a) (k' t a)) \<Longrightarrow> agree (run_then r k) (run_then r' k')"
  by (cases r; cases r') (auto simp: run_then_def split: sum.splits)

definition in_step :: "(NodeId \<Rightarrow> 'w run_state \<Rightarrow> ('w, FlowOutcome) run_result)
    \<Rightarrow> (NodeId \<Rightarrow> 'w run_state \<Rightarrow> ('w, FlowOutcome) run_result) \<Rightarrow> bool" where
  "in_step f g = (\<forall>c s t. lockstep s t \<longrightarrow> agree (f c s) (g c t))"

lemma in_stepD: "in_step f g \<Longrightarrow> lockstep s t \<Longrightarrow> agree (f c s) (g c t)"
  by (simp add: in_step_def)

lemma agree_subgraph: "in_step f g \<Longrightarrow> lockstep s t \<Longrightarrow> agree (run_subgraph f c s) (run_subgraph g c t)"
  unfolding run_subgraph_def by (rule agree_then [OF in_stepD]) (auto split: FlowOutcome.splits)

lemma agree_wave: "in_step f g \<Longrightarrow> lockstep s t \<Longrightarrow> agree (run_wave f cs s) (run_wave g cs t)"
proof (induction cs arbitrary: s t)
  case (Cons c cs)
  then show ?case unfolding run_wave.simps by (intro agree_then [OF agree_subgraph]) auto
qed simp

lemma agree_loop: "in_step f g \<Longrightarrow> lockstep s t \<Longrightarrow> agree (loop_until f body until n i s) (loop_until g body until n i t)"
proof (induction n arbitrary: i s t)
  case (Suc n)
  have "eval until (state s) = eval until (state t)" using Suc.prems(2) by (simp add: lockstep_def eval_alike)
  then show ?case
    using Suc unfolding loop_until.simps by (auto intro!: agree_then [OF agree_subgraph])
qed simp

lemma alike_output: "alike st st' \<Longrightarrow> alike (set_output st k a) (set_output st' k b)"
  by (auto simp: alike_def set_output_def)

lemma lockstep_output:
  "lockstep s t \<Longrightarrow> lockstep (record_output env k a (s\<lparr>world := w, usage := us\<rparr>)) (record_output env' k b (t\<lparr>world := w, usage := us\<rparr>))"
  "lockstep s t \<Longrightarrow> lockstep (record_output env k a (s\<lparr>world := w\<rparr>)) (record_output env' k b (t\<lparr>world := w\<rparr>))"
  by (simp_all add: lockstep_def alike_output)

lemma lockstep_updates:
  "lockstep s t \<Longrightarrow> lockstep (s\<lparr>world := w\<rparr>) (t\<lparr>world := w\<rparr>)"
  "lockstep s t \<Longrightarrow> lockstep (s\<lparr>usage := us\<rparr>) (t\<lparr>usage := us\<rparr>)"
  "lockstep s t \<Longrightarrow> lockstep (s\<lparr>state := set_counter (state s) k v\<rparr>) (t\<lparr>state := set_counter (state t) k v\<rparr>)"
  by (simp_all add: lockstep_def alike_def set_counter_def)

lemma agree_node:
  assumes d: "same_but_text (rn_drivers env) d'" and f: "in_step f g" and l: "lockstep s t"
  shows "agree (run_node env f c node s) (run_node (env\<lparr>rn_drivers := d'\<rparr>) g c node t)"
proof (cases node)
  case (Model prompt k nxt)
  have "rel_prod (=) (rel_sum (=) (rel_prod (\<lambda>_ _. True) (=)))
      (run_model (rn_drivers env) (world s) prompt) (run_model d' (world t) prompt)"
    using d l by (simp add: same_but_text_def lockstep_def)
  moreover have "usage s = usage t" using l by (simp add: lockstep_def)
  ultimately show ?thesis
    using l by (auto simp: Model rel_prod_sel split: prod.splits sum.splits
        intro!: in_stepD [OF f] lockstep_output lockstep_updates elim!: rel_sum.cases)
next
  case (Tool spec args k nxt)
  have "rel_prod (=) (rel_sum (=) (\<lambda>_ _. True)) (run_tool (rn_drivers env) (world s) spec args) (run_tool d' (world t) spec args)"
    using d l by (simp add: same_but_text_def lockstep_def)
  moreover have "gate_tool (rn_engine env) c spec (state s) = gate_tool (rn_engine env) c spec (state t)"
    using l by (simp add: lockstep_def gate_alike)
  ultimately show ?thesis
    using l by (auto simp: Tool rel_prod_sel split: prod.splits sum.splits
        intro!: in_stepD [OF f] lockstep_output lockstep_updates elim!: rel_sum.cases)
next
  case (Verify on_fail)
  have "verify (rn_drivers env) (world s) = verify d' (world t)"
    using d l by (simp add: same_but_text_def lockstep_def)
  then show ?thesis
    using l by (auto simp: Verify split: prod.splits VerifyOutcome.splits intro!: in_stepD [OF f] lockstep_updates)
next
  case (Review k nxt)
  have "rel_prod (=) (rel_sum (=) (\<lambda>_ _. True)) (review (rn_drivers env) (world s)) (review d' (world t))"
    using d l by (simp add: same_but_text_def lockstep_def)
  then show ?thesis
    using l by (auto simp: Review rel_prod_sel split: prod.splits sum.splits
        intro!: in_stepD [OF f] lockstep_output lockstep_updates elim!: rel_sum.cases)
next
  case (Parallel cs width nxt)
  have "usage s = usage t" using l by (simp add: lockstep_def)
  then have "agree (run_parallel (rn_budget env) f cs width s) (run_parallel (rn_budget env) g cs width t)"
    using l by (auto simp: run_parallel_children split: sum.splits intro!: agree_wave [OF f] lockstep_updates)
  then show ?thesis by (auto simp: Parallel intro!: agree_then in_stepD [OF f])
next
  case (LoopUntil body until n nxt)
  then show ?thesis
    using l by (auto simp: LoopUntil split: option.splits intro!: agree_then agree_loop [OF f] in_stepD [OF f] lockstep_updates)
next
  case (Route p i j)
  have "eval p (state s) = eval p (state t)" using l by (simp add: lockstep_def eval_alike)
  then show ?thesis using l by (simp add: Route in_stepD [OF f])
qed (use l in_stepD [OF f] in simp_all)

lemma in_step_run_from:
  assumes "same_but_text (rn_drivers env) d'"
  shows "in_step (run_from fuel env) (run_from fuel (env\<lparr>rn_drivers := d'\<rparr>))"
proof (induction fuel)
  case (Suc fuel)
  have "agree (run_step env (run_from fuel env) c s) (run_step (env\<lparr>rn_drivers := d'\<rparr>) (run_from fuel (env\<lparr>rn_drivers := d'\<rparr>)) c t)"
    if "lockstep s t" for c s t
  proof -
    have "usage s = usage t" using that by (simp add: lockstep_def)
    then show ?thesis
      using that unfolding run_step_def
      by (auto split: sum.splits option.splits intro!: agree_node [OF assms Suc] lockstep_updates)
  qed
  then show ?case by (simp add: in_step_def)
qed (simp add: in_step_def)

section \<open>Imported gates\<close>

lemma bset_step: "set (map fst (bt_insert x () (map (\<lambda>y. (y, ())) s))) = insert x (set s)"
  by (simp add: bt_insert_keys [unfolded set_map] image_image)

lemma set_bset_extend: "set (bset_extend xs ys) = set xs \<union> set ys"
  unfolding bset_extend_def by (induction ys arbitrary: xs) (simp_all add: bset_step del: set_map)

lemma by_gate_snoc:
  "by_gate (evidence @ [item]) =
     bt_insert (ge_gate_id item)
       (bset_extend (case bt_get (by_gate evidence) (ge_gate_id item) of Some refs \<Rightarrow> refs | None \<Rightarrow> []) (ge_evidence_refs item))
       (by_gate evidence)"
  by (simp add: by_gate_def Let_def)

lemma by_gate_refs:
  "map_option set (bt_get (by_gate evidence) g) =
     (if \<exists>e\<in>set evidence. ge_gate_id e = g
      then Some (\<Union>e\<in>{e \<in> set evidence. ge_gate_id e = g}. set (ge_evidence_refs e)) else None)"
proof (induction evidence rule: rev_induct)
  case Nil
  then show ?case by (simp add: by_gate_def bt_get_def)
next
  case (snoc item evidence)
  show ?case
  proof (cases "ge_gate_id item = g")
    case True
    then show ?thesis
      using snoc by (cases "bt_get (by_gate evidence) g") (auto simp: by_gate_snoc set_bset_extend split: if_splits)
  next
    case False
    then show ?thesis using snoc by (auto simp: by_gate_snoc split: if_splits)
  qed
qed

end
