(* ===== verification/Spec2Isabelle.thy ===== *)
theory Spec2Isabelle
  imports Kernel_Props EventLog_Props Receipts_Props Confine_Props Token_Stream Worker_Props Netproto_Props Router_Props Session_Props Telemetry_Props Mcp_Props Registry_Props Telegram_Props Github_Props Inbound_Props Flow_Props
begin

text \<open>
  \<^bold>\<open>A verification library of CrustCore.\<close>

  CrustCore runs coding agents under a small trusted core. The kernel (\<^verbatim>\<open>crates/crustcore-kernel\<close>) is a
  pure reducer: it takes events, classifies every requested tool run against the policy
  (\<^verbatim>\<open>crates/crustcore-policy\<close>), waits for the user where an approval is needed, accounts budgets
  (\<^verbatim>\<open>crates/crustcore-types\<close>) and emits actions. What it did is kept in a hash-chained event log
  (\<^verbatim>\<open>crates/crustcore-eventlog\<close>) and in authenticated receipts (\<^verbatim>\<open>crates/crustcore-receipts\<close>). Its effects
  go through path confinement (\<^verbatim>\<open>crates/crustcore-path\<close>), the sandbox (\<^verbatim>\<open>crates/crustcore-sandbox\<close>), the
  secret broker (\<^verbatim>\<open>crates/crustcore-secrets\<close>) and the verify loop and integration gate
  (\<^verbatim>\<open>crates/crustcore-backend\<close>), which also supervises external workers. Models are reached through a
  helper process that speaks one JSON object per line (\<^verbatim>\<open>crates/crustcore-netproto\<close>) and routes
  requests to providers (\<^verbatim>\<open>crates/crustcore-net\<close>). Workflows compose these steps
  (\<^verbatim>\<open>crates/crustcore-flow\<close>), sessions resume from the log (\<^verbatim>\<open>crates/crustcore-session\<close>), telemetry is projected
  from it (\<^verbatim>\<open>crates/crustcore-telemetry\<close>), foreign tools are reached through a gateway (\<^verbatim>\<open>crates/crustcore-mcp\<close>),
  and the daemon (\<^verbatim>\<open>crates/crustcore-daemon\<close>) supervises tasks and faces the operator and GitHub.

  \<^bold>\<open>Which theory models what.\<close>

  \<^item> \<^verbatim>\<open>Prelude\<close>: the result type of fallible functions, saturating arithmetic, the library operations on
    vectors, and the collections of simplification rules. \<^verbatim>\<open>Bytes\<close>, \<^verbatim>\<open>Utf8\<close>, \<^verbatim>\<open>Format\<close>, \<^verbatim>\<open>Ordered_Map\<close> and
    \<^verbatim>\<open>Text_Split\<close>: byte order, the conversions between text and bytes, decimal and hexadecimal
    rendering, \<^verbatim>\<open>BTreeMap\<close>, and splitting text.
  \<^item> \<^verbatim>\<open>Types\<close>, \<^verbatim>\<open>Budgets\<close>, \<^verbatim>\<open>Hash\<close>: identifiers, statuses, bounded text, budgets, SHA-256 and HMAC, from
    \<^verbatim>\<open>crustcore-types\<close>. Machine integers are words; the saturating ones are written out.
  \<^item> \<^verbatim>\<open>Policy\<close>: \<^verbatim>\<open>decision.rs\<close> and \<^verbatim>\<open>caps.rs\<close>: risk classification and capabilities.
  \<^item> \<^verbatim>\<open>Kernel_Events\<close>, \<^verbatim>\<open>Kernel_State\<close>, \<^verbatim>\<open>Kernel_Step\<close>: \<^verbatim>\<open>event.rs\<close>, \<^verbatim>\<open>action.rs\<close>, \<^verbatim>\<open>state.rs\<close> and
    \<^verbatim>\<open>kernel.rs\<close>, the whole of \<^verbatim>\<open>Kernel::step\<close>. \<^verbatim>\<open>Kernel_Cases\<close>, \<^verbatim>\<open>Kernel_Effects\<close>, \<^verbatim>\<open>Kernel_Inv\<close>,
    \<^verbatim>\<open>Kernel_Trace\<close> and \<^verbatim>\<open>Kernel_Props\<close> hold its case rules, what each event may emit, the invariant of the
    reachable kernels, histories of events, and the properties.
  \<^item> \<^verbatim>\<open>Frames\<close>, \<^verbatim>\<open>EventLog\<close>, \<^verbatim>\<open>EventLog_Export\<close>, \<^verbatim>\<open>EventLog_Props\<close>: frame codec, append, verification,
    inspection and export of the log.
  \<^item> \<^verbatim>\<open>Receipts\<close>, \<^verbatim>\<open>Receipts_Props\<close>: receipt codec, minting, chain verification, and the join with the log.
  \<^item> \<^verbatim>\<open>Confine\<close>, \<^verbatim>\<open>Confine_Props\<close>: lexical normalization and the confined read and write paths.
  \<^item> \<^verbatim>\<open>Redactor\<close>, \<^verbatim>\<open>Redactor_Props\<close>, \<^verbatim>\<open>Secrets\<close>, \<^verbatim>\<open>Token_Stream\<close>: the redactor, the broker with its one-shot
    views, and the streaming redactor.
  \<^item> \<^verbatim>\<open>Sandbox\<close>, \<^verbatim>\<open>Sandbox_Props\<close>: environment sanitation, the choice of the backend, the command line of
    \<^verbatim>\<open>bwrap\<close> and \<^verbatim>\<open>run_command\<close>.
  \<^item> \<^verbatim>\<open>Backend\<close>, \<^verbatim>\<open>Backend_Props\<close>, \<^verbatim>\<open>Worker\<close>, \<^verbatim>\<open>Worker_Props\<close>: the verify loop over sandbox and receipts, the
    pull-request gate, the guard manifest and the supervisor of external workers.
  \<^item> \<^verbatim>\<open>Json\<close>, \<^verbatim>\<open>Json_Props\<close>, \<^verbatim>\<open>Netproto\<close>, \<^verbatim>\<open>Netproto_Wire\<close>, \<^verbatim>\<open>Netproto_Props\<close>: the flat JSON codec, the messages
    of the helper protocol, its bounded line reader and its client.
  \<^item> \<^verbatim>\<open>Router\<close>, \<^verbatim>\<open>Router_Props\<close>: the registry of models, the choice of candidates, the budget filter, the
    fallback loop, the fusion panel, the embedding and rerank engines and the serving loop.
  \<^item> \<^verbatim>\<open>Flow\<close>, \<^verbatim>\<open>Flow_Runs\<close>, \<^verbatim>\<open>Flow_Props\<close>: the workflow graph, predicates, budgets, the builder, the scheduler and
    the live verify driver; what every step of a run keeps; the properties of runs.
  \<^item> \<^verbatim>\<open>Session\<close>, \<^verbatim>\<open>Session_Props\<close>: views over the log, the lease derived from it, snapshots, compaction,
    resumption and the facade.
  \<^item> \<^verbatim>\<open>Telemetry\<close>, \<^verbatim>\<open>Telemetry_Props\<close>: the projection of frames to spans, its redaction and bounds, sampling
    and the run over a log.
  \<^item> \<^verbatim>\<open>Mcp\<close>, \<^verbatim>\<open>Mcp_Props\<close>: the registry of tool servers, the gateway, the gated call with its receipt, the
    framing of messages, both transports and the server mode.
  \<^item> \<^verbatim>\<open>Supervisor\<close>, \<^verbatim>\<open>Registry\<close>, \<^verbatim>\<open>Registry_Props\<close>: \<^verbatim>\<open>supervisor.rs\<close> and \<^verbatim>\<open>registry.rs\<close> of the daemon: roles, budgets,
    the scheduler, leases, ticks, and the dump from which a restarted daemon recovers.
  \<^item> \<^verbatim>\<open>Telegram\<close>, \<^verbatim>\<open>Telegram_Props\<close>: \<^verbatim>\<open>telegram.rs\<close>: the allowlist, commands, normalization, deduplication, the
    approval engine, rendering and the polling loop.
  \<^item> \<^verbatim>\<open>Github\<close>, \<^verbatim>\<open>Github_Props\<close>: \<^verbatim>\<open>github.rs\<close>: the push checkpoint, the credential helper, the merge gate, the
    repair loop and the intake of comments.
  \<^item> \<^verbatim>\<open>Webhook\<close>, \<^verbatim>\<open>Admin\<close>, \<^verbatim>\<open>Inbound_Props\<close>: \<^verbatim>\<open>webhook.rs\<close> and \<^verbatim>\<open>admin.rs\<close>: signed webhooks with their replay guard, and
    the administration socket. \<^verbatim>\<open>Parse_Text\<close> reads numbers and words as the standard library does.

  \<^bold>\<open>How the model corresponds to the code.\<close> A struct is a record, an enum a datatype with the source's
  constructors, a function one definition under the source's name, a method that changes its
  receiver a function that returns the new value. A \<^verbatim>\<open>Result\<close> is a sum with the error on the left, so
  that every early return is a branch. A text is the list of its UTF-8 bytes. Loops are recursive
  functions with a termination proof: over the events, the frames still unread, the blocks a reader
  still holds, the characters of an input. The scheduler of a workflow is the exception: a graph may
  have cycles and only the step cap ends a run, so \<^verbatim>\<open>run_flow\<close> takes a fuel and returns no value when it
  runs out; any fuel above the step cap is enough for every run, and more changes nothing
  (\<^verbatim>\<open>flow_terminates\<close>). Where the source has a bound of its own (the depth of a walk, the ready
  queue, the caps of a stream) the model has the same one. An index that panics in the code is an
  option without a value.

  \<^bold>\<open>What the lemmas show.\<close> The kernel: every tool run goes back to a request that policy allowed or a
  user approved, once; an invariant of all reachable kernels; task and job life cycles; budgets,
  leases, approvals and replay. The log and the receipts: their codecs are exact, what is appended
  verifies, and what verifies up to a known head is the log that was written, unless two inputs of
  SHA-256 (or of HMAC) collide. Confinement: what is opened lies under the root. Secrets: a redacted
  text covers every occurrence of a secret that the scan starts from, and a stream splits no secret
  if none ends the way another begins. Sandbox and backend: a command runs confined or not at all,
  and a verified patch is backed by a receipt of a verify run. The protocol: messages cross the
  wire unchanged (but for a batch of one empty text) whatever blocks they arrive in, and the
  caps hold for every helper. Routing contacts only admissible models. Workflows: they end, call
  their drivers no more often and spend no more than their caps allow, and neither model text nor tool output can steer them or complete them without a verify
  receipt. Sessions resume only on a log that verifies; telemetry never reads a payload. Tool servers
  are reached only through the gateway. The daemon: its registry stays well formed, and a daemon that
  adopted no task counts its tasks, ends exactly those that are over and hands the others on to its
  successor; only allowlisted chats are heard, and an approval stands for one answer to one request; pushes, credentials, webhooks
  and administration commands pass their checks or have no effect.

  \<^bold>\<open>Interfaces.\<close> The contracts between components are locales, interpreted on the model's definitions:
  \<^verbatim>\<open>ordered_map\<close> (the maps of the code), \<^verbatim>\<open>arena\<close> (the fixed tables of the kernel), \<^verbatim>\<open>absorbing_machine\<close>
  (task and job life cycles), \<^verbatim>\<open>hash_chain\<close> (log and receipts), \<^verbatim>\<open>secret_store\<close> (what the broker needs of
  a store), \<^verbatim>\<open>executor\<close> (what the verify loop and the workers need of the sandbox), \<^verbatim>\<open>ordered_map_remove\<close> (which
  extends the maps by removal, for the task registry) and \<^verbatim>\<open>run_relation\<close> (what a workflow run keeps when
  each of its steps does).

  \<^bold>\<open>Parameters.\<close> Code outside the repository and the operating system are arguments: canonicalization
  and directory listings of the file system, the process runner, the two git commands of the worker
  supervisor, the decimal rendering of floating-point numbers, the providers of models, the drivers of a
  workflow, the artifact store of sessions, the exporter of telemetry, the text of JSON values, the
  transport to a tool server and the handlers of served tools, and the Bot API. The properties name
  what they rely on of them, and their witnesses give concrete instances.

  \<^bold>\<open>Not modelled.\<close> File and process I/O (the log's file store, the receipt key file, process spawning,
  the vault and keychain backends, the macOS Seatbelt backend, the spawned helper, listening sockets),
  memory wiping, the HTTP adapters and the OTLP transport, the runtime loops, task execution, product
  profiles, other chat channels and self-improvement of the daemon, the indexes, the chat front ends,
  and the command-line and developer binaries. Each is listed with the reason in the project's manifest.
\<close>

end
